(* ===== verification/Prelude.thy ===== *)
theory Prelude
  imports Main "HOL-Library.Word"
begin

text \<open>
  Prelude of the development: the machine integers and strings of Go, the outcome of a Go
  call (a value, a returned error, a panic, or no result within the fuel), straight-line Go
  code as a list of statements over an explicit state, counted \<open>for\<close> loops, and the
  generic lemmas the component theories share.  Nothing here is specific to Kafka.
\<close>

section \<open>Machine types of Go\<close>

text \<open>
  An integer of width \<open>w\<close> is a \<open>w word\<close> whatever its signedness; a signed comparison of
  the source is \<open>\<le>s\<close>, \<open><s\<close> or a comparison of \<open>sint\<close>.  Conversions such as
  \<open>int16(uint16(x))\<close> keep the bits, so they are the identity here.  A string of Go is an
  immutable sequence of bytes; \<open>[]byte\<close> has a \<open>nil\<close> value that the code tells apart from
  the empty slice, so it is an option.
\<close>

type_synonym byte = "8 word"
type_synonym int8 = "8 word"
type_synonym int16 = "16 word"
type_synonym int32 = "32 word"
type_synonym uint32 = "32 word"
type_synonym int64 = "64 word"
type_synonym gostring = "byte list"
type_synonym gobytes = "byte list option"

definition str :: "string \<Rightarrow> gostring" where
  "str s = map of_char s"

definition bytes_of :: "gobytes \<Rightarrow> byte list" where
  "bytes_of b = (case b of None \<Rightarrow> [] | Some xs \<Rightarrow> xs)"

lemma bytes_of_simps [simp]: "bytes_of None = []" "bytes_of (Some xs) = xs"
  by (simp_all add: bytes_of_def)

definition maxInt32 :: int where
  "maxInt32 = 2 ^ 31 - 1"

section \<open>Outcomes of calls\<close>

text \<open>
  \<open>Ok\<close>: the call returned normally; \<open>Err\<close>: it returned early with an error; \<open>Panic\<close>: the
  Go runtime panicked (index out of range, negative \<open>make\<close>, nil dereference); \<open>NoFuel\<close>: a
  recursion that need not end used up the fuel it was given.
\<close>

datatype ('e, 'a) outcome = Ok 'a | Err 'e | Panic | NoFuel

primrec obind :: "('e, 'a) outcome \<Rightarrow> ('a \<Rightarrow> ('e, 'b) outcome) \<Rightarrow> ('e, 'b) outcome" where
  "obind (Ok x) f = f x"
| "obind (Err e) f = Err e"
| "obind Panic f = Panic"
| "obind NoFuel f = NoFuel"

lemma obind_Ok_right [simp]: "obind m Ok = m"
  by (cases m) simp_all

lemma obind_assoc: "obind (obind m f) g = obind m (\<lambda>x. obind (f x) g)"
  by (cases m) simp_all

lemma obind_eq_Ok_conv: "obind m f = Ok y \<longleftrightarrow> (\<exists>x. m = Ok x \<and> f x = Ok y)"
  by (cases m) simp_all

lemma obind_eq_Panic_conv: "obind m f = Panic \<longleftrightarrow> m = Panic \<or> (\<exists>x. m = Ok x \<and> f x = Panic)"
  by (cases m) simp_all

lemma obind_eq_NoFuel_conv:
  "obind m f = NoFuel \<longleftrightarrow> m = NoFuel \<or> (\<exists>x. m = Ok x \<and> f x = NoFuel)"
  by (cases m) simp_all

lemma obind_cong [fundef_cong]:
  "m = m' \<Longrightarrow> (\<And>x. m' = Ok x \<Longrightarrow> f x = g x) \<Longrightarrow> obind m f = obind m' g"
  by (cases m') simp_all

section \<open>Statements\<close>

text \<open>
  A statement transforms the state of the function it stands in (for a reader: the decoder
  and the structure being filled; for a writer: the encoder).  \<open>block\<close> runs a list of them
  and stops at the first early return or panic, \<open>if_do\<close> and \<open>if_else\<close> are the conditionals;
  their condition reads the state.
\<close>

type_synonym ('e, 's) stmt = "'s \<Rightarrow> ('e, 's) outcome"

primrec block :: "('e, 's) stmt list \<Rightarrow> ('e, 's) stmt" where
  "block [] s = Ok s"
| "block (c # cs) s = obind (c s) (block cs)"

definition if_do :: "('s \<Rightarrow> bool) \<Rightarrow> ('e, 's) stmt list \<Rightarrow> ('e, 's) stmt" where
  "if_do b cs s = (if b s then block cs s else Ok s)"

definition if_else ::
  "('s \<Rightarrow> bool) \<Rightarrow> ('e, 's) stmt list \<Rightarrow> ('e, 's) stmt list \<Rightarrow> ('e, 's) stmt"
where
  "if_else b cs ds s = (if b s then block cs s else block ds s)"

lemma block_Nil: "block [] = Ok"
  by (rule ext) simp

lemma block_single [simp]: "block [c] = c"
  by (rule ext) (simp add: block_Nil)

lemma block_append [simp]: "block (xs @ ys) s = obind (block xs s) (block ys)"
proof (induction xs arbitrary: s)
  case (Cons c xs)
  then have "block (xs @ ys) = (\<lambda>x. obind (block xs x) (block ys))" by blast
  then show ?case by (simp add: obind_assoc)
qed simp

lemma if_do_simps [simp]:
  "b s \<Longrightarrow> if_do b cs s = block cs s"
  "\<not> b s \<Longrightarrow> if_do b cs s = Ok s"
  by (simp_all add: if_do_def)

text \<open>
  \<open>for i := range make([]T, n)\<close>: the body fills one element and threads the state on.
\<close>

primrec for_range :: "nat \<Rightarrow> ('s \<Rightarrow> ('e, 's \<times> 'a) outcome) \<Rightarrow> 's \<Rightarrow> ('e, 's \<times> 'a list) outcome"
where
  "for_range 0 f s = Ok (s, [])"
| "for_range (Suc n) f s =
     obind (f s) (\<lambda>(s', x). obind (for_range n f s') (\<lambda>(s'', xs). Ok (s'', x # xs)))"

lemma for_range_length: "for_range n f s = Ok (s', xs) \<Longrightarrow> length xs = n"
  by (induction n arbitrary: s xs) (auto simp: obind_eq_Ok_conv)

lemma for_range_no_panic:
  assumes "\<And>s. f s \<noteq> Panic"
  shows "for_range n f s \<noteq> Panic"
  by (induction n arbitrary: s) (auto simp: obind_eq_Panic_conv assms)

section \<open>Lists\<close>

lemma take_append_exact: "length xs = n \<Longrightarrow> take n (xs @ ys) = xs"
  by simp

lemma drop_append_exact: "length xs = n \<Longrightarrow> drop n (xs @ ys) = ys"
  by simp

text \<open>A proper prefix of a concatenation ends in the first part or inside the second.\<close>

definition proper_prefix :: "'a list \<Rightarrow> 'a list \<Rightarrow> bool" where
  "proper_prefix p xs \<longleftrightarrow> (\<exists>n < length xs. p = take n xs)"

lemma proper_prefix_Nil [simp]: "\<not> proper_prefix p []"
  by (simp add: proper_prefix_def)

lemma proper_prefix_appendE:
  assumes "proper_prefix p (xs @ ys)"
  obtains (outer) "proper_prefix p xs"
  | (inner) q where "p = xs @ q" "proper_prefix q ys"
proof -
  from assms obtain n where n: "n < length xs + length ys" "p = take n (xs @ ys)"
    by (auto simp: proper_prefix_def)
  show thesis
  proof (cases "n < length xs")
    case True
    with n have "p = take n xs" by simp
    with True show thesis by (intro outer) (auto simp: proper_prefix_def)
  next
    case False
    with n have "p = xs @ take (n - length xs) ys" "n - length xs < length ys" by auto
    then show thesis by (intro inner) (auto simp: proper_prefix_def)
  qed
qed

lemma proper_prefix_length: "proper_prefix p xs \<Longrightarrow> length p < length xs"
  by (auto simp: proper_prefix_def)

section \<open>Words\<close>

lemma sint_of_nat_small:
  assumes "n < 2 ^ (LENGTH('a::len) - 1)"
  shows "sint (of_nat n :: 'a word) = int n"
proof -
  have "int n < 2 ^ (LENGTH('a) - 1)"
    using assms by (metis of_nat_less_iff of_nat_numeral of_nat_power)
  then have "signed_take_bit (LENGTH('a) - 1) (int n) = int n"
    by (intro signed_take_bit_int_eq_self) (auto intro: order_trans[of _ 0])
  then show ?thesis
    by (simp add: signed_of_nat)
qed

lemma sint_of_nat_16: "n < 32768 \<Longrightarrow> sint (of_nat n :: int16) = int n"
  using sint_of_nat_small[where 'a = 16, of n] by simp

lemma sint_of_nat_32: "n < 2147483648 \<Longrightarrow> sint (of_nat n :: int32) = int n"
  using sint_of_nat_small[where 'a = 32, of n] by simp

lemma sint32_le_max: "sint (w :: int32) \<le> 2147483647"
  using sint_lt[of w] by simp

section \<open>Collections of facts\<close>

text \<open>
  \<open>codec_intros\<close>: the rules that pair an encoder statement with the decoder statement that
  reads it back; \<open>wire_simps\<close>: the equations that finish such a proof.
\<close>

named_theorems codec_intros
named_theorems wire_simps

end
