(* ===== verification/Steps.thy ===== *)
theory Steps
  imports Prelude
begin

text \<open>
  Concurrent components as transition systems: the goroutines of a component interleave at
  the points where they touch a channel or a mutex, and every such point is one step.
\<close>

inductive reachable :: "('s \<Rightarrow> bool) \<Rightarrow> ('s \<Rightarrow> 's \<Rightarrow> bool) \<Rightarrow> 's \<Rightarrow> bool" for init step where
  start: "init s \<Longrightarrow> reachable init step s"
| advance: "reachable init step s \<Longrightarrow> step s s' \<Longrightarrow> reachable init step s'"

text \<open>An invariant holds initially and is kept by every step, so it holds wherever a run leads.\<close>

locale invariant =
  fixes init :: "'s \<Rightarrow> bool" and step :: "'s \<Rightarrow> 's \<Rightarrow> bool" and inv :: "'s \<Rightarrow> bool"
  assumes init_inv: "init s \<Longrightarrow> inv s"
    and step_inv: "inv s \<Longrightarrow> step s s' \<Longrightarrow> inv s'"
begin

lemma reachable_inv: "reachable init step s \<Longrightarrow> inv s"
  by (induction rule: reachable.induct) (auto intro: init_inv step_inv)

end

text \<open>A property that only ever switches on.\<close>

lemma rtranclp_stable:
  assumes "\<And>s s'. P s \<Longrightarrow> step s s' \<Longrightarrow> P s'" "step\<^sup>*\<^sup>* s s'" "P s"
  shows "P s'"
  using assms(2,3) by (induction rule: rtranclp_induct) (auto intro: assms(1))

end
