(* ===== verification/Errors.thy ===== *)
theory Errors
  imports Prelude
begin

text \<open>
  The errors of the program.  \<open>KafkaError\<close>, its 72 package variables, \<open>errnoToErr\<close> and
  \<open>errFromNo\<close> model \<open>v2/proto/errors.go\<close>; the datatype \<open>error\<close> lists every other error
  value the modelled code returns, with the errors of code outside the repository (the
  network, the compression libraries) as one opaque constructor each.
\<close>

section \<open>Kafka errors\<close>

record KafkaError =
  errno :: int16
  message :: string

definition ErrUnknown :: KafkaError where
  "ErrUnknown = KafkaError.make (-1)
     ''unknown error''"

definition ErrOffsetOutOfRange :: KafkaError where
  "ErrOffsetOutOfRange = KafkaError.make (1)
     ''offset out of range''"

definition ErrInvalidMessage :: KafkaError where
  "ErrInvalidMessage = KafkaError.make (2)
     ''invalid message''"

definition ErrUnknownTopicOrPartition :: KafkaError where
  "ErrUnknownTopicOrPartition = KafkaError.make (3)
     ''unknown topic or partition''"

definition ErrInvalidMessageSize :: KafkaError where
  "ErrInvalidMessageSize = KafkaError.make (4)
     ''invalid message size''"

definition ErrLeaderNotAvailable :: KafkaError where
  "ErrLeaderNotAvailable = KafkaError.make (5)
     ''leader not available''"

definition ErrNotLeaderForPartition :: KafkaError where
  "ErrNotLeaderForPartition = KafkaError.make (6)
     ''not leader for partition''"

definition ErrRequestTimeout :: KafkaError where
  "ErrRequestTimeout = KafkaError.make (7)
     ''request timeed out''"

definition ErrBrokerNotAvailable :: KafkaError where
  "ErrBrokerNotAvailable = KafkaError.make (8)
     ''broker not available''"

definition ErrReplicaNotAvailable :: KafkaError where
  "ErrReplicaNotAvailable = KafkaError.make (9)
     ''replica not available''"

definition ErrMessageSizeTooLarge :: KafkaError where
  "ErrMessageSizeTooLarge = KafkaError.make (10)
     ''message size too large''"

definition ErrScaleControllerEpoch :: KafkaError where
  "ErrScaleControllerEpoch = KafkaError.make (11)
     ''scale controller epoch''"

definition ErrOffsetMetadataTooLarge :: KafkaError where
  "ErrOffsetMetadataTooLarge = KafkaError.make (12)
     ''offset metadata too large''"

definition ErrNetwork :: KafkaError where
  "ErrNetwork = KafkaError.make (13)
     ''server disconnected before response was received''"

definition ErrOffsetLoadInProgress :: KafkaError where
  "ErrOffsetLoadInProgress = KafkaError.make (14)
     ''offsets load in progress''"

definition ErrNoCoordinator :: KafkaError where
  "ErrNoCoordinator = KafkaError.make (15)
     ''consumer coordinator not available''"

definition ErrNotCoordinator :: KafkaError where
  "ErrNotCoordinator = KafkaError.make (16)
     ''not coordinator for consumer''"

definition ErrInvalidTopic :: KafkaError where
  "ErrInvalidTopic = KafkaError.make (17)
     ''operation on an invalid topic''"

definition ErrRecordListTooLarge :: KafkaError where
  "ErrRecordListTooLarge = KafkaError.make (18)
     ''message batch larger than the configured segment size''"

definition ErrNotEnoughReplicas :: KafkaError where
  "ErrNotEnoughReplicas = KafkaError.make (19)
     ''not enough in-sync replicas''"

definition ErrNotEnoughReplicasAfterAppend :: KafkaError where
  "ErrNotEnoughReplicasAfterAppend = KafkaError.make (20)
     ''messages are written to the log, but to fewer in-sync replicas than required''"

definition ErrInvalidRequiredAcks :: KafkaError where
  "ErrInvalidRequiredAcks = KafkaError.make (21)
     ''invalid value for required acks''"

definition ErrIllegalGeneration :: KafkaError where
  "ErrIllegalGeneration = KafkaError.make (22)
     ''consumer generation id is not valid''"

definition ErrInconsistentPartitionAssignmentStrategy :: KafkaError where
  "ErrInconsistentPartitionAssignmentStrategy = KafkaError.make (23)
     ''partition assignment strategy does not match that of the group''"

definition ErrUnknownParititonAssignmentStrategy :: KafkaError where
  "ErrUnknownParititonAssignmentStrategy = KafkaError.make (24)
     ''partition assignment strategy is unknown to the broker''"

definition ErrUnknownConsumerID :: KafkaError where
  "ErrUnknownConsumerID = KafkaError.make (25)
     ''coordinator is not aware of this consumer''"

definition ErrInvalidSessionTimeout :: KafkaError where
  "ErrInvalidSessionTimeout = KafkaError.make (26)
     ''invalid session timeout''"

definition ErrRebalanceInProgress :: KafkaError where
  "ErrRebalanceInProgress = KafkaError.make (27)
     ''group is rebalancing, so a rejoin is needed''"

definition ErrInvalidCommitOffsetSize :: KafkaError where
  "ErrInvalidCommitOffsetSize = KafkaError.make (28)
     ''offset data size is not valid''"

definition ErrTopicAuthorizationFailed :: KafkaError where
  "ErrTopicAuthorizationFailed = KafkaError.make (29)
     ''topic authorization failed''"

definition ErrGroupAuthorizationFailed :: KafkaError where
  "ErrGroupAuthorizationFailed = KafkaError.make (30)
     ''group authorization failed''"

definition ErrClusterAuthorizationFailed :: KafkaError where
  "ErrClusterAuthorizationFailed = KafkaError.make (31)
     ''cluster authorization failed''"

definition ErrInvalidTimeStamp :: KafkaError where
  "ErrInvalidTimeStamp = KafkaError.make (32)
     ''timestamp of the message is out of acceptable range''"

definition ErrUnsupportedSaslMechanism :: KafkaError where
  "ErrUnsupportedSaslMechanism = KafkaError.make (33)
     ''The broker does not support the requested SASL mechanism.''"

definition ErrIllegalSaslState :: KafkaError where
  "ErrIllegalSaslState = KafkaError.make (34)
     ''Request is not valid given the current SASL state.''"

definition ErrUnsupportedVersion :: KafkaError where
  "ErrUnsupportedVersion = KafkaError.make (35)
     ''The version of API is not supported.''"

definition ErrTopicAlreadyExists :: KafkaError where
  "ErrTopicAlreadyExists = KafkaError.make (36)
     ''Topic with this name already exists.''"

definition ErrInvalidPartitions :: KafkaError where
  "ErrInvalidPartitions = KafkaError.make (37)
     ''Number of partitions is invalid.''"

definition ErrInvalidReplicationFactor :: KafkaError where
  "ErrInvalidReplicationFactor = KafkaError.make (38)
     ''Replication-factor is invalid.''"

definition ErrInvalidReplicaAssignment :: KafkaError where
  "ErrInvalidReplicaAssignment = KafkaError.make (39)
     ''Replica assignment is invalid.''"

definition ErrInvalidConfig :: KafkaError where
  "ErrInvalidConfig = KafkaError.make (40)
     ''Configuration is invalid.''"

definition ErrNotController :: KafkaError where
  "ErrNotController = KafkaError.make (41)
     ''This is not the correct controller for this cluster.''"

definition ErrInvalidRequest :: KafkaError where
  "ErrInvalidRequest = KafkaError.make (42)
     ''This most likely occurs because of a request being malformed by the client library or the message was sent to an incompatible broker. See the broker logs for more details.''"

definition ErrUnsupportedForMessageFormat :: KafkaError where
  "ErrUnsupportedForMessageFormat = KafkaError.make (43)
     ''The message format version on the broker does not support the request.''"

definition ErrPolicyViolation :: KafkaError where
  "ErrPolicyViolation = KafkaError.make (44)
     ''Request parameters do not satisfy the configured policy.''"

definition ErrOutOfOrderSequenceNumber :: KafkaError where
  "ErrOutOfOrderSequenceNumber = KafkaError.make (45)
     ''The broker received an out of order sequence number''"

definition ErrDuplicateSequenceNumber :: KafkaError where
  "ErrDuplicateSequenceNumber = KafkaError.make (46)
     ''The broker received a duplicate sequence number''"

definition ErrInvalidProducerEpoch :: KafkaError where
  "ErrInvalidProducerEpoch = KafkaError.make (47)
     ''Producer attempted an operation with an old epoch. Either there is a newer producer with the same transactionalId, or the producer's transaction has been expired by the broker.''"

definition ErrInvalidTxnState :: KafkaError where
  "ErrInvalidTxnState = KafkaError.make (48)
     ''The producer attempted a transactional operation in an invalid state''"

definition ErrInvalidProducerIdMapping :: KafkaError where
  "ErrInvalidProducerIdMapping = KafkaError.make (49)
     ''The producer attempted to use a producer id which is not currently assigned to its transactional id''"

definition ErrInvalidTransactionTimeout :: KafkaError where
  "ErrInvalidTransactionTimeout = KafkaError.make (50)
     ''The transaction timeout is larger than the maximum value allowed by the broker (as configured by transaction.max.timeout.ms).''"

definition ErrConcurrentTransactions :: KafkaError where
  "ErrConcurrentTransactions = KafkaError.make (51)
     ''The producer attempted to update a transaction while another concurrent operation on the same transaction was ongoing''"

definition ErrTransactionCoordinatorFenced :: KafkaError where
  "ErrTransactionCoordinatorFenced = KafkaError.make (52)
     ''Indicates that the transaction coordinator sending a WriteTxnMarker is no longer the current coordinator for a given producer''"

definition ErrTransactionalIdAuthorizationFailed :: KafkaError where
  "ErrTransactionalIdAuthorizationFailed = KafkaError.make (53)
     ''Transactional Id authorization failed''"

definition ErrSecurityDisabled :: KafkaError where
  "ErrSecurityDisabled = KafkaError.make (54)
     ''Security features are disabled.''"

definition ErrOperationNotAttempted :: KafkaError where
  "ErrOperationNotAttempted = KafkaError.make (55)
     ''The broker did not attempt to execute this operation. This may happen for batched RPCs where some operations in the batch failed, causing the broker to respond without trying the rest.''"

definition ErrKafkaStorageError :: KafkaError where
  "ErrKafkaStorageError = KafkaError.make (56)
     ''Disk error when trying to access log file on the disk.''"

definition ErrLogDirNotFound :: KafkaError where
  "ErrLogDirNotFound = KafkaError.make (57)
     ''The user-specified log directory is not found in the broker config.''"

definition ErrSaslAuthenticationFailed :: KafkaError where
  "ErrSaslAuthenticationFailed = KafkaError.make (58)
     ''SASL Authentication failed.''"

definition ErrUnknownProducerId :: KafkaError where
  "ErrUnknownProducerId = KafkaError.make (59)
     ''This exception is raised by the broker if it could not locate the producer metadata associated with the producerId in question. This could happen if, for instance, the producer's records were deleted because their retention time had elapsed. Once the last records of the producerId are removed, the producer's metadata is removed from the broker, and future appends by the producer will return this exception.''"

definition ErrReassignmentInProgress :: KafkaError where
  "ErrReassignmentInProgress = KafkaError.make (60)
     ''A partition reassignment is in progress''"

definition ErrDelegationTokenAuthDisabled :: KafkaError where
  "ErrDelegationTokenAuthDisabled = KafkaError.make (61)
     ''Delegation Token feature is not enabled.''"

definition ErrDelegationTokenNotFound :: KafkaError where
  "ErrDelegationTokenNotFound = KafkaError.make (62)
     ''Delegation Token is not found on server.''"

definition ErrDelegationTokenOwnerMismatch :: KafkaError where
  "ErrDelegationTokenOwnerMismatch = KafkaError.make (63)
     ''Specified Principal is not valid Owner/Renewer.''"

definition ErrDelegationTokenRequestNotAllowed :: KafkaError where
  "ErrDelegationTokenRequestNotAllowed = KafkaError.make (64)
     ''Delegation Token requests are not allowed on PLAINTEXT/1-way SSL channels and on delegation token authenticated channels.''"

definition ErrDelegationTokenAuthorizationFailed :: KafkaError where
  "ErrDelegationTokenAuthorizationFailed = KafkaError.make (65)
     ''Delegation Token authorization failed.''"

definition ErrDelegationTokenExpired :: KafkaError where
  "ErrDelegationTokenExpired = KafkaError.make (66)
     ''Delegation Token is expired.''"

definition ErrInvalidPrincipalType :: KafkaError where
  "ErrInvalidPrincipalType = KafkaError.make (67)
     ''Supplied principalType is not supported''"

definition ErrNonEmptyGroup :: KafkaError where
  "ErrNonEmptyGroup = KafkaError.make (68)
     ''The group The group is not empty is not empty''"

definition ErrGroupIdNotFound :: KafkaError where
  "ErrGroupIdNotFound = KafkaError.make (69)
     ''The group id The group id does not exist was not found''"

definition ErrFetchSessionIdNotFound :: KafkaError where
  "ErrFetchSessionIdNotFound = KafkaError.make (70)
     ''The fetch session ID was not found''"

definition ErrInvalidFetchSessionEpoch :: KafkaError where
  "ErrInvalidFetchSessionEpoch = KafkaError.make (71)
     ''The fetch session epoch is invalid''"

definition kafkaErrors :: "KafkaError list" where
  "kafkaErrors =
     [ErrUnknown, ErrOffsetOutOfRange, ErrInvalidMessage, ErrUnknownTopicOrPartition,
      ErrInvalidMessageSize, ErrLeaderNotAvailable, ErrNotLeaderForPartition, ErrRequestTimeout,
      ErrBrokerNotAvailable, ErrReplicaNotAvailable, ErrMessageSizeTooLarge,
      ErrScaleControllerEpoch, ErrOffsetMetadataTooLarge, ErrNetwork, ErrOffsetLoadInProgress,
      ErrNoCoordinator, ErrNotCoordinator, ErrInvalidTopic, ErrRecordListTooLarge,
      ErrNotEnoughReplicas, ErrNotEnoughReplicasAfterAppend, ErrInvalidRequiredAcks,
      ErrIllegalGeneration, ErrInconsistentPartitionAssignmentStrategy,
      ErrUnknownParititonAssignmentStrategy, ErrUnknownConsumerID, ErrInvalidSessionTimeout,
      ErrRebalanceInProgress, ErrInvalidCommitOffsetSize, ErrTopicAuthorizationFailed,
      ErrGroupAuthorizationFailed, ErrClusterAuthorizationFailed, ErrInvalidTimeStamp,
      ErrUnsupportedSaslMechanism, ErrIllegalSaslState, ErrUnsupportedVersion,
      ErrTopicAlreadyExists, ErrInvalidPartitions, ErrInvalidReplicationFactor,
      ErrInvalidReplicaAssignment, ErrInvalidConfig, ErrNotController, ErrInvalidRequest,
      ErrUnsupportedForMessageFormat, ErrPolicyViolation, ErrOutOfOrderSequenceNumber,
      ErrDuplicateSequenceNumber, ErrInvalidProducerEpoch, ErrInvalidTxnState,
      ErrInvalidProducerIdMapping, ErrInvalidTransactionTimeout, ErrConcurrentTransactions,
      ErrTransactionCoordinatorFenced, ErrTransactionalIdAuthorizationFailed,
      ErrSecurityDisabled, ErrOperationNotAttempted, ErrKafkaStorageError, ErrLogDirNotFound,
      ErrSaslAuthenticationFailed, ErrUnknownProducerId, ErrReassignmentInProgress,
      ErrDelegationTokenAuthDisabled, ErrDelegationTokenNotFound,
      ErrDelegationTokenOwnerMismatch, ErrDelegationTokenRequestNotAllowed,
      ErrDelegationTokenAuthorizationFailed, ErrDelegationTokenExpired, ErrInvalidPrincipalType,
      ErrNonEmptyGroup, ErrGroupIdNotFound, ErrFetchSessionIdNotFound,
      ErrInvalidFetchSessionEpoch]"

lemmas kafka_error_defs =
  ErrUnknown_def ErrOffsetOutOfRange_def ErrInvalidMessage_def ErrUnknownTopicOrPartition_def
  ErrInvalidMessageSize_def ErrLeaderNotAvailable_def ErrNotLeaderForPartition_def
  ErrRequestTimeout_def ErrBrokerNotAvailable_def ErrReplicaNotAvailable_def
  ErrMessageSizeTooLarge_def ErrScaleControllerEpoch_def ErrOffsetMetadataTooLarge_def
  ErrNetwork_def ErrOffsetLoadInProgress_def ErrNoCoordinator_def ErrNotCoordinator_def
  ErrInvalidTopic_def ErrRecordListTooLarge_def ErrNotEnoughReplicas_def
  ErrNotEnoughReplicasAfterAppend_def ErrInvalidRequiredAcks_def ErrIllegalGeneration_def
  ErrInconsistentPartitionAssignmentStrategy_def ErrUnknownParititonAssignmentStrategy_def
  ErrUnknownConsumerID_def ErrInvalidSessionTimeout_def ErrRebalanceInProgress_def
  ErrInvalidCommitOffsetSize_def ErrTopicAuthorizationFailed_def ErrGroupAuthorizationFailed_def
  ErrClusterAuthorizationFailed_def ErrInvalidTimeStamp_def ErrUnsupportedSaslMechanism_def
  ErrIllegalSaslState_def ErrUnsupportedVersion_def ErrTopicAlreadyExists_def
  ErrInvalidPartitions_def ErrInvalidReplicationFactor_def ErrInvalidReplicaAssignment_def
  ErrInvalidConfig_def ErrNotController_def ErrInvalidRequest_def
  ErrUnsupportedForMessageFormat_def ErrPolicyViolation_def ErrOutOfOrderSequenceNumber_def
  ErrDuplicateSequenceNumber_def ErrInvalidProducerEpoch_def ErrInvalidTxnState_def
  ErrInvalidProducerIdMapping_def ErrInvalidTransactionTimeout_def ErrConcurrentTransactions_def
  ErrTransactionCoordinatorFenced_def ErrTransactionalIdAuthorizationFailed_def
  ErrSecurityDisabled_def ErrOperationNotAttempted_def ErrKafkaStorageError_def
  ErrLogDirNotFound_def ErrSaslAuthenticationFailed_def ErrUnknownProducerId_def
  ErrReassignmentInProgress_def ErrDelegationTokenAuthDisabled_def ErrDelegationTokenNotFound_def
  ErrDelegationTokenOwnerMismatch_def ErrDelegationTokenRequestNotAllowed_def
  ErrDelegationTokenAuthorizationFailed_def ErrDelegationTokenExpired_def
  ErrInvalidPrincipalType_def ErrNonEmptyGroup_def ErrGroupIdNotFound_def
  ErrFetchSessionIdNotFound_def ErrInvalidFetchSessionEpoch_def

definition errnoTable :: "(int16 \<times> KafkaError) list" where
  "errnoTable =
     [(-1, ErrUnknown),
      (1, ErrOffsetOutOfRange),
      (2, ErrInvalidMessage),
      (3, ErrUnknownTopicOrPartition),
      (4, ErrInvalidMessageSize),
      (5, ErrLeaderNotAvailable),
      (6, ErrNotLeaderForPartition),
      (7, ErrRequestTimeout),
      (8, ErrBrokerNotAvailable),
      (9, ErrReplicaNotAvailable),
      (10, ErrMessageSizeTooLarge),
      (11, ErrScaleControllerEpoch),
      (12, ErrOffsetMetadataTooLarge),
      (13, ErrNetwork),
      (14, ErrOffsetLoadInProgress),
      (15, ErrNoCoordinator),
      (16, ErrNotCoordinator),
      (17, ErrInvalidTopic),
      (18, ErrRecordListTooLarge),
      (19, ErrNotEnoughReplicas),
      (20, ErrNotEnoughReplicasAfterAppend),
      (21, ErrInvalidRequiredAcks),
      (22, ErrIllegalGeneration),
      (23, ErrInconsistentPartitionAssignmentStrategy),
      (24, ErrUnknownParititonAssignmentStrategy),
      (25, ErrUnknownConsumerID),
      (26, ErrInvalidSessionTimeout),
      (27, ErrRebalanceInProgress),
      (28, ErrInvalidCommitOffsetSize),
      (29, ErrTopicAuthorizationFailed),
      (30, ErrGroupAuthorizationFailed),
      (31, ErrClusterAuthorizationFailed),
      (32, ErrInvalidCommitOffsetSize),
      (33, ErrUnsupportedSaslMechanism),
      (34, ErrIllegalSaslState),
      (35, ErrUnsupportedVersion),
      (36, ErrTopicAlreadyExists),
      (37, ErrInvalidPartitions),
      (38, ErrInvalidReplicationFactor),
      (39, ErrInvalidReplicaAssignment),
      (40, ErrInvalidConfig),
      (41, ErrNotController),
      (42, ErrInvalidRequest),
      (43, ErrUnsupportedForMessageFormat),
      (44, ErrPolicyViolation),
      (45, ErrOutOfOrderSequenceNumber),
      (46, ErrDuplicateSequenceNumber),
      (47, ErrInvalidProducerEpoch),
      (48, ErrInvalidTxnState),
      (49, ErrInvalidProducerIdMapping),
      (50, ErrInvalidTransactionTimeout),
      (51, ErrConcurrentTransactions),
      (52, ErrTransactionCoordinatorFenced),
      (53, ErrTransactionalIdAuthorizationFailed),
      (54, ErrSecurityDisabled),
      (55, ErrOperationNotAttempted),
      (56, ErrKafkaStorageError),
      (57, ErrLogDirNotFound),
      (58, ErrSaslAuthenticationFailed),
      (59, ErrUnknownProducerId),
      (60, ErrReassignmentInProgress),
      (61, ErrDelegationTokenAuthDisabled),
      (62, ErrDelegationTokenNotFound),
      (63, ErrDelegationTokenOwnerMismatch),
      (64, ErrDelegationTokenRequestNotAllowed),
      (65, ErrDelegationTokenAuthorizationFailed),
      (66, ErrDelegationTokenExpired),
      (67, ErrInvalidPrincipalType),
      (68, ErrNonEmptyGroup),
      (69, ErrGroupIdNotFound),
      (70, ErrFetchSessionIdNotFound),
      (71, ErrInvalidFetchSessionEpoch)]"

definition errnoToErr :: "int16 \<rightharpoonup> KafkaError" where
  "errnoToErr = map_of errnoTable"

section \<open>Error values\<close>

datatype error =
    KafkaErr KafkaError
  | UnknownKafkaErrno int16
  | EOF
  | ErrUnexpectedEOF
  | ErrNotEnoughData
  | ErrInvalidArrayLen
  | MessageSizeError int
  | ShortWrite nat nat
  | BufferTooSmall
  | UnknownCompression
  | WrongCRC32
  | IncorrectMessageByte
  | VersioningError int16
  | SnappyJavaVersion uint32
  | OpError nat
  | EPIPE
  | ErrClosed
  | CorrelationConflict int32
  | WaitForResponse error
  | BadRootCertificate
  | BadKeyPair error
  | ErrNoData
  | ErrMxClosed
  | NoMessages
  | NoKey
  | CannotHashMessage error
  | DifferentDestinations
  | NoAddresses
  | CannotConnect
  | NoControllerConnection
  | CannotFetchMetadata
  | TopicNotFound gostring
  | IncompleteFetchResponse
  | IncompleteProduceResponse
  | InvalidStartOffset int64
  | NoCommitInformation
  | NoOffsetInformation
  | ErrTimeout
  | LibError nat

type_synonym 'a res = "(error, 'a) outcome"

text \<open>A Go variable of type \<open>error\<close> is nil or an error value.\<close>

type_synonym goerror = "error option"

definition Errno :: "KafkaError \<Rightarrow> int" where
  "Errno err = sint (errno err)"

definition errFromNo :: "int16 \<Rightarrow> goerror" where
  "errFromNo n =
     (if n = 0 then None
      else case errnoToErr n of
             None \<Rightarrow> Some (UnknownKafkaErrno n)
           | Some err \<Rightarrow> Some (KafkaErr err))"

section \<open>The error table\<close>

lemma errFromNo_0 [simp]: "errFromNo 0 = None"
  by (simp add: errFromNo_def)

lemma errnos_distinct: "distinct (map errno kafkaErrors)"
  by code_simp

lemma errno_nonzero: "e \<in> set kafkaErrors \<Longrightarrow> errno e \<noteq> 0"
proof -
  have "\<forall>e \<in> set kafkaErrors. errno e \<noteq> 0" by code_simp
  then show "e \<in> set kafkaErrors \<Longrightarrow> errno e \<noteq> 0" by blast
qed

text \<open>The values an error field of a message can carry over the wire and back.\<close>

definition wire_error :: "goerror \<Rightarrow> bool" where
  "wire_error err = (case err of
       None \<Rightarrow> True
     | Some (KafkaErr e) \<Rightarrow> e \<in> set kafkaErrors \<and> e \<noteq> ErrInvalidTimeStamp
     | _ \<Rightarrow> False)"

lemma errnoTable_keys: "map fst errnoTable = map errno kafkaErrors"
  by (simp add: errnoTable_def kafkaErrors_def kafka_error_defs KafkaError.make_def)

text \<open>Entry 32 of the table holds \<open>ErrInvalidCommitOffsetSize\<close>, not \<open>ErrInvalidTimeStamp\<close>.\<close>

lemma errnoTable_values:
  "map snd errnoTable = kafkaErrors[32 := ErrInvalidCommitOffsetSize]"
  by (simp add: errnoTable_def kafkaErrors_def)

lemma errnoTable_zip:
  "errnoTable = zip (map errno kafkaErrors) (kafkaErrors[32 := ErrInvalidCommitOffsetSize])"
  by (metis errnoTable_keys errnoTable_values zip_map_fst_snd)

lemma kafkaErrors_nth_32: "length kafkaErrors = 72" "kafkaErrors ! 32 = ErrInvalidTimeStamp"
  by (simp_all add: kafkaErrors_def)

lemma errnoToErr_nth:
  assumes "i < 72"
  shows "errnoToErr (errno (kafkaErrors ! i)) =
    Some (if i = 32 then ErrInvalidCommitOffsetSize else kafkaErrors ! i)"
proof -
  have "map_of errnoTable (map errno kafkaErrors ! i) =
      Some (kafkaErrors[32 := ErrInvalidCommitOffsetSize] ! i)"
    unfolding errnoTable_zip using assms
    by (intro map_of_zip_nth) (simp_all add: errnos_distinct kafkaErrors_nth_32)
  then show ?thesis
    using assms by (simp add: errnoToErr_def kafkaErrors_nth_32 nth_list_update)
qed

lemma errFromNo_errno:
  assumes "e \<in> set kafkaErrors" "e \<noteq> ErrInvalidTimeStamp"
  shows "errFromNo (errno e) = Some (KafkaErr e)"
proof -
  from assms(1) obtain i where i: "i < 72" "e = kafkaErrors ! i"
    by (metis in_set_conv_nth kafkaErrors_nth_32(1))
  with assms(2) have "i \<noteq> 32" by (auto simp: kafkaErrors_nth_32)
  with i errnoToErr_nth[of i] errno_nonzero[OF assms(1)] show ?thesis
    by (simp add: errFromNo_def)
qed

section \<open>Properties\<close>

text \<open>
  Every error value of the driver but one survives as its number: \<open>errFromNo\<close> gives the
  same error back for \<open>errno\<close>.
\<close>

lemma errFromNo_round_trip:
  assumes "e \<in> set kafkaErrors" "e \<noteq> ErrInvalidTimeStamp"
  shows "errFromNo (errno e) = Some (KafkaErr e)"
  using assms by (rule errFromNo_errno)

lemma errFromNo_round_trip_witness:
  "ErrLeaderNotAvailable \<in> set kafkaErrors \<and>
   errFromNo (errno ErrLeaderNotAvailable) = Some (KafkaErr ErrLeaderNotAvailable)"
proof -
  have "ErrLeaderNotAvailable \<in> set kafkaErrors" by (simp add: kafkaErrors_def)
  moreover have "ErrLeaderNotAvailable \<noteq> ErrInvalidTimeStamp"
    by (simp add: ErrLeaderNotAvailable_def ErrInvalidTimeStamp_def KafkaError.make_def)
  ultimately show ?thesis using errFromNo_round_trip by simp
qed

text \<open>
  Error number 32, which the driver declares as \<open>ErrInvalidTimeStamp\<close>, is mapped to
  another error.
\<close>

lemma errno_32_mismapped:
  "errno ErrInvalidTimeStamp = 32 \<and> errFromNo 32 = Some (KafkaErr ErrInvalidCommitOffsetSize) \<and>
   ErrInvalidCommitOffsetSize \<noteq> ErrInvalidTimeStamp"
  using errnoToErr_nth[of 32]
  by (simp add: kafkaErrors_nth_32 errFromNo_def ErrInvalidTimeStamp_def
      ErrInvalidCommitOffsetSize_def KafkaError.make_def)

end
