(* ===== verification/GoLib.thy ===== *)
theory GoLib
  imports Errors
begin

text \<open>
  The parts of the Go standard library the wire protocol is built on: big-endian access of
  \<open>encoding/binary\<close>, readers and \<open>io.ReadFull\<close>, \<open>binary.ReadVarint\<close>'s byte protocol,
  durations and instants of package \<open>time\<close>.
\<close>

unbundle bit_operations_syntax

section \<open>encoding/binary, big endian\<close>

definition PutUint16 :: "int16 \<Rightarrow> byte list" where
  "PutUint16 v = [ucast (drop_bit 8 v), ucast v]"

definition PutUint32 :: "uint32 \<Rightarrow> byte list" where
  "PutUint32 v =
     [ucast (drop_bit 24 v), ucast (drop_bit 16 v), ucast (drop_bit 8 v), ucast v]"

definition PutUint64 :: "int64 \<Rightarrow> byte list" where
  "PutUint64 v =
     [ucast (drop_bit 56 v), ucast (drop_bit 48 v), ucast (drop_bit 40 v), ucast (drop_bit 32 v),
      ucast (drop_bit 24 v), ucast (drop_bit 16 v), ucast (drop_bit 8 v), ucast v]"

text \<open>
  \<open>Uint16\<close>, \<open>Uint32\<close> and \<open>Uint64\<close> shift the bytes in from the most significant one; the
  caller passes exactly as many bytes as the width has.
\<close>

definition be_word :: "byte list \<Rightarrow> 'a::len word" where
  "be_word bs = foldl (\<lambda>acc b. push_bit 8 acc OR ucast b) 0 bs"

lemma length_Put [simp]:
  "length (PutUint16 a) = 2" "length (PutUint32 b) = 4" "length (PutUint64 c) = 8"
  by (simp_all add: PutUint16_def PutUint32_def PutUint64_def)

text \<open>Reading one more byte moves the window over the value down by eight bits.\<close>

lemma be_step:
  fixes v :: "'a::len word"
  shows "push_bit 8 (drop_bit (k + 8) v) OR ucast (ucast (drop_bit k v) :: byte) = drop_bit k v"
  by (rule bit_word_eqI) (auto simp: bit_simps dest: bit_imp_le_length)

lemma be_top:
  fixes v :: "'a::len word"
  assumes "LENGTH('a) = k + 8"
  shows "ucast (ucast (drop_bit k v) :: byte) = drop_bit k v"
  by (rule bit_word_eqI) (use assms in \<open>auto simp: bit_simps dest: bit_imp_le_length\<close>)

lemma be_word_PutUint16 [simp]: "be_word (PutUint16 v) = v"
  using be_step[of 0 v] be_top[of 8 v] by (simp add: be_word_def PutUint16_def)

lemma be_word_PutUint32 [simp]: "be_word (PutUint32 v) = v"
  using be_step[of 0 v] be_step[of 8 v] be_step[of 16 v] be_top[of 24 v]
  by (simp add: be_word_def PutUint32_def)

lemma be_word_PutUint64 [simp]: "be_word (PutUint64 v) = v"
  using be_step[of 0 v] be_step[of 8 v] be_step[of 16 v] be_step[of 24 v] be_step[of 32 v]
    be_step[of 40 v] be_step[of 48 v] be_top[of 56 v]
  by (simp add: be_word_def PutUint64_def)

section \<open>Readers\<close>

text \<open>
  An \<open>io.Reader\<close> is the bytes it will still deliver and the error it reports once they are
  used up: \<open>EOF\<close> for the in-memory readers \<open>bytes.Reader\<close> and \<open>bytes.Buffer\<close>, any error for a
  network connection.  \<open>rd_tee\<close> collects what an
  \<open>io.TeeReader\<close> copies to its hash (\<open>None\<close>: no tee).
\<close>

record reader =
  rd_bytes :: "byte list"
  rd_end :: error
  rd_tee :: "byte list option"

definition NewReader :: "byte list \<Rightarrow> reader" where
  "NewReader bs = \<lparr>rd_bytes = bs, rd_end = EOF, rd_tee = None\<rparr>"

definition advance :: "nat \<Rightarrow> reader \<Rightarrow> reader" where
  "advance n r =
     r\<lparr>rd_bytes := drop n (rd_bytes r),
       rd_tee := map_option (\<lambda>t. t @ take n (rd_bytes r)) (rd_tee r)\<rparr>"

text \<open>
  \<open>io.ReadFull(r, buf)\<close> with \<open>len(buf) = n\<close>: the bytes read and the error.  A reader that
  ends after some of the bytes turns \<open>EOF\<close> into \<open>ErrUnexpectedEOF\<close>.
\<close>

definition ReadFull :: "nat \<Rightarrow> reader \<Rightarrow> (byte list \<times> goerror) \<times> reader" where
  "ReadFull n r =
     (let b = take n (rd_bytes r)
      in if n \<le> length (rd_bytes r) then ((b, None), advance n r)
         else ((b, Some (if b \<noteq> [] \<and> rd_end r = EOF then ErrUnexpectedEOF else rd_end r)),
               advance n r))"

lemma ReadFull_append [simp]:
  assumes "length bs = n"
  shows "ReadFull n \<lparr>rd_bytes = bs @ rest, rd_end = e, rd_tee = t\<rparr> =
    ((bs, None), \<lparr>rd_bytes = rest, rd_end = e, rd_tee = map_option (\<lambda>t. t @ bs) t\<rparr>)"
  using assms by (simp add: ReadFull_def advance_def Let_def)

lemma ReadFull_short:
  assumes "length bs < n"
  shows "ReadFull n \<lparr>rd_bytes = bs, rd_end = EOF, rd_tee = t\<rparr> =
    ((bs, Some (if bs = [] then EOF else ErrUnexpectedEOF)),
     \<lparr>rd_bytes = [], rd_end = EOF, rd_tee = map_option (\<lambda>t. t @ bs) t\<rparr>)"
  using assms by (simp add: ReadFull_def advance_def Let_def)

lemma ReadFull_None_length:
  "ReadFull n r = ((b, None), r') \<Longrightarrow> length b = n"
  by (auto simp: ReadFull_def Let_def split: if_splits)

section \<open>time.Duration and time.Time\<close>

text \<open>
  A duration is an \<open>int64\<close> count of nanoseconds.  Integer division of Go truncates towards
  zero.  \<open>time.Unix(0, ns)\<close> is the only constructor of instants the code uses; the zero
  \<open>time.Time\<close> is January 1, year 1, whose \<open>UnixNano\<close> wraps around.
\<close>

definition quot64 :: "int64 \<Rightarrow> int \<Rightarrow> int64" where
  "quot64 a b = of_int (sgn (sint a) * sgn b * (\<bar>sint a\<bar> div \<bar>b\<bar>))"

definition Millisecond :: int where
  "Millisecond = 1000000"

datatype gotime = ZeroTime | UnixTime int64

primrec UnixNano :: "gotime \<Rightarrow> int64" where
  "UnixNano ZeroTime = of_int (- 62135596800 * 1000000000)"
| "UnixNano (UnixTime ns) = ns"

text \<open>The value of a duration after \<open>EncodeDuration\<close> and \<open>DecodeDuration32\<close>.\<close>

definition wire_duration :: "int64 \<Rightarrow> int64" where
  "wire_duration d = scast (ucast (quot64 d Millisecond) :: int32) * of_int Millisecond"

definition wire_time :: "gotime \<Rightarrow> gotime" where
  "wire_time t = UnixTime (quot64 (UnixNano t) Millisecond * of_int Millisecond)"

text \<open>Whole milliseconds in the range of an \<open>int32\<close> survive exactly.\<close>

lemma sint_of_int64: "- (2 ^ 63) \<le> x \<Longrightarrow> x < 2 ^ 63 \<Longrightarrow> sint (of_int x :: int64) = x"
  by (simp add: signed_of_int signed_take_bit_int_eq_self)

lemma quot64_exact:
  assumes "k > 0" "\<bar>m * k\<bar> < 2 ^ 63"
  shows "quot64 (of_int (m * k)) k = of_int m"
proof -
  have "sint (of_int (m * k) :: int64) = m * k"
    using assms(2) by (intro sint_of_int64) (simp_all add: abs_less_iff)
  moreover have "sgn (m * k) * sgn k * (\<bar>m * k\<bar> div \<bar>k\<bar>) = m"
    using assms(1) by (simp add: abs_mult sgn_mult sgn_mult_abs)
  ultimately show ?thesis by (simp add: quot64_def)
qed

end
