(* ===== verification/Serialization.thy ===== *)
theory Serialization
  imports GoLib
begin

text \<open>
  \<open>v2/proto/serialization.go\<close> and \<open>v2/proto/utils.go\<close>: the decoder and the encoder of
  primitive values, together with the two writers the encoder is used on, the growing
  buffers (\<open>bytes.Buffer\<close> and the type \<open>buffer\<close> of \<open>messages.go\<close>) and \<open>slicewriter\<close>.
  The scratch buffers inside both structures are overwritten before every use and are not
  part of the state; their lengths (1024 and 8 bytes) are constants.
\<close>

unbundle bit_operations_syntax

section \<open>Buffers for parsing\<close>

definition maxParseBufSize :: int where
  "maxParseBufSize = maxInt32"

definition allocParseBuf :: "int \<Rightarrow> error + byte list" where
  "allocParseBuf sz =
     (if sz < 0 \<or> sz > maxParseBufSize then Inl (MessageSizeError sz)
      else Inr (replicate (nat sz) 0))"

section \<open>Decoder\<close>

record decoder =
  d_r :: reader
  d_err :: goerror

definition NewDecoder :: "reader \<Rightarrow> decoder" where
  "NewDecoder r = \<lparr>d_r = r, d_err = None\<rparr>"

definition SetReader :: "reader \<Rightarrow> decoder \<Rightarrow> decoder" where
  "SetReader r d = d\<lparr>d_r := r\<rparr>"

text \<open>
  \<open>DecodeInt8\<close> to \<open>DecodeInt64\<close> share one body: nothing is read once an error is recorded,
  and a failed or short read records the error and gives zero.
\<close>

definition decode_fixed :: "nat \<Rightarrow> decoder \<Rightarrow> 'a::len word \<times> decoder" where
  "decode_fixed n d =
     (if d_err d \<noteq> None then (0, d)
      else case ReadFull n (d_r d) of
             ((b, Some err), r) \<Rightarrow> (0, d\<lparr>d_r := r, d_err := Some err\<rparr>)
           | ((b, None), r) \<Rightarrow>
               if length b \<noteq> n then (0, d\<lparr>d_r := r, d_err := Some ErrNotEnoughData\<rparr>)
               else (be_word b, d\<lparr>d_r := r\<rparr>))"

definition DecodeInt8 :: "decoder \<Rightarrow> int8 \<times> decoder" where
  "DecodeInt8 = decode_fixed 1"

definition DecodeInt16 :: "decoder \<Rightarrow> int16 \<times> decoder" where
  "DecodeInt16 = decode_fixed 2"

definition DecodeInt32 :: "decoder \<Rightarrow> int32 \<times> decoder" where
  "DecodeInt32 = decode_fixed 4"

definition DecodeUint32 :: "decoder \<Rightarrow> uint32 \<times> decoder" where
  "DecodeUint32 = decode_fixed 4"

definition DecodeInt64 :: "decoder \<Rightarrow> int64 \<times> decoder" where
  "DecodeInt64 = decode_fixed 8"

definition DecodeDuration32 :: "decoder \<Rightarrow> int64 \<times> decoder" where
  "DecodeDuration32 d =
     (let (ms, d) = DecodeInt32 d in (scast ms * of_int Millisecond, d))"

text \<open>
  Reading the \<open>n\<close> payload bytes after a length prefix: the common tail of
  \<open>DecodeString\<close>, \<open>DecodeBytes\<close>, \<open>DecodeVarBytes\<close> and \<open>DecodeVarString\<close>.  \<open>None\<close> is the zero
  result (the empty string or the nil slice) after an error.
\<close>

definition read_payload :: "nat \<Rightarrow> decoder \<Rightarrow> gobytes \<times> decoder" where
  "read_payload n d =
     (case ReadFull n (d_r d) of
        ((b, Some err), r) \<Rightarrow> (None, d\<lparr>d_r := r, d_err := Some err\<rparr>)
      | ((b, None), r) \<Rightarrow>
          if length b \<noteq> n then (None, d\<lparr>d_r := r, d_err := Some ErrNotEnoughData\<rparr>)
          else (Some b, d\<lparr>d_r := r\<rparr>))"

text \<open>The scratch buffer serves a string of at most 1024 bytes, else one is allocated.\<close>

definition string_buffer :: "int \<Rightarrow> decoder \<Rightarrow> gobytes \<times> decoder" where
  "string_buffer slen d =
     (if slen > 1024
      then case allocParseBuf slen of
             Inl err \<Rightarrow> (None, d\<lparr>d_err := Some err\<rparr>)
           | Inr b \<Rightarrow> read_payload (length b) d
      else read_payload (nat slen) d)"

definition DecodeString :: "decoder \<Rightarrow> gostring \<times> decoder" where
  "DecodeString d =
     (if d_err d \<noteq> None then ([], d)
      else let (slen, d) = DecodeInt16 d
           in if d_err d \<noteq> None then ([], d)
              else if sint slen < 1 then ([], d)
              else let (b, d) = string_buffer (sint slen) d in (bytes_of b, d))"

definition DecodeArrayLen :: "decoder \<Rightarrow> (int \<times> goerror) \<times> decoder" where
  "DecodeArrayLen d =
     (let (n, d) = DecodeInt32 d; len = sint n
      in if len = - 1 then ((0, None), d)
         else if len > maxParseBufSize then ((0, Some ErrInvalidArrayLen), d)
         else ((len, None), d))"

definition DecodeBytes :: "decoder \<Rightarrow> gobytes \<times> decoder" where
  "DecodeBytes d =
     (if d_err d \<noteq> None then (None, d)
      else let (slen, d) = DecodeInt32 d
           in if d_err d \<noteq> None then (None, d)
              else if sint slen < 1 then (None, d)
              else case allocParseBuf (sint slen) of
                     Inl err \<Rightarrow> (None, d\<lparr>d_err := Some err\<rparr>)
                   | Inr b \<Rightarrow> read_payload (length b) d)"

definition ReadByte :: "decoder \<Rightarrow> (byte \<times> goerror) \<times> decoder" where
  "ReadByte d =
     (case ReadFull 1 (d_r d) of
        ((b, Some err), r) \<Rightarrow> ((0, Some err), d\<lparr>d_r := r, d_err := Some err\<rparr>)
      | ((b, None), r) \<Rightarrow> ((hd b, None), d\<lparr>d_r := r\<rparr>))"

text \<open>
  \<open>binary.ReadUvarint\<close> over \<open>ReadByte\<close>: at most ten bytes, seven bits each, the low ones
  first.  The caller drops the error it returns, so only the value matters; an overlong
  number gives the bits collected so far.
\<close>

function ReadUvarint :: "nat \<Rightarrow> nat \<Rightarrow> int64 \<Rightarrow> decoder \<Rightarrow> int64 \<times> decoder" where
  "ReadUvarint i s x d =
     (if i \<ge> 10 then (x, d)
      else case ReadByte d of
             ((b, Some err), d) \<Rightarrow> (x, d)
           | ((b, None), d) \<Rightarrow>
               if b < 0x80
               then if i = 9 \<and> b > 1 then (x, d) else (x OR push_bit s (ucast b), d)
               else ReadUvarint (i + 1) (s + 7) (x OR push_bit s (ucast (b AND 0x7f))) d)"
  by pat_completeness auto
termination
  by (relation "measure (\<lambda>(i, s, x, d). 10 - i)") auto

declare ReadUvarint.simps [simp del]

definition zigzag :: "int64 \<Rightarrow> int64" where
  "zigzag ux = (let x = drop_bit 1 ux in if ux AND 1 \<noteq> 0 then NOT x else x)"

definition DecodeVarInt :: "decoder \<Rightarrow> int64 \<times> decoder" where
  "DecodeVarInt d = (let (ux, d) = ReadUvarint 0 0 0 d in (zigzag ux, d))"

definition DecodeVarBytes :: "decoder \<Rightarrow> gobytes \<times> decoder" where
  "DecodeVarBytes d =
     (let (slen, d) = DecodeVarInt d
      in if sint slen < 1 then (None, d)
         else case allocParseBuf (sint slen) of
                Inl err \<Rightarrow> (None, d\<lparr>d_err := Some err\<rparr>)
              | Inr b \<Rightarrow> read_payload (length b) d)"

definition DecodeVarString :: "decoder \<Rightarrow> gostring \<times> decoder" where
  "DecodeVarString d =
     (if d_err d \<noteq> None then ([], d)
      else let (slen, d) = DecodeVarInt d
           in if d_err d \<noteq> None then ([], d)
              else if sint slen < 1 then ([], d)
              else let (b, d) = string_buffer (sint slen) d in (bytes_of b, d))"

section \<open>Writers\<close>

record slicewriter =
  sw_buf :: "byte list"
  sw_pos :: nat
  sw_size :: int

definition newSliceWriter :: "int \<Rightarrow> error + slicewriter" where
  "newSliceWriter bufsize =
     (case allocParseBuf bufsize of
        Inl err \<Rightarrow> Inl err
      | Inr buf \<Rightarrow> Inr \<lparr>sw_buf = buf, sw_pos = 0, sw_size = 0\<rparr>)"

definition sw_Write :: "byte list \<Rightarrow> slicewriter \<Rightarrow> (nat \<times> goerror) \<times> slicewriter" where
  "sw_Write p w =
     (if length (sw_buf w) < sw_pos w + length p then ((0, Some BufferTooSmall), w)
      else ((length p, None),
            w\<lparr>sw_buf := take (sw_pos w) (sw_buf w) @ p @ drop (sw_pos w + length p) (sw_buf w),
              sw_pos := sw_pos w + length p\<rparr>))"

definition sw_Reset :: "int \<Rightarrow> slicewriter \<Rightarrow> slicewriter res" where
  "sw_Reset sz w =
     (if sz > int (length (sw_buf w))
      then case allocParseBuf (sz + 1000) of
             Inl err \<Rightarrow> Err err
           | Inr buf \<Rightarrow> Ok (w\<lparr>sw_buf := buf, sw_size := sz, sw_pos := 0\<rparr>)
      else Ok (w\<lparr>sw_size := sz, sw_pos := 0\<rparr>))"

definition sw_Slice :: "slicewriter \<Rightarrow> byte list" where
  "sw_Slice w = take (sw_pos w) (sw_buf w)"

text \<open>The dynamic type of the \<open>io.Writer\<close> an encoder holds.\<close>

datatype writer = BufferW "byte list" | SliceW slicewriter

fun Write :: "byte list \<Rightarrow> writer \<Rightarrow> (nat \<times> goerror) \<times> writer" where
  "Write p (BufferW b) = ((length p, None), BufferW (b @ p))"
| "Write p (SliceW w) = (let (res, w') = sw_Write p w in (res, SliceW w'))"

definition writeAll :: "byte list \<Rightarrow> writer \<Rightarrow> goerror \<times> writer" where
  "writeAll b w =
     (case Write b w of
        ((n, Some err), w') \<Rightarrow> (Some err, w')
      | ((n, None), w') \<Rightarrow>
          if n \<noteq> length b then (Some (ShortWrite (length b) n), w') else (None, w'))"

section \<open>Encoder\<close>

record encoder =
  e_w :: writer
  e_err :: goerror

definition NewEncoder :: "writer \<Rightarrow> encoder" where
  "NewEncoder w = \<lparr>e_w = w, e_err = None\<rparr>"

text \<open>
  Every encoder method is a statement over the encoder.  All but \<open>EncodeError\<close> do nothing
  once an error is recorded.  \<open>enc_write\<close> is the assignment \<open>e.err = writeAll(e.w, b)\<close>,
  \<open>enc_write_once\<close> the assignment \<open>_, e.err = e.w.Write(b)\<close>.
\<close>

definition enc_write :: "byte list \<Rightarrow> encoder \<Rightarrow> encoder" where
  "enc_write b e = (let (err, w) = writeAll b (e_w e) in e\<lparr>e_w := w, e_err := err\<rparr>)"

definition enc_write_once :: "byte list \<Rightarrow> encoder \<Rightarrow> encoder" where
  "enc_write_once b e = (let ((n, err), w) = Write b (e_w e) in e\<lparr>e_w := w, e_err := err\<rparr>)"

definition EncodeDuration :: "int64 \<Rightarrow> (error, encoder) stmt" where
  "EncodeDuration val e =
     (if e_err e \<noteq> None then Ok e
      else Ok (enc_write_once (PutUint32 (ucast (quot64 val Millisecond))) e))"

definition EncodeInt8 :: "int8 \<Rightarrow> (error, encoder) stmt" where
  "EncodeInt8 val e = (if e_err e \<noteq> None then Ok e else Ok (enc_write_once [val] e))"

definition EncodeInt16 :: "int16 \<Rightarrow> (error, encoder) stmt" where
  "EncodeInt16 val e = (if e_err e \<noteq> None then Ok e else Ok (enc_write (PutUint16 val) e))"

definition EncodeInt32 :: "int32 \<Rightarrow> (error, encoder) stmt" where
  "EncodeInt32 val e = (if e_err e \<noteq> None then Ok e else Ok (enc_write (PutUint32 val) e))"

definition EncodeInt64 :: "int64 \<Rightarrow> (error, encoder) stmt" where
  "EncodeInt64 val e = (if e_err e \<noteq> None then Ok e else Ok (enc_write (PutUint64 val) e))"

definition EncodeUint32 :: "uint32 \<Rightarrow> (error, encoder) stmt" where
  "EncodeUint32 val e = (if e_err e \<noteq> None then Ok e else Ok (enc_write (PutUint32 val) e))"

definition EncodeArrayLen :: "int \<Rightarrow> (error, encoder) stmt" where
  "EncodeArrayLen n = EncodeInt32 (of_int n)"

definition EncodeInt32s :: "int32 list \<Rightarrow> (error, encoder) stmt" where
  "EncodeInt32s val e =
     (if e_err e \<noteq> None then Ok e
      else block (EncodeArrayLen (int (length val)) # map EncodeInt32 val) e)"

definition EncodeInt64s :: "int64 list \<Rightarrow> (error, encoder) stmt" where
  "EncodeInt64s val e =
     (if e_err e \<noteq> None then Ok e
      else block (EncodeArrayLen (int (length val)) # map EncodeInt64 val) e)"

definition EncodeBytes :: "gobytes \<Rightarrow> (error, encoder) stmt" where
  "EncodeBytes val e =
     (if e_err e \<noteq> None then Ok e
      else case val of
             None \<Rightarrow> Ok (enc_write (PutUint32 (- 1)) e)
           | Some b \<Rightarrow>
               let e' = enc_write (PutUint32 (of_nat (length b))) e
               in if e_err e' = None then Ok (enc_write b e') else Ok e')"

definition EncodeString :: "gostring \<Rightarrow> (error, encoder) stmt" where
  "EncodeString val e =
     (if e_err e \<noteq> None then Ok e
      else let e' = enc_write (PutUint16 (of_nat (length val))) e
           in if e_err e' = None then Ok (enc_write val e') else Ok e')"

text \<open>
  \<open>EncodeError\<close> does not look at a recorded error, and for an error that is not a
  \<open>*KafkaError\<close> it records one and then reads \<open>kerr.errno\<close> through the nil pointer.
\<close>

definition EncodeError :: "goerror \<Rightarrow> (error, encoder) stmt" where
  "EncodeError err e =
     (case err of
        None \<Rightarrow> Ok (enc_write (PutUint16 0) e)
      | Some (KafkaErr kerr) \<Rightarrow> Ok (enc_write (PutUint16 (errno kerr)) e)
      | Some _ \<Rightarrow> Panic)"

end
