(* ===== verification/Codec.thy ===== *)
theory Codec
  imports Serialization
begin

text \<open>
  The calculus the round trips of all messages are proved with.  A reader of
  \<open>messages.go\<close> is a block of statements over the decoder and the structure it fills;
  a \<open>Bytes\<close> method is a block of statements over the encoder.  \<open>transfers\<close> relates the two
  blocks: what the second writes the first reads back, and no proper prefix of it is
  accepted.  The rules collected in \<open>codec_intros\<close> follow the shape of the two blocks.
\<close>

section \<open>Statements of readers\<close>

text \<open>\<open>x.field = dec.DecodeT()\<close>, with the record update as the second argument.\<close>

definition read_field ::
  "(decoder \<Rightarrow> 'a \<times> decoder) \<Rightarrow> ('a \<Rightarrow> 'r \<Rightarrow> 'r) \<Rightarrow> (error, decoder \<times> 'r) stmt"
where
  "read_field dec upd s = (let (x, d) = dec (fst s) in Ok (d, upd x (snd s)))"

text \<open>\<open>_ = dec.DecodeT()\<close>\<close>

definition skip_field :: "(decoder \<Rightarrow> 'a \<times> decoder) \<Rightarrow> (error, decoder \<times> 'r) stmt" where
  "skip_field dec = read_field dec (\<lambda>_ r. r)"

text \<open>\<open>if dec.Err() != nil { return nil, dec.Err() }\<close>\<close>

definition check_err :: "(error, decoder \<times> 'r) stmt" where
  "check_err s = (case d_err (fst s) of Some err \<Rightarrow> Err err | None \<Rightarrow> Ok s)"

text \<open>\<open>make([]T, len)\<close> panics on a negative length.\<close>

definition make_len :: "int \<Rightarrow> nat res" where
  "make_len n = (if n < 0 then Panic else Ok (nat n))"

text \<open>
  \<open>len, err := dec.DecodeArrayLen(); if err != nil { return nil, err };
  xs = make([]T, len); for i := range xs { ... }\<close>
\<close>

definition read_array ::
  "(decoder \<Rightarrow> (decoder \<times> 'a) res) \<Rightarrow> ('a list \<Rightarrow> 'r \<Rightarrow> 'r) \<Rightarrow> (error, decoder \<times> 'r) stmt"
where
  "read_array elem upd s =
     (case DecodeArrayLen (fst s) of
        ((n, Some err), d) \<Rightarrow> Err err
      | ((n, None), d) \<Rightarrow>
          obind (make_len n) (\<lambda>k.
          obind (for_range k elem d) (\<lambda>(d, xs). Ok (d, upd xs (snd s)))))"

text \<open>The same with the error of \<open>DecodeArrayLen\<close> dropped, as \<open>ReadCreateTopicsReq\<close> does twice.\<close>

definition read_array_unchecked ::
  "(decoder \<Rightarrow> (decoder \<times> 'a) res) \<Rightarrow> ('a list \<Rightarrow> 'r \<Rightarrow> 'r) \<Rightarrow> (error, decoder \<times> 'r) stmt"
where
  "read_array_unchecked elem upd s =
     (case DecodeArrayLen (fst s) of
        ((n, err), d) \<Rightarrow>
          obind (make_len n) (\<lambda>k.
          obind (for_range k elem d) (\<lambda>(d, xs). Ok (d, upd xs (snd s)))))"

text \<open>An array element that is one primitive value, or a structure filled from its zero value.\<close>

definition prim :: "(decoder \<Rightarrow> 'a \<times> decoder) \<Rightarrow> decoder \<Rightarrow> (decoder \<times> 'a) res" where
  "prim dec d = (let (x, d') = dec d in Ok (d', x))"

definition struct :: "(error, decoder \<times> 'r) stmt list \<Rightarrow> 'r \<Rightarrow> decoder \<Rightarrow> (decoder \<times> 'r) res" where
  "struct body zero d = block body (d, zero)"

text \<open>A whole reader: \<open>var x T; dec := NewDecoder(r); body; if dec.Err() != nil ...; return &x\<close>.\<close>

definition run_reader :: "(error, decoder \<times> 'r) stmt list \<Rightarrow> 'r \<Rightarrow> reader \<Rightarrow> 'r res" where
  "run_reader body zero r =
     obind (block (body @ [check_err]) (NewDecoder r, zero)) (\<lambda>(d, x). Ok x)"

section \<open>Bytes methods\<close>

text \<open>
  \<open>var buf bytes.Buffer; enc := NewEncoder(&buf); body; if enc.Err() != nil { return nil, enc.Err() };
  b := buf.Bytes(); binary.BigEndian.PutUint32(b, uint32(len(b)-4)); return b, nil\<close>
\<close>

definition writer_bytes :: "writer \<Rightarrow> byte list" where
  "writer_bytes w = (case w of BufferW b \<Rightarrow> b | SliceW sw \<Rightarrow> sw_Slice sw)"

definition run_bytes :: "(error, encoder) stmt list \<Rightarrow> byte list res" where
  "run_bytes body =
     obind (block body (NewEncoder (BufferW []))) (\<lambda>e.
       case e_err e of
         Some err \<Rightarrow> Err err
       | None \<Rightarrow>
           let b = writer_bytes (e_w e)
           in if length b < 4 then Panic
              else Ok (PutUint32 (of_int (int (length b) - 4)) @ drop 4 b))"

text \<open>The frame of the protocol: a big-endian length, then that many bytes.\<close>

definition frame :: "byte list \<Rightarrow> byte list" where
  "frame body = PutUint32 (of_nat (length body)) @ body"

section \<open>What a block writes and reads\<close>

abbreviation bufenc :: "byte list \<Rightarrow> encoder" where
  "bufenc b \<equiv> \<lparr>e_w = BufferW b, e_err = None\<rparr>"

abbreviation memdec :: "byte list \<Rightarrow> decoder" where
  "memdec b \<equiv> \<lparr>d_r = \<lparr>rd_bytes = b, rd_end = EOF, rd_tee = None\<rparr>, d_err = None\<rparr>"

definition eof_error :: "error \<Rightarrow> bool" where
  "eof_error e \<longleftrightarrow> e = EOF \<or> e = ErrUnexpectedEOF"

definition dead :: "decoder \<Rightarrow> bool" where
  "dead d = (case d_err d of None \<Rightarrow> False | Some e \<Rightarrow> eof_error e)"

definition emits :: "(error, encoder) stmt \<Rightarrow> byte list \<Rightarrow> bool" where
  "emits c bs \<longleftrightarrow> (\<forall>b. c (bufenc b) = Ok (bufenc (b @ bs)))"

text \<open>The reader ended early: it returned an end-of-file error or recorded one.\<close>

definition failed :: "(decoder \<times> 'r) res \<Rightarrow> bool" where
  "failed m = (case m of Ok (d, r) \<Rightarrow> dead d | Err e \<Rightarrow> eof_error e | _ \<Rightarrow> False)"

definition sticky :: "(error, decoder \<times> 'r) stmt \<Rightarrow> bool" where
  "sticky s \<longleftrightarrow> (\<forall>d r. dead d \<longrightarrow> failed (s (d, r)))"

definition reads :: "byte list \<Rightarrow> (error, decoder \<times> 'r) stmt \<Rightarrow> 'r \<Rightarrow> 'r \<Rightarrow> bool" where
  "reads bs s r r' \<longleftrightarrow>
     (\<forall>rest. s (memdec (bs @ rest), r) = Ok (memdec rest, r')) \<and>
     (\<forall>p. proper_prefix p bs \<longrightarrow> failed (s (memdec p, r)))"

definition transfers ::
  "(error, encoder) stmt list \<Rightarrow> (error, decoder \<times> 'r) stmt list \<Rightarrow> 'r \<Rightarrow> 'r \<Rightarrow> bool"
where
  "transfers cs ss r r' \<longleftrightarrow>
     (\<exists>bs. emits (block cs) bs \<and> reads bs (block ss) r r') \<and> (\<forall>s \<in> set ss. sticky s)"

section \<open>Composition\<close>

lemma emitsI: "(\<And>b. c (bufenc b) = Ok (bufenc (b @ bs))) \<Longrightarrow> emits c bs"
  by (simp add: emits_def)

lemma emits_Nil: "emits (block []) []"
  by (simp add: emits_def)

lemma emits_append: "emits (block xs) bs \<Longrightarrow> emits (block ys) cs \<Longrightarrow> emits (block (xs @ ys)) (bs @ cs)"
  by (simp add: emits_def)

lemma emits_Cons: "emits c bs \<Longrightarrow> emits (block xs) cs \<Longrightarrow> emits (block (c # xs)) (bs @ cs)"
  by (simp add: emits_def)

lemma failed_simps [simp]:
  "failed (Ok (d, r)) = dead d" "failed (Err e) = eof_error e"
  "failed Panic = False" "failed NoFuel = False"
  by (simp_all add: failed_def)

lemma failed_bind:
  assumes "failed m" "\<And>d r. dead d \<Longrightarrow> failed (f (d, r))"
  shows "failed (obind m f)"
  using assms by (cases m) auto

lemma sticky_block: "(\<And>s. s \<in> set ss \<Longrightarrow> sticky s) \<Longrightarrow> sticky (block ss)"
proof (induction ss)
  case Nil
  then show ?case by (simp add: sticky_def failed_def)
next
  case (Cons s ss)
  then have "sticky s" "sticky (block ss)" by simp_all
  then show ?case by (auto simp: sticky_def intro!: failed_bind)
qed

lemma sticky_if_do [simp]: "list_all sticky ss \<Longrightarrow> sticky (if_do b ss)"
  using sticky_block[of ss] by (auto simp: sticky_def if_do_def list_all_iff)

lemma sticky_check_err [simp]: "sticky check_err"
  by (auto simp: sticky_def check_err_def failed_def dead_def split: option.splits)

lemma reads_Nil: "reads [] (block []) r r"
  by (simp add: reads_def)

lemma reads_append:
  assumes "reads bs (block ss) r r1" "reads cs (block ts) r1 r2" "\<And>s. s \<in> set ts \<Longrightarrow> sticky s"
  shows "reads (bs @ cs) (block (ss @ ts)) r r2"
  unfolding reads_def
proof (intro conjI allI impI)
  fix rest
  show "block (ss @ ts) (memdec ((bs @ cs) @ rest), r) = Ok (memdec rest, r2)"
    using assms(1,2) by (simp add: reads_def)
next
  fix p assume "proper_prefix p (bs @ cs)"
  then show "failed (block (ss @ ts) (memdec p, r))"
  proof (cases rule: proper_prefix_appendE)
    case outer
    with assms(1) have "failed (block ss (memdec p, r))" by (simp add: reads_def)
    moreover have "sticky (block ts)" by (rule sticky_block) (rule assms(3))
    ultimately show ?thesis by (auto simp: sticky_def intro!: failed_bind)
  next
    case (inner q)
    with assms(1,2) show ?thesis by (auto simp: reads_def)
  qed
qed

lemma transfers_Nil [codec_intros]: "transfers [] [] r r"
  by (auto simp: transfers_def intro!: exI[of _ "[]"] emits_Nil reads_Nil)

lemma transfers_append [codec_intros]:
  assumes "transfers cs ss r r1" "transfers ds ts r1 r2"
  shows "transfers (cs @ ds) (ss @ ts) r r2"
proof -
  from assms obtain bs bs' where
    "emits (block cs) bs" "reads bs (block ss) r r1" and
    "emits (block ds) bs'" "reads bs' (block ts) r1 r2"
    by (auto simp: transfers_def)
  moreover have "\<And>s. s \<in> set ts \<Longrightarrow> sticky s" using assms(2) by (simp add: transfers_def)
  ultimately have "emits (block (cs @ ds)) (bs @ bs')" "reads (bs @ bs') (block (ss @ ts)) r r2"
    by (blast intro: emits_append reads_append)+
  with assms show ?thesis by (auto simp: transfers_def)
qed

text \<open>One encoder statement read back by one decoder statement.\<close>

definition pairs ::
  "(error, encoder) stmt \<Rightarrow> (error, decoder \<times> 'r) stmt \<Rightarrow> 'r \<Rightarrow> 'r \<Rightarrow> bool"
where
  "pairs c s r r' \<longleftrightarrow> transfers [c] [s] r r'"

lemma pairsI:
  assumes "emits c bs" "reads bs s r r'" "sticky s"
  shows "pairs c s r r'"
proof -
  have "emits (block [c]) bs" "reads bs (block [s]) r r'"
    using assms(1,2) by simp_all
  with assms(3) show ?thesis unfolding pairs_def transfers_def by auto
qed

lemma transfers_Cons [codec_intros]:
  assumes "pairs c s r r1" "transfers ds ts r1 r2"
  shows "transfers (c # ds) (s # ts) r r2"
  using transfers_append[of "[c]" "[s]" r r1 ds ts r2] assms by (simp add: pairs_def)

section \<open>Primitive values\<close>

lemma eof_error_simps [simp]: "eof_error EOF" "eof_error ErrUnexpectedEOF"
  by (simp_all add: eof_error_def)

lemma dead_simps [simp]:
  "dead \<lparr>d_r = r, d_err = None\<rparr> = False"
  "dead \<lparr>d_r = r, d_err = Some e\<rparr> = eof_error e"
  by (simp_all add: dead_def)

lemma dead_err: "dead d \<Longrightarrow> d_err d \<noteq> None"
  by (auto simp: dead_def split: option.splits)

text \<open>A decoder that keeps a recorded error and reads nothing after it.\<close>

definition inert :: "(decoder \<Rightarrow> 'a \<times> decoder) \<Rightarrow> bool" where
  "inert dec \<longleftrightarrow> (\<forall>d. d_err d \<noteq> None \<longrightarrow> snd (dec d) = d)"

lemma sticky_read_field: "inert dec \<Longrightarrow> sticky (read_field dec upd)"
  using dead_err by (fastforce simp: sticky_def read_field_def inert_def split_beta)

lemma inert_decode_fixed [simp]: "inert (decode_fixed n)"
  by (simp add: inert_def decode_fixed_def)

lemma inert_prims [simp]:
  "inert DecodeInt8" "inert DecodeInt16" "inert DecodeInt32" "inert DecodeUint32"
  "inert DecodeInt64"
  by (simp_all add: DecodeInt8_def DecodeInt16_def DecodeInt32_def DecodeUint32_def DecodeInt64_def)

lemma inert_DecodeDuration32 [simp]: "inert DecodeDuration32"
  using inert_prims(3) by (simp add: inert_def DecodeDuration32_def split_beta)

lemma inert_DecodeString [simp]: "inert DecodeString"
  by (simp add: inert_def DecodeString_def)

lemma inert_DecodeBytes [simp]: "inert DecodeBytes"
  by (simp add: inert_def DecodeBytes_def)

lemmas sticky_read_prims [simp] =
  sticky_read_field[OF inert_prims(1)] sticky_read_field[OF inert_prims(2)]
  sticky_read_field[OF inert_prims(3)] sticky_read_field[OF inert_prims(4)]
  sticky_read_field[OF inert_prims(5)] sticky_read_field[OF inert_DecodeDuration32]
  sticky_read_field[OF inert_DecodeString] sticky_read_field[OF inert_DecodeBytes]

lemma sticky_skip_field [simp]: "inert dec \<Longrightarrow> sticky (skip_field dec)"
  by (simp add: skip_field_def sticky_read_field)

text \<open>What one decoder reads from the bytes of a value, whatever follows them.\<close>

definition decodes :: "byte list \<Rightarrow> (decoder \<Rightarrow> 'a \<times> decoder) \<Rightarrow> 'a \<Rightarrow> bool" where
  "decodes bs dec x \<longleftrightarrow>
     (\<forall>rest. dec (memdec (bs @ rest)) = (x, memdec rest)) \<and>
     (\<forall>p. proper_prefix p bs \<longrightarrow> dead (snd (dec (memdec p))))"

lemma decodesD: "decodes bs dec x \<Longrightarrow> dec (memdec (bs @ rest)) = (x, memdec rest)"
  by (simp add: decodes_def)

lemma reads_read_field: "decodes bs dec x \<Longrightarrow> reads bs (read_field dec upd) r (upd x r)"
  by (simp add: decodes_def reads_def read_field_def split_beta)

lemma decodes_fixed:
  assumes "length bs = n"
  shows "decodes bs (decode_fixed n) (be_word bs)"
  using assms
  by (auto simp: decodes_def decode_fixed_def dest!: proper_prefix_length simp: ReadFull_short)

lemma emits_prims:
  "emits (EncodeInt8 a) [a]" "emits (EncodeInt16 b) (PutUint16 b)"
  "emits (EncodeInt32 c) (PutUint32 c)" "emits (EncodeUint32 c) (PutUint32 c)"
  "emits (EncodeInt64 d) (PutUint64 d)"
  "emits (EncodeDuration t) (PutUint32 (ucast (quot64 t Millisecond)))"
  by (simp_all add: emits_def EncodeInt8_def EncodeInt16_def EncodeInt32_def EncodeUint32_def
      EncodeInt64_def EncodeDuration_def enc_write_def enc_write_once_def writeAll_def)

lemma decodes_prims:
  "decodes [a] DecodeInt8 a" "decodes (PutUint16 b) DecodeInt16 b"
  "decodes (PutUint32 c) DecodeInt32 c" "decodes (PutUint32 c) DecodeUint32 c"
  "decodes (PutUint64 d) DecodeInt64 d"
  using decodes_fixed[of "[a]" 1, where 'a = 8] decodes_fixed[of "PutUint16 b" 2, where 'a = 16]
    decodes_fixed[of "PutUint32 c" 4, where 'a = 32] decodes_fixed[of "PutUint64 d" 8, where 'a = 64]
  by (simp_all add: DecodeInt8_def DecodeInt16_def DecodeInt32_def DecodeUint32_def DecodeInt64_def
      be_word_def[of "[a]"])

lemma decodes_Duration:
  "decodes (PutUint32 (ucast (quot64 t Millisecond))) DecodeDuration32 (wire_duration t)"
  using decodes_prims(3)[of "ucast (quot64 t Millisecond)"]
  by (simp add: decodes_def DecodeDuration32_def wire_duration_def split_beta)

text \<open>A length prefix followed by that many bytes of payload.\<close>

lemma read_payload_append:
  "length b = n \<Longrightarrow> read_payload n (memdec (b @ rest)) = (Some b, memdec rest)"
  by (simp add: read_payload_def)

lemma read_payload_short:
  "length p < n \<Longrightarrow> dead (snd (read_payload n (memdec p)))"
  by (simp add: read_payload_def ReadFull_short)

lemma string_buffer_eq:
  "0 < n \<Longrightarrow> n \<le> maxInt32 \<Longrightarrow> string_buffer n d = read_payload (nat n) d"
  by (simp add: string_buffer_def allocParseBuf_def maxParseBufSize_def)

definition wf_string :: "gostring \<Rightarrow> bool" where
  "wf_string s \<longleftrightarrow> length s < 32768"

lemma decodes_prefixed:
  assumes dec: "\<And>d. dec d = (let (n, d) = pre d in
      if d_err d \<noteq> None then (z, d) else if sint n < 1 then (z, d) else pay (sint n) d)"
    and pre: "decodes pbs pre w" and w: "sint w = int (length b)"
    and empty: "b = [] \<Longrightarrow> x = z"
    and pay: "\<And>rest. b \<noteq> [] \<Longrightarrow> pay (int (length b)) (memdec (b @ rest)) = (x, memdec rest)"
    and short: "\<And>p. length p < length b \<Longrightarrow> dead (snd (pay (int (length b)) (memdec p)))"
  shows "decodes (pbs @ b) dec x"
  unfolding decodes_def
proof (intro conjI allI impI)
  fix rest
  show "dec (memdec ((pbs @ b) @ rest)) = (x, memdec rest)"
  proof (cases "b = []")
    case True
    then show ?thesis using w empty by (simp add: dec decodesD[OF pre])
  next
    case False
    then have "\<not> int (length b) < 1" by (cases b) simp_all
    then show ?thesis using w pay[OF False] by (simp add: dec decodesD[OF pre])
  qed
next
  fix p assume "proper_prefix p (pbs @ b)"
  then show "dead (snd (dec (memdec p)))"
  proof (cases rule: proper_prefix_appendE)
    case outer
    with pre have "dead (snd (pre (memdec p)))" by (simp add: decodes_def)
    then show ?thesis by (simp add: dec dead_err split_beta)
  next
    case (inner q)
    then have "length q < length b" by (simp add: proper_prefix_length)
    moreover from this have "\<not> int (length b) < 1" by linarith
    ultimately show ?thesis using w short by (simp add: inner dec decodesD[OF pre])
  qed
qed

lemma decodes_String:
  assumes "wf_string s"
  shows "decodes (PutUint16 (of_nat (length s)) @ s) DecodeString s"
proof -
  have sl: "sint (of_nat (length s) :: int16) = int (length s)"
    using assms by (simp add: wf_string_def sint_of_nat_16)
  have sb: "string_buffer (int (length s)) d = read_payload (length s) d" if "s \<noteq> []" for d
    using assms that by (simp add: string_buffer_eq wf_string_def maxInt32_def)
  have "decodes (PutUint16 (of_nat (length s)) @ s)
     (\<lambda>d. let (slen, d) = DecodeInt16 d
           in if d_err d \<noteq> None then ([], d)
              else if sint slen < 1 then ([], d)
              else let (b, d) = string_buffer (sint slen) d in (bytes_of b, d)) s"
    by (rule decodes_prefixed[OF refl decodes_prims(2) sl])
      (use sb read_payload_short in \<open>fastforce simp: read_payload_append split_beta Let_def\<close>)+
  then show ?thesis by (simp add: decodes_def DecodeString_def)
qed

lemma emits_String: "emits (EncodeString s) (PutUint16 (of_nat (length s)) @ s)"
  by (simp add: emits_def EncodeString_def enc_write_def writeAll_def)

text \<open>The empty and the nil byte slice are both read back as nil.\<close>

definition wf_bytes :: "gobytes \<Rightarrow> bool" where
  "wf_bytes b \<longleftrightarrow> length (bytes_of b) < 2147483648"

definition norm_bytes :: "gobytes \<Rightarrow> gobytes" where
  "norm_bytes b = (if bytes_of b = [] then None else b)"

definition bytes_wire :: "gobytes \<Rightarrow> byte list" where
  "bytes_wire b =
     (case b of None \<Rightarrow> PutUint32 (- 1) | Some xs \<Rightarrow> PutUint32 (of_nat (length xs)) @ xs)"

lemma emits_Bytes: "emits (EncodeBytes b) (bytes_wire b)"
  by (simp add: emits_def EncodeBytes_def bytes_wire_def enc_write_def writeAll_def
      split: option.splits)

lemma decodes_Bytes:
  assumes "wf_bytes b"
  shows "decodes (bytes_wire b) DecodeBytes (norm_bytes b)"
proof (cases b)
  case None
  then show ?thesis
    using decodes_prims(3)[of "- 1"]
    by (auto simp: decodes_def DecodeBytes_def bytes_wire_def norm_bytes_def split_beta dead_err)
next
  case (Some xs)
  have sl: "sint (of_nat (length xs) :: int32) = int (length xs)"
    using assms Some by (simp add: wf_bytes_def sint_of_nat_32)
  have al: "allocParseBuf (int (length xs)) = Inr (replicate (length xs) 0)"
    using assms Some
    by (simp add: wf_bytes_def allocParseBuf_def maxParseBufSize_def maxInt32_def)
  have "decodes (PutUint32 (of_nat (length xs)) @ xs)
     (\<lambda>d. let (slen, d) = DecodeInt32 d
           in if d_err d \<noteq> None then (None, d)
              else if sint slen < 1 then (None, d)
              else case allocParseBuf (sint slen) of
                     Inl err \<Rightarrow> (None, d\<lparr>d_err := Some err\<rparr>)
                   | Inr b \<Rightarrow> read_payload (length b) d) (norm_bytes b)"
    by (rule decodes_prefixed[OF refl decodes_prims(3) sl])
      (simp_all add: al read_payload_append read_payload_short norm_bytes_def Some)
  then show ?thesis by (simp add: decodes_def DecodeBytes_def bytes_wire_def Some)
qed

lemma emits_Error:
  assumes "wire_error err"
  shows "emits (EncodeError err) (PutUint16 (case err of Some (KafkaErr e) \<Rightarrow> errno e | _ \<Rightarrow> 0))"
  using assms by (auto simp: emits_def EncodeError_def wire_error_def enc_write_def writeAll_def
      split: option.splits error.splits)

lemma errFromNo_wire:
  "wire_error err \<Longrightarrow> errFromNo (case err of Some (KafkaErr e) \<Rightarrow> errno e | _ \<Rightarrow> 0) = err"
  by (auto simp: wire_error_def errFromNo_errno split: option.splits error.splits)

section \<open>Rules for fields\<close>

lemma pairs_read_field:
  assumes "emits c bs" "decodes bs dec x" "inert dec"
  shows "pairs c (read_field dec upd) r (upd x r)"
  using assms by (intro pairsI reads_read_field sticky_read_field)

lemmas pairs_prims [codec_intros] =
  pairs_read_field[OF emits_prims(1) decodes_prims(1) inert_prims(1)]
  pairs_read_field[OF emits_prims(2) decodes_prims(2) inert_prims(2)]
  pairs_read_field[OF emits_prims(3) decodes_prims(3) inert_prims(3)]
  pairs_read_field[OF emits_prims(4) decodes_prims(4) inert_prims(4)]
  pairs_read_field[OF emits_prims(5) decodes_prims(5) inert_prims(5)]
  pairs_read_field[OF emits_prims(6) decodes_Duration inert_DecodeDuration32]

lemma pairs_skip [codec_intros]:
  assumes "\<And>upd :: 'a \<Rightarrow> 'r \<Rightarrow> 'r. pairs c (read_field dec upd) r (upd x r)"
  shows "pairs c (skip_field dec) r r"
  using assms[of "\<lambda>_ r. r"] by (simp add: skip_field_def)

lemma pairs_String [codec_intros]:
  "wf_string s \<Longrightarrow> pairs (EncodeString s) (read_field DecodeString upd) r (upd s r)"
  by (rule pairs_read_field[OF emits_String decodes_String inert_DecodeString])

lemma pairs_Bytes [codec_intros]:
  "wf_bytes b \<Longrightarrow> pairs (EncodeBytes b) (read_field DecodeBytes upd) r (upd (norm_bytes b) r)"
  by (rule pairs_read_field[OF emits_Bytes decodes_Bytes inert_DecodeBytes])

text \<open>An error field is the \<open>int16\<close> of its number, mapped through \<open>errFromNo\<close>.\<close>

definition read_error :: "(goerror \<Rightarrow> 'r \<Rightarrow> 'r) \<Rightarrow> (error, decoder \<times> 'r) stmt" where
  "read_error upd = read_field DecodeInt16 (\<lambda>n. upd (errFromNo n))"

lemma sticky_read_error [simp]: "sticky (read_error upd)"
  by (simp add: read_error_def sticky_read_field)

lemma pairs_Error [codec_intros]:
  assumes "wire_error err"
  shows "pairs (EncodeError err) (read_error upd) r (upd err r)"
  using pairs_read_field[OF emits_Error[OF assms] decodes_prims(2) inert_prims(2),
      of "\<lambda>n. upd (errFromNo n)" r] errFromNo_wire[OF assms]
  by (simp add: read_error_def)

text \<open>A flag is an \<open>int8\<close>; the readers test it with \<open>!= 0\<close> or \<open>== 1\<close>.\<close>

definition boolToInt8 :: "bool \<Rightarrow> int8" where
  "boolToInt8 val = (let res = 0 in if val then 1 else res)"

definition read_nonzero :: "(bool \<Rightarrow> 'r \<Rightarrow> 'r) \<Rightarrow> (error, decoder \<times> 'r) stmt" where
  "read_nonzero upd = read_field DecodeInt8 (\<lambda>b. upd (b \<noteq> 0))"

definition read_is_one :: "(bool \<Rightarrow> 'r \<Rightarrow> 'r) \<Rightarrow> (error, decoder \<times> 'r) stmt" where
  "read_is_one upd = read_field DecodeInt8 (\<lambda>b. upd (b = 1))"

lemma sticky_read_bool [simp]: "sticky (read_nonzero upd)" "sticky (read_is_one upd)"
  by (simp_all add: read_nonzero_def read_is_one_def sticky_read_field)

lemma pairs_bool [codec_intros]:
  "pairs (EncodeInt8 (boolToInt8 b)) (read_nonzero upd) r (upd b r)"
  "pairs (EncodeInt8 (boolToInt8 b)) (read_is_one upd) r (upd b r)"
  using pairs_read_field[OF emits_prims(1) decodes_prims(1) inert_prims(1),
      of "boolToInt8 b" "\<lambda>x. upd (x \<noteq> 0)" r]
    pairs_read_field[OF emits_prims(1) decodes_prims(1) inert_prims(1),
      of "boolToInt8 b" "\<lambda>x. upd (x = 1)" r]
  by (cases b; simp add: read_nonzero_def read_is_one_def boolToInt8_def)+

section \<open>Rules for conditionals and arrays\<close>

lemma pairs_if_do [codec_intros]:
  assumes "\<And>d. c (d, r) = b"
    and "b \<Longrightarrow> transfers cs ss r r'" and "list_all sticky ss"
  shows "pairs (if_do (\<lambda>_. b) cs) (if_do c ss) r (if b then r' else r)"
proof (cases b)
  case True
  with assms(2) obtain bs where bs: "emits (block cs) bs" "reads bs (block ss) r r'"
    by (auto simp: transfers_def)
  have "emits (if_do (\<lambda>_. b) cs) bs" "reads bs (if_do c ss) r r'"
    using bs True assms(1) by (simp_all add: emits_def reads_def if_do_def)
  with True assms(3) show ?thesis by (auto intro!: pairsI sticky_if_do)
next
  case False
  have "emits (if_do (\<lambda>_. b) cs) []" "reads [] (if_do c ss) r r"
    using False assms(1) by (simp_all add: emits_def reads_def if_do_def)
  with False assms(3) show ?thesis by (auto intro!: pairsI sticky_if_do)
qed

lemma sticky_if_else [simp]:
  "list_all sticky ss \<Longrightarrow> list_all sticky ts \<Longrightarrow> sticky (if_else b ss ts)"
  using sticky_block[of ss] sticky_block[of ts] by (auto simp: sticky_def if_else_def list_all_iff)

lemma pairs_if_else [codec_intros]:
  assumes "\<And>d. c (d, r) = b"
    and "b \<Longrightarrow> transfers cs ss r r1" and "\<not> b \<Longrightarrow> transfers ds ts r r2"
    and "list_all sticky ss" "list_all sticky ts"
  shows "pairs (if_else (\<lambda>_. b) cs ds) (if_else c ss ts) r (if b then r1 else r2)"
proof -
  have "transfers (if b then cs else ds) (if b then ss else ts) r (if b then r1 else r2)"
    using assms(2,3) by simp
  then obtain bs where "emits (block (if b then cs else ds)) bs"
      "reads bs (block (if b then ss else ts)) r (if b then r1 else r2)"
    unfolding transfers_def by blast
  then have "emits (if_else (\<lambda>_. b) cs ds) bs"
      "reads bs (if_else c ss ts) r (if b then r1 else r2)"
    using assms(1) by (simp_all add: emits_def reads_def if_else_def split: if_splits)
  with assms(4,5) show ?thesis by (intro pairsI) simp_all
qed

text \<open>\<open>enc.EncodeArrayLen(len(xs)); for _, x := range xs { ... }\<close>\<close>

definition write_array :: "('a \<Rightarrow> (error, encoder) stmt list) \<Rightarrow> 'a list \<Rightarrow> (error, encoder) stmt"
where
  "write_array f xs =
     block (EncodeArrayLen (int (length xs)) # map (\<lambda>x. block (f x)) xs)"

definition wf_array :: "'a list \<Rightarrow> bool" where
  "wf_array xs \<longleftrightarrow> length xs < 2147483648"

lemma decodes_ArrayLen:
  assumes "n < 2147483648"
  shows "decodes (PutUint32 (of_nat n)) DecodeArrayLen (int n, None)"
  using decodes_prims(3)[of "of_nat n"] assms
  by (simp add: decodes_def DecodeArrayLen_def split_beta Let_def sint_of_nat_32
      maxParseBufSize_def maxInt32_def)

lemma dead_DecodeArrayLen: "dead d \<Longrightarrow> DecodeArrayLen d = ((0, None), d)"
  by (auto simp: DecodeArrayLen_def DecodeInt32_def decode_fixed_def dead_err maxParseBufSize_def
      maxInt32_def)

lemma DecodeArrayLen_short:
  "length p < 4 \<Longrightarrow> \<exists>d. DecodeArrayLen (memdec p) = ((0, None), d) \<and> dead d"
  by (simp add: DecodeArrayLen_def DecodeInt32_def decode_fixed_def ReadFull_short
      maxParseBufSize_def maxInt32_def)

lemma make_len_int [simp]: "make_len (int n) = Ok n"
  by (simp add: make_len_def)

lemma sticky_read_array [simp]: "sticky (read_array elem upd)"
  by (simp add: sticky_def read_array_def dead_DecodeArrayLen make_len_def)

lemma sticky_read_array_unchecked [simp]: "sticky (read_array_unchecked elem upd)"
  by (simp add: sticky_def read_array_unchecked_def dead_DecodeArrayLen make_len_def)

text \<open>
  What the element reader of an array makes of the bytes of one element, and that it keeps
  a recorded end-of-file error.
\<close>

definition elem_reads :: "byte list \<Rightarrow> (decoder \<Rightarrow> (decoder \<times> 'a) res) \<Rightarrow> 'a \<Rightarrow> bool" where
  "elem_reads bs elem x \<longleftrightarrow>
     (\<forall>rest. elem (memdec (bs @ rest)) = Ok (memdec rest, x)) \<and>
     (\<forall>p. proper_prefix p bs \<longrightarrow> failed (elem (memdec p))) \<and>
     (\<forall>d. dead d \<longrightarrow> failed (elem d))"

lemma for_range_failed:
  assumes "\<And>d. dead d \<Longrightarrow> failed (elem d)" "dead d"
  shows "failed (for_range n elem d)"
  using assms(2)
proof (induction n arbitrary: d)
  case (Suc n)
  have tail: "failed (obind (for_range n elem d') (\<lambda>(d, xs). Ok (d, x # xs)))" if "dead d'" for d' x
    by (rule failed_bind) (use Suc.IH[OF that] in auto)
  show ?case
    unfolding for_range.simps
    by (rule failed_bind[OF assms(1)[OF Suc.prems]]) (simp add: tail)
qed simp

lemma for_range_reads:
  assumes "list_all2 (\<lambda>bs x. elem_reads bs elem x) bss xs"
  shows "elem_reads (concat bss) (for_range (length xs) elem) xs"
  using assms
proof (induction rule: list_all2_induct)
  case Nil
  then show ?case by (simp add: elem_reads_def)
next
  case (Cons bs bss x xs)
  then have dd: "\<And>d. dead d \<Longrightarrow> failed (elem d)" by (simp add: elem_reads_def)
  have tail: "failed (obind (for_range (length xs) elem d) (\<lambda>(d, xs). Ok (d, x # xs)))"
    if "failed (for_range (length xs) elem d)" for d and x
    by (rule failed_bind[OF that]) simp
  have head: "failed (for_range (Suc (length xs)) elem d)" if "failed (elem d)" for d
    unfolding for_range.simps
    by (rule failed_bind[OF that]) (auto intro!: tail for_range_failed[OF dd])
  show ?case
    unfolding elem_reads_def
  proof (intro conjI allI impI)
    fix rest
    show "for_range (length (x # xs)) elem (memdec (concat (bs # bss) @ rest)) =
        Ok (memdec rest, x # xs)"
      using Cons by (simp add: elem_reads_def)
  next
    fix p assume "proper_prefix p (concat (bs # bss))"
    then have "proper_prefix p (bs @ concat bss)" by simp
    then show "failed (for_range (length (x # xs)) elem (memdec p))"
    proof (cases rule: proper_prefix_appendE)
      case outer
      with Cons(1) have "failed (elem (memdec p))" by (simp add: elem_reads_def)
      then show ?thesis using head by simp
    next
      case (inner q)
      with Cons have "failed (for_range (length xs) elem (memdec q))"
        by (simp add: elem_reads_def)
      with Cons(1) inner tail show ?thesis by (simp add: elem_reads_def)
    qed
  next
    fix d assume "dead d"
    then show "failed (for_range (length (x # xs)) elem d)" using head dd by simp
  qed
qed

lemma emits_map_block:
  assumes "list_all2 (\<lambda>c bs. emits c bs) cs bss"
  shows "emits (block cs) (concat bss)"
  using assms by (induction rule: list_all2_induct) (auto simp: emits_def)

lemma emits_array:
  assumes "\<And>x. x \<in> set xs \<Longrightarrow> emits (block (f x)) (w x)"
  shows "emits (write_array f xs) (PutUint32 (of_nat (length xs)) @ concat (map w xs))"
proof -
  have "emits (block (map (\<lambda>x. block (f x)) xs)) (concat (map w xs))"
    by (rule emits_map_block) (use assms in \<open>auto simp: list_all2_conv_all_nth\<close>)
  then show ?thesis
    unfolding write_array_def EncodeArrayLen_def
    using emits_Cons[OF emits_prims(3), of _ _ "of_int (int (length xs))"] by simp
qed

text \<open>The array rule: elements that transfer one by one make arrays that transfer.\<close>

lemma pairs_array:
  assumes wf: "wf_array xs"
    and elem: "\<And>x. x \<in> set xs \<Longrightarrow> \<exists>bs. emits (block (f x)) bs \<and> elem_reads bs elem (g x)"
  shows "pairs (write_array f xs) (read_array elem upd) r (upd (map g xs) r)"
proof -
  from elem obtain w where w: "\<And>x. x \<in> set xs \<Longrightarrow> emits (block (f x)) (w x) \<and> elem_reads (w x) elem (g x)"
    by metis
  have em: "emits (write_array f xs) (PutUint32 (of_nat (length xs)) @ concat (map w xs))"
    by (rule emits_array) (simp add: w)
  have fr: "elem_reads (concat (map w xs)) (for_range (length xs) elem) (map g xs)"
    using for_range_reads[of elem "map w xs" "map g xs"] w
    by (auto simp: list_all2_conv_all_nth)
  have len: "decodes (PutUint32 (of_nat (length xs))) DecodeArrayLen (int (length xs), None)"
    using wf by (intro decodes_ArrayLen) (simp add: wf_array_def)
  have "reads (PutUint32 (of_nat (length xs)) @ concat (map w xs)) (read_array elem upd) r
      (upd (map g xs) r)"
    unfolding reads_def
  proof (intro conjI allI impI)
    fix rest
    show "read_array elem upd (memdec ((PutUint32 (of_nat (length xs)) @ concat (map w xs)) @ rest), r) =
        Ok (memdec rest, upd (map g xs) r)"
      using fr by (simp add: read_array_def decodesD[OF len] elem_reads_def)
  next
    fix p assume "proper_prefix p (PutUint32 (of_nat (length xs)) @ concat (map w xs))"
    then show "failed (read_array elem upd (memdec p, r))"
    proof (cases rule: proper_prefix_appendE)
      case outer
      then have "length p < 4" by (auto dest: proper_prefix_length)
      then obtain d' where "DecodeArrayLen (memdec p) = ((0, None), d')" "dead d'"
        using DecodeArrayLen_short by blast
      then show ?thesis by (simp add: read_array_def make_len_def)
    next
      case (inner q)
      then have "failed (for_range (length xs) elem (memdec q))"
        using fr by (simp add: elem_reads_def)
      then have "failed (obind (for_range (length xs) elem (memdec q)) (\<lambda>(d, xs). Ok (d, upd xs r)))"
        by (rule failed_bind) simp
      then show ?thesis by (simp add: inner read_array_def decodesD[OF len])
    qed
  qed
  with em show ?thesis by (intro pairsI sticky_read_array)
qed

lemma elem_reads_struct:
  assumes "transfers cs body zero x"
  shows "\<exists>bs. emits (block cs) bs \<and> elem_reads bs (struct body zero) x"
proof -
  from assms obtain bs where "emits (block cs) bs" "reads bs (block body) zero x"
    by (auto simp: transfers_def)
  moreover have "sticky (block body)"
    using assms by (intro sticky_block) (simp add: transfers_def)
  ultimately show ?thesis
    by (auto simp: elem_reads_def struct_def reads_def sticky_def)
qed

lemma elem_reads_prim: "decodes bs dec x \<Longrightarrow> inert dec \<Longrightarrow> elem_reads bs (prim dec) x"
  using dead_err
  by (fastforce simp: decodes_def elem_reads_def prim_def inert_def split_beta)

lemma pairs_Int32s [codec_intros]:
  assumes "wf_array xs"
  shows "pairs (EncodeInt32s xs) (read_array (prim DecodeInt32) upd) r (upd xs r)"
proof -
  have "pairs (write_array (\<lambda>x. [EncodeInt32 x]) xs) (read_array (prim DecodeInt32) upd) r
      (upd (map (\<lambda>x. x) xs) r)"
    using emits_prims(3) decodes_prims(3)
    by (intro pairs_array assms) (auto intro!: exI elem_reads_prim)
  then show ?thesis
    by (simp add: write_array_def EncodeInt32s_def pairs_def transfers_def emits_def)
qed

lemma pairs_Int64s [codec_intros]:
  assumes "wf_array xs"
  shows "pairs (EncodeInt64s xs) (read_array (prim DecodeInt64) upd) r (upd xs r)"
proof -
  have "pairs (write_array (\<lambda>x. [EncodeInt64 x]) xs) (read_array (prim DecodeInt64) upd) r
      (upd (map (\<lambda>x. x) xs) r)"
    using emits_prims(5) decodes_prims(5)
    by (intro pairs_array assms) (auto intro!: exI elem_reads_prim)
  then show ?thesis
    by (simp add: write_array_def EncodeInt64s_def pairs_def transfers_def emits_def)
qed

lemma pairs_Strings [codec_intros]:
  assumes "wf_array xs" "list_all wf_string xs"
  shows "pairs (block (EncodeArrayLen (int (length xs)) # map EncodeString xs))
    (read_array (prim DecodeString) upd) r (upd xs r)"
proof -
  have "pairs (write_array (\<lambda>x. [EncodeString x]) xs) (read_array (prim DecodeString) upd) r
      (upd (map (\<lambda>x. x) xs) r)"
    using emits_String decodes_String assms(2)
    by (intro pairs_array assms(1)) (auto simp: list_all_iff intro!: exI elem_reads_prim)
  then show ?thesis by (simp add: write_array_def)
qed

text \<open>An array length of -1, sent for "all topics", is read as the empty array.\<close>

lemma pairs_null_array:
  "pairs (EncodeArrayLen (- 1)) (read_array elem upd) r (upd [] r)"
proof (rule pairsI)
  show "emits (EncodeArrayLen (- 1)) (PutUint32 (- 1))"
    using emits_prims(3)[of "- 1"] by (simp add: EncodeArrayLen_def)
  have "decodes (PutUint32 (- 1)) DecodeArrayLen (0, None)"
    using decodes_prims(3)[of "- 1"] by (simp add: decodes_def DecodeArrayLen_def split_beta Let_def)
  then show "reads (PutUint32 (- 1)) (read_array elem upd) r (upd [] r)"
    using DecodeArrayLen_short
    by (fastforce simp: reads_def decodes_def read_array_def make_len_def dest!: proper_prefix_length)
qed simp

text \<open>\<open>DecodeArrayLen\<close> never returns an error, so dropping it changes nothing.\<close>

lemma DecodeArrayLen_no_error: "snd (fst (DecodeArrayLen d)) = None"
  using sint32_le_max[of "fst (DecodeInt32 d)"]
  by (simp add: DecodeArrayLen_def split_beta Let_def maxParseBufSize_def maxInt32_def)

lemma read_array_unchecked_eq: "read_array_unchecked elem upd = read_array elem upd"
proof (rule ext)
  fix s
  show "read_array_unchecked elem upd s = read_array elem upd s"
    using DecodeArrayLen_no_error[of "fst s"]
    by (auto simp: read_array_unchecked_def read_array_def split: prod.splits option.splits)
qed

section \<open>Statements that read the structure filled so far\<close>

text \<open>The readers of requests branch on the version they have just read.\<close>

definition dep ::
  "('r \<Rightarrow> 'k) \<Rightarrow> ('k \<Rightarrow> (error, decoder \<times> 'r) stmt) \<Rightarrow> (error, decoder \<times> 'r) stmt"
where
  "dep key f s = f (key (snd s)) s"

lemma sticky_dep [simp]: "(\<And>k. sticky (f k)) \<Longrightarrow> sticky (dep key f)"
  by (simp add: sticky_def dep_def)

lemma pairs_dep:
  assumes "key r = k" "pairs c (f k) r r'" "\<And>k. sticky (f k)"
  shows "pairs c (dep key f) r r'"
proof -
  from assms(2) obtain bs where "emits c bs" "reads bs (f k) r r'"
    by (auto simp: pairs_def transfers_def)
  then show ?thesis
    using assms(1) by (intro pairsI sticky_dep assms(3)) (auto simp: reads_def dep_def)
qed

section \<open>The interface of a structure inside a message\<close>

text \<open>
  \<open>enc\<close> writes a value, \<open>dec\<close> fills one from \<open>zero\<close>; \<open>norm\<close> is what survives the version in
  use and \<open>wf\<close> bounds the lengths by what their prefixes can express.
\<close>

locale struct_codec =
  fixes enc :: "'a \<Rightarrow> (error, encoder) stmt list"
    and dec :: "(error, decoder \<times> 'a) stmt list"
    and zero :: 'a
    and norm :: "'a \<Rightarrow> 'a"
    and wf :: "'a \<Rightarrow> bool"
  assumes transfer: "wf x \<Longrightarrow> transfers (enc x) dec zero (norm x)"
begin

lemma array:
  assumes "wf_array xs" "list_all wf xs"
  shows "pairs (write_array enc xs) (read_array (struct dec zero) upd) r (upd (map norm xs) r)"
  using assms by (intro pairs_array elem_reads_struct transfer) (auto simp: list_all_iff)

end

text \<open>A structure whose layout depends on the protocol version.\<close>

locale versioned_struct =
  fixes enc :: "int16 \<Rightarrow> 'a \<Rightarrow> (error, encoder) stmt list"
    and dec :: "int16 \<Rightarrow> (error, decoder \<times> 'a) stmt list"
    and zero :: 'a
    and norm :: "int16 \<Rightarrow> 'a \<Rightarrow> 'a"
    and wf :: "'a \<Rightarrow> bool"
  assumes transfer_version: "wf x \<Longrightarrow> transfers (enc v x) (dec v) zero (norm v x)"

sublocale versioned_struct \<subseteq> struct_codec "enc v" "dec v" zero "norm v" wf for v
  by unfold_locales (rule transfer_version)

context versioned_struct
begin

lemma dep_array:
  assumes "key r = v" "wf_array xs" "list_all wf xs"
  shows "pairs (write_array (enc v) xs)
    (dep key (\<lambda>v. read_array (struct (dec v) zero) upd)) r (upd (map (norm v) xs) r)"
proof (rule pairs_dep)
  show "key r = v" by (rule assms(1))
  show "pairs (write_array (enc v) xs) (read_array (struct (dec v) zero) upd) r
      (upd (map (norm v) xs) r)"
    by (rule array[OF assms(2,3)])
qed simp

end

section \<open>The interface of a message\<close>

lemma frame_length: "length (frame body) = length body + 4"
  by (simp add: frame_def)

lemma run_bytes_frame:
  assumes "emits (block cs) body"
  shows "run_bytes (EncodeInt32 0 # cs) = Ok (frame body)"
proof -
  have "emits (block (EncodeInt32 0 # cs)) (PutUint32 0 @ body)"
    by (rule emits_Cons[OF emits_prims(3) assms])
  then show ?thesis
    by (simp add: run_bytes_def NewEncoder_def emits_def writer_bytes_def frame_def)
qed

lemma run_reader_reads:
  assumes "reads bs (block body) zero x"
  shows "run_reader body zero (NewReader bs) = Ok x"
    and "proper_prefix p bs \<Longrightarrow> \<exists>e. run_reader body zero (NewReader p) = Err e \<and> eof_error e"
proof -
  have "block body (memdec (bs @ []), zero) = Ok (memdec [], x)"
    using assms unfolding reads_def by blast
  then show "run_reader body zero (NewReader bs) = Ok x"
    by (simp add: run_reader_def NewDecoder_def NewReader_def check_err_def)
next
  assume "proper_prefix p bs"
  with assms have "failed (block body (memdec p, zero))" by (simp add: reads_def)
  then show "\<exists>e. run_reader body zero (NewReader p) = Err e \<and> eof_error e"
    by (cases "block body (memdec p, zero)")
      (auto simp: run_reader_def NewDecoder_def NewReader_def check_err_def dead_def
        split: option.splits)
qed

text \<open>
  A message of the protocol: \<open>Bytes\<close> writes it as one frame, the reader gives it back up to
  \<open>norm\<close>, and every truncated frame is rejected with an end-of-file error.
\<close>

definition rejects :: "(reader \<Rightarrow> 'm res) \<Rightarrow> byte list \<Rightarrow> bool" where
  "rejects read bs \<longleftrightarrow> (\<forall>p. proper_prefix p bs \<longrightarrow> (\<exists>e. read (NewReader p) = Err e \<and> eof_error e))"

definition round_trips :: "byte list res \<Rightarrow> (reader \<Rightarrow> 'm res) \<Rightarrow> 'm \<Rightarrow> bool" where
  "round_trips out read m \<longleftrightarrow>
     (\<exists>body. out = Ok (frame body) \<and> read (NewReader (frame body)) = Ok m \<and>
        rejects read (frame body))"

lemma frame_reads:
  assumes "transfers cs ss zero m"
  obtains body where "run_bytes (EncodeInt32 0 # cs) = Ok (frame body)"
    "reads (frame body) (block (skip_field DecodeInt32 # ss)) zero m"
proof -
  from assms obtain body where body: "emits (block cs) body" "reads body (block ss) zero m"
    by (auto simp: transfers_def)
  have "reads (PutUint32 (of_nat (length body))) (block [skip_field DecodeInt32]) zero zero"
    using reads_read_field[OF decodes_prims(3), of _ "\<lambda>_ r. r"] by (simp add: skip_field_def)
  from reads_append[OF this body(2)] assms
  have "reads (frame body) (block (skip_field DecodeInt32 # ss)) zero m"
    by (simp add: frame_def transfers_def)
  with run_bytes_frame[OF body(1)] show thesis by (rule that)
qed

lemma message_round_trips:
  assumes "transfers cs ss zero m"
  shows "round_trips (run_bytes (EncodeInt32 0 # cs)) (run_reader (skip_field DecodeInt32 # ss) zero) m"
proof -
  from assms obtain body where body: "run_bytes (EncodeInt32 0 # cs) = Ok (frame body)"
    "reads (frame body) (block (skip_field DecodeInt32 # ss)) zero m"
    by (rule frame_reads)
  from run_reader_reads[OF body(2)] body(1) show ?thesis
    unfolding round_trips_def rejects_def by blast
qed

text \<open>A reader that wants more than was written goes on at the end of the input.\<close>

lemma run_reader_beyond:
  assumes "reads bs (block ss) zero m"
  shows "run_reader (ss @ ts) zero (NewReader bs) =
    obind (block (ts @ [check_err]) (memdec [], m)) (\<lambda>(d, x). Ok x)"
proof -
  have "block ss (memdec (bs @ []), zero) = Ok (memdec [], m)"
    using assms unfolding reads_def by blast
  then show ?thesis
    by (simp add: run_reader_def NewDecoder_def NewReader_def)
qed

locale wire_message =
  fixes Bytes :: "'m \<Rightarrow> byte list res"
    and Read :: "reader \<Rightarrow> 'm res"
    and norm :: "'m \<Rightarrow> 'm"
    and wf :: "'m \<Rightarrow> bool"
  assumes round_trip: "wf m \<Longrightarrow> round_trips (Bytes m) Read (norm m)"
begin

lemma read_bytes: "wf m \<Longrightarrow> obind (Bytes m) (\<lambda>b. Read (NewReader b)) = Ok (norm m)"
  using round_trip[of m] by (auto simp: round_trips_def)

text \<open>Two messages with the same bytes are the same message.\<close>

lemma unambiguous: "wf m \<Longrightarrow> wf m' \<Longrightarrow> Bytes m = Bytes m' \<Longrightarrow> norm m = norm m'"
  using read_bytes[of m] read_bytes[of m'] by simp

lemma truncated_rejected:
  assumes "wf m" "Bytes m = Ok b" "n < length b"
  shows "Read (NewReader (take n b)) \<in> {Err EOF, Err ErrUnexpectedEOF}"
proof -
  from round_trip[OF assms(1)] have "rejects Read b"
    using assms(2) by (auto simp: round_trips_def)
  moreover have "proper_prefix (take n b) b" using assms(3) by (auto simp: proper_prefix_def)
  ultimately obtain e where "Read (NewReader (take n b)) = Err e" "eof_error e"
    unfolding rejects_def by blast
  then show ?thesis by (auto simp: eof_error_def)
qed

text \<open>The first four bytes give the number of the bytes that follow.\<close>

lemma size_prefix:
  assumes "wf m" "Bytes m = Ok b"
  shows "4 \<le> length b" and "be_word (take 4 b) = (of_nat (length b - 4) :: int32)"
proof -
  from round_trip[OF assms(1)] assms(2) obtain body where "b = frame body"
    by (auto simp: round_trips_def)
  then show "4 \<le> length b" "be_word (take 4 b) = (of_nat (length b - 4) :: int32)"
    by (simp_all add: frame_length) (simp add: frame_def)
qed

end

section \<open>Reading back without rejecting prefixes\<close>

text \<open>
  The half of \<open>transfers\<close> that is left when a message ends in data whose reader accepts a
  truncated input.
\<close>

definition delivers ::
  "(error, encoder) stmt list \<Rightarrow> (error, decoder \<times> 'r) stmt list \<Rightarrow> 'r \<Rightarrow> 'r \<Rightarrow> bool"
where
  "delivers cs ss r r' \<longleftrightarrow>
     (\<exists>bs. emits (block cs) bs \<and>
        (\<forall>rest. block ss (memdec (bs @ rest), r) = Ok (memdec rest, r')))"

lemma transfers_delivers: "transfers cs ss r r' \<Longrightarrow> delivers cs ss r r'"
  by (auto simp: transfers_def delivers_def reads_def)

lemma delivers_append:
  assumes "delivers cs ss r r1" "delivers ds ts r1 r2"
  shows "delivers (cs @ ds) (ss @ ts) r r2"
proof -
  from assms obtain bs bs' where "emits (block cs) bs" "emits (block ds) bs'"
    "\<And>rest. block ss (memdec (bs @ rest), r) = Ok (memdec rest, r1)"
    "\<And>rest. block ts (memdec (bs' @ rest), r1) = Ok (memdec rest, r2)"
    unfolding delivers_def by blast
  then show ?thesis
    by (auto simp: delivers_def intro!: exI[of _ "bs @ bs'"] emits_append)
qed

lemma delivers_check_err: "delivers [] [check_err] r r"
  by (auto simp: delivers_def emits_def check_err_def intro!: exI[of _ "[]"])

lemma delivers_dep: "key r = k \<Longrightarrow> delivers cs [f k] r r' \<Longrightarrow> delivers cs [dep key f] r r'"
  by (simp add: delivers_def dep_def)

lemma for_range_delivers:
  assumes "\<And>x rest. x \<in> set xs \<Longrightarrow> elem (memdec (w x @ rest)) = Ok (memdec rest, g x)"
  shows "for_range (length xs) elem (memdec (concat (map w xs) @ rest)) = Ok (memdec rest, map g xs)"
  using assms by (induction xs) simp_all

lemma delivers_array:
  assumes "wf_array xs" "\<And>x. x \<in> set xs \<Longrightarrow> delivers (f x) body zero (g x)"
  shows "delivers [write_array f xs] [read_array (struct body zero) upd] r (upd (map g xs) r)"
proof -
  from assms(2) obtain w where w: "\<And>x. x \<in> set xs \<Longrightarrow> emits (block (f x)) (w x)"
    "\<And>x rest. x \<in> set xs \<Longrightarrow> block body (memdec (w x @ rest), zero) = Ok (memdec rest, g x)"
    unfolding delivers_def by metis
  let ?bs = "PutUint32 (of_nat (length xs)) @ concat (map w xs)"
  have len: "DecodeArrayLen (memdec (?bs @ rest)) =
      ((int (length xs), None), memdec (concat (map w xs) @ rest))" for rest
    using decodesD[OF decodes_ArrayLen[of "length xs"], of "concat (map w xs) @ rest"] assms(1)
    by (simp add: wf_array_def)
  have "read_array (struct body zero) upd (memdec (?bs @ rest), r) =
      Ok (memdec rest, upd (map g xs) r)" for rest
    using for_range_delivers[of xs "struct body zero" w g rest] w(2) len[of rest]
    by (simp add: read_array_def struct_def)
  with emits_array[of xs f w, OF w(1)] show ?thesis
    unfolding delivers_def block_single by blast
qed

lemma delivers_message:
  assumes "delivers cs ss zero m"
  obtains body where "run_bytes (EncodeInt32 0 # cs) = Ok (frame body)"
    "run_reader (skip_field DecodeInt32 # ss) zero (NewReader (frame body)) = Ok m"
proof -
  from assms obtain body where body: "emits (block cs) body"
    "\<And>rest. block ss (memdec (body @ rest), zero) = Ok (memdec rest, m)"
    unfolding delivers_def by blast
  have "skip_field DecodeInt32 (memdec (frame body), zero) = Ok (memdec body, zero)"
    unfolding frame_def by (simp add: skip_field_def read_field_def decodesD[OF decodes_prims(3)])
  with body(2)[of "[]"] have "run_reader (skip_field DecodeInt32 # ss) zero (NewReader (frame body)) = Ok m"
    by (simp add: run_reader_def NewDecoder_def NewReader_def check_err_def)
  with run_bytes_frame[OF body(1)] show thesis by (rule that)
qed

section \<open>What a message begins with\<close>

text \<open>Every encoder statement only adds bytes to the buffer, whatever the values and errors are.\<close>

definition appends :: "(error, encoder) stmt \<Rightarrow> bool" where
  "appends c \<longleftrightarrow>
     (\<forall>e e' b. c e = Ok e' \<longrightarrow> e_w e = BufferW b \<longrightarrow> (\<exists>bs. e_w e' = BufferW (b @ bs)))"

lemma appendsD:
  "appends c \<Longrightarrow> c e = Ok e' \<Longrightarrow> e_w e = BufferW b \<Longrightarrow> \<exists>bs. e_w e' = BufferW (b @ bs)"
  by (simp add: appends_def)

lemma appends_block: "list_all appends cs \<Longrightarrow> appends (block cs)"
proof (induction cs)
  case (Cons c cs)
  show ?case
    unfolding appends_def
  proof (intro allI impI)
    fix e e' b assume run: "block (c # cs) e = Ok e'" and b: "e_w e = BufferW b"
    from run obtain e1 where 1: "c e = Ok e1" "block cs e1 = Ok e'"
      by (auto simp: obind_eq_Ok_conv)
    from Cons.prems 1(1) b obtain bs1 where bs1: "e_w e1 = BufferW (b @ bs1)"
      by (auto dest: appendsD)
    from Cons have "appends (block cs)" by simp
    from appendsD[OF this 1(2) bs1] show "\<exists>bs. e_w e' = BufferW (b @ bs)" by auto
  qed
qed (simp add: appends_def)

lemma enc_write_buffer:
  "e_w e = BufferW b \<Longrightarrow> e_w (enc_write p e) = BufferW (b @ p)"
  "e_w e = BufferW b \<Longrightarrow> e_w (enc_write_once p e) = BufferW (b @ p)"
  by (simp_all add: enc_write_def enc_write_once_def writeAll_def)

lemma appends_prims [simp]:
  "appends (EncodeInt8 a)" "appends (EncodeInt16 b)" "appends (EncodeInt32 c)"
  "appends (EncodeUint32 c)" "appends (EncodeInt64 d)" "appends (EncodeDuration d)"
  "appends (EncodeArrayLen n)"
  by (auto simp: appends_def EncodeInt8_def EncodeInt16_def EncodeInt32_def EncodeUint32_def
      EncodeInt64_def EncodeDuration_def EncodeArrayLen_def enc_write_buffer)

lemma appends_more [simp]:
  "appends (EncodeString s)" "appends (EncodeBytes v)" "appends (EncodeError err)"
  by (auto simp: appends_def EncodeString_def EncodeBytes_def EncodeError_def enc_write_buffer
      Let_def split: if_splits option.splits error.splits)

lemma appends_if [simp]:
  "list_all appends cs \<Longrightarrow> appends (if_do b cs)"
  "list_all appends cs \<Longrightarrow> list_all appends ds \<Longrightarrow> appends (if_else b cs ds)"
  using appends_block[of cs] appends_block[of ds]
  by (auto simp: appends_def if_do_def if_else_def)

lemma appends_write_array [simp]:
  "(\<And>x. list_all appends (f x)) \<Longrightarrow> appends (write_array f xs)"
  unfolding write_array_def
  by (intro appends_block) (auto simp: list_all_iff intro!: appends_block)

lemma appends_Ints [simp]: "appends (EncodeInt32s xs)" "appends (EncodeInt64s ys)"
proof -
  have "appends (block (EncodeArrayLen (int (length xs)) # map EncodeInt32 xs))"
    "appends (block (EncodeArrayLen (int (length ys)) # map EncodeInt64 ys))"
    by (intro appends_block; simp add: list_all_iff)+
  then show "appends (EncodeInt32s xs)" "appends (EncodeInt64s ys)"
    unfolding appends_def EncodeInt32s_def EncodeInt64s_def
    by (metis append_Nil2 outcome.inject(1))+
qed

definition carries :: "byte list \<Rightarrow> byte list res \<Rightarrow> bool" where
  "carries pre out \<longleftrightarrow> (\<forall>b. out = Ok b \<longrightarrow> (\<exists>body. b = frame (pre @ body)))"

lemma carriesI:
  assumes "emits c pre" "list_all appends cs"
  shows "carries pre (run_bytes (EncodeInt32 0 # c # cs))"
  unfolding carries_def
proof (intro allI impI)
  fix b assume run: "run_bytes (EncodeInt32 0 # c # cs) = Ok b"
  have "emits (block [EncodeInt32 0, c]) (PutUint32 0 @ pre @ [])"
    by (intro emits_Cons emits_prims emits_Nil assms(1))
  then have "block [EncodeInt32 0, c] (bufenc []) = Ok (bufenc (PutUint32 0 @ pre))"
    by (simp add: emits_def)
  then have head: "block (EncodeInt32 0 # c # cs) (bufenc []) =
      block cs (bufenc (PutUint32 0 @ pre))"
    using block_append[of "[EncodeInt32 0, c]" cs "bufenc []"] by simp
  from run obtain e where e: "block cs (bufenc (PutUint32 0 @ pre)) = Ok e"
    and b: "b = PutUint32 (of_int (int (length (writer_bytes (e_w e))) - 4)) @ drop 4 (writer_bytes (e_w e))"
    by (auto simp: run_bytes_def NewEncoder_def head obind_eq_Ok_conv Let_def
        simp del: block.simps split: option.splits if_splits)
  from appendsD[OF appends_block[OF assms(2)] e] obtain bs
    where "e_w e = BufferW (PutUint32 0 @ pre @ bs)" by auto
  with b show "\<exists>body. b = frame (pre @ body)"
    by (auto simp: writer_bytes_def frame_def intro!: exI[of _ bs])
qed

end
