(* ===== verification/Request.thy ===== *)
theory Request
  imports Codec
begin

text \<open>
  The parts of \<open>v2/proto/messages.go\<close> shared by all messages: the protocol constants, the
  request header with \<open>encodeHeader\<close> and \<open>decodeHeader\<close>, the version table of the driver,
  and \<open>ReadReq\<close> and \<open>ReadResp\<close>, which cut one message out of a stream.  A request
  structure embeds the header, so it is a record that extends it.
\<close>

section \<open>Constants\<close>

abbreviation KafkaV0 :: int16 where "KafkaV0 \<equiv> 0"
abbreviation KafkaV1 :: int16 where "KafkaV1 \<equiv> 1"
abbreviation KafkaV2 :: int16 where "KafkaV2 \<equiv> 2"
abbreviation KafkaV3 :: int16 where "KafkaV3 \<equiv> 3"
abbreviation KafkaV4 :: int16 where "KafkaV4 \<equiv> 4"
abbreviation KafkaV5 :: int16 where "KafkaV5 \<equiv> 5"

definition ProduceReqKind :: int16 where "ProduceReqKind = 0"
definition FetchReqKind :: int16 where "FetchReqKind = 1"
definition OffsetReqKind :: int16 where "OffsetReqKind = 2"
definition MetadataReqKind :: int16 where "MetadataReqKind = 3"
definition OffsetCommitReqKind :: int16 where "OffsetCommitReqKind = 8"
definition OffsetFetchReqKind :: int16 where "OffsetFetchReqKind = 9"
definition ConsumerMetadataReqKind :: int16 where "ConsumerMetadataReqKind = 10"
definition APIVersionsReqKind :: int16 where "APIVersionsReqKind = 18"
definition CreateTopicsReqKind :: int16 where "CreateTopicsReqKind = 19"

lemmas kind_defs =
  ProduceReqKind_def FetchReqKind_def OffsetReqKind_def MetadataReqKind_def
  OffsetCommitReqKind_def OffsetFetchReqKind_def ConsumerMetadataReqKind_def
  APIVersionsReqKind_def CreateTopicsReqKind_def

section \<open>Request header\<close>

record RequestHeader =
  version :: int16
  correlationID :: int32
  ClientID :: gostring

definition SetVersion :: "int16 \<Rightarrow> 'a RequestHeader_scheme \<Rightarrow> 'a RequestHeader_scheme" where
  "SetVersion v h = h\<lparr>version := v\<rparr>"

definition SetCorrelationID :: "int32 \<Rightarrow> 'a RequestHeader_scheme \<Rightarrow> 'a RequestHeader_scheme" where
  "SetCorrelationID i h = h\<lparr>correlationID := i\<rparr>"

definition SetClientID :: "gostring \<Rightarrow> 'a RequestHeader_scheme \<Rightarrow> 'a RequestHeader_scheme" where
  "SetClientID c h = h\<lparr>ClientID := c\<rparr>"

definition encodeHeader :: "int16 \<Rightarrow> 'a RequestHeader_scheme \<Rightarrow> (error, encoder) stmt list" where
  "encodeHeader kind r =
     [EncodeInt32 0,
      EncodeInt16 kind,
      EncodeInt16 (version r),
      EncodeInt32 (correlationID r),
      EncodeString (ClientID r)]"

definition decodeHeader :: "(error, decoder \<times> 'a RequestHeader_scheme) stmt list" where
  "decodeHeader =
     [skip_field DecodeInt32,
      skip_field DecodeInt16,
      read_field DecodeInt16 SetVersion,
      read_field DecodeInt32 SetCorrelationID,
      read_field DecodeString SetClientID]"

section \<open>Versions supported by the driver\<close>

record SupportedVersion =
  APIKey :: int16
  MinVersion :: int16
  MaxVersion :: int16

definition SupportedByDriver :: "int16 \<rightharpoonup> SupportedVersion" where
  "SupportedByDriver = map_of
     [(ProduceReqKind, \<lparr>APIKey = 0, MinVersion = KafkaV0, MaxVersion = KafkaV2\<rparr>),
      (FetchReqKind, \<lparr>APIKey = 0, MinVersion = KafkaV0, MaxVersion = KafkaV5\<rparr>),
      (OffsetReqKind, \<lparr>APIKey = 0, MinVersion = KafkaV0, MaxVersion = KafkaV2\<rparr>),
      (MetadataReqKind, \<lparr>APIKey = 0, MinVersion = KafkaV0, MaxVersion = KafkaV5\<rparr>),
      (OffsetCommitReqKind, \<lparr>APIKey = 0, MinVersion = KafkaV0, MaxVersion = KafkaV3\<rparr>),
      (OffsetFetchReqKind, \<lparr>APIKey = 0, MinVersion = KafkaV0, MaxVersion = KafkaV3\<rparr>),
      (ConsumerMetadataReqKind, \<lparr>APIKey = 0, MinVersion = KafkaV0, MaxVersion = KafkaV1\<rparr>),
      (APIVersionsReqKind, \<lparr>APIKey = 0, MinVersion = KafkaV0, MaxVersion = KafkaV1\<rparr>)]"

section \<open>Cutting messages out of a stream\<close>

text \<open>\<open>binary.BigEndian.PutUint32(b[off:], v)\<close>: panics unless four bytes are there.\<close>

definition put_at :: "nat \<Rightarrow> byte list \<Rightarrow> byte list \<Rightarrow> byte list res" where
  "put_at off v b =
     (if length b < off + length v then Panic
      else Ok (take off b @ v @ drop (off + length v) b))"

definition ReadReq :: "reader \<Rightarrow> (int16 \<times> byte list) res \<times> reader" where
  "ReadReq r =
     (let (msgSize, dec) = DecodeInt32 (NewDecoder r);
          (requestKind, dec) = DecodeInt16 dec;
          r = d_r dec
      in case d_err dec of
           Some err \<Rightarrow> (Err err, r)
         | None \<Rightarrow>
             (case allocParseBuf (sint (msgSize + 4)) of
               Inl err \<Rightarrow> (Err err, r)
             | Inr b \<Rightarrow>
                 (case put_at 0 (PutUint32 msgSize) b of
                    Ok b \<Rightarrow>
                      (let b = (if length b \<ge> 6 then take 4 b @ PutUint16 requestKind @ drop 6 b
                                else b)
                       in if length b > 6
                          then (case ReadFull (length b - 6) r of
                                  ((p, Some err), r) \<Rightarrow> (Err err, r)
                                | ((p, None), r) \<Rightarrow> (Ok (requestKind, take 6 b @ p), r))
                          else (Ok (requestKind, b), r))
                  | _ \<Rightarrow> (Panic, r))))"

definition ReadResp :: "reader \<Rightarrow> (int32 \<times> byte list) res \<times> reader" where
  "ReadResp r =
     (let (msgSize, dec) = DecodeInt32 (NewDecoder r);
          (correlationID, dec) = DecodeInt32 dec;
          r = d_r dec
      in case d_err dec of
           Some err \<Rightarrow> (Err err, r)
         | None \<Rightarrow>
             (case allocParseBuf (sint (msgSize + 4)) of
               Inl err \<Rightarrow> (Err err, r)
             | Inr b \<Rightarrow>
                 (case obind (put_at 0 (PutUint32 msgSize) b) (put_at 4 (PutUint32 correlationID)) of
                    Ok b \<Rightarrow>
                      (case ReadFull (length b - 8) r of
                         ((p, Some err), r) \<Rightarrow> (Err err, r)
                       | ((p, None), r) \<Rightarrow> (Ok (correlationID, take 8 b @ p), r))
                  | _ \<Rightarrow> (Panic, r))))"

section \<open>The header survives\<close>

definition wf_header :: "'a RequestHeader_scheme \<Rightarrow> bool" where
  "wf_header h \<longleftrightarrow> wf_string (ClientID h)"

text \<open>Copying the header fields of \<open>h\<close> into another request.\<close>

definition set_header :: "'b RequestHeader_scheme \<Rightarrow> 'a RequestHeader_scheme \<Rightarrow> 'a RequestHeader_scheme"
where
  "set_header h r = r\<lparr>version := version h, correlationID := correlationID h, ClientID := ClientID h\<rparr>"

lemma set_header_simps [simp]:
  "version (set_header h r) = version h"
  "correlationID (set_header h r) = correlationID h"
  "ClientID (set_header h r) = ClientID h"
  by (simp_all add: set_header_def)

lemma transfers_eqI: "transfers cs ss r r1 \<Longrightarrow> r1 = r2 \<Longrightarrow> transfers cs ss r r2"
  by simp

lemma transfers_header:
  assumes "wf_header h"
  shows "transfers (tl (encodeHeader kind h)) (tl decodeHeader) r (set_header h r)"
  unfolding encodeHeader_def decodeHeader_def list.sel set_header_def
  using assms[unfolded wf_header_def]
  by - (rule transfers_eqI, (rule codec_intros | (simp; fail))+,
    simp add: SetVersion_def SetCorrelationID_def SetClientID_def)

lemma request_round_trips:
  assumes "wf_header h" "transfers cs ss (set_header h zero) m"
  shows "round_trips (run_bytes (encodeHeader kind h @ cs)) (run_reader (decodeHeader @ ss) zero) m"
proof -
  have e: "encodeHeader kind h = EncodeInt32 0 # tl (encodeHeader kind h)"
    by (simp add: encodeHeader_def)
  have d: "decodeHeader = skip_field DecodeInt32 # tl decodeHeader"
    by (simp add: decodeHeader_def)
  show ?thesis
    using message_round_trips[OF transfers_append[OF transfers_header[OF assms(1)] assms(2)]] e d
    by (metis append_Cons)
qed

section \<open>Frames cut out of a stream\<close>

lemma decode_fixed_append:
  assumes "length bs = n"
  shows "decode_fixed n \<lparr>d_r = \<lparr>rd_bytes = bs @ rest, rd_end = e, rd_tee = t\<rparr>, d_err = None\<rparr> =
    (be_word bs, \<lparr>d_r = \<lparr>rd_bytes = rest, rd_end = e, rd_tee = map_option (\<lambda>t. t @ bs) t\<rparr>,
       d_err = None\<rparr>)"
  using assms by (simp add: decode_fixed_def)

text \<open>The parse buffer of a frame: the size field counts neither itself nor more than \<open>int32\<close> holds.\<close>

lemma frame_buffer:
  assumes "length body + 4 < 2147483648"
  shows "allocParseBuf (sint (of_nat (length body) + 4 :: int32)) =
    Inr (replicate (length body + 4) 0)"
proof -
  have "sint (of_nat (length body) + 4 :: int32) = int (length body + 4)"
    using sint_of_nat_32[of "length body + 4"] assms by (simp add: add.commute)
  then show ?thesis
    using assms by (simp add: allocParseBuf_def maxParseBufSize_def maxInt32_def nat_add_distrib)
qed

lemma ReadReq_frame:
  assumes "length body + 6 < 2147483648"
  shows "ReadReq \<lparr>rd_bytes = frame (PutUint16 kind @ body) @ rest, rd_end = e, rd_tee = None\<rparr> =
    (Ok (kind, frame (PutUint16 kind @ body)), \<lparr>rd_bytes = rest, rd_end = e, rd_tee = None\<rparr>)"
proof -
  let ?f = "PutUint16 kind @ body"
  have "allocParseBuf (sint (of_nat (length ?f) + 4 :: int32)) = Inr (replicate (length ?f + 4) 0)"
    using assms by (intro frame_buffer) simp
  then show ?thesis
    by (simp add: ReadReq_def NewDecoder_def frame_def DecodeInt32_def DecodeInt16_def
        decode_fixed_append put_at_def Let_def)
qed

lemma ReadResp_frame:
  assumes "length body + 8 < 2147483648"
  shows "ReadResp \<lparr>rd_bytes = frame (PutUint32 corr @ body) @ rest, rd_end = e, rd_tee = None\<rparr> =
    (Ok (corr, frame (PutUint32 corr @ body)), \<lparr>rd_bytes = rest, rd_end = e, rd_tee = None\<rparr>)"
proof -
  let ?f = "PutUint32 corr @ body"
  have "allocParseBuf (sint (of_nat (length ?f) + 4 :: int32)) = Inr (replicate (length ?f + 4) 0)"
    using assms by (intro frame_buffer) simp
  then show ?thesis
    by (simp add: ReadResp_def NewDecoder_def frame_def DecodeInt32_def
        decode_fixed_append put_at_def Let_def)
qed

text \<open>
  \<open>ReadResp\<close> writes eight bytes into the buffer it allocated, so a size field from -4 to 3
  panics; \<open>ReadReq\<close> writes four unconditionally, so it panics from -4 to -1.
\<close>

lemma sint_plus4:
  "sint (w + 4 :: int32) =
     (if sint w \<ge> 2147483644 then sint w - 4294967292 else sint w + 4)"
proof -
  have "sint (w + 4) = signed_take_bit 31 (sint w + 4)"
    using sint_word_ariths(1)[of w 4] by simp
  also have "\<dots> = (sint w + 2147483652) mod 4294967296 - 2147483648"
    by (simp add: signed_take_bit_eq_take_bit_shift take_bit_eq_mod add.commute)
  finally have eq: "sint (w + 4) = (sint w + 2147483652) mod 4294967296 - 2147483648" .
  have b: "- 2147483648 \<le> sint w" "sint w < 2147483648"
    using sint_lt[of w] sint_ge[of w] by simp_all
  show ?thesis
  proof (cases "sint w \<ge> 2147483644")
    case True
    then have "(sint w - 2147483644 + 4294967296) mod 4294967296 = sint w - 2147483644"
      using b unfolding mod_add_self2 by (intro mod_pos_pos_trivial) simp_all
    with True show ?thesis by (simp add: eq add.commute)
  next
    case False
    then have "(sint w + 2147483652) mod 4294967296 = sint w + 2147483652"
      using b by (intro mod_pos_pos_trivial) simp_all
    with False show ?thesis by (simp add: eq)
  qed
qed

lemma decode_fixed_error:
  "length (rd_bytes r) < n \<Longrightarrow> \<exists>err. d_err (snd (decode_fixed n \<lparr>d_r = r, d_err = None\<rparr>)) = Some err"
  by (simp add: decode_fixed_def ReadFull_def Let_def)

lemma decode_fixed_keeps:
  "d_err d = Some err \<Longrightarrow> d_err (snd (decode_fixed n d)) = Some err"
  by (simp add: decode_fixed_def)

lemma ReadResp_short:
  assumes "length (rd_bytes r) < 8"
  shows "\<exists>err. fst (ReadResp r) = Err err"
proof -
  let ?d = "decode_fixed 4 \<lparr>d_r = r, d_err = None\<rparr> :: int32 \<times> decoder"
  let ?d2 = "decode_fixed 4 (snd ?d) :: int32 \<times> decoder"
  have "\<exists>err. d_err (snd ?d2) = Some err"
  proof (cases "length (rd_bytes r) < 4")
    case True
    then show ?thesis using decode_fixed_error decode_fixed_keeps by metis
  next
    case False
    then have "snd ?d = \<lparr>d_r = advance 4 r, d_err = None\<rparr>"
      by (simp add: decode_fixed_def ReadFull_def Let_def)
    then show ?thesis
      using decode_fixed_error[of "advance 4 r" 4, where 'a = 32] assms False
      by (simp add: advance_def)
  qed
  then show ?thesis
    by (auto simp: ReadResp_def NewDecoder_def DecodeInt32_def split_beta Let_def)
qed

lemma take_drop_4_8:
  assumes "8 \<le> length xs"
  obtains a c rest where "xs = a @ c @ rest" "length a = 4" "length c = 4"
proof
  show "xs = take 4 xs @ take 4 (drop 4 xs) @ drop 8 xs"
    by (metis add_numeral_left append_take_drop_id drop_drop numeral_Bit0 semiring_norm(2))
qed (use assms in auto)

lemma ReadResp_panic_iff:
  assumes "rd_tee r = None"
  shows "fst (ReadResp r) = Panic \<longleftrightarrow>
    8 \<le> length (rd_bytes r) \<and> sint (be_word (take 4 (rd_bytes r)) :: int32) \<in> {-4..3}"
proof (cases "8 \<le> length (rd_bytes r)")
  case False
  then show ?thesis using ReadResp_short[of r] by auto
next
  case True
  then obtain a c rest where s: "rd_bytes r = a @ c @ rest" "length a = 4" "length c = 4"
    by (rule take_drop_4_8)
  have r: "r = \<lparr>rd_bytes = a @ c @ rest, rd_end = rd_end r, rd_tee = None\<rparr>"
    using s(1) assms by simp
  let ?n = "sint (be_word a + 4 :: int32)"
  have "fst (ReadResp r) =
     (case allocParseBuf ?n of
        Inl err \<Rightarrow> Err err
      | Inr b \<Rightarrow> if length b < 8 then Panic
          else fst (case ReadFull (length b - 8) \<lparr>rd_bytes = rest, rd_end = rd_end r, rd_tee = None\<rparr> of
                 ((p, Some err), r) \<Rightarrow> (Err err, r)
               | ((p, None), r) \<Rightarrow> (Ok (be_word c, PutUint32 (be_word a) @ PutUint32 (be_word c) @ p), r)))"
    by (subst r) (simp add: ReadResp_def NewDecoder_def DecodeInt32_def decode_fixed_append s(2,3)
        put_at_def split_beta Let_def split: sum.split)
  then have "fst (ReadResp r) = Panic \<longleftrightarrow> ?n \<in> {0..7}"
    by (simp add: allocParseBuf_def maxParseBufSize_def maxInt32_def split: prod.split option.split) linarith
  then show ?thesis
    using True s(2) sint_ge[of "be_word a :: int32"] sint_lt[of "be_word a :: int32"]
    by (auto simp: s(1) sint_plus4)
qed

section \<open>The interfaces of requests and responses\<close>

text \<open>
  A request names its kind right after the size field, so \<open>ReadReq\<close> hands it on under that
  kind and leaves the stream at the next message.
\<close>

locale request_message = wire_message Bytes Read norm wf
  for Bytes :: "'m \<Rightarrow> byte list res" and Read and norm and wf +
  fixes kind :: int16
  assumes kind_prefix: "carries (PutUint16 kind) (Bytes m)"
begin

lemma dispatch:
  assumes "Bytes m = Ok b" "length b < 2147483648"
  shows "ReadReq \<lparr>rd_bytes = b @ rest, rd_end = e, rd_tee = None\<rparr> =
    (Ok (kind, b), \<lparr>rd_bytes = rest, rd_end = e, rd_tee = None\<rparr>)"
proof -
  from kind_prefix[of m] assms(1) obtain body where "b = frame (PutUint16 kind @ body)"
    by (auto simp: carries_def)
  with assms(2) show ?thesis using ReadReq_frame[of body] by (simp add: frame_length)
qed

end

text \<open>A response carries its correlation ID there, which is all \<open>ReadResp\<close> looks at.\<close>

locale response_message = wire_message Bytes Read norm wf
  for Bytes :: "'m \<Rightarrow> byte list res" and Read and norm and wf +
  fixes corr :: "'m \<Rightarrow> int32"
  assumes corr_prefix: "carries (PutUint32 (corr m)) (Bytes m)"
begin

lemma demux:
  assumes "Bytes m = Ok b" "length b < 2147483648"
  shows "ReadResp \<lparr>rd_bytes = b @ rest, rd_end = e, rd_tee = None\<rparr> =
    (Ok (corr m, b), \<lparr>rd_bytes = rest, rd_end = e, rd_tee = None\<rparr>)"
proof -
  from corr_prefix[of m] assms(1) obtain body where "b = frame (PutUint32 (corr m) @ body)"
    by (auto simp: carries_def)
  with assms(2) show ?thesis using ReadResp_frame[of body] by (simp add: frame_length)
qed

end

text \<open>The statements after the header of a request, and after the first field of a response.\<close>

lemma carries_header:
  "list_all appends cs \<Longrightarrow> carries (PutUint16 kind) (run_bytes (encodeHeader kind h @ cs))"
  unfolding encodeHeader_def append_Cons append_Nil
  by (rule carriesI[OF emits_prims(2)]) simp

lemma carries_response:
  "list_all appends cs \<Longrightarrow>
    carries (PutUint32 corr) (run_bytes (EncodeInt32 0 # EncodeInt32 corr # cs))"
  by (rule carriesI[OF emits_prims(3)])

section \<open>Sending a message\<close>

text \<open>\<open>WriteTo\<close>, the same method on every request type: nothing is written when \<open>Bytes\<close> fails.\<close>

definition WriteTo ::
  "('m \<Rightarrow> byte list res) \<Rightarrow> 'm \<Rightarrow> writer \<Rightarrow> ((nat \<times> goerror) \<times> writer) res"
where
  "WriteTo Bytes r w =
     (case Bytes r of
        Ok b \<Rightarrow> Ok (Write b w)
      | Err err \<Rightarrow> Ok ((0, Some err), w)
      | Panic \<Rightarrow> Panic
      | NoFuel \<Rightarrow> NoFuel)"

section \<open>Properties\<close>

text \<open>
  C30. \<open>ReadResp\<close> panics exactly on a size field from -4 to 3, once eight bytes are there:
  the buffer it then allocates is too small for the two fields it copies into it.
\<close>

lemma ReadResp_panics:
  assumes "rd_tee r = None"
  shows "fst (ReadResp r) = Panic \<longleftrightarrow>
    8 \<le> length (rd_bytes r) \<and> sint (be_word (take 4 (rd_bytes r)) :: int32) \<in> {-4..3}"
  using assms by (rule ReadResp_panic_iff)

lemma ReadResp_panics_witness: "fst (ReadResp (NewReader [0, 0, 0, 3, 0, 0, 0, 7])) = Panic"
  using ReadResp_panics[of "NewReader [0, 0, 0, 3, 0, 0, 0, 7]"]
  by (simp add: NewReader_def be_word_def)

end
