(* ===== verification/Metadata.thy ===== *)
theory Metadata
  imports Request
begin

text \<open>
  \<open>MetadataReq\<close> and \<open>MetadataResp\<close> of \<open>v2/proto/messages.go\<close>: structures, \<open>Bytes\<close> methods,
  readers, and their round trip for every protocol version.
\<close>

section \<open>MetadataReq\<close>

record MetadataReq = RequestHeader +
  mq_Topics :: "gostring list"
  mq_AllowAutoTopicCreation :: bool

definition zero_MetadataReq :: MetadataReq where
  "zero_MetadataReq = \<lparr>version = 0, correlationID = 0, ClientID = [],
     mq_Topics = [], mq_AllowAutoTopicCreation = False\<rparr>"

definition ReadMetadataReq_body :: "(error, decoder \<times> MetadataReq) stmt list" where
  "ReadMetadataReq_body =
     [read_array (prim DecodeString) (\<lambda>x r. r\<lparr>mq_Topics := x\<rparr>),
      if_do (\<lambda>(d, r). KafkaV4 \<le>s version r)
        [read_nonzero (\<lambda>x r. r\<lparr>mq_AllowAutoTopicCreation := x\<rparr>)]]"

definition ReadMetadataReq :: "reader \<Rightarrow> MetadataReq res" where
  "ReadMetadataReq = run_reader (decodeHeader @ ReadMetadataReq_body) zero_MetadataReq"

definition MetadataReq_topics :: "MetadataReq \<Rightarrow> (error, encoder) stmt" where
  "MetadataReq_topics r = block
     (EncodeArrayLen
        (if mq_Topics r = [] then (if KafkaV1 \<le>s version r then - 1 else 0)
         else int (length (mq_Topics r)))
      # map EncodeString (mq_Topics r))"

definition MetadataReq_Bytes :: "MetadataReq \<Rightarrow> byte list res" where
  "MetadataReq_Bytes r = run_bytes (encodeHeader MetadataReqKind r @
     [MetadataReq_topics r,
      if_do (\<lambda>_. KafkaV4 \<le>s version r) [EncodeInt8 (boolToInt8 (mq_AllowAutoTopicCreation r))]])"

section \<open>MetadataResp\<close>

record MetadataRespBroker =
  mb_NodeID :: int32
  mb_Host :: gostring
  mb_Port :: int32
  mb_Rack :: gostring

record MetadataRespPartition =
  mp_Err :: goerror
  mp_ID :: int32
  mp_Leader :: int32
  mp_Replicas :: "int32 list"
  mp_Isrs :: "int32 list"
  mp_OfflineReplicas :: "int32 list"

record MetadataRespTopic =
  mt_Name :: gostring
  mt_Err :: goerror
  mt_IsInternal :: bool
  mt_Partitions :: "MetadataRespPartition list"

record MetadataResp =
  mr_Version :: int16
  mr_CorrelationID :: int32
  mr_ThrottleTime :: int64
  mr_Brokers :: "MetadataRespBroker list"
  mr_ClusterID :: gostring
  mr_ControllerID :: int32
  mr_Topics :: "MetadataRespTopic list"

definition write_MetadataRespBroker :: "int16 \<Rightarrow> MetadataRespBroker \<Rightarrow> (error, encoder) stmt list" where
  "write_MetadataRespBroker v broker =
     [EncodeInt32 (mb_NodeID broker),
      EncodeString (mb_Host broker),
      EncodeInt32 (mb_Port broker),
      if_do (\<lambda>_. KafkaV1 \<le>s v) [EncodeString (mb_Rack broker)]]"

definition write_MetadataRespPartition ::
  "int16 \<Rightarrow> MetadataRespPartition \<Rightarrow> (error, encoder) stmt list"
where
  "write_MetadataRespPartition v part =
     [EncodeError (mp_Err part),
      EncodeInt32 (mp_ID part),
      EncodeInt32 (mp_Leader part),
      EncodeInt32s (mp_Replicas part),
      EncodeInt32s (mp_Isrs part),
      if_do (\<lambda>_. KafkaV5 \<le>s v) [EncodeInt32s (mp_OfflineReplicas part)]]"

definition write_MetadataRespTopic :: "int16 \<Rightarrow> MetadataRespTopic \<Rightarrow> (error, encoder) stmt list" where
  "write_MetadataRespTopic v topic =
     [EncodeError (mt_Err topic),
      EncodeString (mt_Name topic),
      if_do (\<lambda>_. KafkaV1 \<le>s v) [EncodeInt8 (boolToInt8 (mt_IsInternal topic))],
      write_array (write_MetadataRespPartition v) (mt_Partitions topic)]"

definition MetadataResp_Bytes :: "MetadataResp \<Rightarrow> byte list res" where
  "MetadataResp_Bytes r = run_bytes
     [EncodeInt32 0,
      EncodeInt32 (mr_CorrelationID r),
      if_do (\<lambda>_. KafkaV3 \<le>s mr_Version r) [EncodeDuration (mr_ThrottleTime r)],
      write_array (write_MetadataRespBroker (mr_Version r)) (mr_Brokers r),
      if_do (\<lambda>_. KafkaV2 \<le>s mr_Version r) [EncodeString (mr_ClusterID r)],
      if_do (\<lambda>_. KafkaV1 \<le>s mr_Version r) [EncodeInt32 (mr_ControllerID r)],
      write_array (write_MetadataRespTopic (mr_Version r)) (mr_Topics r)]"

definition zero_MetadataRespBroker :: MetadataRespBroker where
  "zero_MetadataRespBroker = \<lparr>mb_NodeID = 0, mb_Host = [], mb_Port = 0, mb_Rack = []\<rparr>"

definition zero_MetadataRespPartition :: MetadataRespPartition where
  "zero_MetadataRespPartition = \<lparr>mp_Err = None, mp_ID = 0, mp_Leader = 0,
     mp_Replicas = [], mp_Isrs = [], mp_OfflineReplicas = []\<rparr>"

definition zero_MetadataRespTopic :: MetadataRespTopic where
  "zero_MetadataRespTopic = \<lparr>mt_Name = [], mt_Err = None, mt_IsInternal = False, mt_Partitions = []\<rparr>"

definition zero_MetadataResp :: MetadataResp where
  "zero_MetadataResp = \<lparr>mr_Version = 0, mr_CorrelationID = 0, mr_ThrottleTime = 0,
     mr_Brokers = [], mr_ClusterID = [], mr_ControllerID = 0, mr_Topics = []\<rparr>"

definition read_MetadataRespBroker :: "int16 \<Rightarrow> (error, decoder \<times> MetadataRespBroker) stmt list" where
  "read_MetadataRespBroker v =
     [read_field DecodeInt32 (\<lambda>x b. b\<lparr>mb_NodeID := x\<rparr>),
      read_field DecodeString (\<lambda>x b. b\<lparr>mb_Host := x\<rparr>),
      read_field DecodeInt32 (\<lambda>x b. b\<lparr>mb_Port := x\<rparr>),
      if_do (\<lambda>_. KafkaV1 \<le>s v) [read_field DecodeString (\<lambda>x b. b\<lparr>mb_Rack := x\<rparr>)]]"

definition read_MetadataRespPartition ::
  "int16 \<Rightarrow> (error, decoder \<times> MetadataRespPartition) stmt list"
where
  "read_MetadataRespPartition v =
     [read_error (\<lambda>x p. p\<lparr>mp_Err := x\<rparr>),
      read_field DecodeInt32 (\<lambda>x p. p\<lparr>mp_ID := x\<rparr>),
      read_field DecodeInt32 (\<lambda>x p. p\<lparr>mp_Leader := x\<rparr>),
      read_array (prim DecodeInt32) (\<lambda>x p. p\<lparr>mp_Replicas := x\<rparr>),
      read_array (prim DecodeInt32) (\<lambda>x p. p\<lparr>mp_Isrs := x\<rparr>),
      if_do (\<lambda>_. KafkaV5 \<le>s v)
        [read_array (prim DecodeInt32) (\<lambda>x p. p\<lparr>mp_OfflineReplicas := x\<rparr>)]]"

definition read_MetadataRespTopic :: "int16 \<Rightarrow> (error, decoder \<times> MetadataRespTopic) stmt list" where
  "read_MetadataRespTopic v =
     [read_error (\<lambda>x t. t\<lparr>mt_Err := x\<rparr>),
      read_field DecodeString (\<lambda>x t. t\<lparr>mt_Name := x\<rparr>),
      if_do (\<lambda>_. KafkaV1 \<le>s v) [read_is_one (\<lambda>x t. t\<lparr>mt_IsInternal := x\<rparr>)],
      read_array (struct (read_MetadataRespPartition v) zero_MetadataRespPartition)
        (\<lambda>x t. t\<lparr>mt_Partitions := x\<rparr>)]"

definition ReadVersionedMetadataResp :: "int16 \<Rightarrow> reader \<Rightarrow> MetadataResp res" where
  "ReadVersionedMetadataResp v = run_reader
     [skip_field DecodeInt32,
      read_field DecodeInt32 (\<lambda>x r. r\<lparr>mr_CorrelationID := x\<rparr>),
      if_do (\<lambda>_. KafkaV3 \<le>s v) [read_field DecodeDuration32 (\<lambda>x r. r\<lparr>mr_ThrottleTime := x\<rparr>)],
      read_array (struct (read_MetadataRespBroker v) zero_MetadataRespBroker)
        (\<lambda>x r. r\<lparr>mr_Brokers := x\<rparr>),
      if_do (\<lambda>_. KafkaV2 \<le>s v) [read_field DecodeString (\<lambda>x r. r\<lparr>mr_ClusterID := x\<rparr>)],
      if_do (\<lambda>_. KafkaV1 \<le>s v) [read_field DecodeInt32 (\<lambda>x r. r\<lparr>mr_ControllerID := x\<rparr>)],
      read_array (struct (read_MetadataRespTopic v) zero_MetadataRespTopic)
        (\<lambda>x r. r\<lparr>mr_Topics := x\<rparr>)]
     (zero_MetadataResp\<lparr>mr_Version := v\<rparr>)"

definition ReadMetadataResp :: "reader \<Rightarrow> MetadataResp res" where
  "ReadMetadataResp = ReadVersionedMetadataResp KafkaV0"

section \<open>Round trip of requests\<close>

definition wf_MetadataReq :: "MetadataReq \<Rightarrow> bool" where
  "wf_MetadataReq r \<longleftrightarrow> wf_header r \<and> wf_array (mq_Topics r) \<and> list_all wf_string (mq_Topics r)"

definition norm_MetadataReq :: "MetadataReq \<Rightarrow> MetadataReq" where
  "norm_MetadataReq r =
     r\<lparr>mq_AllowAutoTopicCreation := KafkaV4 \<le>s version r \<and> mq_AllowAutoTopicCreation r\<rparr>"

lemma pairs_MetadataReq_topics:
  assumes "wf_MetadataReq r"
  shows "pairs (MetadataReq_topics r) (read_array (prim DecodeString) upd) s (upd (mq_Topics r) s)"
proof (cases "mq_Topics r = [] \<and> KafkaV1 \<le>s version r")
  case True
  then show ?thesis using pairs_null_array by (simp add: MetadataReq_topics_def)
next
  case False
  then have "MetadataReq_topics r =
      block (EncodeArrayLen (int (length (mq_Topics r))) # map EncodeString (mq_Topics r))"
    by (auto simp: MetadataReq_topics_def)
  with assms show ?thesis by (simp add: wf_MetadataReq_def pairs_Strings)
qed

lemma MetadataReq_round_trip:
  assumes "wf_MetadataReq r"
  shows "round_trips (MetadataReq_Bytes r) ReadMetadataReq (norm_MetadataReq r)"
  unfolding MetadataReq_Bytes_def ReadMetadataReq_def ReadMetadataReq_body_def
proof (rule request_round_trips)
  show "wf_header r" using assms by (simp add: wf_MetadataReq_def)
  show "transfers
     [MetadataReq_topics r,
      if_do (\<lambda>_. KafkaV4 \<le>s version r) [EncodeInt8 (boolToInt8 (mq_AllowAutoTopicCreation r))]]
     [read_array (prim DecodeString) (\<lambda>x r. r\<lparr>mq_Topics := x\<rparr>),
      if_do (\<lambda>(d, r). KafkaV4 \<le>s version r)
        [read_nonzero (\<lambda>x r. r\<lparr>mq_AllowAutoTopicCreation := x\<rparr>)]]
     (set_header r zero_MetadataReq) (norm_MetadataReq r)"
    by (rule transfers_eqI, (rule codec_intros pairs_MetadataReq_topics[OF assms] | (simp; fail))+)
      (simp add: norm_MetadataReq_def set_header_def zero_MetadataReq_def)
qed

lemma carries_MetadataReq: "carries (PutUint16 MetadataReqKind) (MetadataReq_Bytes r)"
  unfolding MetadataReq_Bytes_def MetadataReq_topics_def
  by (rule carries_header) (simp add: appends_block list_all_iff)

interpretation MetadataReq: request_message MetadataReq_Bytes ReadMetadataReq norm_MetadataReq wf_MetadataReq
  MetadataReqKind
  by unfold_locales (rule MetadataReq_round_trip, assumption, rule carries_MetadataReq)

section \<open>Round trip of responses\<close>

definition wf_MetadataRespBroker :: "MetadataRespBroker \<Rightarrow> bool" where
  "wf_MetadataRespBroker b \<longleftrightarrow> wf_string (mb_Host b) \<and> wf_string (mb_Rack b)"

definition norm_MetadataRespBroker :: "int16 \<Rightarrow> MetadataRespBroker \<Rightarrow> MetadataRespBroker" where
  "norm_MetadataRespBroker v b = b\<lparr>mb_Rack := if KafkaV1 \<le>s v then mb_Rack b else []\<rparr>"

interpretation MetadataRespBroker: versioned_struct
  write_MetadataRespBroker read_MetadataRespBroker zero_MetadataRespBroker norm_MetadataRespBroker wf_MetadataRespBroker
proof
  fix b v assume "wf_MetadataRespBroker b"
  note wf = this[unfolded wf_MetadataRespBroker_def]
  show "transfers (write_MetadataRespBroker v b) (read_MetadataRespBroker v) zero_MetadataRespBroker
      (norm_MetadataRespBroker v b)"
    unfolding write_MetadataRespBroker_def read_MetadataRespBroker_def
    by (rule transfers_eqI, (rule codec_intros | (simp add: wf; fail))+)
      (simp add: norm_MetadataRespBroker_def zero_MetadataRespBroker_def)
qed

definition wf_MetadataRespPartition :: "MetadataRespPartition \<Rightarrow> bool" where
  "wf_MetadataRespPartition p \<longleftrightarrow> wire_error (mp_Err p) \<and> wf_array (mp_Replicas p) \<and>
     wf_array (mp_Isrs p) \<and> wf_array (mp_OfflineReplicas p)"

definition norm_MetadataRespPartition :: "int16 \<Rightarrow> MetadataRespPartition \<Rightarrow> MetadataRespPartition" where
  "norm_MetadataRespPartition v p =
     p\<lparr>mp_OfflineReplicas := if KafkaV5 \<le>s v then mp_OfflineReplicas p else []\<rparr>"

interpretation MetadataRespPartition: versioned_struct
  write_MetadataRespPartition read_MetadataRespPartition zero_MetadataRespPartition norm_MetadataRespPartition wf_MetadataRespPartition
proof
  fix p v assume "wf_MetadataRespPartition p"
  note wf = this[unfolded wf_MetadataRespPartition_def]
  show "transfers (write_MetadataRespPartition v p) (read_MetadataRespPartition v)
      zero_MetadataRespPartition (norm_MetadataRespPartition v p)"
    unfolding write_MetadataRespPartition_def read_MetadataRespPartition_def
    by (rule transfers_eqI, (rule codec_intros | (simp add: wf; fail))+)
      (simp add: norm_MetadataRespPartition_def zero_MetadataRespPartition_def)
qed

definition wf_MetadataRespTopic :: "MetadataRespTopic \<Rightarrow> bool" where
  "wf_MetadataRespTopic t \<longleftrightarrow> wire_error (mt_Err t) \<and> wf_string (mt_Name t) \<and>
     wf_array (mt_Partitions t) \<and> list_all wf_MetadataRespPartition (mt_Partitions t)"

definition norm_MetadataRespTopic :: "int16 \<Rightarrow> MetadataRespTopic \<Rightarrow> MetadataRespTopic" where
  "norm_MetadataRespTopic v t =
     t\<lparr>mt_IsInternal := KafkaV1 \<le>s v \<and> mt_IsInternal t,
       mt_Partitions := map (norm_MetadataRespPartition v) (mt_Partitions t)\<rparr>"

interpretation MetadataRespTopic: versioned_struct
  write_MetadataRespTopic read_MetadataRespTopic zero_MetadataRespTopic norm_MetadataRespTopic wf_MetadataRespTopic
proof
  fix t v assume "wf_MetadataRespTopic t"
  note wf = this[unfolded wf_MetadataRespTopic_def]
  show "transfers (write_MetadataRespTopic v t) (read_MetadataRespTopic v) zero_MetadataRespTopic
      (norm_MetadataRespTopic v t)"
    unfolding write_MetadataRespTopic_def read_MetadataRespTopic_def
    by (rule transfers_eqI,
        (rule codec_intros MetadataRespPartition.array | (simp add: wf; fail))+)
      (simp add: norm_MetadataRespTopic_def zero_MetadataRespTopic_def)
qed

definition wf_MetadataResp :: "MetadataResp \<Rightarrow> bool" where
  "wf_MetadataResp r \<longleftrightarrow> wf_string (mr_ClusterID r) \<and>
     wf_array (mr_Brokers r) \<and> list_all wf_MetadataRespBroker (mr_Brokers r) \<and>
     wf_array (mr_Topics r) \<and> list_all wf_MetadataRespTopic (mr_Topics r)"

definition norm_MetadataResp :: "MetadataResp \<Rightarrow> MetadataResp" where
  "norm_MetadataResp r = (let v = mr_Version r in
     r\<lparr>mr_ThrottleTime := if KafkaV3 \<le>s v then wire_duration (mr_ThrottleTime r) else 0,
       mr_Brokers := map (norm_MetadataRespBroker v) (mr_Brokers r),
       mr_ClusterID := if KafkaV2 \<le>s v then mr_ClusterID r else [],
       mr_ControllerID := if KafkaV1 \<le>s v then mr_ControllerID r else 0,
       mr_Topics := map (norm_MetadataRespTopic v) (mr_Topics r)\<rparr>)"

lemma MetadataResp_round_trip:
  assumes "wf_MetadataResp r"
  shows "round_trips (MetadataResp_Bytes r) (ReadVersionedMetadataResp (mr_Version r))
    (norm_MetadataResp r)"
proof -
  note wf = assms[unfolded wf_MetadataResp_def]
  show ?thesis
    unfolding MetadataResp_Bytes_def ReadVersionedMetadataResp_def
    by (rule message_round_trips, rule transfers_eqI,
        (rule codec_intros MetadataRespBroker.array MetadataRespTopic.array | (simp add: wf; fail))+)
      (simp add: norm_MetadataResp_def zero_MetadataResp_def Let_def)
qed

lemma carries_MetadataResp: "carries (PutUint32 (mr_CorrelationID r)) (MetadataResp_Bytes r)"
  unfolding MetadataResp_Bytes_def
  by (rule carries_response)
    (simp add: write_MetadataRespBroker_def write_MetadataRespTopic_def write_MetadataRespPartition_def)

interpretation MetadataResp: response_message
  MetadataResp_Bytes "ReadVersionedMetadataResp v" norm_MetadataResp
  "\<lambda>r. wf_MetadataResp r \<and> mr_Version r = v"
  mr_CorrelationID for v
  by unfold_locales (use MetadataResp_round_trip carries_MetadataResp in blast)+

section \<open>Properties\<close>

text \<open>
  Metadata requests and responses of every version are read back as they were written, up
  to the fields their version does not carry, and a truncated one is rejected.
\<close>

lemma metadata_codec:
  assumes "wf_MetadataReq q" "wf_MetadataResp r"
  shows "round_trips (MetadataReq_Bytes q) ReadMetadataReq (norm_MetadataReq q) \<and>
    round_trips (MetadataResp_Bytes r) (ReadVersionedMetadataResp (mr_Version r)) (norm_MetadataResp r)"
  using MetadataReq.round_trip[of q] MetadataResp.round_trip[of r "mr_Version r"] assms by simp

definition example_MetadataReq :: MetadataReq where
  "example_MetadataReq = \<lparr>version = 5, correlationID = 7, ClientID = str ''c'', mq_Topics = [str ''a''],
     mq_AllowAutoTopicCreation = True\<rparr>"

definition example_MetadataResp :: MetadataResp where
  "example_MetadataResp = \<lparr>mr_Version = 5, mr_CorrelationID = 7, mr_ThrottleTime = 3000000,
     mr_Brokers = [\<lparr>mb_NodeID = 1, mb_Host = str ''h'', mb_Port = 9092, mb_Rack = str ''r''\<rparr>],
     mr_ClusterID = str ''k'', mr_ControllerID = 1,
     mr_Topics = [\<lparr>mt_Name = str ''a'', mt_Err = None, mt_IsInternal = False,
       mt_Partitions = [\<lparr>mp_Err = None, mp_ID = 0, mp_Leader = 1, mp_Replicas = [1, 2],
         mp_Isrs = [1], mp_OfflineReplicas = [2]\<rparr>]\<rparr>]\<rparr>"

lemma metadata_codec_witness:
  "round_trips (MetadataReq_Bytes example_MetadataReq) ReadMetadataReq (norm_MetadataReq example_MetadataReq) \<and>
   round_trips (MetadataResp_Bytes example_MetadataResp) (ReadVersionedMetadataResp (mr_Version example_MetadataResp))
     (norm_MetadataResp example_MetadataResp)"
  by (rule metadata_codec)
    (simp_all add: example_MetadataReq_def example_MetadataResp_def wf_MetadataReq_def wf_MetadataResp_def wf_MetadataRespBroker_def wf_MetadataRespTopic_def
      wf_MetadataRespPartition_def wf_header_def wf_string_def
      wf_array_def str_def wire_error_def kafkaErrors_def)

end
