(* ===== verification/ConsumerMetadata.thy ===== *)
theory ConsumerMetadata
  imports Request
begin

text \<open>
  \<open>ConsumerMetadataReq\<close> and \<open>ConsumerMetadataResp\<close> of \<open>v2/proto/messages.go\<close>.  The reader of
  the request expects a coordinator type from version 1 on which \<open>Bytes\<close> never writes.
\<close>

section \<open>ConsumerMetadataReq\<close>

record ConsumerMetadataReq = RequestHeader +
  cq_ConsumerGroup :: gostring
  cq_CoordinatorType :: int8

definition zero_ConsumerMetadataReq :: ConsumerMetadataReq where
  "zero_ConsumerMetadataReq = \<lparr>version = 0, correlationID = 0, ClientID = [],
     cq_ConsumerGroup = [], cq_CoordinatorType = 0\<rparr>"

definition ReadConsumerMetadataReq :: "reader \<Rightarrow> ConsumerMetadataReq res" where
  "ReadConsumerMetadataReq = run_reader (decodeHeader @
     [read_field DecodeString (\<lambda>x r. r\<lparr>cq_ConsumerGroup := x\<rparr>),
      if_do (\<lambda>(d, r). KafkaV1 \<le>s version r)
        [read_field DecodeInt8 (\<lambda>x r. r\<lparr>cq_CoordinatorType := x\<rparr>)]])
     zero_ConsumerMetadataReq"

definition ConsumerMetadataReq_Bytes :: "ConsumerMetadataReq \<Rightarrow> byte list res" where
  "ConsumerMetadataReq_Bytes r = run_bytes (encodeHeader ConsumerMetadataReqKind r @
     [EncodeString (cq_ConsumerGroup r)])"

section \<open>ConsumerMetadataResp\<close>

record ConsumerMetadataResp =
  cr_Version :: int16
  cr_CorrelationID :: int32
  cr_ThrottleTime :: int64
  cr_Err :: goerror
  cr_ErrMsg :: gostring
  cr_CoordinatorID :: int32
  cr_CoordinatorHost :: gostring
  cr_CoordinatorPort :: int32

definition zero_ConsumerMetadataResp :: ConsumerMetadataResp where
  "zero_ConsumerMetadataResp = \<lparr>cr_Version = 0, cr_CorrelationID = 0, cr_ThrottleTime = 0,
     cr_Err = None, cr_ErrMsg = [], cr_CoordinatorID = 0, cr_CoordinatorHost = [],
     cr_CoordinatorPort = 0\<rparr>"

definition ReadVersionedConsumerMetadataResp :: "int16 \<Rightarrow> reader \<Rightarrow> ConsumerMetadataResp res" where
  "ReadVersionedConsumerMetadataResp v = run_reader
     [skip_field DecodeInt32,
      read_field DecodeInt32 (\<lambda>x r. r\<lparr>cr_CorrelationID := x\<rparr>),
      if_do (\<lambda>_. KafkaV1 \<le>s v) [read_field DecodeDuration32 (\<lambda>x r. r\<lparr>cr_ThrottleTime := x\<rparr>)],
      read_error (\<lambda>x r. r\<lparr>cr_Err := x\<rparr>),
      if_do (\<lambda>_. KafkaV1 \<le>s v) [read_field DecodeString (\<lambda>x r. r\<lparr>cr_ErrMsg := x\<rparr>)],
      read_field DecodeInt32 (\<lambda>x r. r\<lparr>cr_CoordinatorID := x\<rparr>),
      read_field DecodeString (\<lambda>x r. r\<lparr>cr_CoordinatorHost := x\<rparr>),
      read_field DecodeInt32 (\<lambda>x r. r\<lparr>cr_CoordinatorPort := x\<rparr>)]
     (zero_ConsumerMetadataResp\<lparr>cr_Version := v\<rparr>)"

definition ReadConsumerMetadataResp :: "reader \<Rightarrow> ConsumerMetadataResp res" where
  "ReadConsumerMetadataResp = ReadVersionedConsumerMetadataResp KafkaV0"

definition ConsumerMetadataResp_Bytes :: "ConsumerMetadataResp \<Rightarrow> byte list res" where
  "ConsumerMetadataResp_Bytes r = run_bytes
     [EncodeInt32 0,
      EncodeInt32 (cr_CorrelationID r),
      if_do (\<lambda>_. KafkaV1 \<le>s cr_Version r) [EncodeDuration (cr_ThrottleTime r)],
      EncodeError (cr_Err r),
      if_do (\<lambda>_. KafkaV1 \<le>s cr_Version r) [EncodeString (cr_ErrMsg r)],
      EncodeInt32 (cr_CoordinatorID r),
      EncodeString (cr_CoordinatorHost r),
      EncodeInt32 (cr_CoordinatorPort r)]"

section \<open>Round trips\<close>

definition wf_ConsumerMetadataReq :: "ConsumerMetadataReq \<Rightarrow> bool" where
  "wf_ConsumerMetadataReq r \<longleftrightarrow> wf_header r \<and> wf_string (cq_ConsumerGroup r)"

lemma transfers_ConsumerGroup:
  assumes "wf_ConsumerMetadataReq r"
  shows "transfers [EncodeString (cq_ConsumerGroup r)]
     [read_field DecodeString (\<lambda>x r. r\<lparr>cq_ConsumerGroup := x\<rparr>)]
     (set_header r zero_ConsumerMetadataReq) (r\<lparr>cq_CoordinatorType := 0\<rparr>)"
  using assms[unfolded wf_ConsumerMetadataReq_def]
  by - (rule transfers_eqI, (rule codec_intros | (simp; fail))+,
    simp add: set_header_def zero_ConsumerMetadataReq_def)

text \<open>Before version 1 the reader stops where \<open>Bytes\<close> does.\<close>

lemma ConsumerMetadataReq_V0_round_trip:
  assumes "wf_ConsumerMetadataReq r" "\<not> KafkaV1 \<le>s version r"
  shows "round_trips (ConsumerMetadataReq_Bytes r) ReadConsumerMetadataReq (r\<lparr>cq_CoordinatorType := 0\<rparr>)"
proof -
  have "pairs (if_do (\<lambda>_. False) []) (if_do (\<lambda>(d, r). KafkaV1 \<le>s version r)
        [read_field DecodeInt8 (\<lambda>x r. r\<lparr>cq_CoordinatorType := x\<rparr>)])
      (r\<lparr>cq_CoordinatorType := 0\<rparr>) (if False then r else r\<lparr>cq_CoordinatorType := 0\<rparr>)"
    by (rule pairs_if_do) (use assms(2) in simp_all)
  from transfers_Cons[OF this transfers_Nil]
  have "transfers [] [if_do (\<lambda>(d, r). KafkaV1 \<le>s version r)
        [read_field DecodeInt8 (\<lambda>x r. r\<lparr>cq_CoordinatorType := x\<rparr>)]]
      (r\<lparr>cq_CoordinatorType := 0\<rparr>) (r\<lparr>cq_CoordinatorType := 0\<rparr>)"
    by (simp add: transfers_def emits_def)
  from transfers_append[OF transfers_ConsumerGroup[OF assms(1)] this] show ?thesis
    unfolding ConsumerMetadataReq_Bytes_def ReadConsumerMetadataReq_def
    using assms(1) by (intro request_round_trips) (simp_all add: wf_ConsumerMetadataReq_def)
qed

lemma carries_ConsumerMetadataReq:
  "carries (PutUint16 ConsumerMetadataReqKind) (ConsumerMetadataReq_Bytes r)"
  unfolding ConsumerMetadataReq_Bytes_def
  by (rule carries_header) simp

interpretation ConsumerMetadataReq: request_message
  ConsumerMetadataReq_Bytes ReadConsumerMetadataReq "\<lambda>r. r\<lparr>cq_CoordinatorType := 0\<rparr>"
  "\<lambda>r. wf_ConsumerMetadataReq r \<and> \<not> KafkaV1 \<le>s version r" ConsumerMetadataReqKind
  by unfold_locales (use ConsumerMetadataReq_V0_round_trip carries_ConsumerMetadataReq in blast)+

text \<open>From version 1 on it runs into the end of the input.\<close>

lemma ConsumerMetadataReq_V1_rejected:
  assumes "wf_ConsumerMetadataReq r" "KafkaV1 \<le>s version r"
  shows "\<exists>b. ConsumerMetadataReq_Bytes r = Ok b \<and> ReadConsumerMetadataReq (NewReader b) = Err EOF"
proof -
  have tr: "transfers (tl (encodeHeader ConsumerMetadataReqKind r) @ [EncodeString (cq_ConsumerGroup r)])
     (tl decodeHeader @ [read_field DecodeString (\<lambda>x r. r\<lparr>cq_ConsumerGroup := x\<rparr>)])
     zero_ConsumerMetadataReq (r\<lparr>cq_CoordinatorType := 0\<rparr>)"
    by (rule transfers_append[OF transfers_header transfers_ConsumerGroup[OF assms(1)]])
      (use assms(1) in \<open>simp add: wf_ConsumerMetadataReq_def\<close>)
  then obtain body where body:
    "run_bytes (EncodeInt32 0 # tl (encodeHeader ConsumerMetadataReqKind r) @
       [EncodeString (cq_ConsumerGroup r)]) = Ok (frame body)"
    "reads (frame body) (block (skip_field DecodeInt32 # tl decodeHeader @
       [read_field DecodeString (\<lambda>x r. r\<lparr>cq_ConsumerGroup := x\<rparr>)]))
       zero_ConsumerMetadataReq (r\<lparr>cq_CoordinatorType := 0\<rparr>)"
    by (rule frame_reads)
  from run_reader_beyond[OF body(2), of "[if_do (\<lambda>(d, r). KafkaV1 \<le>s version r)
        [read_field DecodeInt8 (\<lambda>x r. r\<lparr>cq_CoordinatorType := x\<rparr>)]]"] assms(2)
  have "ReadConsumerMetadataReq (NewReader (frame body)) = Err EOF"
    by (simp add: ReadConsumerMetadataReq_def decodeHeader_def read_field_def DecodeInt8_def
        decode_fixed_def ReadFull_short check_err_def)
  with body(1) show ?thesis
    by (simp add: ConsumerMetadataReq_Bytes_def encodeHeader_def)
qed

definition wf_ConsumerMetadataResp :: "ConsumerMetadataResp \<Rightarrow> bool" where
  "wf_ConsumerMetadataResp r \<longleftrightarrow>
     wire_error (cr_Err r) \<and> wf_string (cr_ErrMsg r) \<and> wf_string (cr_CoordinatorHost r)"

definition norm_ConsumerMetadataResp :: "ConsumerMetadataResp \<Rightarrow> ConsumerMetadataResp" where
  "norm_ConsumerMetadataResp r =
     r\<lparr>cr_ThrottleTime := if KafkaV1 \<le>s cr_Version r then wire_duration (cr_ThrottleTime r) else 0,
       cr_ErrMsg := if KafkaV1 \<le>s cr_Version r then cr_ErrMsg r else []\<rparr>"

lemma ConsumerMetadataResp_round_trip:
  assumes "wf_ConsumerMetadataResp r"
  shows "round_trips (ConsumerMetadataResp_Bytes r) (ReadVersionedConsumerMetadataResp (cr_Version r))
    (norm_ConsumerMetadataResp r)"
proof -
  note wf = assms[unfolded wf_ConsumerMetadataResp_def]
  show ?thesis
    unfolding ConsumerMetadataResp_Bytes_def ReadVersionedConsumerMetadataResp_def
    by (rule message_round_trips, rule transfers_eqI, (rule codec_intros | (simp add: wf; fail))+)
      (simp add: norm_ConsumerMetadataResp_def zero_ConsumerMetadataResp_def)
qed

lemma carries_ConsumerMetadataResp: "carries (PutUint32 (cr_CorrelationID r)) (ConsumerMetadataResp_Bytes r)"
  unfolding ConsumerMetadataResp_Bytes_def
  by (rule carries_response) simp

interpretation ConsumerMetadataResp: response_message
  ConsumerMetadataResp_Bytes "ReadVersionedConsumerMetadataResp v" norm_ConsumerMetadataResp
  "\<lambda>r. wf_ConsumerMetadataResp r \<and> cr_Version r = v"
  cr_CorrelationID for v
  by unfold_locales (use ConsumerMetadataResp_round_trip carries_ConsumerMetadataResp in blast)+

section \<open>Properties\<close>

text \<open>
  Consumer metadata responses of every version are read back as they were written, up
  to the fields their version does not carry, and requests of version 0 but for the coordinator
  type; truncated ones are rejected.
\<close>

lemma consumer_metadata_codec:
  assumes "wf_ConsumerMetadataReq q" "\<not> KafkaV1 \<le>s version q" "wf_ConsumerMetadataResp r"
  shows "round_trips (ConsumerMetadataReq_Bytes q) ReadConsumerMetadataReq
      (q\<lparr>cq_CoordinatorType := 0\<rparr>) \<and>
    round_trips (ConsumerMetadataResp_Bytes r) (ReadVersionedConsumerMetadataResp (cr_Version r))
      (norm_ConsumerMetadataResp r)"
  using ConsumerMetadataReq.round_trip[of q] ConsumerMetadataResp.round_trip[of r "cr_Version r"] assms
  by simp

definition example_ConsumerMetadataReq :: "int16 \<Rightarrow> ConsumerMetadataReq" where
  "example_ConsumerMetadataReq v = \<lparr>version = v, correlationID = 7, ClientID = str ''c'',
     cq_ConsumerGroup = str ''g'', cq_CoordinatorType = 0\<rparr>"

definition example_ConsumerMetadataResp :: ConsumerMetadataResp where
  "example_ConsumerMetadataResp = \<lparr>cr_Version = 1, cr_CorrelationID = 7, cr_ThrottleTime = 3000000,
     cr_Err = None, cr_ErrMsg = [], cr_CoordinatorID = 1, cr_CoordinatorHost = str ''h'',
     cr_CoordinatorPort = 9092\<rparr>"

lemma consumer_metadata_codec_witness:
  "round_trips (ConsumerMetadataReq_Bytes (example_ConsumerMetadataReq 0)) ReadConsumerMetadataReq
     ((example_ConsumerMetadataReq 0)\<lparr>cq_CoordinatorType := 0\<rparr>) \<and>
   round_trips (ConsumerMetadataResp_Bytes example_ConsumerMetadataResp)
     (ReadVersionedConsumerMetadataResp (cr_Version example_ConsumerMetadataResp))
     (norm_ConsumerMetadataResp example_ConsumerMetadataResp)"
  by (rule consumer_metadata_codec)
    (simp_all add: example_ConsumerMetadataReq_def example_ConsumerMetadataResp_def wf_header_def
      wf_ConsumerMetadataReq_def wf_ConsumerMetadataResp_def wf_string_def str_def wire_error_def
      word_sle_eq)

text \<open>
  From version 1 on \<open>ReadConsumerMetadataReq\<close> rejects the bytes \<open>Bytes\<close> writes: it expects the
  coordinator type, which is never written, and runs into the end of the input.
\<close>

lemma consumer_metadata_V1_rejected:
  assumes "wf_ConsumerMetadataReq q" "KafkaV1 \<le>s version q"
  shows "\<exists>b. ConsumerMetadataReq_Bytes q = Ok b \<and> ReadConsumerMetadataReq (NewReader b) = Err EOF"
  using assms by (rule ConsumerMetadataReq_V1_rejected)

lemma consumer_metadata_V1_rejected_witness:
  "\<exists>b. ConsumerMetadataReq_Bytes (example_ConsumerMetadataReq 1) = Ok b \<and>
    ReadConsumerMetadataReq (NewReader b) = Err EOF"
  by (rule consumer_metadata_V1_rejected)
    (simp_all add: example_ConsumerMetadataReq_def wf_header_def wf_ConsumerMetadataReq_def
      wf_string_def str_def word_sle_eq)

end
