(* ===== verification/OffsetCommit.thy ===== *)
theory OffsetCommit
  imports Request
begin

text \<open>
  \<open>OffsetCommitReq\<close> and \<open>OffsetCommitResp\<close> of \<open>v2/proto/messages.go\<close>.  Instants travel as
  whole milliseconds, and only in version 1.
\<close>

section \<open>OffsetCommitReq\<close>

record OffsetCommitReqPartition =
  ocqp_ID :: int32
  ocqp_Offset :: int64
  ocqp_TimeStamp :: gotime
  ocqp_Metadata :: gostring

record OffsetCommitReqTopic =
  ocqt_Name :: gostring
  ocqt_Partitions :: "OffsetCommitReqPartition list"

record OffsetCommitReq = RequestHeader +
  ocq_ConsumerGroup :: gostring
  ocq_GroupGenerationID :: int32
  ocq_MemberID :: gostring
  ocq_RetentionTime :: int64
  ocq_Topics :: "OffsetCommitReqTopic list"

definition zero_OffsetCommitReqPartition :: OffsetCommitReqPartition where
  "zero_OffsetCommitReqPartition =
     \<lparr>ocqp_ID = 0, ocqp_Offset = 0, ocqp_TimeStamp = ZeroTime, ocqp_Metadata = []\<rparr>"

definition zero_OffsetCommitReqTopic :: OffsetCommitReqTopic where
  "zero_OffsetCommitReqTopic = \<lparr>ocqt_Name = [], ocqt_Partitions = []\<rparr>"

definition zero_OffsetCommitReq :: OffsetCommitReq where
  "zero_OffsetCommitReq = \<lparr>version = 0, correlationID = 0, ClientID = [],
     ocq_ConsumerGroup = [], ocq_GroupGenerationID = 0, ocq_MemberID = [], ocq_RetentionTime = 0,
     ocq_Topics = []\<rparr>"

definition read_OffsetCommitReqPartition ::
  "int16 \<Rightarrow> (error, decoder \<times> OffsetCommitReqPartition) stmt list"
where
  "read_OffsetCommitReqPartition v =
     [read_field DecodeInt32 (\<lambda>x p. p\<lparr>ocqp_ID := x\<rparr>),
      read_field DecodeInt64 (\<lambda>x p. p\<lparr>ocqp_Offset := x\<rparr>),
      if_do (\<lambda>_. v = KafkaV1)
        [read_field DecodeInt64 (\<lambda>x p. p\<lparr>ocqp_TimeStamp := UnixTime (x * of_int Millisecond)\<rparr>)],
      read_field DecodeString (\<lambda>x p. p\<lparr>ocqp_Metadata := x\<rparr>)]"

definition read_OffsetCommitReqTopic ::
  "int16 \<Rightarrow> (error, decoder \<times> OffsetCommitReqTopic) stmt list"
where
  "read_OffsetCommitReqTopic v =
     [read_field DecodeString (\<lambda>x t. t\<lparr>ocqt_Name := x\<rparr>),
      read_array (struct (read_OffsetCommitReqPartition v) zero_OffsetCommitReqPartition)
        (\<lambda>x t. t\<lparr>ocqt_Partitions := x\<rparr>)]"

definition ReadOffsetCommitReq_body :: "(error, decoder \<times> OffsetCommitReq) stmt list" where
  "ReadOffsetCommitReq_body =
     [read_field DecodeString (\<lambda>x r. r\<lparr>ocq_ConsumerGroup := x\<rparr>),
      if_do (\<lambda>(d, r). KafkaV1 \<le>s version r)
        [read_field DecodeInt32 (\<lambda>x r. r\<lparr>ocq_GroupGenerationID := x\<rparr>),
         read_field DecodeString (\<lambda>x r. r\<lparr>ocq_MemberID := x\<rparr>)],
      if_do (\<lambda>(d, r). KafkaV2 \<le>s version r)
        [read_field DecodeInt64 (\<lambda>x r. r\<lparr>ocq_RetentionTime := x\<rparr>)],
      dep version (\<lambda>v. read_array (struct (read_OffsetCommitReqTopic v) zero_OffsetCommitReqTopic)
        (\<lambda>x r. r\<lparr>ocq_Topics := x\<rparr>))]"

definition ReadOffsetCommitReq :: "reader \<Rightarrow> OffsetCommitReq res" where
  "ReadOffsetCommitReq =
     run_reader (decodeHeader @ ReadOffsetCommitReq_body) zero_OffsetCommitReq"

definition write_OffsetCommitReqPartition ::
  "int16 \<Rightarrow> OffsetCommitReqPartition \<Rightarrow> (error, encoder) stmt list"
where
  "write_OffsetCommitReqPartition v part =
     [EncodeInt32 (ocqp_ID part),
      EncodeInt64 (ocqp_Offset part),
      if_do (\<lambda>_. v = KafkaV1) [EncodeInt64 (quot64 (UnixNano (ocqp_TimeStamp part)) Millisecond)],
      EncodeString (ocqp_Metadata part)]"

definition write_OffsetCommitReqTopic ::
  "int16 \<Rightarrow> OffsetCommitReqTopic \<Rightarrow> (error, encoder) stmt list"
where
  "write_OffsetCommitReqTopic v topic =
     [EncodeString (ocqt_Name topic),
      write_array (write_OffsetCommitReqPartition v) (ocqt_Partitions topic)]"

definition OffsetCommitReq_Bytes :: "OffsetCommitReq \<Rightarrow> byte list res" where
  "OffsetCommitReq_Bytes r = run_bytes (encodeHeader OffsetCommitReqKind r @
     [EncodeString (ocq_ConsumerGroup r),
      if_do (\<lambda>_. KafkaV1 \<le>s version r)
        [EncodeInt32 (ocq_GroupGenerationID r), EncodeString (ocq_MemberID r)],
      if_do (\<lambda>_. KafkaV2 \<le>s version r) [EncodeInt64 (ocq_RetentionTime r)],
      write_array (write_OffsetCommitReqTopic (version r)) (ocq_Topics r)])"

section \<open>OffsetCommitResp\<close>

record OffsetCommitRespPartition =
  ocrp_ID :: int32
  ocrp_Err :: goerror

record OffsetCommitRespTopic =
  ocrt_Name :: gostring
  ocrt_Partitions :: "OffsetCommitRespPartition list"

record OffsetCommitResp =
  ocr_Version :: int16
  ocr_CorrelationID :: int32
  ocr_ThrottleTime :: int64
  ocr_Topics :: "OffsetCommitRespTopic list"

definition zero_OffsetCommitRespPartition :: OffsetCommitRespPartition where
  "zero_OffsetCommitRespPartition = \<lparr>ocrp_ID = 0, ocrp_Err = None\<rparr>"

definition zero_OffsetCommitRespTopic :: OffsetCommitRespTopic where
  "zero_OffsetCommitRespTopic = \<lparr>ocrt_Name = [], ocrt_Partitions = []\<rparr>"

definition zero_OffsetCommitResp :: OffsetCommitResp where
  "zero_OffsetCommitResp =
     \<lparr>ocr_Version = 0, ocr_CorrelationID = 0, ocr_ThrottleTime = 0, ocr_Topics = []\<rparr>"

definition read_OffsetCommitRespPartition ::
  "(error, decoder \<times> OffsetCommitRespPartition) stmt list"
where
  "read_OffsetCommitRespPartition =
     [read_field DecodeInt32 (\<lambda>x p. p\<lparr>ocrp_ID := x\<rparr>),
      read_error (\<lambda>x p. p\<lparr>ocrp_Err := x\<rparr>)]"

definition read_OffsetCommitRespTopic :: "(error, decoder \<times> OffsetCommitRespTopic) stmt list" where
  "read_OffsetCommitRespTopic =
     [read_field DecodeString (\<lambda>x t. t\<lparr>ocrt_Name := x\<rparr>),
      read_array (struct read_OffsetCommitRespPartition zero_OffsetCommitRespPartition)
        (\<lambda>x t. t\<lparr>ocrt_Partitions := x\<rparr>)]"

definition ReadVersionedOffsetCommitResp :: "int16 \<Rightarrow> reader \<Rightarrow> OffsetCommitResp res" where
  "ReadVersionedOffsetCommitResp v = run_reader
     [skip_field DecodeInt32,
      read_field DecodeInt32 (\<lambda>x r. r\<lparr>ocr_CorrelationID := x\<rparr>),
      if_do (\<lambda>_. KafkaV3 \<le>s v) [read_field DecodeDuration32 (\<lambda>x r. r\<lparr>ocr_ThrottleTime := x\<rparr>)],
      read_array (struct read_OffsetCommitRespTopic zero_OffsetCommitRespTopic)
        (\<lambda>x r. r\<lparr>ocr_Topics := x\<rparr>)]
     (zero_OffsetCommitResp\<lparr>ocr_Version := v\<rparr>)"

definition ReadOffsetCommitResp :: "reader \<Rightarrow> OffsetCommitResp res" where
  "ReadOffsetCommitResp = ReadVersionedOffsetCommitResp KafkaV0"

definition write_OffsetCommitRespPartition ::
  "OffsetCommitRespPartition \<Rightarrow> (error, encoder) stmt list"
where
  "write_OffsetCommitRespPartition p = [EncodeInt32 (ocrp_ID p), EncodeError (ocrp_Err p)]"

definition write_OffsetCommitRespTopic :: "OffsetCommitRespTopic \<Rightarrow> (error, encoder) stmt list" where
  "write_OffsetCommitRespTopic t =
     [EncodeString (ocrt_Name t),
      write_array write_OffsetCommitRespPartition (ocrt_Partitions t)]"

definition OffsetCommitResp_Bytes :: "OffsetCommitResp \<Rightarrow> byte list res" where
  "OffsetCommitResp_Bytes r = run_bytes
     [EncodeInt32 0,
      EncodeInt32 (ocr_CorrelationID r),
      if_do (\<lambda>_. KafkaV3 \<le>s ocr_Version r) [EncodeDuration (ocr_ThrottleTime r)],
      write_array write_OffsetCommitRespTopic (ocr_Topics r)]"

section \<open>Round trip of requests\<close>

definition wf_OffsetCommitReqTopic :: "OffsetCommitReqTopic \<Rightarrow> bool" where
  "wf_OffsetCommitReqTopic t \<longleftrightarrow> wf_string (ocqt_Name t) \<and> wf_array (ocqt_Partitions t) \<and>
     list_all (\<lambda>p. wf_string (ocqp_Metadata p)) (ocqt_Partitions t)"

definition wf_OffsetCommitReq :: "OffsetCommitReq \<Rightarrow> bool" where
  "wf_OffsetCommitReq r \<longleftrightarrow> wf_header r \<and> wf_string (ocq_ConsumerGroup r) \<and>
     wf_string (ocq_MemberID r) \<and> wf_array (ocq_Topics r) \<and>
     list_all wf_OffsetCommitReqTopic (ocq_Topics r)"

definition norm_OffsetCommitReqPartition ::
  "int16 \<Rightarrow> OffsetCommitReqPartition \<Rightarrow> OffsetCommitReqPartition"
where
  "norm_OffsetCommitReqPartition v p =
     p\<lparr>ocqp_TimeStamp := if v = KafkaV1 then wire_time (ocqp_TimeStamp p) else ZeroTime\<rparr>"

definition norm_OffsetCommitReqTopic :: "int16 \<Rightarrow> OffsetCommitReqTopic \<Rightarrow> OffsetCommitReqTopic" where
  "norm_OffsetCommitReqTopic v t =
     t\<lparr>ocqt_Partitions := map (norm_OffsetCommitReqPartition v) (ocqt_Partitions t)\<rparr>"

definition norm_OffsetCommitReq :: "OffsetCommitReq \<Rightarrow> OffsetCommitReq" where
  "norm_OffsetCommitReq r =
     r\<lparr>ocq_GroupGenerationID := if KafkaV1 \<le>s version r then ocq_GroupGenerationID r else 0,
       ocq_MemberID := if KafkaV1 \<le>s version r then ocq_MemberID r else [],
       ocq_RetentionTime := if KafkaV2 \<le>s version r then ocq_RetentionTime r else 0,
       ocq_Topics := map (norm_OffsetCommitReqTopic (version r)) (ocq_Topics r)\<rparr>"

interpretation OffsetCommitReqPartition: versioned_struct
  write_OffsetCommitReqPartition read_OffsetCommitReqPartition
  zero_OffsetCommitReqPartition norm_OffsetCommitReqPartition
  "\<lambda>p. wf_string (ocqp_Metadata p)"
proof
  fix p :: OffsetCommitReqPartition and v assume wf: "wf_string (ocqp_Metadata p)"
  show "transfers (write_OffsetCommitReqPartition v p) (read_OffsetCommitReqPartition v)
      zero_OffsetCommitReqPartition (norm_OffsetCommitReqPartition v p)"
    unfolding write_OffsetCommitReqPartition_def read_OffsetCommitReqPartition_def
    by (rule transfers_eqI, (rule codec_intros | (simp add: wf; fail))+)
      (simp add: norm_OffsetCommitReqPartition_def zero_OffsetCommitReqPartition_def wire_time_def)
qed

interpretation OffsetCommitReqTopic: versioned_struct
  write_OffsetCommitReqTopic read_OffsetCommitReqTopic zero_OffsetCommitReqTopic
  norm_OffsetCommitReqTopic wf_OffsetCommitReqTopic
proof
  fix t v assume "wf_OffsetCommitReqTopic t"
  note wf = this[unfolded wf_OffsetCommitReqTopic_def]
  show "transfers (write_OffsetCommitReqTopic v t) (read_OffsetCommitReqTopic v)
      zero_OffsetCommitReqTopic (norm_OffsetCommitReqTopic v t)"
    unfolding write_OffsetCommitReqTopic_def read_OffsetCommitReqTopic_def
    by (rule transfers_eqI,
        (rule codec_intros OffsetCommitReqPartition.array | (simp add: wf; fail))+)
      (simp add: norm_OffsetCommitReqTopic_def zero_OffsetCommitReqTopic_def)
qed

lemma OffsetCommitReq_round_trip:
  assumes "wf_OffsetCommitReq r"
  shows "round_trips (OffsetCommitReq_Bytes r) ReadOffsetCommitReq (norm_OffsetCommitReq r)"
proof -
  note wf = assms[unfolded wf_OffsetCommitReq_def]
  show ?thesis
    unfolding OffsetCommitReq_Bytes_def ReadOffsetCommitReq_def ReadOffsetCommitReq_body_def
    by (rule request_round_trips, (simp add: wf; fail), rule transfers_eqI,
        (rule codec_intros OffsetCommitReqTopic.dep_array | (simp add: wf; fail))+)
      (simp add: norm_OffsetCommitReq_def set_header_def zero_OffsetCommitReq_def)
qed

lemma carries_OffsetCommitReq: "carries (PutUint16 OffsetCommitReqKind) (OffsetCommitReq_Bytes r)"
  unfolding OffsetCommitReq_Bytes_def
  by (rule carries_header)
    (simp add: write_OffsetCommitReqTopic_def write_OffsetCommitReqPartition_def)

interpretation OffsetCommitReq: request_message
  OffsetCommitReq_Bytes ReadOffsetCommitReq norm_OffsetCommitReq wf_OffsetCommitReq
  OffsetCommitReqKind
  by unfold_locales (rule OffsetCommitReq_round_trip, assumption, rule carries_OffsetCommitReq)

section \<open>Round trip of responses\<close>

definition wf_OffsetCommitRespTopic :: "OffsetCommitRespTopic \<Rightarrow> bool" where
  "wf_OffsetCommitRespTopic t \<longleftrightarrow> wf_string (ocrt_Name t) \<and> wf_array (ocrt_Partitions t) \<and>
     list_all (\<lambda>p. wire_error (ocrp_Err p)) (ocrt_Partitions t)"

definition wf_OffsetCommitResp :: "OffsetCommitResp \<Rightarrow> bool" where
  "wf_OffsetCommitResp r \<longleftrightarrow> wf_array (ocr_Topics r) \<and> list_all wf_OffsetCommitRespTopic (ocr_Topics r)"

definition norm_OffsetCommitResp :: "OffsetCommitResp \<Rightarrow> OffsetCommitResp" where
  "norm_OffsetCommitResp r =
     r\<lparr>ocr_ThrottleTime :=
         if KafkaV3 \<le>s ocr_Version r then wire_duration (ocr_ThrottleTime r) else 0\<rparr>"

interpretation OffsetCommitRespPartition: struct_codec
  write_OffsetCommitRespPartition read_OffsetCommitRespPartition zero_OffsetCommitRespPartition
  "\<lambda>p. p" "\<lambda>p. wire_error (ocrp_Err p)"
proof
  fix p :: OffsetCommitRespPartition assume wf: "wire_error (ocrp_Err p)"
  show "transfers (write_OffsetCommitRespPartition p) read_OffsetCommitRespPartition
      zero_OffsetCommitRespPartition p"
    unfolding write_OffsetCommitRespPartition_def read_OffsetCommitRespPartition_def
    by (rule transfers_eqI, (rule codec_intros | (simp add: wf; fail))+)
qed

interpretation OffsetCommitRespTopic: struct_codec
  write_OffsetCommitRespTopic read_OffsetCommitRespTopic zero_OffsetCommitRespTopic
  "\<lambda>t. t" wf_OffsetCommitRespTopic
proof
  fix t assume "wf_OffsetCommitRespTopic t"
  note wf = this[unfolded wf_OffsetCommitRespTopic_def]
  show "transfers (write_OffsetCommitRespTopic t) read_OffsetCommitRespTopic
      zero_OffsetCommitRespTopic t"
    unfolding write_OffsetCommitRespTopic_def read_OffsetCommitRespTopic_def
    by (rule transfers_eqI,
        (rule codec_intros OffsetCommitRespPartition.array | (simp add: wf; fail))+)
qed

lemma OffsetCommitResp_round_trip:
  assumes "wf_OffsetCommitResp r"
  shows "round_trips (OffsetCommitResp_Bytes r) (ReadVersionedOffsetCommitResp (ocr_Version r))
    (norm_OffsetCommitResp r)"
proof -
  note wf = assms[unfolded wf_OffsetCommitResp_def]
  show ?thesis
    unfolding OffsetCommitResp_Bytes_def ReadVersionedOffsetCommitResp_def
    by (rule message_round_trips, rule transfers_eqI,
        (rule codec_intros OffsetCommitRespTopic.array | (simp add: wf; fail))+)
      (simp add: norm_OffsetCommitResp_def zero_OffsetCommitResp_def)
qed

lemma carries_OffsetCommitResp: "carries (PutUint32 (ocr_CorrelationID r)) (OffsetCommitResp_Bytes r)"
  unfolding OffsetCommitResp_Bytes_def
  by (rule carries_response)
    (simp add: write_OffsetCommitRespTopic_def write_OffsetCommitRespPartition_def)

interpretation OffsetCommitResp: response_message
  OffsetCommitResp_Bytes "ReadVersionedOffsetCommitResp v" norm_OffsetCommitResp
  "\<lambda>r. wf_OffsetCommitResp r \<and> ocr_Version r = v"
  ocr_CorrelationID for v
  by unfold_locales (use OffsetCommitResp_round_trip carries_OffsetCommitResp in blast)+

section \<open>Properties\<close>

text \<open>
  Offset commit requests and responses of every version are read back as they were
  written, up to the fields their version does not carry, and a truncated one is rejected.
\<close>

lemma offset_commit_codec:
  assumes "wf_OffsetCommitReq q" "wf_OffsetCommitResp r"
  shows "round_trips (OffsetCommitReq_Bytes q) ReadOffsetCommitReq (norm_OffsetCommitReq q) \<and>
    round_trips (OffsetCommitResp_Bytes r) (ReadVersionedOffsetCommitResp (ocr_Version r)) (norm_OffsetCommitResp r)"
  using OffsetCommitReq.round_trip[of q] OffsetCommitResp.round_trip[of r "ocr_Version r"] assms by simp

definition example_OffsetCommitReq :: OffsetCommitReq where
  "example_OffsetCommitReq = \<lparr>version = 5, correlationID = 7, ClientID = str ''c'', ocq_ConsumerGroup = str ''g'',
     ocq_GroupGenerationID = 1, ocq_MemberID = str ''m'', ocq_RetentionTime = 0,
     ocq_Topics = [\<lparr>ocqt_Name = str ''a'', ocqt_Partitions =
       [\<lparr>ocqp_ID = 0, ocqp_Offset = 42, ocqp_TimeStamp = ZeroTime, ocqp_Metadata = []\<rparr>]\<rparr>]\<rparr>"

definition example_OffsetCommitResp :: OffsetCommitResp where
  "example_OffsetCommitResp = \<lparr>ocr_Version = 3, ocr_CorrelationID = 7, ocr_ThrottleTime = 3000000,
     ocr_Topics = [\<lparr>ocrt_Name = str ''a'', ocrt_Partitions = [\<lparr>ocrp_ID = 0, ocrp_Err = None\<rparr>]\<rparr>]\<rparr>"

lemma offset_commit_codec_witness:
  "round_trips (OffsetCommitReq_Bytes example_OffsetCommitReq) ReadOffsetCommitReq (norm_OffsetCommitReq example_OffsetCommitReq) \<and>
   round_trips (OffsetCommitResp_Bytes example_OffsetCommitResp) (ReadVersionedOffsetCommitResp (ocr_Version example_OffsetCommitResp))
     (norm_OffsetCommitResp example_OffsetCommitResp)"
  by (rule offset_commit_codec)
    (simp_all add: example_OffsetCommitReq_def example_OffsetCommitResp_def wf_OffsetCommitReq_def wf_OffsetCommitReqTopic_def wf_OffsetCommitResp_def
      wf_OffsetCommitRespTopic_def wf_header_def wf_string_def
      wf_array_def str_def wire_error_def kafkaErrors_def)

end
