(* ===== verification/OffsetFetch.thy ===== *)
theory OffsetFetch
  imports Request
begin

text \<open>
  \<open>OffsetFetchReq\<close> and \<open>OffsetFetchResp\<close> of \<open>v2/proto/messages.go\<close>.
\<close>

section \<open>OffsetFetchReq\<close>

record OffsetFetchReqTopic =
  ofqt_Name :: gostring
  ofqt_Partitions :: "int32 list"

record OffsetFetchReq = RequestHeader +
  ofq_ConsumerGroup :: gostring
  ofq_Topics :: "OffsetFetchReqTopic list"

definition zero_OffsetFetchReqTopic :: OffsetFetchReqTopic where
  "zero_OffsetFetchReqTopic = \<lparr>ofqt_Name = [], ofqt_Partitions = []\<rparr>"

definition zero_OffsetFetchReq :: OffsetFetchReq where
  "zero_OffsetFetchReq = \<lparr>version = 0, correlationID = 0, ClientID = [],
     ofq_ConsumerGroup = [], ofq_Topics = []\<rparr>"

definition read_OffsetFetchReqTopic :: "(error, decoder \<times> OffsetFetchReqTopic) stmt list" where
  "read_OffsetFetchReqTopic =
     [read_field DecodeString (\<lambda>x t. t\<lparr>ofqt_Name := x\<rparr>),
      read_array (prim DecodeInt32) (\<lambda>x t. t\<lparr>ofqt_Partitions := x\<rparr>)]"

definition ReadOffsetFetchReq :: "reader \<Rightarrow> OffsetFetchReq res" where
  "ReadOffsetFetchReq = run_reader (decodeHeader @
     [read_field DecodeString (\<lambda>x r. r\<lparr>ofq_ConsumerGroup := x\<rparr>),
      read_array (struct read_OffsetFetchReqTopic zero_OffsetFetchReqTopic)
        (\<lambda>x r. r\<lparr>ofq_Topics := x\<rparr>)])
     zero_OffsetFetchReq"

definition write_OffsetFetchReqTopic :: "OffsetFetchReqTopic \<Rightarrow> (error, encoder) stmt list" where
  "write_OffsetFetchReqTopic t = [EncodeString (ofqt_Name t), EncodeInt32s (ofqt_Partitions t)]"

definition OffsetFetchReq_Bytes :: "OffsetFetchReq \<Rightarrow> byte list res" where
  "OffsetFetchReq_Bytes r = run_bytes (encodeHeader OffsetFetchReqKind r @
     [EncodeString (ofq_ConsumerGroup r),
      write_array write_OffsetFetchReqTopic (ofq_Topics r)])"

section \<open>OffsetFetchResp\<close>

record OffsetFetchRespPartition =
  ofrp_ID :: int32
  ofrp_Offset :: int64
  ofrp_Metadata :: gostring
  ofrp_Err :: goerror

record OffsetFetchRespTopic =
  ofrt_Name :: gostring
  ofrt_Partitions :: "OffsetFetchRespPartition list"

record OffsetFetchResp =
  ofr_Version :: int16
  ofr_CorrelationID :: int32
  ofr_ThrottleTime :: int64
  ofr_Topics :: "OffsetFetchRespTopic list"
  ofr_Err :: goerror

definition zero_OffsetFetchRespPartition :: OffsetFetchRespPartition where
  "zero_OffsetFetchRespPartition =
     \<lparr>ofrp_ID = 0, ofrp_Offset = 0, ofrp_Metadata = [], ofrp_Err = None\<rparr>"

definition zero_OffsetFetchRespTopic :: OffsetFetchRespTopic where
  "zero_OffsetFetchRespTopic = \<lparr>ofrt_Name = [], ofrt_Partitions = []\<rparr>"

definition zero_OffsetFetchResp :: OffsetFetchResp where
  "zero_OffsetFetchResp = \<lparr>ofr_Version = 0, ofr_CorrelationID = 0, ofr_ThrottleTime = 0,
     ofr_Topics = [], ofr_Err = None\<rparr>"

definition read_OffsetFetchRespPartition :: "(error, decoder \<times> OffsetFetchRespPartition) stmt list" where
  "read_OffsetFetchRespPartition =
     [read_field DecodeInt32 (\<lambda>x p. p\<lparr>ofrp_ID := x\<rparr>),
      read_field DecodeInt64 (\<lambda>x p. p\<lparr>ofrp_Offset := x\<rparr>),
      read_field DecodeString (\<lambda>x p. p\<lparr>ofrp_Metadata := x\<rparr>),
      read_error (\<lambda>x p. p\<lparr>ofrp_Err := x\<rparr>)]"

definition read_OffsetFetchRespTopic :: "(error, decoder \<times> OffsetFetchRespTopic) stmt list" where
  "read_OffsetFetchRespTopic =
     [read_field DecodeString (\<lambda>x t. t\<lparr>ofrt_Name := x\<rparr>),
      read_array (struct read_OffsetFetchRespPartition zero_OffsetFetchRespPartition)
        (\<lambda>x t. t\<lparr>ofrt_Partitions := x\<rparr>)]"

definition ReadVersionedOffsetFetchResp :: "int16 \<Rightarrow> reader \<Rightarrow> OffsetFetchResp res" where
  "ReadVersionedOffsetFetchResp v = run_reader
     [skip_field DecodeInt32,
      read_field DecodeInt32 (\<lambda>x r. r\<lparr>ofr_CorrelationID := x\<rparr>),
      if_do (\<lambda>_. KafkaV3 \<le>s v) [read_field DecodeDuration32 (\<lambda>x r. r\<lparr>ofr_ThrottleTime := x\<rparr>)],
      read_array (struct read_OffsetFetchRespTopic zero_OffsetFetchRespTopic)
        (\<lambda>x r. r\<lparr>ofr_Topics := x\<rparr>),
      if_do (\<lambda>_. KafkaV2 \<le>s v) [read_error (\<lambda>x r. r\<lparr>ofr_Err := x\<rparr>)]]
     (zero_OffsetFetchResp\<lparr>ofr_Version := v\<rparr>)"

definition ReadOffsetFetchResp :: "reader \<Rightarrow> OffsetFetchResp res" where
  "ReadOffsetFetchResp = ReadVersionedOffsetFetchResp KafkaV0"

definition write_OffsetFetchRespPartition ::
  "OffsetFetchRespPartition \<Rightarrow> (error, encoder) stmt list"
where
  "write_OffsetFetchRespPartition part =
     [EncodeInt32 (ofrp_ID part),
      EncodeInt64 (ofrp_Offset part),
      EncodeString (ofrp_Metadata part),
      EncodeError (ofrp_Err part)]"

definition write_OffsetFetchRespTopic :: "OffsetFetchRespTopic \<Rightarrow> (error, encoder) stmt list" where
  "write_OffsetFetchRespTopic topic =
     [EncodeString (ofrt_Name topic),
      write_array write_OffsetFetchRespPartition (ofrt_Partitions topic)]"

definition OffsetFetchResp_Bytes :: "OffsetFetchResp \<Rightarrow> byte list res" where
  "OffsetFetchResp_Bytes r = run_bytes
     [EncodeInt32 0,
      EncodeInt32 (ofr_CorrelationID r),
      if_do (\<lambda>_. KafkaV3 \<le>s ofr_Version r) [EncodeDuration (ofr_ThrottleTime r)],
      write_array write_OffsetFetchRespTopic (ofr_Topics r),
      if_do (\<lambda>_. KafkaV2 \<le>s ofr_Version r) [EncodeError (ofr_Err r)]]"

section \<open>Round trip of requests\<close>

definition wf_OffsetFetchReqTopic :: "OffsetFetchReqTopic \<Rightarrow> bool" where
  "wf_OffsetFetchReqTopic t \<longleftrightarrow> wf_string (ofqt_Name t) \<and> wf_array (ofqt_Partitions t)"

definition wf_OffsetFetchReq :: "OffsetFetchReq \<Rightarrow> bool" where
  "wf_OffsetFetchReq r \<longleftrightarrow> wf_header r \<and> wf_string (ofq_ConsumerGroup r) \<and>
     wf_array (ofq_Topics r) \<and> list_all wf_OffsetFetchReqTopic (ofq_Topics r)"

interpretation OffsetFetchReqTopic: struct_codec
  write_OffsetFetchReqTopic read_OffsetFetchReqTopic zero_OffsetFetchReqTopic
  "\<lambda>t. t" wf_OffsetFetchReqTopic
proof
  fix t assume "wf_OffsetFetchReqTopic t"
  note wf = this[unfolded wf_OffsetFetchReqTopic_def]
  show "transfers (write_OffsetFetchReqTopic t) read_OffsetFetchReqTopic zero_OffsetFetchReqTopic t"
    unfolding write_OffsetFetchReqTopic_def read_OffsetFetchReqTopic_def
    by (rule transfers_eqI, (rule codec_intros | (simp add: wf; fail))+)
qed

lemma OffsetFetchReq_round_trip:
  assumes "wf_OffsetFetchReq r"
  shows "round_trips (OffsetFetchReq_Bytes r) ReadOffsetFetchReq r"
proof -
  note wf = assms[unfolded wf_OffsetFetchReq_def]
  show ?thesis
    unfolding OffsetFetchReq_Bytes_def ReadOffsetFetchReq_def
    by (rule request_round_trips, (simp add: wf; fail), rule transfers_eqI,
        (rule codec_intros OffsetFetchReqTopic.array
          | (simp add: wf set_header_def zero_OffsetFetchReq_def; fail))+)
qed

lemma carries_OffsetFetchReq: "carries (PutUint16 OffsetFetchReqKind) (OffsetFetchReq_Bytes r)"
  unfolding OffsetFetchReq_Bytes_def
  by (rule carries_header) (simp add: write_OffsetFetchReqTopic_def)

interpretation OffsetFetchReq: request_message
  OffsetFetchReq_Bytes ReadOffsetFetchReq "\<lambda>r. r" wf_OffsetFetchReq
  OffsetFetchReqKind
  by unfold_locales (rule OffsetFetchReq_round_trip, assumption, rule carries_OffsetFetchReq)

section \<open>Round trip of responses\<close>

definition wf_OffsetFetchRespPartition :: "OffsetFetchRespPartition \<Rightarrow> bool" where
  "wf_OffsetFetchRespPartition p \<longleftrightarrow> wf_string (ofrp_Metadata p) \<and> wire_error (ofrp_Err p)"

definition wf_OffsetFetchRespTopic :: "OffsetFetchRespTopic \<Rightarrow> bool" where
  "wf_OffsetFetchRespTopic t \<longleftrightarrow> wf_string (ofrt_Name t) \<and> wf_array (ofrt_Partitions t) \<and>
     list_all wf_OffsetFetchRespPartition (ofrt_Partitions t)"

definition wf_OffsetFetchResp :: "OffsetFetchResp \<Rightarrow> bool" where
  "wf_OffsetFetchResp r \<longleftrightarrow> wf_array (ofr_Topics r) \<and>
     list_all wf_OffsetFetchRespTopic (ofr_Topics r) \<and> wire_error (ofr_Err r)"

definition norm_OffsetFetchResp :: "OffsetFetchResp \<Rightarrow> OffsetFetchResp" where
  "norm_OffsetFetchResp r =
     r\<lparr>ofr_ThrottleTime :=
         if KafkaV3 \<le>s ofr_Version r then wire_duration (ofr_ThrottleTime r) else 0,
       ofr_Err := if KafkaV2 \<le>s ofr_Version r then ofr_Err r else None\<rparr>"

interpretation OffsetFetchRespPartition: struct_codec
  write_OffsetFetchRespPartition read_OffsetFetchRespPartition zero_OffsetFetchRespPartition
  "\<lambda>p. p" wf_OffsetFetchRespPartition
proof
  fix p assume "wf_OffsetFetchRespPartition p"
  note wf = this[unfolded wf_OffsetFetchRespPartition_def]
  show "transfers (write_OffsetFetchRespPartition p) read_OffsetFetchRespPartition
      zero_OffsetFetchRespPartition p"
    unfolding write_OffsetFetchRespPartition_def read_OffsetFetchRespPartition_def
    by (rule transfers_eqI, (rule codec_intros | (simp add: wf; fail))+)
qed

interpretation OffsetFetchRespTopic: struct_codec
  write_OffsetFetchRespTopic read_OffsetFetchRespTopic zero_OffsetFetchRespTopic
  "\<lambda>t. t" wf_OffsetFetchRespTopic
proof
  fix t assume "wf_OffsetFetchRespTopic t"
  note wf = this[unfolded wf_OffsetFetchRespTopic_def]
  show "transfers (write_OffsetFetchRespTopic t) read_OffsetFetchRespTopic
      zero_OffsetFetchRespTopic t"
    unfolding write_OffsetFetchRespTopic_def read_OffsetFetchRespTopic_def
    by (rule transfers_eqI,
        (rule codec_intros OffsetFetchRespPartition.array | (simp add: wf; fail))+)
qed

lemma OffsetFetchResp_round_trip:
  assumes "wf_OffsetFetchResp r"
  shows "round_trips (OffsetFetchResp_Bytes r) (ReadVersionedOffsetFetchResp (ofr_Version r))
    (norm_OffsetFetchResp r)"
proof -
  note wf = assms[unfolded wf_OffsetFetchResp_def]
  show ?thesis
    unfolding OffsetFetchResp_Bytes_def ReadVersionedOffsetFetchResp_def
    by (rule message_round_trips, rule transfers_eqI,
        (rule codec_intros OffsetFetchRespTopic.array | (simp add: wf; fail))+)
      (simp add: norm_OffsetFetchResp_def zero_OffsetFetchResp_def)
qed

lemma carries_OffsetFetchResp: "carries (PutUint32 (ofr_CorrelationID r)) (OffsetFetchResp_Bytes r)"
  unfolding OffsetFetchResp_Bytes_def
  by (rule carries_response)
    (simp add: write_OffsetFetchRespTopic_def write_OffsetFetchRespPartition_def)

interpretation OffsetFetchResp: response_message
  OffsetFetchResp_Bytes "ReadVersionedOffsetFetchResp v" norm_OffsetFetchResp
  "\<lambda>r. wf_OffsetFetchResp r \<and> ofr_Version r = v"
  ofr_CorrelationID for v
  by unfold_locales (use OffsetFetchResp_round_trip carries_OffsetFetchResp in blast)+

section \<open>Properties\<close>

text \<open>
  Offset fetch requests and responses of every version are read back as they were
  written, up to the fields their version does not carry, and a truncated one is rejected.
\<close>

lemma offset_fetch_codec:
  assumes "wf_OffsetFetchReq q" "wf_OffsetFetchResp r"
  shows "round_trips (OffsetFetchReq_Bytes q) ReadOffsetFetchReq q \<and>
    round_trips (OffsetFetchResp_Bytes r) (ReadVersionedOffsetFetchResp (ofr_Version r)) (norm_OffsetFetchResp r)"
  using OffsetFetchReq.round_trip[of q] OffsetFetchResp.round_trip[of r "ofr_Version r"] assms by simp

definition example_OffsetFetchReq :: OffsetFetchReq where
  "example_OffsetFetchReq = \<lparr>version = 5, correlationID = 7, ClientID = str ''c'', ofq_ConsumerGroup = str ''g'',
     ofq_Topics = [\<lparr>ofqt_Name = str ''a'', ofqt_Partitions = [0, 1]\<rparr>]\<rparr>"

definition example_OffsetFetchResp :: OffsetFetchResp where
  "example_OffsetFetchResp = \<lparr>ofr_Version = 3, ofr_CorrelationID = 7, ofr_ThrottleTime = 3000000,
     ofr_Topics = [\<lparr>ofrt_Name = str ''a'', ofrt_Partitions =
       [\<lparr>ofrp_ID = 0, ofrp_Offset = 42, ofrp_Metadata = str ''m'', ofrp_Err = None\<rparr>]\<rparr>],
     ofr_Err = None\<rparr>"

lemma offset_fetch_codec_witness:
  "round_trips (OffsetFetchReq_Bytes example_OffsetFetchReq) ReadOffsetFetchReq example_OffsetFetchReq \<and>
   round_trips (OffsetFetchResp_Bytes example_OffsetFetchResp) (ReadVersionedOffsetFetchResp (ofr_Version example_OffsetFetchResp))
     (norm_OffsetFetchResp example_OffsetFetchResp)"
  by (rule offset_fetch_codec)
    (simp_all add: example_OffsetFetchReq_def example_OffsetFetchResp_def wf_OffsetFetchReq_def wf_OffsetFetchReqTopic_def wf_OffsetFetchResp_def
      wf_OffsetFetchRespTopic_def wf_OffsetFetchRespPartition_def wf_header_def wf_string_def
      wf_array_def str_def wire_error_def kafkaErrors_def)

end
