(* ===== verification/OffsetQuery.thy ===== *)
theory OffsetQuery
  imports Request
begin

text \<open>
  \<open>OffsetReq\<close> and \<open>OffsetResp\<close> of \<open>v2/proto/messages.go\<close>.  The request always names replica -1;
  from version 1 on a partition of the response carries one offset and its instant.
\<close>

section \<open>OffsetReq\<close>

record OffsetReqPartition =
  oqp_ID :: int32
  oqp_TimeMs :: int64
  oqp_MaxOffsets :: int32

record OffsetReqTopic =
  oqt_Name :: gostring
  oqt_Partitions :: "OffsetReqPartition list"

record OffsetReq = RequestHeader +
  oq_ReplicaID :: int32
  oq_IsolationLevel :: int8
  oq_Topics :: "OffsetReqTopic list"

definition zero_OffsetReqPartition :: OffsetReqPartition where
  "zero_OffsetReqPartition = \<lparr>oqp_ID = 0, oqp_TimeMs = 0, oqp_MaxOffsets = 0\<rparr>"

definition zero_OffsetReqTopic :: OffsetReqTopic where
  "zero_OffsetReqTopic = \<lparr>oqt_Name = [], oqt_Partitions = []\<rparr>"

definition zero_OffsetReq :: OffsetReq where
  "zero_OffsetReq = \<lparr>version = 0, correlationID = 0, ClientID = [],
     oq_ReplicaID = 0, oq_IsolationLevel = 0, oq_Topics = []\<rparr>"

definition read_OffsetReqPartition :: "int16 \<Rightarrow> (error, decoder \<times> OffsetReqPartition) stmt list" where
  "read_OffsetReqPartition v =
     [read_field DecodeInt32 (\<lambda>x p. p\<lparr>oqp_ID := x\<rparr>),
      read_field DecodeInt64 (\<lambda>x p. p\<lparr>oqp_TimeMs := x\<rparr>),
      if_do (\<lambda>_. v = KafkaV0) [read_field DecodeInt32 (\<lambda>x p. p\<lparr>oqp_MaxOffsets := x\<rparr>)]]"

definition read_OffsetReqTopic :: "int16 \<Rightarrow> (error, decoder \<times> OffsetReqTopic) stmt list" where
  "read_OffsetReqTopic v =
     [read_field DecodeString (\<lambda>x t. t\<lparr>oqt_Name := x\<rparr>),
      read_array (struct (read_OffsetReqPartition v) zero_OffsetReqPartition)
        (\<lambda>x t. t\<lparr>oqt_Partitions := x\<rparr>)]"

definition ReadOffsetReq :: "reader \<Rightarrow> OffsetReq res" where
  "ReadOffsetReq = run_reader (decodeHeader @
     [read_field DecodeInt32 (\<lambda>x r. r\<lparr>oq_ReplicaID := x\<rparr>),
      if_do (\<lambda>(d, r). KafkaV2 \<le>s version r)
        [read_field DecodeInt8 (\<lambda>x r. r\<lparr>oq_IsolationLevel := x\<rparr>)],
      dep version (\<lambda>v. read_array (struct (read_OffsetReqTopic v) zero_OffsetReqTopic)
        (\<lambda>x r. r\<lparr>oq_Topics := x\<rparr>))])
     zero_OffsetReq"

definition write_OffsetReqPartition :: "int16 \<Rightarrow> OffsetReqPartition \<Rightarrow> (error, encoder) stmt list" where
  "write_OffsetReqPartition v part =
     [EncodeInt32 (oqp_ID part),
      EncodeInt64 (oqp_TimeMs part),
      if_do (\<lambda>_. v = KafkaV0) [EncodeInt32 (oqp_MaxOffsets part)]]"

definition write_OffsetReqTopic :: "int16 \<Rightarrow> OffsetReqTopic \<Rightarrow> (error, encoder) stmt list" where
  "write_OffsetReqTopic v topic =
     [EncodeString (oqt_Name topic),
      write_array (write_OffsetReqPartition v) (oqt_Partitions topic)]"

definition OffsetReq_Bytes :: "OffsetReq \<Rightarrow> byte list res" where
  "OffsetReq_Bytes r = run_bytes (encodeHeader OffsetReqKind r @
     [EncodeInt32 (- 1),
      if_do (\<lambda>_. KafkaV2 \<le>s version r) [EncodeInt8 (oq_IsolationLevel r)],
      write_array (write_OffsetReqTopic (version r)) (oq_Topics r)])"

section \<open>OffsetResp\<close>

record OffsetRespPartition =
  orp_ID :: int32
  orp_Err :: goerror
  orp_TimeStamp :: gotime
  orp_Offsets :: "int64 list"

record OffsetRespTopic =
  ort_Name :: gostring
  ort_Partitions :: "OffsetRespPartition list"

record OffsetResp =
  or_Version :: int16
  or_CorrelationID :: int32
  or_ThrottleTime :: int64
  or_Topics :: "OffsetRespTopic list"

definition zero_OffsetRespPartition :: OffsetRespPartition where
  "zero_OffsetRespPartition =
     \<lparr>orp_ID = 0, orp_Err = None, orp_TimeStamp = ZeroTime, orp_Offsets = []\<rparr>"

definition zero_OffsetRespTopic :: OffsetRespTopic where
  "zero_OffsetRespTopic = \<lparr>ort_Name = [], ort_Partitions = []\<rparr>"

definition zero_OffsetResp :: OffsetResp where
  "zero_OffsetResp =
     \<lparr>or_Version = 0, or_CorrelationID = 0, or_ThrottleTime = 0, or_Topics = []\<rparr>"

definition read_OffsetRespPartition :: "int16 \<Rightarrow> (error, decoder \<times> OffsetRespPartition) stmt list" where
  "read_OffsetRespPartition v =
     [read_field DecodeInt32 (\<lambda>x p. p\<lparr>orp_ID := x\<rparr>),
      read_error (\<lambda>x p. p\<lparr>orp_Err := x\<rparr>),
      if_else (\<lambda>_. KafkaV1 \<le>s v)
        [read_field DecodeInt64 (\<lambda>x p. p\<lparr>orp_TimeStamp := UnixTime (x * of_int Millisecond)\<rparr>),
         read_field DecodeInt64 (\<lambda>x p. p\<lparr>orp_Offsets := [x]\<rparr>)]
        [read_array (prim DecodeInt64) (\<lambda>x p. p\<lparr>orp_Offsets := x\<rparr>)]]"

definition read_OffsetRespTopic :: "int16 \<Rightarrow> (error, decoder \<times> OffsetRespTopic) stmt list" where
  "read_OffsetRespTopic v =
     [read_field DecodeString (\<lambda>x t. t\<lparr>ort_Name := x\<rparr>),
      read_array (struct (read_OffsetRespPartition v) zero_OffsetRespPartition)
        (\<lambda>x t. t\<lparr>ort_Partitions := x\<rparr>)]"

definition ReadVersionedOffsetResp :: "int16 \<Rightarrow> reader \<Rightarrow> OffsetResp res" where
  "ReadVersionedOffsetResp v = run_reader
     [skip_field DecodeInt32,
      read_field DecodeInt32 (\<lambda>x r. r\<lparr>or_CorrelationID := x\<rparr>),
      if_do (\<lambda>_. KafkaV2 \<le>s v) [read_field DecodeDuration32 (\<lambda>x r. r\<lparr>or_ThrottleTime := x\<rparr>)],
      read_array (struct (read_OffsetRespTopic v) zero_OffsetRespTopic)
        (\<lambda>x r. r\<lparr>or_Topics := x\<rparr>)]
     (zero_OffsetResp\<lparr>or_Version := v\<rparr>)"

definition ReadOffsetResp :: "reader \<Rightarrow> OffsetResp res" where
  "ReadOffsetResp = ReadVersionedOffsetResp KafkaV0"

definition first_offset :: "OffsetRespPartition \<Rightarrow> int64" where
  "first_offset part = (case orp_Offsets part of [] \<Rightarrow> 0 | x # _ \<Rightarrow> x)"

definition write_OffsetRespPartition :: "int16 \<Rightarrow> OffsetRespPartition \<Rightarrow> (error, encoder) stmt list" where
  "write_OffsetRespPartition v part =
     [EncodeInt32 (orp_ID part),
      EncodeError (orp_Err part),
      if_else (\<lambda>_. KafkaV1 \<le>s v)
        [EncodeInt64 (quot64 (UnixNano (orp_TimeStamp part)) Millisecond),
         EncodeInt64 (first_offset part)]
        [EncodeInt64s (orp_Offsets part)]]"

definition write_OffsetRespTopic :: "int16 \<Rightarrow> OffsetRespTopic \<Rightarrow> (error, encoder) stmt list" where
  "write_OffsetRespTopic v topic =
     [EncodeString (ort_Name topic),
      write_array (write_OffsetRespPartition v) (ort_Partitions topic)]"

definition OffsetResp_Bytes :: "OffsetResp \<Rightarrow> byte list res" where
  "OffsetResp_Bytes r = run_bytes
     [EncodeInt32 0,
      EncodeInt32 (or_CorrelationID r),
      if_do (\<lambda>_. KafkaV2 \<le>s or_Version r) [EncodeDuration (or_ThrottleTime r)],
      write_array (write_OffsetRespTopic (or_Version r)) (or_Topics r)]"

section \<open>Round trip of requests\<close>

definition wf_OffsetReqTopic :: "OffsetReqTopic \<Rightarrow> bool" where
  "wf_OffsetReqTopic t \<longleftrightarrow> wf_string (oqt_Name t) \<and> wf_array (oqt_Partitions t)"

definition wf_OffsetReq :: "OffsetReq \<Rightarrow> bool" where
  "wf_OffsetReq r \<longleftrightarrow> wf_header r \<and> wf_array (oq_Topics r) \<and> list_all wf_OffsetReqTopic (oq_Topics r)"

definition norm_OffsetReqPartition :: "int16 \<Rightarrow> OffsetReqPartition \<Rightarrow> OffsetReqPartition" where
  "norm_OffsetReqPartition v p = p\<lparr>oqp_MaxOffsets := if v = KafkaV0 then oqp_MaxOffsets p else 0\<rparr>"

definition norm_OffsetReqTopic :: "int16 \<Rightarrow> OffsetReqTopic \<Rightarrow> OffsetReqTopic" where
  "norm_OffsetReqTopic v t =
     t\<lparr>oqt_Partitions := map (norm_OffsetReqPartition v) (oqt_Partitions t)\<rparr>"

definition norm_OffsetReq :: "OffsetReq \<Rightarrow> OffsetReq" where
  "norm_OffsetReq r =
     r\<lparr>oq_ReplicaID := - 1,
       oq_IsolationLevel := if KafkaV2 \<le>s version r then oq_IsolationLevel r else 0,
       oq_Topics := map (norm_OffsetReqTopic (version r)) (oq_Topics r)\<rparr>"

interpretation OffsetReqPartition: versioned_struct
  write_OffsetReqPartition read_OffsetReqPartition zero_OffsetReqPartition
  norm_OffsetReqPartition "\<lambda>_. True"
proof
  fix p v
  show "transfers (write_OffsetReqPartition v p) (read_OffsetReqPartition v)
      zero_OffsetReqPartition (norm_OffsetReqPartition v p)"
    unfolding write_OffsetReqPartition_def read_OffsetReqPartition_def
    by (rule transfers_eqI, (rule codec_intros | (simp; fail))+)
      (simp add: norm_OffsetReqPartition_def zero_OffsetReqPartition_def)
qed

interpretation OffsetReqTopic: versioned_struct
  write_OffsetReqTopic read_OffsetReqTopic zero_OffsetReqTopic norm_OffsetReqTopic
  wf_OffsetReqTopic
proof
  fix t v assume "wf_OffsetReqTopic t"
  note wf = this[unfolded wf_OffsetReqTopic_def]
  show "transfers (write_OffsetReqTopic v t) (read_OffsetReqTopic v) zero_OffsetReqTopic
      (norm_OffsetReqTopic v t)"
    unfolding write_OffsetReqTopic_def read_OffsetReqTopic_def
    by (rule transfers_eqI,
        (rule codec_intros OffsetReqPartition.array | (simp add: wf list_all_iff; fail))+)
      (simp add: norm_OffsetReqTopic_def zero_OffsetReqTopic_def)
qed

lemma OffsetReq_round_trip:
  assumes "wf_OffsetReq r"
  shows "round_trips (OffsetReq_Bytes r) ReadOffsetReq (norm_OffsetReq r)"
proof -
  note wf = assms[unfolded wf_OffsetReq_def]
  show ?thesis
    unfolding OffsetReq_Bytes_def ReadOffsetReq_def
    by (rule request_round_trips, (simp add: wf; fail), rule transfers_eqI,
        (rule codec_intros OffsetReqTopic.dep_array | (simp add: wf; fail))+)
      (simp add: norm_OffsetReq_def set_header_def zero_OffsetReq_def)
qed

lemma carries_OffsetReq: "carries (PutUint16 OffsetReqKind) (OffsetReq_Bytes r)"
  unfolding OffsetReq_Bytes_def
  by (rule carries_header) (simp add: write_OffsetReqTopic_def write_OffsetReqPartition_def)

interpretation OffsetReq: request_message OffsetReq_Bytes ReadOffsetReq norm_OffsetReq wf_OffsetReq
  OffsetReqKind
  by unfold_locales (rule OffsetReq_round_trip, assumption, rule carries_OffsetReq)

section \<open>Round trip of responses\<close>

definition wf_OffsetRespPartition :: "OffsetRespPartition \<Rightarrow> bool" where
  "wf_OffsetRespPartition p \<longleftrightarrow> wire_error (orp_Err p) \<and> wf_array (orp_Offsets p)"

definition wf_OffsetRespTopic :: "OffsetRespTopic \<Rightarrow> bool" where
  "wf_OffsetRespTopic t \<longleftrightarrow> wf_string (ort_Name t) \<and> wf_array (ort_Partitions t) \<and>
     list_all wf_OffsetRespPartition (ort_Partitions t)"

definition wf_OffsetResp :: "OffsetResp \<Rightarrow> bool" where
  "wf_OffsetResp r \<longleftrightarrow> wf_array (or_Topics r) \<and> list_all wf_OffsetRespTopic (or_Topics r)"

definition norm_OffsetRespPartition :: "int16 \<Rightarrow> OffsetRespPartition \<Rightarrow> OffsetRespPartition" where
  "norm_OffsetRespPartition v p =
     p\<lparr>orp_TimeStamp := if KafkaV1 \<le>s v then wire_time (orp_TimeStamp p) else ZeroTime,
       orp_Offsets := if KafkaV1 \<le>s v then [first_offset p] else orp_Offsets p\<rparr>"

definition norm_OffsetRespTopic :: "int16 \<Rightarrow> OffsetRespTopic \<Rightarrow> OffsetRespTopic" where
  "norm_OffsetRespTopic v t =
     t\<lparr>ort_Partitions := map (norm_OffsetRespPartition v) (ort_Partitions t)\<rparr>"

definition norm_OffsetResp :: "OffsetResp \<Rightarrow> OffsetResp" where
  "norm_OffsetResp r =
     r\<lparr>or_ThrottleTime := if KafkaV2 \<le>s or_Version r then wire_duration (or_ThrottleTime r) else 0,
       or_Topics := map (norm_OffsetRespTopic (or_Version r)) (or_Topics r)\<rparr>"

interpretation OffsetRespPartition: versioned_struct
  write_OffsetRespPartition read_OffsetRespPartition zero_OffsetRespPartition
  norm_OffsetRespPartition wf_OffsetRespPartition
proof
  fix p v assume "wf_OffsetRespPartition p"
  note wf = this[unfolded wf_OffsetRespPartition_def]
  show "transfers (write_OffsetRespPartition v p) (read_OffsetRespPartition v)
      zero_OffsetRespPartition (norm_OffsetRespPartition v p)"
    unfolding write_OffsetRespPartition_def read_OffsetRespPartition_def
    by (rule transfers_eqI, (rule codec_intros | (simp add: wf; fail))+)
      (simp add: norm_OffsetRespPartition_def zero_OffsetRespPartition_def wire_time_def)
qed

interpretation OffsetRespTopic: versioned_struct
  write_OffsetRespTopic read_OffsetRespTopic zero_OffsetRespTopic norm_OffsetRespTopic
  wf_OffsetRespTopic
proof
  fix t v assume "wf_OffsetRespTopic t"
  note wf = this[unfolded wf_OffsetRespTopic_def]
  show "transfers (write_OffsetRespTopic v t) (read_OffsetRespTopic v) zero_OffsetRespTopic
      (norm_OffsetRespTopic v t)"
    unfolding write_OffsetRespTopic_def read_OffsetRespTopic_def
    by (rule transfers_eqI,
        (rule codec_intros OffsetRespPartition.array | (simp add: wf; fail))+)
      (simp add: norm_OffsetRespTopic_def zero_OffsetRespTopic_def)
qed

lemma OffsetResp_round_trip:
  assumes "wf_OffsetResp r"
  shows "round_trips (OffsetResp_Bytes r) (ReadVersionedOffsetResp (or_Version r)) (norm_OffsetResp r)"
proof -
  note wf = assms[unfolded wf_OffsetResp_def]
  show ?thesis
    unfolding OffsetResp_Bytes_def ReadVersionedOffsetResp_def
    by (rule message_round_trips, rule transfers_eqI,
        (rule codec_intros OffsetRespTopic.array | (simp add: wf; fail))+)
      (simp add: norm_OffsetResp_def zero_OffsetResp_def)
qed

lemma carries_OffsetResp: "carries (PutUint32 (or_CorrelationID r)) (OffsetResp_Bytes r)"
  unfolding OffsetResp_Bytes_def
  by (rule carries_response) (simp add: write_OffsetRespTopic_def write_OffsetRespPartition_def)

interpretation OffsetResp: response_message
  OffsetResp_Bytes "ReadVersionedOffsetResp v" norm_OffsetResp
  "\<lambda>r. wf_OffsetResp r \<and> or_Version r = v"
  or_CorrelationID for v
  by unfold_locales (use OffsetResp_round_trip carries_OffsetResp in blast)+

section \<open>Properties\<close>

text \<open>
  Offset requests and responses of every version are read back as they were written, up
  to the fields their version does not carry (the replica ID of a request is always -1, and
  from version 1 on a response carries one offset), and a truncated one is rejected.
\<close>

lemma offset_query_codec:
  assumes "wf_OffsetReq q" "wf_OffsetResp r"
  shows "round_trips (OffsetReq_Bytes q) ReadOffsetReq (norm_OffsetReq q) \<and>
    round_trips (OffsetResp_Bytes r) (ReadVersionedOffsetResp (or_Version r)) (norm_OffsetResp r)"
  using OffsetReq.round_trip[of q] OffsetResp.round_trip[of r "or_Version r"] assms by simp

definition example_OffsetReq :: OffsetReq where
  "example_OffsetReq = \<lparr>version = 5, correlationID = 7, ClientID = str ''c'', oq_ReplicaID = 4, oq_IsolationLevel = 1,
     oq_Topics = [\<lparr>oqt_Name = str ''a'', oqt_Partitions =
       [\<lparr>oqp_ID = 0, oqp_TimeMs = - 1, oqp_MaxOffsets = 2\<rparr>]\<rparr>]\<rparr>"

definition example_OffsetResp :: OffsetResp where
  "example_OffsetResp = \<lparr>or_Version = 0, or_CorrelationID = 7, or_ThrottleTime = 0,
     or_Topics = [\<lparr>ort_Name = str ''a'', ort_Partitions =
       [\<lparr>orp_ID = 0, orp_Err = None, orp_TimeStamp = ZeroTime, orp_Offsets = [42, 0]\<rparr>]\<rparr>]\<rparr>"

lemma offset_query_codec_witness:
  "round_trips (OffsetReq_Bytes example_OffsetReq) ReadOffsetReq (norm_OffsetReq example_OffsetReq) \<and>
   round_trips (OffsetResp_Bytes example_OffsetResp) (ReadVersionedOffsetResp (or_Version example_OffsetResp))
     (norm_OffsetResp example_OffsetResp)"
  by (rule offset_query_codec)
    (simp_all add: example_OffsetReq_def example_OffsetResp_def wf_OffsetReq_def wf_OffsetReqTopic_def wf_OffsetResp_def wf_OffsetRespTopic_def
      wf_OffsetRespPartition_def wf_header_def wf_string_def
      wf_array_def str_def wire_error_def kafkaErrors_def)

end
