(* ===== verification/CreateTopics.thy ===== *)
theory CreateTopics
  imports Request
begin

text \<open>
  \<open>CreateTopicsReq\<close> and \<open>CreateTopicsResp\<close> of \<open>v2/proto/messages.go\<close>.  The reader of the
  request drops the error of two of its four \<open>DecodeArrayLen\<close> calls; the response carries the
  error number of every topic twice, raw and mapped through \<open>errFromNo\<close>, and only the raw
  number is written.
\<close>

section \<open>CreateTopicsReq\<close>

record ReplicaAssignment =
  ra_Partition :: int32
  ra_Replicas :: "int32 list"

record ConfigEntry =
  ce_ConfigName :: gostring
  ce_ConfigValue :: gostring

record TopicInfo =
  ti_Topic :: gostring
  ti_NumPartitions :: int32
  ti_ReplicationFactor :: int16
  ti_ReplicaAssignments :: "ReplicaAssignment list"
  ti_ConfigEntries :: "ConfigEntry list"

record CreateTopicsReq = RequestHeader +
  ct_CreateTopicsRequests :: "TopicInfo list"
  ct_Timeout :: int64
  ct_ValidateOnly :: bool

definition zero_ReplicaAssignment :: ReplicaAssignment where
  "zero_ReplicaAssignment = \<lparr>ra_Partition = 0, ra_Replicas = []\<rparr>"

definition zero_ConfigEntry :: ConfigEntry where
  "zero_ConfigEntry = \<lparr>ce_ConfigName = [], ce_ConfigValue = []\<rparr>"

definition zero_TopicInfo :: TopicInfo where
  "zero_TopicInfo = \<lparr>ti_Topic = [], ti_NumPartitions = 0, ti_ReplicationFactor = 0,
     ti_ReplicaAssignments = [], ti_ConfigEntries = []\<rparr>"

definition zero_CreateTopicsReq :: CreateTopicsReq where
  "zero_CreateTopicsReq = \<lparr>version = 0, correlationID = 0, ClientID = [],
     ct_CreateTopicsRequests = [], ct_Timeout = 0, ct_ValidateOnly = False\<rparr>"

definition read_ReplicaAssignment :: "(error, decoder \<times> ReplicaAssignment) stmt list" where
  "read_ReplicaAssignment =
     [read_field DecodeInt32 (\<lambda>x ra. ra\<lparr>ra_Partition := x\<rparr>),
      read_array_unchecked (prim DecodeInt32) (\<lambda>x ra. ra\<lparr>ra_Replicas := x\<rparr>)]"

definition read_ConfigEntry :: "(error, decoder \<times> ConfigEntry) stmt list" where
  "read_ConfigEntry =
     [read_field DecodeString (\<lambda>x ce. ce\<lparr>ce_ConfigName := x\<rparr>),
      read_field DecodeString (\<lambda>x ce. ce\<lparr>ce_ConfigValue := x\<rparr>)]"

definition read_TopicInfo :: "(error, decoder \<times> TopicInfo) stmt list" where
  "read_TopicInfo =
     [read_field DecodeString (\<lambda>x ti. ti\<lparr>ti_Topic := x\<rparr>),
      read_field DecodeInt32 (\<lambda>x ti. ti\<lparr>ti_NumPartitions := x\<rparr>),
      read_field DecodeInt16 (\<lambda>x ti. ti\<lparr>ti_ReplicationFactor := x\<rparr>),
      read_array (struct read_ReplicaAssignment zero_ReplicaAssignment)
        (\<lambda>x ti. ti\<lparr>ti_ReplicaAssignments := x\<rparr>),
      read_array_unchecked (struct read_ConfigEntry zero_ConfigEntry)
        (\<lambda>x ti. ti\<lparr>ti_ConfigEntries := x\<rparr>)]"

definition ReadCreateTopicsReq :: "reader \<Rightarrow> CreateTopicsReq res" where
  "ReadCreateTopicsReq = run_reader (decodeHeader @
     [read_array (struct read_TopicInfo zero_TopicInfo)
        (\<lambda>x r. r\<lparr>ct_CreateTopicsRequests := x\<rparr>),
      read_field DecodeDuration32 (\<lambda>x r. r\<lparr>ct_Timeout := x\<rparr>),
      if_do (\<lambda>(d, r). KafkaV1 \<le>s version r) [read_nonzero (\<lambda>x r. r\<lparr>ct_ValidateOnly := x\<rparr>)]])
     zero_CreateTopicsReq"

definition write_ReplicaAssignment :: "ReplicaAssignment \<Rightarrow> (error, encoder) stmt list" where
  "write_ReplicaAssignment ra = [EncodeInt32 (ra_Partition ra), EncodeInt32s (ra_Replicas ra)]"

definition write_ConfigEntry :: "ConfigEntry \<Rightarrow> (error, encoder) stmt list" where
  "write_ConfigEntry ce = [EncodeString (ce_ConfigName ce), EncodeString (ce_ConfigValue ce)]"

definition write_TopicInfo :: "TopicInfo \<Rightarrow> (error, encoder) stmt list" where
  "write_TopicInfo ti =
     [EncodeString (ti_Topic ti),
      EncodeInt32 (ti_NumPartitions ti),
      EncodeInt16 (ti_ReplicationFactor ti),
      write_array write_ReplicaAssignment (ti_ReplicaAssignments ti),
      write_array write_ConfigEntry (ti_ConfigEntries ti)]"

definition CreateTopicsReq_Bytes :: "CreateTopicsReq \<Rightarrow> byte list res" where
  "CreateTopicsReq_Bytes r = run_bytes (encodeHeader CreateTopicsReqKind r @
     [write_array write_TopicInfo (ct_CreateTopicsRequests r),
      EncodeDuration (ct_Timeout r),
      if_do (\<lambda>_. KafkaV1 \<le>s version r) [EncodeInt8 (boolToInt8 (ct_ValidateOnly r))]])"

section \<open>CreateTopicsResp\<close>

record TopicError =
  te_Topic :: gostring
  te_ErrorCode :: int16
  te_ErrorMessage :: gostring
  te_Err :: goerror

record CreateTopicsResp =
  ctr_Version :: int16
  ctr_CorrelationID :: int32
  ctr_TopicErrors :: "TopicError list"
  ctr_ThrottleTime :: int64

definition zero_TopicError :: TopicError where
  "zero_TopicError = \<lparr>te_Topic = [], te_ErrorCode = 0, te_ErrorMessage = [], te_Err = None\<rparr>"

definition zero_CreateTopicsResp :: CreateTopicsResp where
  "zero_CreateTopicsResp = \<lparr>ctr_Version = 0, ctr_CorrelationID = 0, ctr_TopicErrors = [],
     ctr_ThrottleTime = 0\<rparr>"

text \<open>\<open>te.Err = errFromNo(te.ErrorCode)\<close>, the last statement of the loop body.\<close>

definition set_topic_error :: "(error, decoder \<times> TopicError) stmt" where
  "set_topic_error s = Ok (fst s, (snd s)\<lparr>te_Err := errFromNo (te_ErrorCode (snd s))\<rparr>)"

definition read_TopicError :: "int16 \<Rightarrow> (error, decoder \<times> TopicError) stmt list" where
  "read_TopicError v =
     [read_field DecodeString (\<lambda>x te. te\<lparr>te_Topic := x\<rparr>),
      read_field DecodeInt16 (\<lambda>x te. te\<lparr>te_ErrorCode := x\<rparr>),
      if_do (\<lambda>_. KafkaV1 \<le>s v) [read_field DecodeString (\<lambda>x te. te\<lparr>te_ErrorMessage := x\<rparr>)],
      set_topic_error]"

definition ReadVersionedCreateTopicsResp :: "int16 \<Rightarrow> reader \<Rightarrow> CreateTopicsResp res" where
  "ReadVersionedCreateTopicsResp v = run_reader
     [skip_field DecodeInt32,
      read_field DecodeInt32 (\<lambda>x r. r\<lparr>ctr_CorrelationID := x\<rparr>),
      if_do (\<lambda>_. KafkaV2 \<le>s v) [read_field DecodeDuration32 (\<lambda>x r. r\<lparr>ctr_ThrottleTime := x\<rparr>)],
      read_array (struct (read_TopicError v) zero_TopicError)
        (\<lambda>x r. r\<lparr>ctr_TopicErrors := x\<rparr>)]
     (zero_CreateTopicsResp\<lparr>ctr_Version := v\<rparr>)"

definition ReadCreateTopicsResp :: "reader \<Rightarrow> CreateTopicsResp res" where
  "ReadCreateTopicsResp = ReadVersionedCreateTopicsResp KafkaV0"

definition write_TopicError :: "int16 \<Rightarrow> TopicError \<Rightarrow> (error, encoder) stmt list" where
  "write_TopicError v te =
     [EncodeString (te_Topic te),
      EncodeInt16 (te_ErrorCode te),
      if_do (\<lambda>_. KafkaV1 \<le>s v) [EncodeString (te_ErrorMessage te)]]"

definition CreateTopicsResp_Bytes :: "CreateTopicsResp \<Rightarrow> byte list res" where
  "CreateTopicsResp_Bytes r = run_bytes
     [EncodeInt32 0,
      EncodeInt32 (ctr_CorrelationID r),
      if_do (\<lambda>_. KafkaV2 \<le>s ctr_Version r) [EncodeDuration (ctr_ThrottleTime r)],
      write_array (write_TopicError (ctr_Version r)) (ctr_TopicErrors r)]"

section \<open>The request survives\<close>

definition wf_ReplicaAssignment :: "ReplicaAssignment \<Rightarrow> bool" where
  "wf_ReplicaAssignment ra \<longleftrightarrow> wf_array (ra_Replicas ra)"

definition wf_ConfigEntry :: "ConfigEntry \<Rightarrow> bool" where
  "wf_ConfigEntry ce \<longleftrightarrow> wf_string (ce_ConfigName ce) \<and> wf_string (ce_ConfigValue ce)"

definition wf_TopicInfo :: "TopicInfo \<Rightarrow> bool" where
  "wf_TopicInfo ti \<longleftrightarrow> wf_string (ti_Topic ti) \<and>
     wf_array (ti_ReplicaAssignments ti) \<and> list_all wf_ReplicaAssignment (ti_ReplicaAssignments ti) \<and>
     wf_array (ti_ConfigEntries ti) \<and> list_all wf_ConfigEntry (ti_ConfigEntries ti)"

definition wf_CreateTopicsReq :: "CreateTopicsReq \<Rightarrow> bool" where
  "wf_CreateTopicsReq r \<longleftrightarrow> wf_header r \<and> wf_array (ct_CreateTopicsRequests r) \<and>
     list_all wf_TopicInfo (ct_CreateTopicsRequests r)"

definition norm_CreateTopicsReq :: "CreateTopicsReq \<Rightarrow> CreateTopicsReq" where
  "norm_CreateTopicsReq r = r\<lparr>ct_Timeout := wire_duration (ct_Timeout r),
     ct_ValidateOnly := (KafkaV1 \<le>s version r \<and> ct_ValidateOnly r)\<rparr>"

lemma transfers_ReplicaAssignment:
  assumes "wf_ReplicaAssignment ra"
  shows "transfers (write_ReplicaAssignment ra) read_ReplicaAssignment zero_ReplicaAssignment ra"
proof -
  note wf = assms[unfolded wf_ReplicaAssignment_def]
  show ?thesis
    unfolding write_ReplicaAssignment_def read_ReplicaAssignment_def read_array_unchecked_eq
    by (rule transfers_eqI, (rule codec_intros | (simp add: wf zero_ReplicaAssignment_def; fail))+)
qed

interpretation ReplicaAssignment: struct_codec write_ReplicaAssignment read_ReplicaAssignment
  zero_ReplicaAssignment "\<lambda>x. x" wf_ReplicaAssignment
  by unfold_locales (rule transfers_ReplicaAssignment)

lemma transfers_ConfigEntry:
  assumes "wf_ConfigEntry ce"
  shows "transfers (write_ConfigEntry ce) read_ConfigEntry zero_ConfigEntry ce"
proof -
  note wf = assms[unfolded wf_ConfigEntry_def]
  show ?thesis
    unfolding write_ConfigEntry_def read_ConfigEntry_def
    by (rule transfers_eqI, (rule codec_intros | (simp add: wf zero_ConfigEntry_def; fail))+)
qed

interpretation ConfigEntry: struct_codec write_ConfigEntry read_ConfigEntry
  zero_ConfigEntry "\<lambda>x. x" wf_ConfigEntry
  by unfold_locales (rule transfers_ConfigEntry)

lemma transfers_TopicInfo:
  assumes "wf_TopicInfo ti"
  shows "transfers (write_TopicInfo ti) read_TopicInfo zero_TopicInfo ti"
proof -
  note wf = assms[unfolded wf_TopicInfo_def]
  show ?thesis
    unfolding write_TopicInfo_def read_TopicInfo_def read_array_unchecked_eq
    by (rule transfers_eqI, (rule codec_intros ReplicaAssignment.array ConfigEntry.array
          | (simp add: wf zero_TopicInfo_def; fail))+)
qed

interpretation TopicInfo: struct_codec write_TopicInfo read_TopicInfo
  zero_TopicInfo "\<lambda>x. x" wf_TopicInfo
  by unfold_locales (rule transfers_TopicInfo)

lemma CreateTopicsReq_round_trip:
  assumes "wf_CreateTopicsReq r"
  shows "round_trips (CreateTopicsReq_Bytes r) ReadCreateTopicsReq (norm_CreateTopicsReq r)"
proof -
  note wf = assms[unfolded wf_CreateTopicsReq_def]
  show ?thesis
    unfolding CreateTopicsReq_Bytes_def ReadCreateTopicsReq_def
    by (rule request_round_trips, (simp add: wf; fail), rule transfers_eqI,
        (rule codec_intros TopicInfo.array | (simp add: wf; fail))+)
      (simp add: norm_CreateTopicsReq_def zero_CreateTopicsReq_def set_header_def)
qed

lemma carries_CreateTopicsReq: "carries (PutUint16 CreateTopicsReqKind) (CreateTopicsReq_Bytes r)"
  unfolding CreateTopicsReq_Bytes_def
  by (rule carries_header)
    (simp add: write_TopicInfo_def write_ReplicaAssignment_def write_ConfigEntry_def)

interpretation CreateTopicsReq: request_message CreateTopicsReq_Bytes ReadCreateTopicsReq
  norm_CreateTopicsReq wf_CreateTopicsReq
  CreateTopicsReqKind
  by unfold_locales (rule CreateTopicsReq_round_trip, assumption, rule carries_CreateTopicsReq)

section \<open>The response survives\<close>

definition wf_TopicError :: "TopicError \<Rightarrow> bool" where
  "wf_TopicError te \<longleftrightarrow> wf_string (te_Topic te) \<and> wf_string (te_ErrorMessage te)"

definition norm_TopicError :: "int16 \<Rightarrow> TopicError \<Rightarrow> TopicError" where
  "norm_TopicError v te = te\<lparr>te_ErrorMessage := (if KafkaV1 \<le>s v then te_ErrorMessage te else []),
     te_Err := errFromNo (te_ErrorCode te)\<rparr>"

definition wf_CreateTopicsResp :: "CreateTopicsResp \<Rightarrow> bool" where
  "wf_CreateTopicsResp r \<longleftrightarrow> wf_array (ctr_TopicErrors r) \<and> list_all wf_TopicError (ctr_TopicErrors r)"

definition norm_CreateTopicsResp :: "CreateTopicsResp \<Rightarrow> CreateTopicsResp" where
  "norm_CreateTopicsResp r = r\<lparr>
     ctr_ThrottleTime := (if KafkaV2 \<le>s ctr_Version r then wire_duration (ctr_ThrottleTime r) else 0),
     ctr_TopicErrors := map (norm_TopicError (ctr_Version r)) (ctr_TopicErrors r)\<rparr>"

text \<open>A last statement that reads nothing pairs with nothing written.\<close>

lemma transfers_set_topic_error [codec_intros]:
  "transfers [] [set_topic_error] te (te\<lparr>te_Err := errFromNo (te_ErrorCode te)\<rparr>)"
  by (auto simp: transfers_def emits_def reads_def sticky_def set_topic_error_def block_Nil
      intro!: exI[of _ "[]"])

lemma transfers_TopicError:
  assumes "wf_TopicError te"
  shows "transfers (write_TopicError v te) (read_TopicError v) zero_TopicError (norm_TopicError v te)"
proof -
  note wf = assms[unfolded wf_TopicError_def]
  show ?thesis
    unfolding write_TopicError_def read_TopicError_def
    by (rule transfers_eqI, (rule codec_intros | (simp add: wf; fail))+)
      (simp add: zero_TopicError_def norm_TopicError_def)
qed

interpretation TopicError: versioned_struct write_TopicError read_TopicError
  zero_TopicError norm_TopicError wf_TopicError
  by unfold_locales (rule transfers_TopicError)

lemma CreateTopicsResp_round_trip:
  assumes "wf_CreateTopicsResp r"
  shows "round_trips (CreateTopicsResp_Bytes r) (ReadVersionedCreateTopicsResp (ctr_Version r))
    (norm_CreateTopicsResp r)"
proof -
  note wf = assms[unfolded wf_CreateTopicsResp_def]
  show ?thesis
    unfolding CreateTopicsResp_Bytes_def ReadVersionedCreateTopicsResp_def
    by (rule message_round_trips, rule transfers_eqI,
        (rule codec_intros TopicError.array | (simp add: wf; fail))+)
      (simp add: norm_CreateTopicsResp_def zero_CreateTopicsResp_def)
qed

lemma carries_CreateTopicsResp: "carries (PutUint32 (ctr_CorrelationID r)) (CreateTopicsResp_Bytes r)"
  unfolding CreateTopicsResp_Bytes_def
  by (rule carries_response) (simp add: write_TopicError_def)

interpretation CreateTopicsResp: response_message CreateTopicsResp_Bytes
  "ReadVersionedCreateTopicsResp v" norm_CreateTopicsResp
  "\<lambda>r. wf_CreateTopicsResp r \<and> ctr_Version r = v"
  ctr_CorrelationID for v
  by unfold_locales (use CreateTopicsResp_round_trip carries_CreateTopicsResp in blast)+

section \<open>Properties\<close>

text \<open>
  Create topics requests and responses of every version are read back as they were
  written, up to the fields their version does not carry, with the error of a topic computed
  from its number, and a truncated one is rejected.
\<close>

lemma create_topics_codec:
  assumes "wf_CreateTopicsReq q" "wf_CreateTopicsResp r"
  shows "round_trips (CreateTopicsReq_Bytes q) ReadCreateTopicsReq (norm_CreateTopicsReq q) \<and>
    round_trips (CreateTopicsResp_Bytes r) (ReadVersionedCreateTopicsResp (ctr_Version r)) (norm_CreateTopicsResp r)"
  using CreateTopicsReq.round_trip[of q] CreateTopicsResp.round_trip[of r "ctr_Version r"] assms by simp

definition example_CreateTopicsReq :: CreateTopicsReq where
  "example_CreateTopicsReq = \<lparr>version = 5, correlationID = 7, ClientID = str ''c'',
     ct_CreateTopicsRequests = [\<lparr>ti_Topic = str ''a'', ti_NumPartitions = 2, ti_ReplicationFactor = 1,
       ti_ReplicaAssignments = [\<lparr>ra_Partition = 0, ra_Replicas = [1]\<rparr>],
       ti_ConfigEntries = [\<lparr>ce_ConfigName = str ''k'', ce_ConfigValue = str ''v''\<rparr>]\<rparr>],
     ct_Timeout = 3000000, ct_ValidateOnly = True\<rparr>"

definition example_CreateTopicsResp :: CreateTopicsResp where
  "example_CreateTopicsResp = \<lparr>ctr_Version = 2, ctr_CorrelationID = 7,
     ctr_TopicErrors = [\<lparr>te_Topic = str ''a'', te_ErrorCode = 36, te_ErrorMessage = str ''e'', te_Err = None\<rparr>],
     ctr_ThrottleTime = 3000000\<rparr>"

lemma create_topics_codec_witness:
  "round_trips (CreateTopicsReq_Bytes example_CreateTopicsReq) ReadCreateTopicsReq (norm_CreateTopicsReq example_CreateTopicsReq) \<and>
   round_trips (CreateTopicsResp_Bytes example_CreateTopicsResp) (ReadVersionedCreateTopicsResp (ctr_Version example_CreateTopicsResp))
     (norm_CreateTopicsResp example_CreateTopicsResp)"
  by (rule create_topics_codec)
    (simp_all add: example_CreateTopicsReq_def example_CreateTopicsResp_def wf_CreateTopicsReq_def wf_TopicInfo_def wf_ReplicaAssignment_def wf_ConfigEntry_def
      wf_CreateTopicsResp_def wf_TopicError_def wf_header_def wf_string_def
      wf_array_def str_def wire_error_def kafkaErrors_def)

end
