(* ===== verification/ApiVersions.thy ===== *)
theory ApiVersions
  imports Request
begin

text \<open>
  \<open>APIVersionsReq\<close> and \<open>APIVersionsResp\<close> of \<open>v2/proto/messages.go\<close>, the messages a connection
  opens with.  The reader of the request skips the API key and the version together as one
  \<open>int32\<close>, so it forgets the version; the response is always written with error code 0.
\<close>

section \<open>APIVersionsReq\<close>

type_synonym APIVersionsReq = RequestHeader

definition zero_APIVersionsReq :: APIVersionsReq where
  "zero_APIVersionsReq = \<lparr>version = 0, correlationID = 0, ClientID = []\<rparr>"

definition ReadAPIVersionsReq :: "reader \<Rightarrow> APIVersionsReq res" where
  "ReadAPIVersionsReq = run_reader
     [skip_field DecodeInt32,
      skip_field DecodeInt32,
      read_field DecodeInt32 (\<lambda>x r. r\<lparr>correlationID := x\<rparr>),
      read_field DecodeString (\<lambda>x r. r\<lparr>ClientID := x\<rparr>)]
     zero_APIVersionsReq"

definition APIVersionsReq_Bytes :: "APIVersionsReq \<Rightarrow> byte list res" where
  "APIVersionsReq_Bytes r = run_bytes (encodeHeader APIVersionsReqKind r)"

section \<open>APIVersionsResp\<close>

record APIVersionsResp =
  av_Version :: int16
  av_CorrelationID :: int32
  av_APIVersions :: "SupportedVersion list"
  av_ThrottleTime :: int64

definition zero_SupportedVersion :: SupportedVersion where
  "zero_SupportedVersion = \<lparr>APIKey = 0, MinVersion = 0, MaxVersion = 0\<rparr>"

definition zero_APIVersionsResp :: APIVersionsResp where
  "zero_APIVersionsResp =
     \<lparr>av_Version = 0, av_CorrelationID = 0, av_APIVersions = [], av_ThrottleTime = 0\<rparr>"

definition read_SupportedVersion :: "(error, decoder \<times> SupportedVersion) stmt list" where
  "read_SupportedVersion =
     [read_field DecodeInt16 (\<lambda>x a. a\<lparr>APIKey := x\<rparr>),
      read_field DecodeInt16 (\<lambda>x a. a\<lparr>MinVersion := x\<rparr>),
      read_field DecodeInt16 (\<lambda>x a. a\<lparr>MaxVersion := x\<rparr>)]"

text \<open>
  \<open>errcode := dec.DecodeInt16(); if errcode != 0 { return nil, fmt.Errorf(...) }\<close>; after a
  failed read the code is 0 and the function goes on.
\<close>

definition check_errcode :: "(error, decoder \<times> APIVersionsResp) stmt" where
  "check_errcode s =
     (let (errcode, d) = DecodeInt16 (fst s)
      in if errcode \<noteq> 0 then Err (VersioningError errcode) else Ok (d, snd s))"

definition ReadVersionedAPIVersionsResp :: "int16 \<Rightarrow> reader \<Rightarrow> APIVersionsResp res" where
  "ReadVersionedAPIVersionsResp v = run_reader
     [skip_field DecodeInt32,
      read_field DecodeInt32 (\<lambda>x r. r\<lparr>av_CorrelationID := x\<rparr>),
      check_errcode,
      read_array (struct read_SupportedVersion zero_SupportedVersion)
        (\<lambda>x r. r\<lparr>av_APIVersions := x\<rparr>),
      if_do (\<lambda>_. KafkaV1 \<le>s v) [read_field DecodeDuration32 (\<lambda>x r. r\<lparr>av_ThrottleTime := x\<rparr>)]]
     (zero_APIVersionsResp\<lparr>av_Version := v\<rparr>)"

definition ReadAPIVersionsResp :: "reader \<Rightarrow> APIVersionsResp res" where
  "ReadAPIVersionsResp = ReadVersionedAPIVersionsResp KafkaV0"

definition write_SupportedVersion :: "SupportedVersion \<Rightarrow> (error, encoder) stmt list" where
  "write_SupportedVersion api =
     [EncodeInt16 (APIKey api), EncodeInt16 (MinVersion api), EncodeInt16 (MaxVersion api)]"

definition APIVersionsResp_Bytes :: "APIVersionsResp \<Rightarrow> byte list res" where
  "APIVersionsResp_Bytes r = run_bytes
     [EncodeInt32 0,
      EncodeInt32 (av_CorrelationID r),
      EncodeInt16 0,
      write_array write_SupportedVersion (av_APIVersions r),
      if_do (\<lambda>_. KafkaV1 \<le>s av_Version r) [EncodeDuration (av_ThrottleTime r)]]"

section \<open>The request survives but for its version\<close>

definition norm_APIVersionsReq :: "APIVersionsReq \<Rightarrow> APIVersionsReq" where
  "norm_APIVersionsReq r = r\<lparr>version := 0\<rparr>"

text \<open>The API key and the version, read back as one \<open>int32\<close>.\<close>

lemma emits_kind_version:
  "emits (block [EncodeInt16 k, EncodeInt16 v]) (PutUint16 k @ PutUint16 v)"
  using emits_Cons[OF emits_prims(2) emits_Cons[OF emits_prims(2) emits_Nil]] by simp

lemma transfers_kind_version:
  "transfers [EncodeInt16 k, EncodeInt16 v] [skip_field DecodeInt32] r r"
proof -
  have "decodes (PutUint16 k @ PutUint16 v) DecodeInt32 (be_word (PutUint16 k @ PutUint16 v))"
    unfolding DecodeInt32_def by (rule decodes_fixed) simp
  then have "reads (PutUint16 k @ PutUint16 v) (skip_field DecodeInt32) r r"
    unfolding skip_field_def using reads_read_field[of _ DecodeInt32 _ "\<lambda>_ r. r" r] by blast
  then have "reads (PutUint16 k @ PutUint16 v) (block [skip_field DecodeInt32]) r r" by simp
  with emits_kind_version show ?thesis unfolding transfers_def by fastforce
qed

lemma APIVersionsReq_round_trip:
  assumes "wf_header r"
  shows "round_trips (APIVersionsReq_Bytes r) ReadAPIVersionsReq (norm_APIVersionsReq r)"
proof -
  note wf = assms[unfolded wf_header_def]
  have "transfers ([EncodeInt16 APIVersionsReqKind, EncodeInt16 (version r)] @
      [EncodeInt32 (correlationID r), EncodeString (ClientID r)])
    ([skip_field DecodeInt32] @ [read_field DecodeInt32 (\<lambda>x r. r\<lparr>correlationID := x\<rparr>),
      read_field DecodeString (\<lambda>x r. r\<lparr>ClientID := x\<rparr>)]) zero_APIVersionsReq
    (norm_APIVersionsReq r)"
    by (rule transfers_append[OF transfers_kind_version], rule transfers_eqI,
        (rule codec_intros | (simp add: wf; fail))+)
      (simp add: norm_APIVersionsReq_def zero_APIVersionsReq_def)
  from message_round_trips[OF this] show ?thesis
    by (simp add: APIVersionsReq_Bytes_def ReadAPIVersionsReq_def encodeHeader_def)
qed

lemma carries_APIVersionsReq: "carries (PutUint16 APIVersionsReqKind) (APIVersionsReq_Bytes r)"
  using carries_header[of "[]" APIVersionsReqKind r] by (simp add: APIVersionsReq_Bytes_def)

interpretation APIVersionsReq: request_message APIVersionsReq_Bytes ReadAPIVersionsReq
  norm_APIVersionsReq wf_header
  APIVersionsReqKind
  by unfold_locales (rule APIVersionsReq_round_trip, assumption, rule carries_APIVersionsReq)

section \<open>The response survives\<close>

definition wf_APIVersionsResp :: "APIVersionsResp \<Rightarrow> bool" where
  "wf_APIVersionsResp r \<longleftrightarrow> wf_array (av_APIVersions r)"

definition norm_APIVersionsResp :: "APIVersionsResp \<Rightarrow> APIVersionsResp" where
  "norm_APIVersionsResp r = r\<lparr>av_ThrottleTime :=
     (if KafkaV1 \<le>s av_Version r then wire_duration (av_ThrottleTime r) else 0)\<rparr>"

lemma transfers_SupportedVersion:
  "transfers (write_SupportedVersion a) read_SupportedVersion zero_SupportedVersion a"
  unfolding write_SupportedVersion_def read_SupportedVersion_def
  by (rule transfers_eqI, (rule codec_intros | (simp add: zero_SupportedVersion_def; fail))+)

interpretation SupportedVersion: struct_codec write_SupportedVersion read_SupportedVersion
  zero_SupportedVersion "\<lambda>x. x" "\<lambda>_. True"
  by unfold_locales (rule transfers_SupportedVersion)

lemma sticky_check_errcode [simp]: "sticky check_errcode"
  by (auto simp: sticky_def check_errcode_def DecodeInt16_def decode_fixed_def dead_err)

lemma pairs_errcode [codec_intros]: "pairs (EncodeInt16 0) check_errcode r r"
proof (rule pairsI[OF emits_prims(2)])
  have "fst (DecodeInt16 (memdec p)) = 0" "dead (snd (DecodeInt16 (memdec p)))"
    if "proper_prefix p (PutUint16 0)" for p
    using proper_prefix_length[OF that]
    by (simp_all add: DecodeInt16_def decode_fixed_def ReadFull_short)
  then show "reads (PutUint16 0) check_errcode r r"
    by (simp add: reads_def check_errcode_def decodesD[OF decodes_prims(2)] split_beta)
qed simp

lemma APIVersionsResp_round_trip:
  assumes "wf_APIVersionsResp r"
  shows "round_trips (APIVersionsResp_Bytes r) (ReadVersionedAPIVersionsResp (av_Version r))
    (norm_APIVersionsResp r)"
proof -
  note wf = assms[unfolded wf_APIVersionsResp_def]
  show ?thesis
    unfolding APIVersionsResp_Bytes_def ReadVersionedAPIVersionsResp_def
    by (rule message_round_trips, rule transfers_eqI,
        (rule codec_intros SupportedVersion.array | (simp add: wf list_all_iff; fail))+)
      (simp add: norm_APIVersionsResp_def zero_APIVersionsResp_def)
qed

lemma carries_APIVersionsResp: "carries (PutUint32 (av_CorrelationID r)) (APIVersionsResp_Bytes r)"
  unfolding APIVersionsResp_Bytes_def
  by (rule carries_response) (simp add: write_SupportedVersion_def)

interpretation APIVersionsResp: response_message APIVersionsResp_Bytes
  "ReadVersionedAPIVersionsResp v" norm_APIVersionsResp
  "\<lambda>r. wf_APIVersionsResp r \<and> av_Version r = v"
  av_CorrelationID for v
  by unfold_locales (use APIVersionsResp_round_trip carries_APIVersionsResp in blast)+

section \<open>Properties\<close>

text \<open>
  API version requests are read back but for their version, which the reader skips
  together with the API key; API version responses are read back as they were written, up to
  the throttle time of version 0; truncated ones are rejected.
\<close>

lemma api_versions_codec:
  assumes "wf_header q" "wf_APIVersionsResp r"
  shows "round_trips (APIVersionsReq_Bytes q) ReadAPIVersionsReq (norm_APIVersionsReq q) \<and>
    round_trips (APIVersionsResp_Bytes r) (ReadVersionedAPIVersionsResp (av_Version r))
      (norm_APIVersionsResp r)"
  using APIVersionsReq.round_trip[of q] APIVersionsResp.round_trip[of r "av_Version r"] assms by simp

definition example_APIVersionsReq :: APIVersionsReq where
  "example_APIVersionsReq = \<lparr>version = 1, correlationID = 7, ClientID = str ''c''\<rparr>"

definition example_APIVersionsResp :: APIVersionsResp where
  "example_APIVersionsResp = \<lparr>av_Version = 1, av_CorrelationID = 7,
     av_APIVersions = [\<lparr>APIKey = 3, MinVersion = 0, MaxVersion = 5\<rparr>], av_ThrottleTime = 3000000\<rparr>"

lemma api_versions_codec_witness:
  "round_trips (APIVersionsReq_Bytes example_APIVersionsReq) ReadAPIVersionsReq
     (norm_APIVersionsReq example_APIVersionsReq) \<and>
   round_trips (APIVersionsResp_Bytes example_APIVersionsResp)
     (ReadVersionedAPIVersionsResp (av_Version example_APIVersionsResp))
     (norm_APIVersionsResp example_APIVersionsResp)"
  by (rule api_versions_codec)
    (simp_all add: example_APIVersionsReq_def example_APIVersionsResp_def wf_header_def
      wf_APIVersionsResp_def wf_string_def wf_array_def str_def)

end
