(* ===== verification/Crc.thy ===== *)
theory Crc
  imports GoLib
begin

text \<open>
  Package \<open>hash/crc32\<close> as the message formats use it: \<open>ChecksumIEEE\<close> for message sets and a
  running Castagnoli sum for record batches.  Both are the reflected CRC of one polynomial,
  computed bit by bit; the lookup tables of the package only speed this up.  The main fact
  is that the sum tells apart any two inputs of equal length that differ in one byte.
\<close>

unbundle bit_operations_syntax

section \<open>The checksum\<close>

definition IEEE :: uint32 where "IEEE = 0xEDB88320"

definition Castagnoli :: uint32 where "Castagnoli = 0x82F63B78"

text \<open>One bit is shifted out at the low end; if it was set the polynomial is added.\<close>

definition crc_bit :: "uint32 \<Rightarrow> uint32 \<Rightarrow> uint32" where
  "crc_bit poly c = (if bit c 0 then drop_bit 1 c XOR poly else drop_bit 1 c)"

definition crc_byte :: "uint32 \<Rightarrow> uint32 \<Rightarrow> byte \<Rightarrow> uint32" where
  "crc_byte poly c b = (crc_bit poly ^^ 8) (c XOR ucast b)"

definition crc32 :: "uint32 \<Rightarrow> byte list \<Rightarrow> uint32" where
  "crc32 poly bs = NOT (foldl (crc_byte poly) (NOT 0) bs)"

definition ChecksumIEEE :: "byte list \<Rightarrow> uint32" where
  "ChecksumIEEE = crc32 IEEE"

definition Sum32_Castagnoli :: "byte list \<Rightarrow> uint32" where
  "Sum32_Castagnoli = crc32 Castagnoli"

text \<open>Evaluation by the simplifier, and the check values published for the two polynomials.\<close>

lemma funpow8: "(f ^^ 8) x = f (f (f (f (f (f (f (f x)))))))"
  by (simp add: eval_nat_numeral)

lemmas crc_eval = ChecksumIEEE_def Sum32_Castagnoli_def crc32_def crc_byte_def funpow8 crc_bit_def
  IEEE_def Castagnoli_def

lemma crc_check_values:
  "ChecksumIEEE (str ''123456789'') = 0xCBF43926"
  "Sum32_Castagnoli (str ''123456789'') = 0xE3069283"
  by (simp_all add: str_def crc_eval)

section \<open>One changed byte changes the sum\<close>

text \<open>The top bit of the polynomial records the bit that was shifted out.\<close>

lemma crc_bit_top: "bit poly 31 \<Longrightarrow> bit (crc_bit poly c) 31 = bit c 0"
  using bit_imp_le_length[of c 32] by (auto simp: crc_bit_def bit_simps)

lemma inj_crc_bit:
  assumes "bit poly 31"
  shows "inj (crc_bit poly)"
proof (rule injI)
  fix c d assume eq: "crc_bit poly c = crc_bit poly d"
  then have low: "bit c 0 = bit d 0"
    using crc_bit_top[OF assms] by metis
  have "drop_bit 1 c = drop_bit 1 d"
  proof (cases "bit c 0")
    case True
    with eq low have "(drop_bit 1 c XOR poly) XOR poly = (drop_bit 1 d XOR poly) XOR poly"
      by (simp add: crc_bit_def)
    then show ?thesis by (simp add: xor.assoc)
  next
    case False
    with eq low show ?thesis by (simp add: crc_bit_def)
  qed
  then have "bit c (Suc n) = bit d (Suc n)" for n
    by (metis bit_drop_bit_eq comp_apply plus_1_eq_Suc)
  with low show "c = d"
    by (intro bit_eqI) (metis old.nat.exhaust)
qed

lemma xor_cancel: "(c :: uint32) XOR a = d XOR a \<Longrightarrow> c = d"
  by (drule arg_cong[of _ _ "\<lambda>x. x XOR a"]) (simp add: xor.assoc)

lemma inj_crc_bit8: "bit poly 31 \<Longrightarrow> (crc_bit poly ^^ 8) c = (crc_bit poly ^^ 8) d \<Longrightarrow> c = d"
  by (rule injD[OF inj_fn[OF inj_crc_bit]])

lemma inj_crc_byte_state: "bit poly 31 \<Longrightarrow> crc_byte poly c b = crc_byte poly d b \<Longrightarrow> c = d"
  unfolding crc_byte_def by (drule (1) inj_crc_bit8) (rule xor_cancel)

lemma ucast_byte_inject:
  assumes "(ucast (a :: byte) :: uint32) = ucast b"
  shows "a = b"
proof (rule bit_word_eqI)
  fix n assume "n < LENGTH(8)"
  moreover have "bit (ucast a :: uint32) n = bit (ucast b :: uint32) n" by (simp only: assms)
  ultimately show "bit a n = bit b n" by (simp add: bit_ucast_iff)
qed

lemma inj_crc_byte_data: "bit poly 31 \<Longrightarrow> crc_byte poly c a = crc_byte poly c b \<Longrightarrow> a = b"
  unfolding crc_byte_def xor.commute[of c]
  by (drule (1) inj_crc_bit8, drule xor_cancel) (rule ucast_byte_inject)

lemma inj_crc_fold:
  "bit poly 31 \<Longrightarrow> foldl (crc_byte poly) c bs = foldl (crc_byte poly) d bs \<Longrightarrow> c = d"
  by (induction bs arbitrary: c d) (auto dest: inj_crc_byte_state)

lemma crc32_one_byte:
  assumes "bit poly 31" "a \<noteq> b"
  shows "crc32 poly (xs @ a # ys) \<noteq> crc32 poly (xs @ b # ys)"
proof
  assume "crc32 poly (xs @ a # ys) = crc32 poly (xs @ b # ys)"
  then have "foldl (crc_byte poly) (crc_byte poly (foldl (crc_byte poly) (NOT 0) xs) a) ys =
      foldl (crc_byte poly) (crc_byte poly (foldl (crc_byte poly) (NOT 0) xs) b) ys"
    by (simp add: crc32_def)
  then have "a = b"
    by (blast dest: inj_crc_fold[OF assms(1)] inj_crc_byte_data[OF assms(1)])
  with assms(2) show False by simp
qed

lemma poly_top: "bit IEEE 31" "bit Castagnoli 31"
  by (simp_all add: IEEE_def Castagnoli_def)

end
