(* ===== verification/Snappy.thy ===== *)
theory Snappy
  imports GoLib
begin

text \<open>
  \<open>v2/proto/snappy.go\<close>, and the interface to the two compressors.  Package
  \<open>github.com/golang/snappy\<close> and the DEFLATE coder behind \<open>compress/gzip\<close> are the fields of a
  record the definitions take as an argument; \<open>codec_laws\<close> names what the code relies on.
\<close>

section \<open>The compressors\<close>

text \<open>
  \<open>gzip_compress\<close> is what a \<open>gzip.Writer\<close> has written after the given bytes and \<open>Close\<close>;
  \<open>gunzip\<close> is \<open>gzip.NewReader\<close> followed by \<open>ioutil.ReadAll\<close>.
\<close>

record codecs =
  gzip_compress :: "byte list \<Rightarrow> byte list"
  gunzip :: "byte list \<Rightarrow> error + byte list"
  snappy_Encode :: "byte list \<Rightarrow> byte list"
  snappy_Decode :: "byte list \<Rightarrow> error + byte list"

section \<open>snappyDecode\<close>

definition snappyJavaMagic :: "byte list" where
  "snappyJavaMagic = 0x82 # str ''SNAPPY'' @ [0]"

text \<open>
  The slice \<open>b\<close> and the bytes between its length and its capacity, which the slice
  expressions of the loop can still reach; they panic beyond the capacity.
\<close>

function snappy_chunks :: "codecs \<Rightarrow> byte list \<Rightarrow> byte list \<Rightarrow> byte list res" where
  "snappy_chunks lib spare b =
     (if b = [] then Ok []
      else let s = b @ spare
           in if length s < 4 then Panic
              else let n = unat (be_word (take 4 s) :: uint32)
                   in if length s < 4 + n then Panic
                      else case snappy_Decode lib (take n (drop 4 s)) of
                             Inl err \<Rightarrow> Err err
                           | Inr chunk \<Rightarrow>
                               obind (snappy_chunks lib spare (drop (4 + n) b))
                                 (\<lambda>rest. Ok (chunk @ rest)))"
  by pat_completeness auto
termination
  by (relation "measure (\<lambda>(lib, spare, b). length b)") auto

declare snappy_chunks.simps [simp del]

definition snappyDecode :: "codecs \<Rightarrow> byte list \<Rightarrow> byte list \<Rightarrow> byte list res" where
  "snappyDecode lib spare b =
     (if take 8 b \<noteq> snappyJavaMagic
      then (case snappy_Decode lib b of Inl err \<Rightarrow> Err err | Inr d \<Rightarrow> Ok d)
      else if length (b @ spare) < 12 then Panic
      else let version = be_word (take 4 (drop 8 (b @ spare))) :: uint32
           in if version \<noteq> 1 then Err (SnappyJavaVersion version)
              else snappy_chunks lib spare (drop 16 b))"

section \<open>Both encodings are understood\<close>

text \<open>
  A block encoded by \<open>snappy.Encode\<close> starts with its length and a literal, so it is never
  taken for the framing of snappy-java.
\<close>

definition codec_laws :: "codecs \<Rightarrow> bool" where
  "codec_laws lib \<longleftrightarrow>
     (\<forall>b. gunzip lib (gzip_compress lib b) = Inr b) \<and>
     (\<forall>b. snappy_Decode lib (snappy_Encode lib b) = Inr b) \<and>
     (\<forall>b. take 8 (snappy_Encode lib b) \<noteq> snappyJavaMagic)"

lemma codec_lawsD:
  assumes "codec_laws lib"
  shows "gunzip lib (gzip_compress lib b) = Inr b"
    "snappy_Decode lib (snappy_Encode lib b) = Inr b"
    "take 8 (snappy_Encode lib b) \<noteq> snappyJavaMagic"
  using assms by (simp_all add: codec_laws_def)

lemma snappyDecode_plain: "codec_laws lib \<Longrightarrow> snappyDecode lib spare (snappy_Encode lib b) = Ok b"
  by (simp add: snappyDecode_def codec_lawsD)

text \<open>The framing of snappy-java: the magic, two version numbers, and blocks with their length.\<close>

definition java_chunk :: "codecs \<Rightarrow> byte list \<Rightarrow> byte list" where
  "java_chunk lib c =
     PutUint32 (of_nat (length (snappy_Encode lib c))) @ snappy_Encode lib c"

definition java_frame :: "codecs \<Rightarrow> uint32 \<Rightarrow> byte list list \<Rightarrow> byte list" where
  "java_frame lib compatible cs =
     snappyJavaMagic @ PutUint32 1 @ PutUint32 compatible @ concat (map (java_chunk lib) cs)"

lemma length_snappyJavaMagic [simp]: "length snappyJavaMagic = 8"
  by (simp add: snappyJavaMagic_def str_def)

lemma snappy_chunks_step:
  assumes "codec_laws lib" "length (snappy_Encode lib c) < 4294967296"
  shows "snappy_chunks lib spare (java_chunk lib c @ bs) =
    obind (snappy_chunks lib spare bs) (\<lambda>rest. Ok (c @ rest))"
proof -
  have "unat (of_nat (length (snappy_Encode lib c)) :: uint32) = length (snappy_Encode lib c)"
    using assms(2) by (simp add: unat_of_nat)
  then show ?thesis
    using assms(1)
    by (subst snappy_chunks.simps)
      (simp add: java_chunk_def codec_lawsD Let_def flip: length_0_conv)
qed

lemma snappyDecode_java:
  assumes "codec_laws lib" "list_all (\<lambda>c. length (snappy_Encode lib c) < 4294967296) cs"
  shows "snappyDecode lib spare (java_frame lib compatible cs) = Ok (concat cs)"
proof -
  have "snappy_chunks lib spare (concat (map (java_chunk lib) cs)) = Ok (concat cs)"
    using assms(2)
  proof (induction cs)
    case Nil
    then show ?case by (simp add: snappy_chunks.simps)
  next
    case (Cons c cs)
    then show ?case by (simp add: snappy_chunks_step[OF assms(1)])
  qed
  then show ?thesis
    by (simp add: snappyDecode_def java_frame_def Let_def)
qed

section \<open>Properties\<close>

text \<open>A stand-in for the compressors: each marks what it encoded with one byte.\<close>

definition unmark :: "byte \<Rightarrow> byte list \<Rightarrow> error + byte list" where
  "unmark k b = (case b of [] \<Rightarrow> Inl ErrUnexpectedEOF
     | x # xs \<Rightarrow> if x = k then Inr xs else Inl (LibError 0))"

definition example_codecs :: codecs where
  "example_codecs = \<lparr>gzip_compress = \<lambda>b. 31 # b, gunzip = unmark 31,
     snappy_Encode = \<lambda>b. 1 # b, snappy_Decode = unmark 1\<rparr>"

lemma example_codec_laws: "codec_laws example_codecs"
  by (simp add: codec_laws_def example_codecs_def unmark_def snappyJavaMagic_def)

text \<open>
  C31. \<open>snappyDecode\<close> understands both encodings in use: the plain blocks of the driver and the
  framed ones of the Java client, whose blocks it decodes one by one and joins.
\<close>

lemma snappy_decodes:
  assumes "codec_laws lib" "list_all (\<lambda>c. length (snappy_Encode lib c) < 4294967296) cs"
  shows "snappyDecode lib spare (snappy_Encode lib b) = Ok b \<and>
    snappyDecode lib spare (java_frame lib compatible cs) = Ok (concat cs)"
  using snappyDecode_plain[OF assms(1)] snappyDecode_java[OF assms] by simp

lemma snappy_decodes_witness:
  "snappyDecode example_codecs [] (snappy_Encode example_codecs [1, 2]) = Ok [1, 2] \<and>
   snappyDecode example_codecs [] (java_frame example_codecs 1 [[1, 2], [3]]) = Ok [1, 2, 3]"
  using snappy_decodes[OF example_codec_laws, of "[[1, 2], [3]]" "[]" "[1, 2]" 1]
  by (simp add: example_codecs_def)

end
