(* ===== verification/MessageSet.thy ===== *)
theory MessageSet
  imports Request Crc Snappy
begin

text \<open>
  Message sets of \<open>v2/proto/messages.go\<close>: \<open>Message\<close>, \<open>ComputeCrc\<close>, \<open>writeMessageSet\<close> and
  \<open>readMessageSet\<close>.  A compressed set is one message whose value is a whole message set, so
  the reader calls itself on what it unpacked; \<open>depth\<close> bounds that nesting.  The loop over one
  stream needs no bound, every round uses up bytes of the stream.
\<close>

unbundle bit_operations_syntax

section \<open>Data\<close>

abbreviation CompressionNone :: int8 where "CompressionNone \<equiv> 0"
abbreviation CompressionGzip :: int8 where "CompressionGzip \<equiv> 1"
abbreviation CompressionSnappy :: int8 where "CompressionSnappy \<equiv> 2"

abbreviation MessageV0 :: int8 where "MessageV0 \<equiv> 0"
abbreviation MessageV1 :: int8 where "MessageV1 \<equiv> 1"
abbreviation MessageV2 :: int8 where "MessageV2 \<equiv> 2"

record Message =
  Key :: gobytes
  Value :: gobytes
  Offset :: int64
  Crc :: uint32
  Topic :: gostring
  Partition :: int32
  TipOffset :: int64

definition zero_Message :: Message where
  "zero_Message = \<lparr>Key = None, Value = None, Offset = 0, Crc = 0, Topic = [], Partition = 0,
     TipOffset = 0\<rparr>"

record ParserConfig =
  SimplifiedMessageSetParsing :: bool

text \<open>The package variable \<open>conf\<close>, which the readers get as an argument.\<close>

definition ConfigureParser :: "ParserConfig \<Rightarrow> ParserConfig \<Rightarrow> goerror \<times> ParserConfig" where
  "ConfigureParser c old = (None, c)"

section \<open>Writing\<close>

definition ComputeCrc :: "Message \<Rightarrow> int8 \<Rightarrow> uint32 res" where
  "ComputeCrc m compression =
     obind (block [EncodeInt8 0, EncodeInt8 compression, EncodeBytes (Key m), EncodeBytes (Value m)]
              (NewEncoder (BufferW [])))
       (\<lambda>enc. Ok (ChecksumIEEE (writer_bytes (e_w enc))))"

text \<open>
  One round of the loop of \<open>writeMessageSet\<close>: the bytes of one message and the scratch
  buffer \<open>b\<close>, whose encoder only ever holds a \<open>slicewriter\<close>.
\<close>

definition message_len :: "Message \<Rightarrow> nat" where
  "message_len m = length (bytes_of (Key m)) + length (bytes_of (Value m))"

definition encode_message :: "int8 \<Rightarrow> Message \<Rightarrow> slicewriter \<Rightarrow> (byte list \<times> slicewriter) res" where
  "encode_message compression msg b =
     (let bsize = 26 + message_len msg
      in obind (sw_Reset (int bsize) b) (\<lambda>b.
         obind (block
            [EncodeInt64 (Offset msg),
             EncodeInt32 (of_nat (14 + message_len msg)),
             EncodeUint32 0,
             EncodeInt8 0,
             EncodeInt8 compression,
             EncodeBytes (Key msg),
             EncodeBytes (Value msg)] (NewEncoder (SliceW b))) (\<lambda>enc.
         case (e_err enc, e_w enc) of
           (Some err, _) \<Rightarrow> Err err
         | (None, BufferW _) \<Rightarrow> Panic
         | (None, SliceW b) \<Rightarrow>
             obind (put_at 12 (PutUint32 (ChecksumIEEE (take (bsize - 16) (drop 16 (sw_buf b)))))
                      (sw_buf b))
               (\<lambda>buf. Ok (sw_Slice (b\<lparr>sw_buf := buf\<rparr>), b\<lparr>sw_buf := buf\<rparr>)))))"

primrec write_messages ::
  "int8 \<Rightarrow> Message list \<Rightarrow> slicewriter \<Rightarrow> writer \<times> nat \<Rightarrow> (writer \<times> nat) res"
where
  "write_messages compression [] b s = Ok s"
| "write_messages compression (msg # messages) b s =
     obind (encode_message compression msg b) (\<lambda>(p, b).
       case Write p (fst s) of
         ((n, Some err), w) \<Rightarrow> Err err
       | ((n, None), w) \<Rightarrow> write_messages compression messages b (w, snd s + n))"

text \<open>
  The result is the writer and the number of bytes written; the byte count that accompanies
  an error is dropped by every caller.
\<close>

function writeMessageSet ::
  "codecs \<Rightarrow> writer \<Rightarrow> Message list \<Rightarrow> int8 \<Rightarrow> (writer \<times> nat) res"
where
  "writeMessageSet lib w messages compression =
     (if messages = [] then Ok (w, 0)
      else let compressOffset = Offset (last messages)
           in obind
             (if compression = CompressionGzip then
                obind (writeMessageSet lib (BufferW []) messages CompressionNone) (\<lambda>(gz, n).
                  Ok [zero_Message\<lparr>Value := Some (gzip_compress lib (writer_bytes gz)),
                        Offset := compressOffset\<rparr>])
              else if compression = CompressionSnappy then
                obind (writeMessageSet lib (BufferW []) messages CompressionNone) (\<lambda>(buf, n).
                  Ok [zero_Message\<lparr>Value := Some (snappy_Encode lib (writer_bytes buf)),
                        Offset := compressOffset\<rparr>])
              else Ok messages)
             (\<lambda>messages.
               case newSliceWriter 0 of
                 Inl err \<Rightarrow> Err err
               | Inr b \<Rightarrow> write_messages compression messages b (w, 0)))"
  by pat_completeness auto
termination
  by (relation "measure (\<lambda>(lib, w, ms, c). if c = CompressionNone then 0 else 1)") auto

declare writeMessageSet.simps [simp del]

section \<open>Reading\<close>

text \<open>
  What one round of the loop of \<open>readMessageSet\<close> comes to: the set ends here, one last
  message, one more message, a nested message set to read, \<open>return nil, nil\<close>, an error, a panic.
\<close>

datatype entry =
    EndOfSet
  | LastMessage Message
  | PlainMessage Message
  | NestedSet "byte list"
  | NilSet
  | SetError error
  | SetPanic

text \<open>The part after the message has been read into its own buffer \<open>msgbuf\<close>.\<close>

definition unpack :: "codecs \<Rightarrow> int8 \<Rightarrow> byte list \<Rightarrow> byte list res" where
  "unpack lib compression val =
     (if compression = CompressionGzip
      then (case gunzip lib val of Inl err \<Rightarrow> Err err | Inr decoded \<Rightarrow> Ok decoded)
      else snappyDecode lib [] val)"

definition parse_message :: "codecs \<Rightarrow> int64 \<Rightarrow> int32 \<Rightarrow> byte list \<Rightarrow> entry" where
  "parse_message lib offset sz msgbuf =
     (let (crc, msgdec) = DecodeUint32 (NewDecoder (NewReader msgbuf));
          msg = zero_Message\<lparr>Offset := offset, Crc := crc\<rparr>
      in if sint sz \<le> 4 then LastMessage msg
         else if crc \<noteq> ChecksumIEEE (drop 4 msgbuf) then EndOfSet
         else let (messageVersion, msgdec) = DecodeInt8 msgdec;
                  (attributes, msgdec) = DecodeInt8 msgdec;
                  msgdec = (if messageVersion = MessageV1 then snd (DecodeInt64 msgdec) else msgdec);
                  compression = attributes AND 3;
                  (key, msgdec') = DecodeBytes msgdec;
                  (val, msgdec') = DecodeBytes msgdec'
              in if compression = CompressionNone then
                   (case d_err msgdec' of
                      Some err \<Rightarrow> SetError err
                    | None \<Rightarrow> PlainMessage (msg\<lparr>Key := key, Value := val\<rparr>))
                 else if compression = CompressionGzip \<or> compression = CompressionSnappy then
                   (case d_err msgdec' of
                      Some err \<Rightarrow> SetError err
                    | None \<Rightarrow>
                        (case unpack lib compression (bytes_of val) of
                           Ok decoded \<Rightarrow> NestedSet decoded
                         | Err err \<Rightarrow> SetError err
                         | _ \<Rightarrow> SetPanic))
                 else NilSet)"

text \<open>A set that ends early, even inside a message, ends without an error.\<close>

definition end_or_error :: "error \<Rightarrow> entry" where
  "end_or_error err = (if err = EOF \<or> err = ErrUnexpectedEOF then EndOfSet else SetError err)"

definition readMessage :: "codecs \<Rightarrow> reader \<Rightarrow> entry \<times> reader" where
  "readMessage lib r =
     (let (offset, dec) = DecodeInt64 (NewDecoder r)
      in case d_err dec of
           Some err \<Rightarrow> (end_or_error err, d_r dec)
         | None \<Rightarrow>
             let (sz, dec) = DecodeInt32 dec
             in case d_err dec of
                  Some err \<Rightarrow> (end_or_error err, d_r dec)
                | None \<Rightarrow>
                    if sint sz \<le> 0 then (EndOfSet, d_r dec)
                    else case allocParseBuf (sint sz) of
                           Inl err \<Rightarrow> (SetError err, d_r dec)
                         | Inr msgbuf \<Rightarrow>
                             (case ReadFull (length msgbuf) (d_r dec) of
                                ((_, Some err), r') \<Rightarrow> (end_or_error err, r')
                              | ((msgbuf, None), r') \<Rightarrow> (parse_message lib offset sz msgbuf, r')))"

text \<open>A round uses up at least the offset and the size field, unless the stream ends in them.\<close>

lemma decode_fixed_shrinks:
  assumes "decode_fixed n d = (x, d')" "d_err d = None" "n \<le> length (rd_bytes (d_r d))"
  shows "length (rd_bytes (d_r d')) + n = length (rd_bytes (d_r d))" "d_err d' = None"
  using assms by (auto simp: decode_fixed_def ReadFull_def advance_def Let_def)

lemma decode_fixed_ends:
  assumes "decode_fixed n d = (x, d')" "d_err d = None" "length (rd_bytes (d_r d)) < n"
  shows "d_err d' \<noteq> None"
  using assms by (auto simp: decode_fixed_def ReadFull_def advance_def Let_def)

lemma ReadFull_shrinks: "ReadFull n r = (x, r') \<Longrightarrow> length (rd_bytes r') \<le> length (rd_bytes r)"
  by (auto simp: ReadFull_def advance_def Let_def split: if_splits)

lemma readMessage_progress:
  assumes "12 \<le> length (rd_bytes r)" "readMessage lib r = (ent, r')"
  shows "length (rd_bytes r') + 12 \<le> length (rd_bytes r)"
proof -
  obtain offset dec where 1: "DecodeInt64 (NewDecoder r) = (offset, dec)" by fastforce
  obtain sz dec' where 2: "DecodeInt32 dec = (sz, dec')" by fastforce
  have s1: "length (rd_bytes (d_r dec)) + 8 = length (rd_bytes r)" "d_err dec = None"
    using decode_fixed_shrinks[OF 1[unfolded DecodeInt64_def]] assms(1)
    by (simp_all add: NewDecoder_def)
  have s2: "length (rd_bytes (d_r dec')) + 4 = length (rd_bytes (d_r dec))" "d_err dec' = None"
    using decode_fixed_shrinks[OF 2[unfolded DecodeInt32_def] s1(2)] s1 assms(1) by simp_all
  have "length (rd_bytes r') \<le> length (rd_bytes (d_r dec'))"
    using assms(2) s1(2) s2(2)
    by (auto simp: readMessage_def 1 2 split: if_splits sum.splits prod.splits option.splits
        dest: ReadFull_shrinks)
  with s1 s2 show ?thesis by linarith
qed

lemma readMessage_short:
  assumes "length (rd_bytes r) < 12" "readMessage lib r = (ent, r')"
  shows "\<exists>err. ent = end_or_error err"
proof -
  obtain offset dec where 1: "DecodeInt64 (NewDecoder r) = (offset, dec)" by fastforce
  obtain sz dec' where 2: "DecodeInt32 dec = (sz, dec')" by fastforce
  show ?thesis
  proof (cases "d_err dec")
    case (Some err)
    then show ?thesis using assms(2) by (auto simp: readMessage_def 1)
  next
    case None
    then have "8 \<le> length (rd_bytes r)"
      using decode_fixed_ends[OF 1[unfolded DecodeInt64_def]]
      by (metis NewDecoder_def decoder.select_convs linorder_not_le)
    then have "length (rd_bytes (d_r dec)) + 8 = length (rd_bytes r)"
      using decode_fixed_shrinks[OF 1[unfolded DecodeInt64_def]] by (simp add: NewDecoder_def)
    then have "d_err dec' \<noteq> None"
      using decode_fixed_ends[OF 2[unfolded DecodeInt32_def] None] assms(1) by simp
    then show ?thesis using assms(2) None by (auto simp: readMessage_def 1 2)
  qed
qed

lemma readMessage_shrinks:
  assumes "readMessage lib r = (ent, r')" "\<And>err. ent \<noteq> end_or_error err"
  shows "length (rd_bytes r') < length (rd_bytes r)"
  using readMessage_progress[of r lib ent r'] readMessage_short[of r lib ent r'] assms
  by (cases "12 \<le> length (rd_bytes r)") auto

lemma end_or_error_simps [simp]:
  "end_or_error err \<noteq> PlainMessage m" "end_or_error err \<noteq> NestedSet b"
  "PlainMessage m \<noteq> end_or_error err" "NestedSet b \<noteq> end_or_error err"
  "end_or_error EOF = EndOfSet" "end_or_error ErrUnexpectedEOF = EndOfSet"
  by (simp_all add: end_or_error_def)

text \<open>
  The loop.  A nested set goes through the size check of \<open>readMessageSet\<close> again; the
  simplified mode has returned before the loop, so it plays no part in it.
\<close>

function read_set :: "codecs \<Rightarrow> nat \<Rightarrow> reader \<Rightarrow> Message list \<Rightarrow> Message list res \<times> reader"
where
  "read_set lib depth r found =
     (case readMessage lib r of
        (EndOfSet, r') \<Rightarrow> (Ok found, r')
      | (LastMessage msg, r') \<Rightarrow> (Ok (found @ [msg]), r')
      | (PlainMessage msg, r') \<Rightarrow> read_set lib depth r' (found @ [msg])
      | (NestedSet decoded, r') \<Rightarrow>
          (let sz = of_nat (length decoded) :: int32
           in if sint sz < 0 then (Err (MessageSizeError (sint sz)), r')
              else case depth of
                     0 \<Rightarrow> (NoFuel, r')
                   | Suc depth' \<Rightarrow>
                       (case fst (read_set lib depth' (NewReader decoded) []) of
                          Ok msgs \<Rightarrow> read_set lib depth r' (found @ msgs)
                        | Err err \<Rightarrow> (Err err, r')
                        | Panic \<Rightarrow> (Panic, r')
                        | NoFuel \<Rightarrow> (NoFuel, r')))
      | (NilSet, r') \<Rightarrow> (Ok [], r')
      | (SetError err, r') \<Rightarrow> (Err err, r')
      | (SetPanic, r') \<Rightarrow> (Panic, r'))"
  by pat_completeness auto
termination
  by (relation "measures [\<lambda>(lib, depth, r, found). depth, \<lambda>(lib, depth, r, found). length (rd_bytes r)]")
    (auto intro: readMessage_shrinks[OF sym])

declare read_set.simps [simp del]

definition readMessageSet ::
  "codecs \<Rightarrow> ParserConfig \<Rightarrow> nat \<Rightarrow> reader \<Rightarrow> int32 \<Rightarrow> Message list res \<times> reader"
where
  "readMessageSet lib conf depth r sz =
     (if sint sz < 0 \<or> sint sz > maxParseBufSize then (Err (MessageSizeError (sint sz)), r)
      else if SimplifiedMessageSetParsing conf
      then (case allocParseBuf (sint sz) of
              Inl err \<Rightarrow> (Err err, r)
            | Inr msgbuf \<Rightarrow>
                (case ReadFull (length msgbuf) r of
                   ((_, Some err), r') \<Rightarrow> (Err err, r')
                 | ((_, None), r') \<Rightarrow> (Ok [], r')))
      else read_set lib depth r [])"

section \<open>What is written\<close>

text \<open>The layout of one message, with the checksum over everything after it.\<close>

definition message_payload :: "int8 \<Rightarrow> Message \<Rightarrow> byte list" where
  "message_payload compression m = [0, compression] @ bytes_wire (Key m) @ bytes_wire (Value m)"

definition message_wire :: "int8 \<Rightarrow> Message \<Rightarrow> byte list" where
  "message_wire compression m =
     PutUint64 (Offset m) @ PutUint32 (of_nat (14 + message_len m)) @
     PutUint32 (ChecksumIEEE (message_payload compression m)) @ message_payload compression m"

lemma length_bytes_wire [simp]: "length (bytes_wire b) = 4 + length (bytes_of b)"
  by (simp add: bytes_wire_def split: option.split)

lemma length_message_payload [simp]: "length (message_payload c m) = 10 + message_len m"
  by (simp add: message_payload_def message_len_def)

lemma length_message_wire [simp]: "length (message_wire c m) = 26 + message_len m"
  by (simp add: message_wire_def)

lemma ComputeCrc_payload: "ComputeCrc m c = Ok (ChecksumIEEE (message_payload c m))"
proof -
  have "emits (block [EncodeInt8 0, EncodeInt8 c, EncodeBytes (Key m), EncodeBytes (Value m)])
    ([0] @ [c] @ bytes_wire (Key m) @ bytes_wire (Value m) @ [])"
    by (intro emits_Cons emits_prims emits_Bytes emits_Nil)
  then show ?thesis
    by (simp add: ComputeCrc_def emits_def NewEncoder_def writer_bytes_def message_payload_def
        del: block.simps)
qed

text \<open>An encoder over a \<open>slicewriter\<close> with enough room fills the buffer from its position on.\<close>

abbreviation sliceenc :: "byte list \<Rightarrow> byte list \<Rightarrow> int \<Rightarrow> encoder" where
  "sliceenc done free sz \<equiv>
     \<lparr>e_w = SliceW \<lparr>sw_buf = done @ free, sw_pos = length done, sw_size = sz\<rparr>, e_err = None\<rparr>"

definition fills :: "(error, encoder) stmt \<Rightarrow> byte list \<Rightarrow> bool" where
  "fills c bs \<longleftrightarrow>
     (\<forall>done free sz. length bs \<le> length free \<longrightarrow>
        c (sliceenc done free sz) = Ok (sliceenc (done @ bs) (drop (length bs) free) sz))"

lemma fillsD:
  "fills c bs \<Longrightarrow> length bs \<le> length free \<Longrightarrow>
    c (sliceenc done free sz) = Ok (sliceenc (done @ bs) (drop (length bs) free) sz)"
  by (simp add: fills_def)

lemma fills_Nil: "fills (block []) []"
  by (simp add: fills_def)

lemma fills_Cons:
  assumes "fills c bs" "fills (block cs) bs'"
  shows "fills (block (c # cs)) (bs @ bs')"
  unfolding fills_def
proof (intro allI impI)
  fix "done" free :: "byte list" and sz :: int
  assume len: "length (bs @ bs') \<le> length free"
  then have "block cs (sliceenc (done @ bs) (drop (length bs) free) sz) =
      Ok (sliceenc ((done @ bs) @ bs') (drop (length bs') (drop (length bs) free)) sz)"
    by (intro fillsD assms(2)) simp
  moreover have "c (sliceenc done free sz) = Ok (sliceenc (done @ bs) (drop (length bs) free) sz)"
    using len by (intro fillsD assms(1)) simp
  ultimately show "block (c # cs) (sliceenc done free sz) =
      Ok (sliceenc (done @ bs @ bs') (drop (length (bs @ bs')) free) sz)"
    by (simp add: add.commute)
qed

lemma fills_prims:
  "fills (EncodeInt8 a) [a]" "fills (EncodeInt32 c) (PutUint32 c)"
  "fills (EncodeUint32 c) (PutUint32 c)" "fills (EncodeInt64 d) (PutUint64 d)"
  by (simp_all add: fills_def EncodeInt8_def EncodeInt32_def EncodeUint32_def
      EncodeInt64_def enc_write_def enc_write_once_def writeAll_def sw_Write_def)
    auto

lemma fills_Bytes: "fills (EncodeBytes v) (bytes_wire v)"
  by (cases v)
    (simp_all add: fills_def EncodeBytes_def bytes_wire_def enc_write_def writeAll_def sw_Write_def
      Let_def add.commute)

text \<open>The buffer of the loop never outgrows what \<open>allocParseBuf\<close> allows.\<close>

definition sw_ok :: "slicewriter \<Rightarrow> bool" where
  "sw_ok b \<longleftrightarrow> int (length (sw_buf b)) \<le> maxInt32"

lemma sw_Reset_Ok:
  assumes "sw_Reset (int n) b = Ok b'" "sw_ok b"
  shows "sw_pos b' = 0" "n \<le> length (sw_buf b')" "sw_ok b'" "int n \<le> maxInt32"
  using assms
  by (auto simp: sw_Reset_def allocParseBuf_def sw_ok_def maxParseBufSize_def maxInt32_def
      split: if_splits sum.splits)

lemma sw_Reset_fits:
  assumes "int n + 1000 \<le> maxInt32"
  shows "\<exists>b'. sw_Reset (int n) b = Ok b'"
  using assms by (simp add: sw_Reset_def allocParseBuf_def maxParseBufSize_def)

lemma encode_message_wire:
  assumes "sw_Reset (int (26 + message_len m)) b = Ok b'" "sw_ok b"
  shows "\<exists>b''. encode_message c m b = Ok (message_wire c m, b'') \<and> sw_ok b''"
proof -
  note r = sw_Reset_Ok[OF assms]
  let ?bsize = "26 + message_len m"
  let ?head = "PutUint64 (Offset m) @ PutUint32 (of_nat (14 + message_len m))"
  let ?body = "message_payload c m"
  let ?bs = "PutUint64 (Offset m) @ PutUint32 (of_nat (14 + message_len m)) @ PutUint32 0 @
    [0] @ [c] @ bytes_wire (Key m) @ bytes_wire (Value m) @ []"
  have b': "NewEncoder (SliceW b') = sliceenc [] (sw_buf b') (sw_size b')"
    using r(1) by (cases b') (simp add: NewEncoder_def)
  have len: "length ?bs = ?bsize" by (simp add: message_len_def)
  have bs: "?bs = ?head @ PutUint32 0 @ ?body" by (simp add: message_payload_def)
  have len2: "length (?head @ PutUint32 0 @ ?body) = ?bsize" by simp
  let ?prog = "[EncodeInt64 (Offset m), EncodeInt32 (of_nat (14 + message_len m)), EncodeUint32 0,
      EncodeInt8 0, EncodeInt8 c, EncodeBytes (Key m), EncodeBytes (Value m)]"
  have f: "fills (block ?prog) ?bs"
    by (intro fills_Cons fills_prims fills_Bytes fills_Nil)
  have "block ?prog (sliceenc [] (sw_buf b') (sw_size b')) =
      Ok (sliceenc ([] @ ?bs) (drop (length ?bs) (sw_buf b')) (sw_size b'))"
    by (rule fillsD[OF f]) (use len r(2) in simp)
  then have run: "block ?prog (NewEncoder (SliceW b')) =
      Ok (sliceenc (?head @ PutUint32 0 @ ?body) (drop ?bsize (sw_buf b')) (sw_size b'))"
    unfolding b' append_Nil bs len2 .
  show ?thesis
    using r(2,3) unfolding encode_message_def Let_def assms(1) obind.simps run
    by (simp add: put_at_def sw_Slice_def sw_ok_def message_wire_def)
qed

definition fits :: "Message \<Rightarrow> bool" where
  "fits m \<longleftrightarrow> int (26 + message_len m) \<le> maxInt32"

definition messages_wire :: "int8 \<Rightarrow> Message list \<Rightarrow> byte list" where
  "messages_wire c ms = concat (map (message_wire c) ms)"

lemma messages_wire_simps [simp]:
  "messages_wire c [] = []" "messages_wire c (m # ms) = message_wire c m @ messages_wire c ms"
  "messages_wire c (xs @ ys) = messages_wire c xs @ messages_wire c ys"
  by (simp_all add: messages_wire_def)

lemma encode_message_Ok:
  assumes "encode_message c m b = Ok (p, b'')" "sw_ok b"
  shows "p = message_wire c m" "sw_ok b''" "fits m"
proof -
  from assms(1) obtain b' where r: "sw_Reset (int (26 + message_len m)) b = Ok b'"
    by (auto simp: encode_message_def obind_eq_Ok_conv Let_def)
  from encode_message_wire[OF r assms(2), of c] sw_Reset_Ok(4)[OF r assms(2)] assms(1)
  show "p = message_wire c m" "sw_ok b''" "fits m" by (auto simp: fits_def)
qed

lemma write_messages_Ok:
  assumes "write_messages c ms b (BufferW w, t) = Ok (w', n)" "sw_ok b"
  shows "w' = BufferW (w @ messages_wire c ms) \<and> n = t + length (messages_wire c ms) \<and>
    list_all fits ms"
  using assms
proof (induction ms arbitrary: b w t)
  case (Cons m ms)
  from Cons.prems(1) obtain p b' where e: "encode_message c m b = Ok (p, b')"
    "write_messages c ms b' (BufferW (w @ p), t + length p) = Ok (w', n)"
    by (auto simp: obind_eq_Ok_conv)
  note m = encode_message_Ok[OF e(1) Cons.prems(2)]
  from Cons.IH[OF e(2) m(2)] m(1,3) show ?case by simp
qed simp

text \<open>What a whole set is written as: a compressed one is a single message around the others.\<close>

definition packed :: "codecs \<Rightarrow> int8 \<Rightarrow> Message list \<Rightarrow> Message list" where
  "packed lib c ms =
     (let wrap = \<lambda>v. [zero_Message\<lparr>Value := Some v, Offset := Offset (last ms)\<rparr>]
      in if c = CompressionGzip then wrap (gzip_compress lib (messages_wire CompressionNone ms))
         else if c = CompressionSnappy then wrap (snappy_Encode lib (messages_wire CompressionNone ms))
         else ms)"

definition set_wire :: "codecs \<Rightarrow> int8 \<Rightarrow> Message list \<Rightarrow> byte list" where
  "set_wire lib c ms = (if ms = [] then [] else messages_wire c (packed lib c ms))"

lemma newSliceWriter_0: "\<exists>b. newSliceWriter 0 = Inr b \<and> sw_ok b"
  by (simp add: newSliceWriter_def allocParseBuf_def maxParseBufSize_def maxInt32_def sw_ok_def)

lemma writeMessageSet_plain:
  assumes "writeMessageSet lib (BufferW w) ms c = Ok (w', n)"
    "c \<noteq> CompressionGzip" "c \<noteq> CompressionSnappy"
  shows "w' = BufferW (w @ messages_wire c ms) \<and> n = length (messages_wire c ms) \<and> list_all fits ms"
  using assms newSliceWriter_0 write_messages_Ok[of c ms _ w 0 w' n]
  by (auto simp: writeMessageSet.simps[of lib _ ms c] Let_def split: if_splits)

lemma writeMessageSet_Ok:
  assumes "writeMessageSet lib (BufferW w) ms c = Ok (w', n)"
  shows "w' = BufferW (w @ set_wire lib c ms) \<and> n = length (set_wire lib c ms) \<and>
    list_all fits ms \<and> (ms \<noteq> [] \<longrightarrow> list_all fits (packed lib c ms))"
proof (cases "ms = [] \<or> c \<noteq> CompressionGzip \<and> c \<noteq> CompressionSnappy")
  case True
  then show ?thesis
    using writeMessageSet_plain[OF assms] assms
    by (auto simp: set_wire_def packed_def writeMessageSet.simps[of lib _ "[]"])
next
  case False
  from newSliceWriter_0 obtain b where b: "newSliceWriter 0 = Inr b" "sw_ok b" by blast
  from False assms obtain w0 n0 where
    0: "writeMessageSet lib (BufferW []) ms CompressionNone = Ok (w0, n0)"
    by (subst (asm) (2) writeMessageSet.simps)
      (auto simp: obind_eq_Ok_conv Let_def split: if_splits)
  note plain = writeMessageSet_plain[OF 0, simplified]
  from plain have w0: "writer_bytes w0 = messages_wire CompressionNone ms"
    by (simp add: writer_bytes_def)
  have "write_messages c (packed lib c ms) b (BufferW w, 0) = Ok (w', n)"
    using assms False b(1) 0 w0
    by (subst (asm) writeMessageSet.simps) (auto simp: Let_def packed_def split: if_splits)
  from write_messages_Ok[OF this b(2)] plain False show ?thesis
    by (simp add: set_wire_def)
qed

text \<open>Messages that leave room for the thousand spare bytes of \<open>slicewriter.Reset\<close>.\<close>

definition roomy :: "Message \<Rightarrow> bool" where
  "roomy m \<longleftrightarrow> int (1026 + message_len m) \<le> maxInt32"

lemma write_messages_roomy:
  assumes "list_all roomy ms" "sw_ok b"
  shows "write_messages c ms b (BufferW w, t) =
    Ok (BufferW (w @ messages_wire c ms), t + length (messages_wire c ms))"
  using assms
proof (induction ms arbitrary: b w t)
  case (Cons m ms)
  from Cons.prems(1) obtain b' where "sw_Reset (int (26 + message_len m)) b = Ok b'"
    using sw_Reset_fits[of "26 + message_len m" b] by (auto simp: roomy_def)
  from encode_message_wire[OF this Cons.prems(2), of c] obtain b'' where
    "encode_message c m b = Ok (message_wire c m, b'')" "sw_ok b''" by blast
  with Cons show ?case by (simp add: add.assoc)
qed simp

lemma writeMessageSet_roomy:
  assumes "list_all roomy ms" "ms \<noteq> [] \<longrightarrow> list_all roomy (packed lib c ms)"
  shows "writeMessageSet lib (BufferW w) ms c =
    Ok (BufferW (w @ set_wire lib c ms), length (set_wire lib c ms))"
proof (cases "ms = []")
  case True
  then show ?thesis by (simp add: writeMessageSet.simps[of lib _ "[]"] set_wire_def)
next
  case False
  from newSliceWriter_0 obtain b where b: "newSliceWriter 0 = Inr b" "sw_ok b" by blast
  have plain: "writeMessageSet lib (BufferW []) ms CompressionNone =
      Ok (BufferW (messages_wire CompressionNone ms), length (messages_wire CompressionNone ms))"
    using False b write_messages_roomy[OF assms(1) b(2), of CompressionNone "[]" 0]
    by (subst writeMessageSet.simps) (simp add: Let_def)
  have "writeMessageSet lib (BufferW w) ms c = write_messages c (packed lib c ms) b (BufferW w, 0)"
    using False b(1) plain
    by (subst writeMessageSet.simps) (simp add: Let_def packed_def writer_bytes_def)
  with False assms(2) write_messages_roomy[OF _ b(2), of "packed lib c ms" c w 0] show ?thesis
    by (simp add: set_wire_def)
qed

section \<open>What is read back\<close>

text \<open>Topic, partition and tip offset are not written; the checksum is the one computed.\<close>

definition read_back :: "Message \<Rightarrow> Message" where
  "read_back m = zero_Message\<lparr>Key := norm_bytes (Key m), Value := norm_bytes (Value m),
     Offset := Offset m, Crc := ChecksumIEEE (message_payload CompressionNone m)\<rparr>"

lemma fits_sint:
  assumes "fits m"
  shows "sint (of_nat (14 + message_len m) :: int32) = int (14 + message_len m)"
  using assms by (intro sint_of_nat_32) (simp add: fits_def maxInt32_def)

lemma fits_bytes: "fits m \<Longrightarrow> wf_bytes (Key m) \<and> wf_bytes (Value m)"
  by (simp add: fits_def maxInt32_def wf_bytes_def message_len_def)

text \<open>Cutting the message out of the stream.\<close>

lemma readMessage_cut_out:
  assumes "length body = 14 + message_len m" "fits m"
  shows "readMessage lib \<lparr>rd_bytes = PutUint64 off @ PutUint32 (of_nat (14 + message_len m)) @ body @ rest,
      rd_end = e, rd_tee = None\<rparr> =
    (parse_message lib off (of_nat (14 + message_len m)) body,
     \<lparr>rd_bytes = rest, rd_end = e, rd_tee = None\<rparr>)"
  using assms(1) fits_sint[OF assms(2)] assms(2)
  by (simp add: readMessage_def NewDecoder_def DecodeInt64_def DecodeInt32_def decode_fixed_append
      allocParseBuf_def maxParseBufSize_def fits_def nat_add_distrib)

lemma mem_reader: "NewDecoder (NewReader b) = memdec b"
  by (simp add: NewDecoder_def NewReader_def)

text \<open>A message with the wrong checksum, and one with the right one.\<close>

lemma parse_message_bad_crc:
  "4 < sint sz \<Longrightarrow> crc \<noteq> ChecksumIEEE body \<Longrightarrow> parse_message lib off sz (PutUint32 crc @ body) = EndOfSet"
  by (simp add: parse_message_def mem_reader decodesD[OF decodes_prims(4)])

lemma parse_message_payload:
  assumes "fits m" "4 < sint sz"
  shows "parse_message lib off sz
      (PutUint32 (ChecksumIEEE (message_payload c m)) @ message_payload c m) =
    (if c AND 3 = CompressionNone
     then PlainMessage (zero_Message\<lparr>Key := norm_bytes (Key m), Value := norm_bytes (Value m),
       Offset := off, Crc := ChecksumIEEE (message_payload c m)\<rparr>)
     else if c AND 3 = CompressionGzip \<or> c AND 3 = CompressionSnappy
     then (case unpack lib (c AND 3) (bytes_of (norm_bytes (Value m))) of
             Ok decoded \<Rightarrow> NestedSet decoded | Err err \<Rightarrow> SetError err | _ \<Rightarrow> SetPanic)
     else NilSet)"
proof -
  have wf: "wf_bytes (Key m)" "wf_bytes (Value m)" using fits_bytes[OF assms(1)] by simp_all
  have key: "DecodeBytes (memdec (bytes_wire (Key m) @ bytes_wire (Value m))) =
      (norm_bytes (Key m), memdec (bytes_wire (Value m)))"
    by (rule decodesD[OF decodes_Bytes[OF wf(1)]])
  have val: "DecodeBytes (memdec (bytes_wire (Value m))) = (norm_bytes (Value m), memdec [])"
    using decodesD[OF decodes_Bytes[OF wf(2)], of "[]"] by simp
  have crc: "DecodeUint32 (memdec (PutUint32 (ChecksumIEEE (message_payload c m)) @ message_payload c m)) =
      (ChecksumIEEE (message_payload c m), memdec (message_payload c m))"
    by (rule decodesD[OF decodes_prims(4)])
  have magic: "DecodeInt8 (memdec (message_payload c m)) =
      (0, memdec ([c] @ bytes_wire (Key m) @ bytes_wire (Value m)))"
    using decodesD[OF decodes_prims(1)[of 0], of "[c] @ bytes_wire (Key m) @ bytes_wire (Value m)"]
    by (simp add: message_payload_def)
  have attr: "DecodeInt8 (memdec ([c] @ bytes_wire (Key m) @ bytes_wire (Value m))) =
      (c, memdec (bytes_wire (Key m) @ bytes_wire (Value m)))"
    by (rule decodesD[OF decodes_prims(1)])
  show ?thesis
    unfolding parse_message_def mem_reader crc prod.case Let_def magic attr
    using assms(2) by (simp add: key val)
qed

lemma readMessage_wire:
  assumes "fits m"
  shows "readMessage lib \<lparr>rd_bytes = message_wire CompressionNone m @ rest, rd_end = e, rd_tee = None\<rparr> =
    (PlainMessage (read_back m), \<lparr>rd_bytes = rest, rd_end = e, rd_tee = None\<rparr>)"
proof -
  let ?body = "PutUint32 (ChecksumIEEE (message_payload CompressionNone m)) @
    message_payload CompressionNone m"
  have "parse_message lib (Offset m) (of_nat (14 + message_len m)) ?body = PlainMessage (read_back m)"
    using parse_message_payload[OF assms, of "of_nat (14 + message_len m)" lib "Offset m" 0]
      fits_sint[OF assms] by (simp add: read_back_def)
  then show ?thesis
    using readMessage_cut_out[of ?body m lib "Offset m" rest e] assms
    by (simp add: message_wire_def)
qed

lemma readMessage_truncated:
  assumes "fits m" "proper_prefix p (message_wire c m)"
  shows "readMessage lib (NewReader p) = (EndOfSet, NewReader [])"
proof -
  let ?n = "14 + message_len m"
  let ?tail = "PutUint32 (ChecksumIEEE (message_payload c m)) @ message_payload c m"
  have "proper_prefix p (PutUint64 (Offset m) @ PutUint32 (of_nat ?n) @ ?tail)"
    using assms(2) by (simp add: message_wire_def)
  then consider (off) "length p < 8"
    | (sz) q where "p = PutUint64 (Offset m) @ q" "length q < 4"
    | (body) q where "p = PutUint64 (Offset m) @ PutUint32 (of_nat ?n) @ q" "length q < ?n"
    by (elim proper_prefix_appendE) (auto dest!: proper_prefix_length)
  then show ?thesis
  proof cases
    case off
    then show ?thesis
      by (simp add: readMessage_def NewDecoder_def DecodeInt64_def decode_fixed_def ReadFull_short NewReader_def)
  next
    case sz
    then show ?thesis
      by (simp add: readMessage_def NewDecoder_def decodesD[OF decodes_prims(5)] DecodeInt32_def
          decode_fixed_def ReadFull_short NewReader_def)
  next
    case body
    then show ?thesis
      using fits_sint[OF assms(1)] assms(1)
      by (simp add: readMessage_def NewDecoder_def decodesD[OF decodes_prims(5)] decodesD[OF decodes_prims(3)]
          allocParseBuf_def maxParseBufSize_def fits_def nat_add_distrib ReadFull_short NewReader_def)
  qed
qed

lemma readMessage_empty: "readMessage lib (NewReader []) = (EndOfSet, NewReader [])"
  by (simp add: readMessage_def NewDecoder_def DecodeInt64_def decode_fixed_def ReadFull_short NewReader_def)

text \<open>One round of the loop, by what it came to.\<close>

lemma read_set_plain_step:
  "readMessage lib r = (PlainMessage m, r') \<Longrightarrow>
    read_set lib depth r found = read_set lib depth r' (found @ [m])"
  by (subst read_set.simps) simp

lemma read_set_nested_step:
  assumes "readMessage lib r = (NestedSet decoded, r')"
    "\<not> sint (of_nat (length decoded) :: int32) < 0"
  shows "read_set lib (Suc depth) r found =
    (case fst (read_set lib depth (NewReader decoded) []) of
       Ok msgs \<Rightarrow> read_set lib (Suc depth) r' (found @ msgs)
     | Err err \<Rightarrow> (Err err, r') | Panic \<Rightarrow> (Panic, r') | NoFuel \<Rightarrow> (NoFuel, r'))"
  using assms by (subst read_set.simps) (simp add: Let_def)

lemma read_set_messages:
  assumes "list_all fits ms"
  shows "read_set lib depth (NewReader (messages_wire CompressionNone ms @ rest)) found =
    read_set lib depth (NewReader rest) (found @ map read_back ms)"
  using assms
proof (induction ms arbitrary: found)
  case (Cons m ms)
  have "read_set lib depth (NewReader (messages_wire CompressionNone (m # ms) @ rest)) found =
      read_set lib depth (NewReader (messages_wire CompressionNone ms @ rest)) (found @ [read_back m])"
    using Cons.prems readMessage_wire[of m lib _ EOF]
    by (intro read_set_plain_step) (simp add: NewReader_def)
  with Cons show ?case by simp
qed simp

lemma read_set_end:
  "readMessage lib r = (EndOfSet, r') \<Longrightarrow> read_set lib depth r found = (Ok found, r')"
  by (subst read_set.simps) simp

text \<open>The round trip, uncompressed: every prefix of the bytes gives a prefix of the messages.\<close>

lemma read_set_prefix:
  assumes "list_all fits ms"
  shows "\<exists>k \<le> length ms. length (messages_wire CompressionNone (take k ms)) \<le> n \<and>
    (k < length ms \<longrightarrow> n < length (messages_wire CompressionNone (take (Suc k) ms))) \<and>
    read_set lib depth (NewReader (take n (messages_wire CompressionNone ms))) found =
      (Ok (found @ map read_back (take k ms)), NewReader [])"
  using assms
proof (induction ms arbitrary: n found)
  case Nil
  then show ?case by (simp add: read_set_end readMessage_empty)
next
  case (Cons m ms)
  let ?w = "message_wire CompressionNone m"
  from Cons.prems have m: "fits m" and ms: "list_all fits ms" by simp_all
  show ?case
  proof (cases "n < length ?w")
    case True
    then have "proper_prefix (take n ?w) ?w" by (auto simp: proper_prefix_def)
    from readMessage_truncated[OF m this] True show ?thesis
      by (intro exI[of _ 0]) (simp add: read_set_end)
  next
    case False
    let ?n = "n - length ?w"
    from Cons.IH[OF ms, of ?n "found @ [read_back m]"] obtain k where k: "k \<le> length ms"
      "length (messages_wire CompressionNone (take k ms)) \<le> ?n"
      "k < length ms \<longrightarrow> ?n < length (messages_wire CompressionNone (take (Suc k) ms))"
      "read_set lib depth (NewReader (take ?n (messages_wire CompressionNone ms))) (found @ [read_back m]) =
        (Ok ((found @ [read_back m]) @ map read_back (take k ms)), NewReader [])"
      by blast
    have "read_set lib depth (NewReader (take n (messages_wire CompressionNone (m # ms)))) found =
        read_set lib depth (NewReader (take ?n (messages_wire CompressionNone ms))) (found @ [read_back m])"
      using False read_set_messages[of "[m]" lib depth "take ?n (messages_wire CompressionNone ms)" found] m
      by simp
    with k False show ?thesis by (intro exI[of _ "Suc k"]) auto
  qed
qed

text \<open>A message whose checksum does not match ends the set.\<close>

lemma read_set_bad_crc:
  assumes "list_all fits ms" "fits m" "length body = 10 + message_len m" "crc \<noteq> ChecksumIEEE body"
  shows "read_set lib depth (NewReader (messages_wire CompressionNone ms @
      PutUint64 off @ PutUint32 (of_nat (14 + message_len m)) @ PutUint32 crc @ body @ rest)) found =
    (Ok (found @ map read_back ms), NewReader rest)"
proof -
  let ?b = "PutUint32 crc @ body"
  have "readMessage lib (NewReader (PutUint64 off @ PutUint32 (of_nat (14 + message_len m)) @ ?b @ rest)) =
      (parse_message lib off (of_nat (14 + message_len m)) ?b, NewReader rest)"
    unfolding NewReader_def by (rule readMessage_cut_out) (use assms(2,3) in simp_all)
  moreover have "parse_message lib off (of_nat (14 + message_len m)) ?b = EndOfSet"
    by (rule parse_message_bad_crc) (use assms(4) fits_sint[OF assms(2)] in simp_all)
  ultimately show ?thesis
    by (simp add: read_set_messages[OF assms(1)] read_set_end)
qed

text \<open>A compressed set is one message around the others.\<close>

lemma unpack_packed:
  assumes "codec_laws lib"
  shows "unpack lib CompressionGzip (gzip_compress lib b) = Ok b"
    "unpack lib CompressionSnappy (snappy_Encode lib b) = Ok b"
  using codec_lawsD[OF assms] snappyDecode_plain[OF assms] by (simp_all add: unpack_def)

lemma bytes_of_norm [simp]: "bytes_of (norm_bytes b) = bytes_of b"
  by (cases b) (auto simp: norm_bytes_def)

lemma readMessage_packed:
  assumes "fits m" "c = CompressionGzip \<or> c = CompressionSnappy"
    "unpack lib c (bytes_of (Value m)) = Ok decoded"
  shows "readMessage lib (NewReader (message_wire c m @ rest)) = (NestedSet decoded, NewReader rest)"
proof -
  let ?body = "PutUint32 (ChecksumIEEE (message_payload c m)) @ message_payload c m"
  have c: "c AND 3 = c" using assms(2) by auto
  have "parse_message lib (Offset m) (of_nat (14 + message_len m)) ?body = NestedSet decoded"
    using parse_message_payload[OF assms(1), of "of_nat (14 + message_len m)" lib "Offset m" c]
      fits_sint[OF assms(1)] assms(2,3) by (auto simp: c)
  then show ?thesis
    using readMessage_cut_out[of ?body m lib "Offset m" rest EOF] assms(1)
    by (simp add: message_wire_def NewReader_def)
qed

lemma read_set_plain:
  "list_all fits ms \<Longrightarrow> read_set lib depth (NewReader (messages_wire CompressionNone ms)) found =
    (Ok (found @ map read_back ms), NewReader [])"
  using read_set_messages[of ms lib depth "[]" found] by (simp add: read_set_end readMessage_empty)

lemma packed_unpacks:
  assumes "codec_laws lib" "c = CompressionGzip \<or> c = CompressionSnappy"
  obtains m where "packed lib c ms = [m]" "Offset m = Offset (last ms)"
    "unpack lib c (bytes_of (Value m)) = Ok (messages_wire CompressionNone ms)"
  using assms(2) unpack_packed[OF assms(1)] by (auto simp: packed_def)

lemma read_set_written:
  assumes "codec_laws lib" "c \<in> {CompressionNone, CompressionGzip, CompressionSnappy}"
    "writeMessageSet lib (BufferW w) ms c = Ok (w', n)"
    "length (messages_wire CompressionNone ms) < 2147483648" "0 < depth"
  shows "read_set lib depth (NewReader (set_wire lib c ms)) [] = (Ok (map read_back ms), NewReader [])"
proof (cases "ms = [] \<or> c = CompressionNone")
  case True
  then have "set_wire lib c ms = messages_wire CompressionNone ms"
    by (auto simp: set_wire_def packed_def)
  with writeMessageSet_Ok[OF assms(3)] show ?thesis by (simp add: read_set_plain)
next
  case False
  with assms(2) have c: "c = CompressionGzip \<or> c = CompressionSnappy" by auto
  from packed_unpacks[OF assms(1) c] obtain m where m: "packed lib c ms = [m]"
    "unpack lib c (bytes_of (Value m)) = Ok (messages_wire CompressionNone ms)" by metis
  note ok = writeMessageSet_Ok[OF assms(3)]
  from ok False m have fits: "fits m" "list_all fits ms" by simp_all
  have wire: "set_wire lib c ms = message_wire c m @ []" using False m by (simp add: set_wire_def)
  from assms(5) obtain d where d: "depth = Suc d" by (cases depth) auto
  show ?thesis
    unfolding wire d
    using sint_of_nat_32[OF assms(4)]
    by (subst read_set_nested_step[OF readMessage_packed[OF fits(1) c m(2)]])
      (simp_all add: read_set_plain[OF fits(2)] read_set_end readMessage_empty)
qed

text \<open>Giving more depth than needed changes nothing.\<close>

lemma read_set_depth:
  assumes "fst (read_set lib depth r found) \<noteq> NoFuel" "depth \<le> depth'"
  shows "read_set lib depth' r found = read_set lib depth r found"
  using assms
proof (induction lib depth r found arbitrary: depth' rule: read_set.induct)
  case (1 lib depth r found)
  obtain ent r' where e: "readMessage lib r = (ent, r')" by fastforce
  show ?case
  proof (cases ent)
    case (PlainMessage m)
    with 1(1)[OF e[symmetric] PlainMessage, of depth'] 1(4,5) e show ?thesis
      by (simp add: read_set_plain_step)
  next
    case (NestedSet decoded)
    let ?sz = "of_nat (length decoded) :: int32"
    show ?thesis
    proof (cases "sint ?sz < 0")
      case True
      then show ?thesis by (subst (1 2) read_set.simps) (simp add: e NestedSet Let_def)
    next
      case False
      with 1(4) obtain d where d: "depth = Suc d"
        by (cases depth) (auto simp: read_set.simps[of lib 0] e NestedSet Let_def)
      with 1(5) obtain d' where d': "depth' = Suc d'" "d \<le> d'" by (cases depth') auto
      note step = read_set_nested_step[OF e[unfolded NestedSet] False, of _ found]
      let ?inner = "fst (read_set lib d (NewReader decoded) [])"
      have inner: "?inner \<noteq> NoFuel" using 1(4) by (auto simp: d step)
      have same: "read_set lib d' (NewReader decoded) [] = read_set lib d (NewReader decoded) []"
        by (rule 1(2)[OF e[symmetric] NestedSet refl False d inner d'(2)])
      show ?thesis
      proof (cases ?inner)
        case (Ok msgs)
        then have "fst (read_set lib depth r' (found @ msgs)) \<noteq> NoFuel"
          using 1(4) by (simp add: d step)
        from 1(3)[OF e[symmetric] NestedSet refl False d Ok this 1(5)] Ok same show ?thesis
          by (simp add: d d' step)
      qed (simp_all add: d d' step same)
    qed
  qed (subst (1 2) read_set.simps, simp add: e)+
qed

text \<open>In the simplified mode the set is read over.\<close>

lemma readMessageSet_simplified:
  assumes "SimplifiedMessageSetParsing conf" "length bs < 2147483648"
  shows "readMessageSet lib conf depth \<lparr>rd_bytes = bs @ rest, rd_end = e, rd_tee = None\<rparr>
      (of_nat (length bs)) = (Ok [], \<lparr>rd_bytes = rest, rd_end = e, rd_tee = None\<rparr>)"
  using assms sint_of_nat_32[OF assms(2)]
  by (simp add: readMessageSet_def allocParseBuf_def maxParseBufSize_def maxInt32_def)

lemma readMessageSet_loop:
  assumes "\<not> SimplifiedMessageSetParsing conf" "n < 2147483648"
  shows "readMessageSet lib conf depth r (of_nat n) = read_set lib depth r []"
  using assms sint_of_nat_32[OF assms(2)]
  by (simp add: readMessageSet_def maxParseBufSize_def maxInt32_def)

section \<open>Properties\<close>

text \<open>The bytes a list of messages takes.\<close>

definition set_size :: "Message list \<Rightarrow> nat" where
  "set_size ms = sum_list (map (\<lambda>m. 26 + message_len m) ms)"

lemma length_messages_wire: "length (messages_wire c ms) = set_size ms"
  by (induction ms) (simp_all add: set_size_def)

lemma set_wire_bound:
  assumes "writeMessageSet lib (BufferW w) ms c = Ok (w', n)"
    "c \<in> {CompressionNone, CompressionGzip, CompressionSnappy}" "set_size ms < 2147483648"
  shows "n < 2147483648"
proof (cases "ms = [] \<or> c = CompressionNone")
  case True
  with writeMessageSet_Ok[OF assms(1)] assms(3) show ?thesis
    by (auto simp: set_wire_def packed_def length_messages_wire)
next
  case False
  with assms(2) obtain m where "packed lib c ms = [m]" by (auto simp: packed_def)
  with False writeMessageSet_Ok[OF assms(1)] show ?thesis
    by (auto simp: set_wire_def fits_def maxInt32_def)
qed

definition full_parsing :: ParserConfig where
  "full_parsing = \<lparr>SimplifiedMessageSetParsing = False\<rparr>"

definition example_messages :: "Message list" where
  "example_messages =
     [zero_Message\<lparr>Key := Some [1], Value := Some [2, 3], Offset := 5\<rparr>,
      zero_Message\<lparr>Value := Some [4], Offset := 6\<rparr>]"

lemma example_messages_written:
  "\<exists>b. writeMessageSet lib (BufferW []) example_messages CompressionNone = Ok (BufferW b, 56)"
proof -
  have "list_all roomy example_messages"
    by (simp add: example_messages_def roomy_def zero_Message_def message_len_def maxInt32_def)
  then show ?thesis
    using writeMessageSet_roomy[of example_messages lib CompressionNone "[]"]
    by (simp add: packed_def set_wire_def length_messages_wire)
      (simp add: set_size_def example_messages_def zero_Message_def message_len_def)
qed

text \<open>
  C1. What \<open>writeMessageSet\<close> wrote, plain or compressed, \<open>readMessageSet\<close> reads back: the same
  messages in the same order, each with the checksum \<open>ComputeCrc\<close> gives, and nothing is left over.
\<close>

lemma message_set_round_trip:
  assumes "codec_laws lib" "c \<in> {CompressionNone, CompressionGzip, CompressionSnappy}"
    "writeMessageSet lib (BufferW w) ms c = Ok (w', n)" "set_size ms < 2147483648"
    "\<not> SimplifiedMessageSetParsing conf" "0 < depth"
  shows "\<exists>b. w' = BufferW (w @ b) \<and> n = length b \<and>
    readMessageSet lib conf depth (NewReader b) (of_nat n) = (Ok (map read_back ms), NewReader []) \<and>
    list_all (\<lambda>m. ComputeCrc m CompressionNone = Ok (Crc (read_back m))) ms"
proof -
  note w = writeMessageSet_Ok[OF assms(3)]
  have "read_set lib depth (NewReader (set_wire lib c ms)) [] = (Ok (map read_back ms), NewReader [])"
    using read_set_written[OF assms(1,2,3) _ assms(6)] assms(4) by (simp add: length_messages_wire)
  then have "readMessageSet lib conf depth (NewReader (set_wire lib c ms)) (of_nat n) =
      (Ok (map read_back ms), NewReader [])"
    using readMessageSet_loop[OF assms(5) set_wire_bound[OF assms(3,2,4)]] by simp
  moreover have "list_all (\<lambda>m. ComputeCrc m CompressionNone = Ok (Crc (read_back m))) ms"
    by (simp add: list_all_iff ComputeCrc_payload read_back_def)
  ultimately show ?thesis using w by blast
qed

lemma message_set_round_trip_witness:
  "\<exists>b. writeMessageSet example_codecs (BufferW []) example_messages CompressionNone = Ok (BufferW b, 56) \<and>
    readMessageSet example_codecs full_parsing 1 (NewReader b) 56 =
      (Ok (map read_back example_messages), NewReader [])"
proof -
  obtain b where b: "writeMessageSet example_codecs (BufferW []) example_messages CompressionNone =
      Ok (BufferW b, 56)"
    using example_messages_written by blast
  from message_set_round_trip[OF example_codec_laws _ b, of full_parsing 1] b show ?thesis
    by (simp add: set_size_def example_messages_def zero_Message_def message_len_def full_parsing_def)
qed

text \<open>
  C8. A message set that was cut off is read up to its last complete message: exactly the
  messages whose bytes are all there, without an error.
\<close>

lemma message_set_truncated:
  assumes "writeMessageSet lib (BufferW []) ms CompressionNone = Ok (BufferW b, n)"
    "set_size ms < 2147483648" "\<not> SimplifiedMessageSetParsing conf"
  shows "\<exists>k \<le> length ms. set_size (take k ms) \<le> i \<and>
    (k = length ms \<or> i < set_size (take (Suc k) ms)) \<and>
    readMessageSet lib conf depth (NewReader (take i b)) (of_nat n) =
      (Ok (map read_back (take k ms)), NewReader [])"
proof -
  have b: "b = messages_wire CompressionNone ms" "n = set_size ms" "list_all fits ms"
    using writeMessageSet_plain[OF assms(1)] by (simp_all add: length_messages_wire)
  from read_set_prefix[OF b(3), of i lib depth "[]"] obtain k where "k \<le> length ms"
    "set_size (take k ms) \<le> i" "k < length ms \<longrightarrow> i < set_size (take (Suc k) ms)"
    "read_set lib depth (NewReader (take i b)) [] = (Ok (map read_back (take k ms)), NewReader [])"
    by (auto simp: b(1) length_messages_wire)
  then show ?thesis
    using readMessageSet_loop[OF assms(3,2)] b(2) by (intro exI[of _ k]) auto
qed

lemma message_set_truncated_witness:
  "\<exists>b k. writeMessageSet example_codecs (BufferW []) example_messages CompressionNone = Ok (BufferW b, 56) \<and>
    set_size (take k example_messages) \<le> 40 \<and>
    readMessageSet example_codecs full_parsing 1 (NewReader (take 40 b)) 56 =
      (Ok (map read_back (take k example_messages)), NewReader [])"
proof -
  obtain b where b: "writeMessageSet example_codecs (BufferW []) example_messages CompressionNone =
      Ok (BufferW b, 56)"
    using example_messages_written by blast
  have "set_size example_messages < 2147483648" "\<not> SimplifiedMessageSetParsing full_parsing"
    by (simp_all add: set_size_def example_messages_def zero_Message_def message_len_def full_parsing_def)
  from message_set_truncated[OF b this, of 40 1] b show ?thesis by auto
qed

text \<open>
  C7. Changing any one byte under the checksum of a message makes the reader stop before it:
  the messages in front are returned, that message and the ones behind it are not.
\<close>

lemma message_set_corrupted:
  assumes "writeMessageSet lib (BufferW []) (ms @ m # ms') CompressionNone = Ok (BufferW b, n)"
    "set_size (ms @ m # ms') < 2147483648" "\<not> SimplifiedMessageSetParsing conf"
    "set_size ms + 16 \<le> i" "i < set_size (ms @ [m])" "x \<noteq> b ! i"
  shows "fst (readMessageSet lib conf depth (NewReader (b[i := x])) (of_nat n)) = Ok (map read_back ms)"
proof -
  have b: "b = messages_wire CompressionNone (ms @ m # ms')" "n = set_size (ms @ m # ms')"
    "list_all fits ms" "fits m"
    using writeMessageSet_plain[OF assms(1)] by (simp_all flip: length_messages_wire[of CompressionNone])
  let ?p = "message_payload CompressionNone m"
  let ?head = "messages_wire CompressionNone ms @ PutUint64 (Offset m) @
    PutUint32 (of_nat (14 + message_len m)) @ PutUint32 (ChecksumIEEE ?p)"
  let ?tail = "messages_wire CompressionNone ms'"
  define j where "j = i - (set_size ms + 16)"
  have len: "length ?head = set_size ms + 16" by (simp add: length_messages_wire)
  have j: "j < length ?p" "i = length ?head + j"
    using assms(4,5) unfolding j_def len by (simp_all add: set_size_def)
  have bw: "b = ?head @ ?p @ ?tail" by (simp add: b(1) message_wire_def)
  have upd: "b[i := x] = ?head @ ?p[j := x] @ ?tail"
    using j unfolding bw by (simp add: list_update_append)
  have "b ! i = ?p ! j" using j unfolding bw by (simp add: nth_append)
  then have "ChecksumIEEE ?p \<noteq> ChecksumIEEE (?p[j := x])"
    using crc32_one_byte[OF poly_top(1), of "?p ! j" x "take j ?p" "drop (Suc j) ?p"] assms(6) j(1)
    by (simp add: ChecksumIEEE_def id_take_nth_drop[symmetric] upd_conv_take_nth_drop)
  from read_set_bad_crc[OF b(3,4) _ this, of lib depth "Offset m" ?tail "[]"]
  show ?thesis
    using readMessageSet_loop[OF assms(3,2)] b(2) by (simp add: upd)
qed

lemma message_set_corrupted_witness:
  "\<exists>b. writeMessageSet example_codecs (BufferW []) example_messages CompressionNone = Ok (BufferW b, 56) \<and>
    fst (readMessageSet example_codecs full_parsing 1 (NewReader (b[55 := b ! 55 + 1])) 56) =
      Ok (map read_back (take 1 example_messages))"
proof -
  obtain b where b: "writeMessageSet example_codecs (BufferW []) example_messages CompressionNone =
      Ok (BufferW b, 56)"
    using example_messages_written by blast
  have split: "example_messages = take 1 example_messages @ (example_messages ! 1) # []"
    by (simp add: example_messages_def)
  have "fst (readMessageSet example_codecs full_parsing 1 (NewReader (b[55 := b ! 55 + 1])) (of_nat 56)) =
      Ok (map read_back (take 1 example_messages))"
    by (rule message_set_corrupted[where m = "example_messages ! 1" and ms' = "[]"])
      (use b split in \<open>simp_all add: set_size_def example_messages_def zero_Message_def message_len_def
        full_parsing_def\<close>)
  with b show ?thesis by auto
qed

text \<open>
  The bound on the nesting of compressed sets is only a bound: once a result is
  reached, every larger bound gives the same result and leaves the reader at the same place.
\<close>

lemma message_set_depth:
  assumes "fst (readMessageSet lib conf depth r sz) \<noteq> NoFuel" "depth \<le> depth'"
  shows "readMessageSet lib conf depth' r sz = readMessageSet lib conf depth r sz"
  using assms read_set_depth[of lib depth r "[]" depth'] by (auto simp: readMessageSet_def split: if_splits)

end
