(* ===== verification/Produce.thy ===== *)
theory Produce
  imports MessageSet
begin

text \<open>
  \<open>ProduceReq\<close> and \<open>ProduceResp\<close> of \<open>v2/proto/messages.go\<close>.  The request carries one message set
  per partition, written in place with its size patched in afterwards.
\<close>

section \<open>Message sets inside messages\<close>

text \<open>
  \<open>i := len(buf); enc.EncodeInt32(0); n, err := writeMessageSet(&buf, messages, compression);
  if err != nil { return nil, err }; binary.BigEndian.PutUint32(buf[i:i+4], uint32(n))\<close>,
  where the encoder \<open>enc\<close> writes to the same \<open>buf\<close>.
\<close>

definition put_message_set :: "codecs \<Rightarrow> int8 \<Rightarrow> Message list \<Rightarrow> (error, encoder) stmt" where
  "put_message_set lib compression messages e =
     (let i = length (writer_bytes (e_w e))
      in obind (EncodeInt32 0 e) (\<lambda>e.
         obind (writeMessageSet lib (e_w e) messages compression) (\<lambda>(w, n).
         obind (put_at i (PutUint32 (of_nat n)) (writer_bytes w)) (\<lambda>b.
           Ok (e\<lparr>e_w := BufferW b\<rparr>)))))"

definition wf_messages :: "codecs \<Rightarrow> int8 \<Rightarrow> Message list \<Rightarrow> bool" where
  "wf_messages lib c ms \<longleftrightarrow> list_all roomy ms \<and> (ms \<noteq> [] \<longrightarrow> list_all roomy (packed lib c ms)) \<and>
     length (set_wire lib c ms) < 2147483648 \<and> length (messages_wire CompressionNone ms) < 2147483648"

definition sized_set :: "codecs \<Rightarrow> int8 \<Rightarrow> Message list \<Rightarrow> byte list" where
  "sized_set lib c ms = PutUint32 (of_nat (length (set_wire lib c ms))) @ set_wire lib c ms"

lemma emits_message_set:
  assumes "wf_messages lib c ms"
  shows "emits (put_message_set lib c ms) (sized_set lib c ms)"
proof (rule emitsI)
  fix b
  have 1: "EncodeInt32 0 (bufenc b) = Ok (bufenc (b @ PutUint32 0))"
    using emits_prims(3)[of 0] by (simp add: emits_def)
  have 2: "writeMessageSet lib (BufferW (b @ PutUint32 0)) ms c =
      Ok (BufferW ((b @ PutUint32 0) @ set_wire lib c ms), length (set_wire lib c ms))"
    using assms by (intro writeMessageSet_roomy) (simp_all add: wf_messages_def)
  show "put_message_set lib c ms (bufenc b) = Ok (bufenc (b @ sized_set lib c ms))"
    by (simp add: put_message_set_def 1 2 put_at_def writer_bytes_def sized_set_def Let_def)
qed

section \<open>ProduceReq\<close>

record ProduceReqPartition =
  pqp_ID :: int32
  pqp_Messages :: "Message list"

record ProduceReqTopic =
  pqt_Name :: gostring
  pqt_Partitions :: "ProduceReqPartition list"

record ProduceReq = RequestHeader +
  pq_Compression :: int8
  pq_TransactionalID :: gostring
  pq_RequiredAcks :: int16
  pq_Timeout :: int64
  pq_Topics :: "ProduceReqTopic list"

definition zero_ProduceReqPartition :: ProduceReqPartition where
  "zero_ProduceReqPartition = \<lparr>pqp_ID = 0, pqp_Messages = []\<rparr>"

definition zero_ProduceReqTopic :: ProduceReqTopic where
  "zero_ProduceReqTopic = \<lparr>pqt_Name = [], pqt_Partitions = []\<rparr>"

definition zero_ProduceReq :: ProduceReq where
  "zero_ProduceReq = \<lparr>version = 0, correlationID = 0, ClientID = [], pq_Compression = 0,
     pq_TransactionalID = [], pq_RequiredAcks = 0, pq_Timeout = 0, pq_Topics = []\<rparr>"

text \<open>
  \<open>msgSetSize := dec.DecodeInt32(); if dec.Err() != nil ...;
  if part.Messages, err = readMessageSet(r, msgSetSize); err != nil { return nil, err }\<close>: the
  decoder and \<open>readMessageSet\<close> read from the same \<open>r\<close>.
\<close>

definition read_messages ::
  "codecs \<Rightarrow> ParserConfig \<Rightarrow> nat \<Rightarrow> (error, decoder \<times> ProduceReqPartition) stmt"
where
  "read_messages lib conf depth s =
     (let (msgSetSize, d) = DecodeInt32 (fst s)
      in case d_err d of
           Some err \<Rightarrow> Err err
         | None \<Rightarrow>
             (case readMessageSet lib conf depth (d_r d) msgSetSize of
                (Ok msgs, r) \<Rightarrow> Ok (d\<lparr>d_r := r\<rparr>, (snd s)\<lparr>pqp_Messages := msgs\<rparr>)
              | (Err err, r) \<Rightarrow> Err err
              | (Panic, r) \<Rightarrow> Panic
              | (NoFuel, r) \<Rightarrow> NoFuel))"

definition read_ProduceReqPartition ::
  "codecs \<Rightarrow> ParserConfig \<Rightarrow> nat \<Rightarrow> (error, decoder \<times> ProduceReqPartition) stmt list"
where
  "read_ProduceReqPartition lib conf depth =
     [read_field DecodeInt32 (\<lambda>x p. p\<lparr>pqp_ID := x\<rparr>),
      check_err,
      read_messages lib conf depth]"

definition read_ProduceReqTopic ::
  "codecs \<Rightarrow> ParserConfig \<Rightarrow> nat \<Rightarrow> (error, decoder \<times> ProduceReqTopic) stmt list"
where
  "read_ProduceReqTopic lib conf depth =
     [read_field DecodeString (\<lambda>x t. t\<lparr>pqt_Name := x\<rparr>),
      read_array (struct (read_ProduceReqPartition lib conf depth) zero_ProduceReqPartition)
        (\<lambda>x t. t\<lparr>pqt_Partitions := x\<rparr>)]"

text \<open>The fields between the header and the topics.\<close>

definition read_ProduceReq_fields :: "(error, decoder \<times> ProduceReq) stmt list" where
  "read_ProduceReq_fields =
     [if_do (\<lambda>(d, r). KafkaV3 \<le>s version r)
        [read_field DecodeString (\<lambda>x r. r\<lparr>pq_TransactionalID := x\<rparr>)],
      read_field DecodeInt16 (\<lambda>x r. r\<lparr>pq_RequiredAcks := x\<rparr>),
      read_field DecodeInt32 (\<lambda>x r. r\<lparr>pq_Timeout := scast x * of_int Millisecond\<rparr>)]"

definition ReadProduceReq :: "codecs \<Rightarrow> ParserConfig \<Rightarrow> nat \<Rightarrow> reader \<Rightarrow> ProduceReq res" where
  "ReadProduceReq lib conf depth = run_reader (decodeHeader @ read_ProduceReq_fields @
     [read_array (struct (read_ProduceReqTopic lib conf depth) zero_ProduceReqTopic)
        (\<lambda>x r. r\<lparr>pq_Topics := x\<rparr>)])
     zero_ProduceReq"

definition write_ProduceReqPartition ::
  "codecs \<Rightarrow> int8 \<Rightarrow> ProduceReqPartition \<Rightarrow> (error, encoder) stmt list"
where
  "write_ProduceReqPartition lib compression p =
     [EncodeInt32 (pqp_ID p),
      put_message_set lib compression (pqp_Messages p)]"

definition write_ProduceReqTopic ::
  "codecs \<Rightarrow> int8 \<Rightarrow> ProduceReqTopic \<Rightarrow> (error, encoder) stmt list"
where
  "write_ProduceReqTopic lib compression t =
     [EncodeString (pqt_Name t),
      write_array (write_ProduceReqPartition lib compression) (pqt_Partitions t)]"

definition write_ProduceReq_fields :: "ProduceReq \<Rightarrow> (error, encoder) stmt list" where
  "write_ProduceReq_fields r =
     [if_do (\<lambda>_. KafkaV3 \<le>s version r) [EncodeString (pq_TransactionalID r)],
      EncodeInt16 (pq_RequiredAcks r),
      EncodeInt32 (ucast (quot64 (pq_Timeout r) Millisecond))]"

definition ProduceReq_Bytes :: "codecs \<Rightarrow> ProduceReq \<Rightarrow> byte list res" where
  "ProduceReq_Bytes lib r = run_bytes (encodeHeader ProduceReqKind r @ write_ProduceReq_fields r @
     [write_array (write_ProduceReqTopic lib (pq_Compression r)) (pq_Topics r)])"

section \<open>ProduceResp\<close>

record ProduceRespPartition =
  prp_ID :: int32
  prp_Err :: goerror
  prp_Offset :: int64
  prp_LogAppendTime :: int64

record ProduceRespTopic =
  prt_Name :: gostring
  prt_Partitions :: "ProduceRespPartition list"

record ProduceResp =
  pr_Version :: int16
  pr_CorrelationID :: int32
  pr_Topics :: "ProduceRespTopic list"
  pr_ThrottleTime :: int64

definition zero_ProduceRespPartition :: ProduceRespPartition where
  "zero_ProduceRespPartition =
     \<lparr>prp_ID = 0, prp_Err = None, prp_Offset = 0, prp_LogAppendTime = 0\<rparr>"

definition zero_ProduceRespTopic :: ProduceRespTopic where
  "zero_ProduceRespTopic = \<lparr>prt_Name = [], prt_Partitions = []\<rparr>"

definition zero_ProduceResp :: ProduceResp where
  "zero_ProduceResp =
     \<lparr>pr_Version = 0, pr_CorrelationID = 0, pr_Topics = [], pr_ThrottleTime = 0\<rparr>"

definition write_ProduceRespPartition ::
  "int16 \<Rightarrow> ProduceRespPartition \<Rightarrow> (error, encoder) stmt list"
where
  "write_ProduceRespPartition v part =
     [EncodeInt32 (prp_ID part),
      EncodeError (prp_Err part),
      EncodeInt64 (prp_Offset part),
      if_do (\<lambda>_. KafkaV2 \<le>s v) [EncodeInt64 (prp_LogAppendTime part)]]"

definition write_ProduceRespTopic :: "int16 \<Rightarrow> ProduceRespTopic \<Rightarrow> (error, encoder) stmt list" where
  "write_ProduceRespTopic v topic =
     [EncodeString (prt_Name topic),
      write_array (write_ProduceRespPartition v) (prt_Partitions topic)]"

definition ProduceResp_Bytes :: "ProduceResp \<Rightarrow> byte list res" where
  "ProduceResp_Bytes r = run_bytes
     [EncodeInt32 0,
      EncodeInt32 (pr_CorrelationID r),
      write_array (write_ProduceRespTopic (pr_Version r)) (pr_Topics r),
      if_do (\<lambda>_. KafkaV1 \<le>s pr_Version r) [EncodeDuration (pr_ThrottleTime r)]]"

definition read_ProduceRespPartition ::
  "int16 \<Rightarrow> (error, decoder \<times> ProduceRespPartition) stmt list"
where
  "read_ProduceRespPartition v =
     [read_field DecodeInt32 (\<lambda>x p. p\<lparr>prp_ID := x\<rparr>),
      read_error (\<lambda>x p. p\<lparr>prp_Err := x\<rparr>),
      read_field DecodeInt64 (\<lambda>x p. p\<lparr>prp_Offset := x\<rparr>),
      if_do (\<lambda>_. KafkaV2 \<le>s v) [read_field DecodeInt64 (\<lambda>x p. p\<lparr>prp_LogAppendTime := x\<rparr>)]]"

definition read_ProduceRespTopic :: "int16 \<Rightarrow> (error, decoder \<times> ProduceRespTopic) stmt list" where
  "read_ProduceRespTopic v =
     [read_field DecodeString (\<lambda>x t. t\<lparr>prt_Name := x\<rparr>),
      read_array (struct (read_ProduceRespPartition v) zero_ProduceRespPartition)
        (\<lambda>x t. t\<lparr>prt_Partitions := x\<rparr>)]"

definition ReadVersionedProduceResp :: "int16 \<Rightarrow> reader \<Rightarrow> ProduceResp res" where
  "ReadVersionedProduceResp v = run_reader
     [skip_field DecodeInt32,
      read_field DecodeInt32 (\<lambda>x r. r\<lparr>pr_CorrelationID := x\<rparr>),
      read_array (struct (read_ProduceRespTopic v) zero_ProduceRespTopic)
        (\<lambda>x r. r\<lparr>pr_Topics := x\<rparr>),
      if_do (\<lambda>_. KafkaV1 \<le>s v) [read_field DecodeDuration32 (\<lambda>x r. r\<lparr>pr_ThrottleTime := x\<rparr>)]]
     (zero_ProduceResp\<lparr>pr_Version := v\<rparr>)"

definition ReadProduceResp :: "reader \<Rightarrow> ProduceResp res" where
  "ReadProduceResp = ReadVersionedProduceResp KafkaV0"

section \<open>Round trip of responses\<close>

definition wf_ProduceRespPartition :: "ProduceRespPartition \<Rightarrow> bool" where
  "wf_ProduceRespPartition p \<longleftrightarrow> wire_error (prp_Err p)"

definition wf_ProduceRespTopic :: "ProduceRespTopic \<Rightarrow> bool" where
  "wf_ProduceRespTopic t \<longleftrightarrow> wf_string (prt_Name t) \<and> wf_array (prt_Partitions t) \<and>
     list_all wf_ProduceRespPartition (prt_Partitions t)"

definition wf_ProduceResp :: "ProduceResp \<Rightarrow> bool" where
  "wf_ProduceResp r \<longleftrightarrow> wf_array (pr_Topics r) \<and> list_all wf_ProduceRespTopic (pr_Topics r)"

definition norm_ProduceRespPartition :: "int16 \<Rightarrow> ProduceRespPartition \<Rightarrow> ProduceRespPartition" where
  "norm_ProduceRespPartition v p =
     p\<lparr>prp_LogAppendTime := if KafkaV2 \<le>s v then prp_LogAppendTime p else 0\<rparr>"

definition norm_ProduceRespTopic :: "int16 \<Rightarrow> ProduceRespTopic \<Rightarrow> ProduceRespTopic" where
  "norm_ProduceRespTopic v t =
     t\<lparr>prt_Partitions := map (norm_ProduceRespPartition v) (prt_Partitions t)\<rparr>"

definition norm_ProduceResp :: "ProduceResp \<Rightarrow> ProduceResp" where
  "norm_ProduceResp r =
     r\<lparr>pr_ThrottleTime := if KafkaV1 \<le>s pr_Version r then wire_duration (pr_ThrottleTime r) else 0,
       pr_Topics := map (norm_ProduceRespTopic (pr_Version r)) (pr_Topics r)\<rparr>"

interpretation ProduceRespPartition: versioned_struct
  write_ProduceRespPartition read_ProduceRespPartition zero_ProduceRespPartition
  norm_ProduceRespPartition wf_ProduceRespPartition
proof
  fix p v assume "wf_ProduceRespPartition p"
  note wf = this[unfolded wf_ProduceRespPartition_def]
  show "transfers (write_ProduceRespPartition v p) (read_ProduceRespPartition v)
      zero_ProduceRespPartition (norm_ProduceRespPartition v p)"
    unfolding write_ProduceRespPartition_def read_ProduceRespPartition_def
    by (rule transfers_eqI, (rule codec_intros | (simp add: wf; fail))+)
      (simp add: norm_ProduceRespPartition_def zero_ProduceRespPartition_def)
qed

interpretation ProduceRespTopic: versioned_struct
  write_ProduceRespTopic read_ProduceRespTopic zero_ProduceRespTopic norm_ProduceRespTopic
  wf_ProduceRespTopic
proof
  fix t v assume "wf_ProduceRespTopic t"
  note wf = this[unfolded wf_ProduceRespTopic_def]
  show "transfers (write_ProduceRespTopic v t) (read_ProduceRespTopic v) zero_ProduceRespTopic
      (norm_ProduceRespTopic v t)"
    unfolding write_ProduceRespTopic_def read_ProduceRespTopic_def
    by (rule transfers_eqI,
        (rule codec_intros ProduceRespPartition.array | (simp add: wf; fail))+)
      (simp add: norm_ProduceRespTopic_def zero_ProduceRespTopic_def)
qed

lemma ProduceResp_round_trip:
  assumes "wf_ProduceResp r"
  shows "round_trips (ProduceResp_Bytes r) (ReadVersionedProduceResp (pr_Version r)) (norm_ProduceResp r)"
proof -
  note wf = assms[unfolded wf_ProduceResp_def]
  show ?thesis
    unfolding ProduceResp_Bytes_def ReadVersionedProduceResp_def
    by (rule message_round_trips, rule transfers_eqI,
        (rule codec_intros ProduceRespTopic.array | (simp add: wf; fail))+)
      (simp add: norm_ProduceResp_def zero_ProduceResp_def)
qed

lemma carries_ProduceResp: "carries (PutUint32 (pr_CorrelationID r)) (ProduceResp_Bytes r)"
  unfolding ProduceResp_Bytes_def
  by (rule carries_response) (simp add: write_ProduceRespTopic_def write_ProduceRespPartition_def)

interpretation ProduceResp: response_message
  ProduceResp_Bytes "ReadVersionedProduceResp v" norm_ProduceResp
  "\<lambda>r. wf_ProduceResp r \<and> pr_Version r = v"
  pr_CorrelationID for v
  by unfold_locales (use ProduceResp_round_trip carries_ProduceResp in blast)+

section \<open>What a produce request is written as\<close>

definition wf_ProduceReqTopic :: "codecs \<Rightarrow> int8 \<Rightarrow> ProduceReqTopic \<Rightarrow> bool" where
  "wf_ProduceReqTopic lib c t \<longleftrightarrow> wf_string (pqt_Name t) \<and> wf_array (pqt_Partitions t) \<and>
     list_all (\<lambda>p. wf_messages lib c (pqp_Messages p)) (pqt_Partitions t)"

definition wf_ProduceReq :: "codecs \<Rightarrow> ProduceReq \<Rightarrow> bool" where
  "wf_ProduceReq lib r \<longleftrightarrow> wf_header r \<and> wf_string (pq_TransactionalID r) \<and>
     wf_array (pq_Topics r) \<and> list_all (wf_ProduceReqTopic lib (pq_Compression r)) (pq_Topics r)"

definition partition_wire :: "codecs \<Rightarrow> int8 \<Rightarrow> ProduceReqPartition \<Rightarrow> byte list" where
  "partition_wire lib c p = PutUint32 (pqp_ID p) @ sized_set lib c (pqp_Messages p)"

definition topic_wire :: "codecs \<Rightarrow> int8 \<Rightarrow> ProduceReqTopic \<Rightarrow> byte list" where
  "topic_wire lib c t =
     (PutUint16 (of_nat (length (pqt_Name t))) @ pqt_Name t) @
     PutUint32 (of_nat (length (pqt_Partitions t))) @
     concat (map (partition_wire lib c) (pqt_Partitions t))"

lemma emits_ProduceReqTopic:
  assumes "wf_ProduceReqTopic lib c t"
  shows "emits (block (write_ProduceReqTopic lib c t)) (topic_wire lib c t)"
proof -
  have "emits (block (write_ProduceReqPartition lib c p)) (partition_wire lib c p)"
    if "p \<in> set (pqt_Partitions t)" for p
    using emits_Cons[OF emits_prims(3) emits_Cons[OF emits_message_set emits_Nil]] assms that
    by (auto simp: write_ProduceReqPartition_def partition_wire_def wf_ProduceReqTopic_def list_all_iff)
  from emits_Cons[OF emits_String emits_Cons[OF emits_array[OF this] emits_Nil]] show ?thesis
    by (simp add: write_ProduceReqTopic_def topic_wire_def)
qed

lemma emits_ProduceReq_topics:
  assumes "wf_ProduceReq lib r"
  shows "emits (write_array (write_ProduceReqTopic lib (pq_Compression r)) (pq_Topics r))
    (PutUint32 (of_nat (length (pq_Topics r))) @
     concat (map (topic_wire lib (pq_Compression r)) (pq_Topics r)))"
  using assms by (intro emits_array emits_ProduceReqTopic) (auto simp: wf_ProduceReq_def list_all_iff)

text \<open>The statements before the array of topics transfer like those of any other request.\<close>

definition ProduceReq_fields :: "ProduceReq \<Rightarrow> ProduceReq" where
  "ProduceReq_fields r = r\<lparr>pq_Compression := 0, pq_Topics := [],
     pq_TransactionalID := (if KafkaV3 \<le>s version r then pq_TransactionalID r else []),
     pq_Timeout := wire_duration (pq_Timeout r)\<rparr>"

lemma transfers_ProduceReq_fields:
  assumes "wf_ProduceReq lib r"
  shows "transfers (tl (encodeHeader ProduceReqKind r) @ write_ProduceReq_fields r)
    (tl decodeHeader @ read_ProduceReq_fields) zero_ProduceReq (ProduceReq_fields r)"
proof -
  note wf = assms[unfolded wf_ProduceReq_def]
  show ?thesis
    unfolding write_ProduceReq_fields_def read_ProduceReq_fields_def
    by (rule transfers_append[OF transfers_header], (simp add: wf; fail), rule transfers_eqI,
        (rule codec_intros | (simp add: wf; fail))+)
      (simp add: ProduceReq_fields_def zero_ProduceReq_def set_header_def wire_duration_def)
qed

definition topics_wire :: "codecs \<Rightarrow> ProduceReq \<Rightarrow> byte list" where
  "topics_wire lib r = PutUint32 (of_nat (length (pq_Topics r))) @
     concat (map (topic_wire lib (pq_Compression r)) (pq_Topics r))"

text \<open>The bytes of a request, and where the reader stands when it comes to the topics.\<close>

lemma ProduceReq_Bytes_frame:
  assumes "wf_ProduceReq lib r"
  obtains bs where
    "ProduceReq_Bytes lib r = Ok (frame (bs @ topics_wire lib r))"
    "ReadProduceReq lib conf depth (NewReader (frame (bs @ topics_wire lib r))) =
       obind (block [read_array (struct (read_ProduceReqTopic lib conf depth) zero_ProduceReqTopic)
            (\<lambda>x r. r\<lparr>pq_Topics := x\<rparr>), check_err]
          (memdec (topics_wire lib r), ProduceReq_fields r)) (\<lambda>(d, x). Ok x)"
proof -
  from transfers_ProduceReq_fields[OF assms] obtain bs where
    bs: "emits (block (tl (encodeHeader ProduceReqKind r) @ write_ProduceReq_fields r)) bs" and
    rd: "\<And>rest. block (tl decodeHeader @ read_ProduceReq_fields) (memdec (bs @ rest), zero_ProduceReq) =
       Ok (memdec rest, ProduceReq_fields r)"
    unfolding transfers_def reads_def by blast
  have "emits (block [write_array (write_ProduceReqTopic lib (pq_Compression r)) (pq_Topics r)])
      (topics_wire lib r)"
    using emits_ProduceReq_topics[OF assms] by (simp add: topics_wire_def)
  from run_bytes_frame[OF emits_append[OF bs this]]
  have 1: "ProduceReq_Bytes lib r = Ok (frame (bs @ topics_wire lib r))"
    by (simp add: ProduceReq_Bytes_def encodeHeader_def)
  have eq: "(decodeHeader @ read_ProduceReq_fields @ [t]) @ [check_err] =
      skip_field DecodeInt32 # (tl decodeHeader @ read_ProduceReq_fields) @ [t, check_err]" for t
    by (simp add: decodeHeader_def)
  have skip: "skip_field DecodeInt32 (memdec (frame (bs @ topics_wire lib r)), zero_ProduceReq) =
      Ok (memdec (bs @ topics_wire lib r), zero_ProduceReq)"
    unfolding frame_def by (simp add: skip_field_def read_field_def decodesD[OF decodes_prims(3)])
  have 2: "ReadProduceReq lib conf depth (NewReader (frame (bs @ topics_wire lib r))) =
       obind (block [read_array (struct (read_ProduceReqTopic lib conf depth) zero_ProduceReqTopic)
            (\<lambda>x r. r\<lparr>pq_Topics := x\<rparr>), check_err]
          (memdec (topics_wire lib r), ProduceReq_fields r)) (\<lambda>(d, x). Ok x)"
    unfolding ReadProduceReq_def run_reader_def mem_reader eq block.simps(2)[of "skip_field DecodeInt32"]
      skip obind.simps(1) block_append[of "tl decodeHeader @ read_ProduceReq_fields"] rd ..
  from that[OF 1 2] show thesis .
qed

text \<open>Like every request it begins with its kind.\<close>

lemma writeMessageSet_appends:
  "writeMessageSet lib (BufferW b) ms c = Ok (w, n) \<Longrightarrow> \<exists>bs. w = BufferW (b @ bs)"
  using writeMessageSet_Ok by blast

lemma appends_message_set [simp]: "appends (put_message_set lib c ms)"
  unfolding appends_def
proof (intro allI impI)
  fix e e' b assume run: "put_message_set lib c ms e = Ok e'" and b: "e_w e = BufferW b"
  from run obtain e1 w n where e1: "EncodeInt32 0 e = Ok e1"
    and w: "writeMessageSet lib (e_w e1) ms c = Ok (w, n)"
    and e': "put_at (length b) (PutUint32 (of_nat n)) (writer_bytes w) = Ok (writer_bytes (e_w e'))"
      "\<exists>b'. e_w e' = BufferW b'"
    by (auto simp: put_message_set_def Let_def obind_eq_Ok_conv b writer_bytes_def)
  from appendsD[OF appends_prims(3) e1 b] obtain bs where "e_w e1 = BufferW (b @ bs)" by blast
  with w obtain bs' where "w = BufferW ((b @ bs) @ bs')" using writeMessageSet_appends by metis
  with e' show "\<exists>bs. e_w e' = BufferW (b @ bs)"
    by (auto simp: put_at_def writer_bytes_def split: if_splits)
qed

lemma carries_ProduceReq: "carries (PutUint16 ProduceReqKind) (ProduceReq_Bytes lib r)"
  unfolding ProduceReq_Bytes_def
  by (rule carries_header)
    (simp add: write_ProduceReq_fields_def write_ProduceReqTopic_def write_ProduceReqPartition_def)

section \<open>A request for one partition is read back\<close>

text \<open>
  \<open>readMessageSet\<close> reads to the end of its input and looks at the size of the set only to
  check its sign, so the message set has to be the last thing in the request.
\<close>

definition norm_ProduceReq :: "ProduceReq \<Rightarrow> ProduceReq" where
  "norm_ProduceReq r = (ProduceReq_fields r)\<lparr>pq_Topics :=
     map (\<lambda>t. t\<lparr>pqt_Partitions :=
       map (\<lambda>p. p\<lparr>pqp_Messages := map read_back (pqp_Messages p)\<rparr>) (pqt_Partitions t)\<rparr>) (pq_Topics r)\<rparr>"

lemma read_array_one:
  "read_array elem upd (memdec (PutUint32 1 @ bs), r) =
    obind (elem (memdec bs)) (\<lambda>(d, x). Ok (d, upd [x] r))"
  using decodesD[OF decodes_ArrayLen[of 1]]
  by (simp add: read_array_def make_len_def obind_assoc split_def)

lemma read_messages_sized:
  assumes "wf_messages lib c ms" "c \<in> {CompressionNone, CompressionGzip, CompressionSnappy}"
    "codec_laws lib" "\<not> SimplifiedMessageSetParsing conf" "0 < depth"
  shows "read_messages lib conf depth (memdec (sized_set lib c ms), p) =
    Ok (memdec [], p\<lparr>pqp_Messages := map read_back ms\<rparr>)"
proof -
  note wf = assms(1)[unfolded wf_messages_def]
  have "writeMessageSet lib (BufferW []) ms c =
      Ok (BufferW ([] @ set_wire lib c ms), length (set_wire lib c ms))"
    using wf by (intro writeMessageSet_roomy) simp_all
  from read_set_written[OF assms(3,2) this _ assms(5)] wf
  have "read_set lib depth (NewReader (set_wire lib c ms)) [] = (Ok (map read_back ms), NewReader [])"
    by simp
  then show ?thesis
    using readMessageSet_loop[OF assms(4), of "length (set_wire lib c ms)"] wf
    by (simp add: read_messages_def sized_set_def decodesD[OF decodes_prims(3)] NewReader_def)
qed

lemma read_ProduceReqTopic_one:
  assumes "pqt_Partitions t = [p]" "wf_ProduceReqTopic lib c t"
    "c \<in> {CompressionNone, CompressionGzip, CompressionSnappy}"
    "codec_laws lib" "\<not> SimplifiedMessageSetParsing conf" "0 < depth"
  shows "struct (read_ProduceReqTopic lib conf depth) zero_ProduceReqTopic (memdec (topic_wire lib c t)) =
    Ok (memdec [], t\<lparr>pqt_Partitions := [p\<lparr>pqp_Messages := map read_back (pqp_Messages p)\<rparr>]\<rparr>)"
proof -
  from assms(1,2) have name: "wf_string (pqt_Name t)" and wf: "wf_messages lib c (pqp_Messages p)"
    by (simp_all add: wf_ProduceReqTopic_def)
  have part: "struct (read_ProduceReqPartition lib conf depth) zero_ProduceReqPartition
      (memdec (partition_wire lib c p)) = Ok (memdec [], p\<lparr>pqp_Messages := map read_back (pqp_Messages p)\<rparr>)"
    using read_messages_sized[OF wf assms(3-6)]
    by (simp add: struct_def read_ProduceReqPartition_def partition_wire_def read_field_def
        decodesD[OF decodes_prims(3)] check_err_def zero_ProduceReqPartition_def)
  have "topic_wire lib c t = (PutUint16 (of_nat (length (pqt_Name t))) @ pqt_Name t) @
      PutUint32 1 @ partition_wire lib c p"
    using assms(1) by (simp add: topic_wire_def)
  then show ?thesis
    using decodesD[OF decodes_String[OF name]]
    by (simp add: struct_def read_ProduceReqTopic_def read_field_def read_array_one
        part[unfolded struct_def] zero_ProduceReqTopic_def)
qed

lemma ProduceReq_one_partition:
  assumes "wf_ProduceReq lib r" "pq_Topics r = [t]" "pqt_Partitions t = [p]"
    "pq_Compression r \<in> {CompressionNone, CompressionGzip, CompressionSnappy}"
    "codec_laws lib" "\<not> SimplifiedMessageSetParsing conf" "0 < depth"
  shows "obind (ProduceReq_Bytes lib r) (\<lambda>b. ReadProduceReq lib conf depth (NewReader b)) =
    Ok (norm_ProduceReq r)"
proof -
  from ProduceReq_Bytes_frame[OF assms(1), of conf depth] obtain bs where
    bytes: "ProduceReq_Bytes lib r = Ok (frame (bs @ topics_wire lib r))" and
    rd: "ReadProduceReq lib conf depth (NewReader (frame (bs @ topics_wire lib r))) =
       obind (block [read_array (struct (read_ProduceReqTopic lib conf depth) zero_ProduceReqTopic)
            (\<lambda>x r. r\<lparr>pq_Topics := x\<rparr>), check_err]
          (memdec (topics_wire lib r), ProduceReq_fields r)) (\<lambda>(d, x). Ok x)" .
  have "wf_ProduceReqTopic lib (pq_Compression r) t"
    using assms(1,2) by (simp add: wf_ProduceReq_def)
  note topic = read_ProduceReqTopic_one[OF assms(3) this assms(4-7)]
  have "topics_wire lib r = PutUint32 1 @ topic_wire lib (pq_Compression r) t"
    using assms(2) by (simp add: topics_wire_def)
  then show ?thesis
    using assms(2,3) unfolding bytes obind.simps rd
    by (simp add: read_array_one topic check_err_def norm_ProduceReq_def)
qed

section \<open>A request for two partitions is not\<close>

lemma PutUint64_0: "PutUint64 0 = PutUint32 0 @ PutUint32 0"
  by (simp add: PutUint64_def PutUint32_def)

text \<open>
  Reading on past the first message set takes the ID and the size of the next one for an
  offset, and the upper half of the offset of its first message for a size.
\<close>

lemma read_set_runs_on:
  assumes "list_all fits ms"
  shows "read_set lib depth (NewReader (messages_wire CompressionNone ms @
      PutUint32 i @ PutUint32 n @ PutUint64 0 @ rest)) found =
    (Ok (found @ map read_back ms), NewReader (PutUint32 0 @ rest))"
proof -
  have "readMessage lib (NewReader (PutUint32 i @ PutUint32 n @ PutUint64 0 @ rest)) =
      (EndOfSet, NewReader (PutUint32 0 @ rest))"
    using decode_fixed_append[of "PutUint32 i @ PutUint32 n" 8, where 'a = 64]
      decode_fixed_append[of "PutUint32 0" 4, where 'a = 32]
    by (simp add: readMessage_def NewDecoder_def NewReader_def DecodeInt64_def DecodeInt32_def
        PutUint64_0)
  then show ?thesis
    by (simp add: read_set_messages[OF assms] read_set_end)
qed

lemma read_partition_runs_on:
  assumes "wf_messages lib CompressionNone (pqp_Messages p)" "\<not> SimplifiedMessageSetParsing conf"
  shows "struct (read_ProduceReqPartition lib conf depth) zero_ProduceReqPartition
      (memdec (partition_wire lib CompressionNone p @ PutUint32 i @ PutUint32 n @ PutUint64 0 @ rest)) =
    Ok (memdec (PutUint32 0 @ rest), p\<lparr>pqp_Messages := map read_back (pqp_Messages p)\<rparr>)"
proof -
  let ?ms = "pqp_Messages p"
  note wf = assms(1)[unfolded wf_messages_def]
  have w: "set_wire lib CompressionNone ?ms = messages_wire CompressionNone ?ms"
    by (simp add: set_wire_def packed_def)
  have "list_all fits ?ms"
    using wf by (auto simp: list_all_iff roomy_def fits_def)
  from read_set_runs_on[OF this, of lib depth i n rest "[]"]
    readMessageSet_loop[OF assms(2), of "length (messages_wire CompressionNone ?ms)" lib depth] wf
  show ?thesis
    by (simp add: struct_def read_ProduceReqPartition_def partition_wire_def read_field_def
        decodesD[OF decodes_prims(3)] check_err_def zero_ProduceReqPartition_def read_messages_def
        sized_set_def w NewReader_def)
qed

lemma read_partition_ID:
  assumes "struct (read_ProduceReqPartition lib conf depth) zero_ProduceReqPartition
      (memdec (PutUint32 i @ rest)) = Ok (d, p)"
  shows "pqp_ID p = i"
  using assms
  by (auto simp: struct_def read_ProduceReqPartition_def read_field_def decodesD[OF decodes_prims(3)]
      check_err_def read_messages_def obind_eq_Ok_conv split_beta
      split: option.splits outcome.splits prod.splits)

lemma read_array_two:
  "read_array elem upd (memdec (PutUint32 2 @ bs), r) =
    obind (elem (memdec bs)) (\<lambda>(d, x). obind (elem d) (\<lambda>(d, y). Ok (d, upd [x, y] r)))"
proof -
  have "for_range 2 elem d = obind (elem d) (\<lambda>(d, x). obind (elem d) (\<lambda>(d, y). Ok (d, [x, y])))" for d
    by (simp add: numeral_2_eq_2 obind_assoc split_def)
  then show ?thesis
    using decodesD[OF decodes_ArrayLen[of 2]]
    by (simp add: read_array_def make_len_def obind_assoc split_def)
qed

lemma read_ProduceReqTopic_two:
  assumes "pqt_Partitions t = [p, q]" "wf_ProduceReqTopic lib CompressionNone t"
    "\<not> SimplifiedMessageSetParsing conf" "pqp_Messages q = m # ms" "Offset m = 0"
    "struct (read_ProduceReqTopic lib conf depth) zero_ProduceReqTopic
      (memdec (topic_wire lib CompressionNone t)) = Ok (d, t')"
  shows "map pqp_ID (pqt_Partitions t') = [pqp_ID p, 0]"
proof -
  from assms(1,2) have name: "wf_string (pqt_Name t)"
    and wf: "wf_messages lib CompressionNone (pqp_Messages p)"
    by (simp_all add: wf_ProduceReqTopic_def)
  obtain rest where q: "partition_wire lib CompressionNone q =
      PutUint32 (pqp_ID q) @ PutUint32 (of_nat (length (set_wire lib CompressionNone (m # ms)))) @
      PutUint64 0 @ rest"
    using assms(4,5)
    by (simp add: partition_wire_def sized_set_def set_wire_def packed_def message_wire_def)
  have "topic_wire lib CompressionNone t = (PutUint16 (of_nat (length (pqt_Name t))) @ pqt_Name t) @
      PutUint32 2 @ partition_wire lib CompressionNone p @ partition_wire lib CompressionNone q"
    using assms(1) by (simp add: topic_wire_def)
  then have eq: "struct (read_ProduceReqTopic lib conf depth) zero_ProduceReqTopic
      (memdec (topic_wire lib CompressionNone t)) =
    read_array (struct (read_ProduceReqPartition lib conf depth) zero_ProduceReqPartition)
      (\<lambda>x t. t\<lparr>pqt_Partitions := x\<rparr>)
      (memdec (PutUint32 2 @ partition_wire lib CompressionNone p @ partition_wire lib CompressionNone q),
       zero_ProduceReqTopic\<lparr>pqt_Name := pqt_Name t\<rparr>)"
    using decodesD[OF decodes_String[OF name]]
    by (simp add: struct_def read_ProduceReqTopic_def read_field_def)
  show ?thesis
    using assms(6)[unfolded eq] read_partition_runs_on[OF wf assms(3), of depth]
    by (auto simp: read_array_two q obind_eq_Ok_conv dest: read_partition_ID)
qed

lemma ProduceReq_two_partitions:
  assumes "wf_ProduceReq lib r" "pq_Compression r = CompressionNone"
    "pq_Topics r = [t]" "pqt_Partitions t = [p, q]"
    "pqp_Messages q = m # ms" "Offset m = 0" "pqp_ID q \<noteq> 0" "\<not> SimplifiedMessageSetParsing conf"
  shows "obind (ProduceReq_Bytes lib r) (\<lambda>b. ReadProduceReq lib conf depth (NewReader b)) \<noteq>
    Ok (norm_ProduceReq r)"
proof
  assume ok: "obind (ProduceReq_Bytes lib r) (\<lambda>b. ReadProduceReq lib conf depth (NewReader b)) =
    Ok (norm_ProduceReq r)"
  from ProduceReq_Bytes_frame[OF assms(1), of conf depth] obtain bs where
    bytes: "ProduceReq_Bytes lib r = Ok (frame (bs @ topics_wire lib r))" and
    rd: "ReadProduceReq lib conf depth (NewReader (frame (bs @ topics_wire lib r))) =
       obind (block [read_array (struct (read_ProduceReqTopic lib conf depth) zero_ProduceReqTopic)
            (\<lambda>x r. r\<lparr>pq_Topics := x\<rparr>), check_err]
          (memdec (topics_wire lib r), ProduceReq_fields r)) (\<lambda>(d, x). Ok x)" .
  have wf: "wf_ProduceReqTopic lib CompressionNone t"
    using assms(1-3) by (simp add: wf_ProduceReq_def)
  have "topics_wire lib r = PutUint32 1 @ topic_wire lib CompressionNone t"
    using assms(2,3) by (simp add: topics_wire_def)
  with ok obtain d t' where
    t': "struct (read_ProduceReqTopic lib conf depth) zero_ProduceReqTopic
        (memdec (topic_wire lib CompressionNone t)) = Ok (d, t')"
      "(ProduceReq_fields r)\<lparr>pq_Topics := [t']\<rparr> = norm_ProduceReq r"
    unfolding bytes obind.simps rd
    by (auto simp: read_array_one obind_eq_Ok_conv check_err_def split: option.splits)
  from read_ProduceReqTopic_two[OF assms(4) wf assms(8,5,6) t'(1)]
    arg_cong[OF t'(2), of pq_Topics] assms(3,4,7)
  show False by (auto simp: norm_ProduceReq_def)
qed

section \<open>Properties\<close>

definition example_ProduceReq :: "ProduceReqPartition list \<Rightarrow> ProduceReq" where
  "example_ProduceReq ps = \<lparr>version = 2, correlationID = 7, ClientID = str ''c'',
     pq_Compression = CompressionNone, pq_TransactionalID = [], pq_RequiredAcks = 1,
     pq_Timeout = 3000000, pq_Topics = [\<lparr>pqt_Name = str ''a'', pqt_Partitions = ps\<rparr>]\<rparr>"

definition example_partition :: "int32 \<Rightarrow> ProduceReqPartition" where
  "example_partition i = \<lparr>pqp_ID = i, pqp_Messages = [zero_Message\<lparr>Value := Some [4]\<rparr>]\<rparr>"

lemma example_wf_messages: "wf_messages lib CompressionNone (pqp_Messages (example_partition i))"
  by (simp add: wf_messages_def example_partition_def zero_Message_def roomy_def message_len_def
      maxInt32_def packed_def set_wire_def)

lemma example_wf_ProduceReq: "length ps \<le> 2 \<Longrightarrow> set ps \<subseteq> range example_partition \<Longrightarrow>
    wf_ProduceReq lib (example_ProduceReq ps)"
  using example_wf_messages
  by (auto simp: wf_ProduceReq_def example_ProduceReq_def wf_header_def wf_string_def wf_array_def
      str_def wf_ProduceReqTopic_def list_all_iff)

text \<open>
  C11. A produce request for one partition is read back with all its messages, whichever
  compression it uses; produce responses of every version are read back as they were written,
  up to the fields their version does not carry.
\<close>

lemma produce_codec:
  assumes "wf_ProduceReq lib q" "pq_Topics q = [t]" "pqt_Partitions t = [p]"
    "pq_Compression q \<in> {CompressionNone, CompressionGzip, CompressionSnappy}"
    "codec_laws lib" "\<not> SimplifiedMessageSetParsing conf" "0 < depth" "wf_ProduceResp r"
  shows "obind (ProduceReq_Bytes lib q) (\<lambda>b. ReadProduceReq lib conf depth (NewReader b)) =
      Ok (norm_ProduceReq q) \<and>
    round_trips (ProduceResp_Bytes r) (ReadVersionedProduceResp (pr_Version r)) (norm_ProduceResp r)"
  using ProduceReq_one_partition[OF assms(1-7)] ProduceResp_round_trip[OF assms(8)] by simp

definition example_ProduceResp :: ProduceResp where
  "example_ProduceResp = \<lparr>pr_Version = 2, pr_CorrelationID = 7,
     pr_Topics = [\<lparr>prt_Name = str ''a'', prt_Partitions =
       [\<lparr>prp_ID = 0, prp_Err = None, prp_Offset = 42, prp_LogAppendTime = - 1\<rparr>]\<rparr>],
     pr_ThrottleTime = 3000000\<rparr>"

lemma produce_codec_witness:
  "obind (ProduceReq_Bytes example_codecs (example_ProduceReq [example_partition 3]))
     (\<lambda>b. ReadProduceReq example_codecs full_parsing 1 (NewReader b)) =
     Ok (norm_ProduceReq (example_ProduceReq [example_partition 3])) \<and>
   round_trips (ProduceResp_Bytes example_ProduceResp)
     (ReadVersionedProduceResp (pr_Version example_ProduceResp)) (norm_ProduceResp example_ProduceResp)"
  by (rule produce_codec[OF example_wf_ProduceReq, where p = "example_partition 3" and
        t = "\<lparr>pqt_Name = str ''a'', pqt_Partitions = [example_partition 3]\<rparr>"])
    (simp_all add: example_ProduceReq_def example_codec_laws full_parsing_def example_ProduceResp_def
      wf_ProduceResp_def wf_ProduceRespTopic_def wf_ProduceRespPartition_def wf_string_def
      wf_array_def str_def wire_error_def)

text \<open>
  C28. A produce request for two partitions, the messages of which have not been given
  offsets yet, is not read back: the message set of the first partition is read on into the second.
\<close>

lemma produce_two_partitions_misread:
  assumes "wf_ProduceReq lib q" "pq_Compression q = CompressionNone"
    "pq_Topics q = [t]" "pqt_Partitions t = [p, p']" "pqp_Messages p' = m # ms" "Offset m = 0"
    "pqp_ID p' \<noteq> 0" "\<not> SimplifiedMessageSetParsing conf"
  shows "obind (ProduceReq_Bytes lib q) (\<lambda>b. ReadProduceReq lib conf depth (NewReader b)) \<noteq>
    Ok (norm_ProduceReq q)"
  using assms by (rule ProduceReq_two_partitions)

lemma produce_two_partitions_misread_witness:
  "obind (ProduceReq_Bytes example_codecs (example_ProduceReq [example_partition 0, example_partition 1]))
     (\<lambda>b. ReadProduceReq example_codecs full_parsing 1 (NewReader b)) \<noteq>
   Ok (norm_ProduceReq (example_ProduceReq [example_partition 0, example_partition 1]))"
  by (rule produce_two_partitions_misread[OF example_wf_ProduceReq, where
        t = "\<lparr>pqt_Name = str ''a'', pqt_Partitions = [example_partition 0, example_partition 1]\<rparr>" and
        p = "example_partition 0" and p' = "example_partition 1" and
        m = "zero_Message\<lparr>Value := Some [4]\<rparr>" and ms = "[]"])
    (simp_all add: example_ProduceReq_def full_parsing_def,
     simp_all add: example_partition_def zero_Message_def)

end
