(* ===== verification/RecordBatch.thy ===== *)
theory RecordBatch
  imports MessageSet
begin

text \<open>
  Record batches of \<open>v2/proto/messages.go\<close>, the format that replaced message sets:
  \<open>readRecord\<close> and \<open>readRecordBatch\<close>.  The driver only reads them.
\<close>

unbundle bit_operations_syntax

section \<open>Data\<close>

record RecordHeader =
  rh_Key :: gostring
  rh_Value :: gobytes

record Record =
  rec_Length :: int64
  rec_Attributes :: int8
  rec_TimestampDelta :: int64
  rec_OffsetDelta :: int64
  rec_Key :: gobytes
  rec_Value :: gobytes
  rec_Headers :: "RecordHeader list"

record RecordBatch =
  rb_FirstOffset :: int64
  rb_Length :: int32
  rb_PartitionLeaderEpoch :: int32
  rb_Magic :: int8
  rb_CRC :: int32
  rb_Attributes :: int16
  rb_LastOffsetDelta :: int32
  rb_FirstTimestamp :: int64
  rb_MaxTimestamp :: int64
  rb_ProducerId :: int64
  rb_ProducerEpoch :: int16
  rb_FirstSequence :: int32
  rb_Records :: "Record list"

definition zero_RecordHeader :: RecordHeader where
  "zero_RecordHeader = \<lparr>rh_Key = [], rh_Value = None\<rparr>"

definition zero_Record :: Record where
  "zero_Record = \<lparr>rec_Length = 0, rec_Attributes = 0, rec_TimestampDelta = 0, rec_OffsetDelta = 0,
     rec_Key = None, rec_Value = None, rec_Headers = []\<rparr>"

definition zero_RecordBatch :: RecordBatch where
  "zero_RecordBatch = \<lparr>rb_FirstOffset = 0, rb_Length = 0, rb_PartitionLeaderEpoch = 0,
     rb_Magic = 0, rb_CRC = 0, rb_Attributes = 0, rb_LastOffsetDelta = 0, rb_FirstTimestamp = 0,
     rb_MaxTimestamp = 0, rb_ProducerId = 0, rb_ProducerEpoch = 0, rb_FirstSequence = 0,
     rb_Records = []\<rparr>"

definition RecordBatch_Compression :: "RecordBatch \<Rightarrow> int8" where
  "RecordBatch_Compression rb = ucast (rb_Attributes rb AND 3)"

section \<open>readRecord\<close>

text \<open>
  \<open>make([]RecordHeader, headersLen)\<close>: a header takes 40 bytes, and beyond the address space
  of 2^48 bytes the length is out of range.
\<close>

definition make_headers :: "int \<Rightarrow> nat res" where
  "make_headers n = (if n < 0 \<or> n * 40 > 2 ^ 48 then Panic else Ok (nat n))"

definition read_RecordHeader :: "(error, decoder \<times> RecordHeader) stmt list" where
  "read_RecordHeader =
     [read_field DecodeVarString (\<lambda>x h. h\<lparr>rh_Key := x\<rparr>),
      read_field DecodeVarBytes (\<lambda>x h. h\<lparr>rh_Value := x\<rparr>)]"

definition read_headers :: "(error, decoder \<times> Record) stmt" where
  "read_headers s =
     (let (headersLen, d) = DecodeVarInt (fst s)
      in obind (make_headers (sint headersLen)) (\<lambda>k.
         obind (for_range k (struct read_RecordHeader zero_RecordHeader) d) (\<lambda>(d, hs).
           Ok (d, (snd s)\<lparr>rec_Headers := hs\<rparr>))))"

definition readRecord :: "decoder \<Rightarrow> (decoder \<times> Record) res" where
  "readRecord = struct
     [read_field DecodeVarInt (\<lambda>x r. r\<lparr>rec_Length := x\<rparr>),
      read_field DecodeInt8 (\<lambda>x r. r\<lparr>rec_Attributes := x\<rparr>),
      read_field DecodeVarInt (\<lambda>x r. r\<lparr>rec_TimestampDelta := x\<rparr>),
      read_field DecodeVarInt (\<lambda>x r. r\<lparr>rec_OffsetDelta := x\<rparr>),
      read_field DecodeVarBytes (\<lambda>x r. r\<lparr>rec_Key := x\<rparr>),
      read_field DecodeVarBytes (\<lambda>x r. r\<lparr>rec_Value := x\<rparr>),
      read_headers,
      check_err]
     zero_Record"

section \<open>readRecordBatch\<close>

definition batch_head :: "(error, decoder \<times> RecordBatch) stmt list" where
  "batch_head =
     [read_field DecodeInt64 (\<lambda>x b. b\<lparr>rb_FirstOffset := x\<rparr>),
      read_field DecodeInt32 (\<lambda>x b. b\<lparr>rb_Length := x\<rparr>),
      read_field DecodeInt32 (\<lambda>x b. b\<lparr>rb_PartitionLeaderEpoch := x\<rparr>),
      skip_field DecodeInt8,
      read_field DecodeInt32 (\<lambda>x b. b\<lparr>rb_CRC := x\<rparr>)]"

definition batch_body :: "(error, decoder \<times> RecordBatch) stmt list" where
  "batch_body =
     [read_field DecodeInt16 (\<lambda>x b. b\<lparr>rb_Attributes := x\<rparr>),
      read_field DecodeInt32 (\<lambda>x b. b\<lparr>rb_LastOffsetDelta := x\<rparr>),
      read_field DecodeInt64 (\<lambda>x b. b\<lparr>rb_FirstTimestamp := x\<rparr>),
      read_field DecodeInt64 (\<lambda>x b. b\<lparr>rb_MaxTimestamp := x\<rparr>),
      read_field DecodeInt64 (\<lambda>x b. b\<lparr>rb_ProducerId := x\<rparr>),
      read_field DecodeInt16 (\<lambda>x b. b\<lparr>rb_ProducerEpoch := x\<rparr>),
      read_field DecodeInt32 (\<lambda>x b. b\<lparr>rb_FirstSequence := x\<rparr>)]"

text \<open>\<open>ioutil.ReadAll\<close>: everything up to \<open>EOF\<close>; any other end is an error.\<close>

definition ReadAll :: "reader \<Rightarrow> (byte list \<times> reader) res" where
  "ReadAll r =
     (if rd_end r = EOF then Ok (rd_bytes r, advance (length (rd_bytes r)) r) else Err (rd_end r))"

text \<open>
  The \<open>switch\<close> over the compression: the decoder the records are read with, and the reader
  under the checksum.  Unpacking reads that reader to its end.
\<close>

definition batch_decoder ::
  "codecs \<Rightarrow> (byte list \<Rightarrow> byte list) \<Rightarrow> int8 \<Rightarrow> decoder \<Rightarrow> (decoder \<times> reader) res"
where
  "batch_decoder lib spare compression d =
     (if compression = CompressionNone then Ok (d, d_r d)
      else if compression = CompressionGzip then
        obind (ReadAll (d_r d)) (\<lambda>(val, r).
          case gunzip lib val of
            Inl err \<Rightarrow> Err err
          | Inr unzipped \<Rightarrow> Ok (SetReader (NewReader unzipped) d, r))
      else if compression = CompressionSnappy then
        obind (ReadAll (d_r d)) (\<lambda>(val, r).
        obind (snappyDecode lib (spare val) val) (\<lambda>decoded.
          Ok (SetReader (NewReader decoded) d, r)))
      else Err UnknownCompression)"

text \<open>
  \<open>spare\<close> gives the bytes in the capacity of the slice \<open>ioutil.ReadAll\<close> returned.  On success
  the result comes with the reader, which is again without the tee.
\<close>

definition readRecordBatch ::
  "codecs \<Rightarrow> (byte list \<Rightarrow> byte list) \<Rightarrow> reader \<Rightarrow> (RecordBatch \<times> reader) res"
where
  "readRecordBatch lib spare r =
     obind (block batch_head (NewDecoder r, zero_RecordBatch)) (\<lambda>(d, rb).
     obind (block batch_body (SetReader ((d_r d)\<lparr>rd_tee := Some []\<rparr>) d, rb)) (\<lambda>(d, rb).
     let ((slen, err), d) = DecodeArrayLen d
     in case err of
          Some err \<Rightarrow> Err err
        | None \<Rightarrow>
            obind (batch_decoder lib spare (RecordBatch_Compression rb) d) (\<lambda>(d, r).
            case d_err d of
              Some err \<Rightarrow> Err err
            | None \<Rightarrow>
                obind (make_len slen) (\<lambda>k.
                obind (for_range k readRecord d) (\<lambda>(d, recs).
                let r = (if RecordBatch_Compression rb = CompressionNone then d_r d else r)
                in if rb_CRC rb \<noteq> Sum32_Castagnoli (case rd_tee r of None \<Rightarrow> [] | Some t \<Rightarrow> t)
                   then Err WrongCRC32
                   else Ok (rb\<lparr>rb_Records := recs\<rparr>, r\<lparr>rd_tee := None\<rparr>))))))"

end
