(* ===== verification/Fetch.thy ===== *)
theory Fetch
  imports Produce RecordBatch
begin

text \<open>
  \<open>FetchReq\<close> and \<open>FetchResp\<close> of \<open>v2/proto/messages.go\<close>.  The data of a partition is cut out of
  the response by its size and may be message sets or record batches; the reader looks at
  byte 16, the magic byte of either format, to tell them apart.  The response is written with
  uncompressed message sets only.
\<close>

section \<open>FetchReq\<close>

record FetchReqPartition =
  fqp_ID :: int32
  fqp_FetchOffset :: int64
  fqp_LogStartOffset :: int64
  fqp_MaxBytes :: int32

record FetchReqTopic =
  fqt_Name :: gostring
  fqt_Partitions :: "FetchReqPartition list"

record FetchReq = RequestHeader +
  fq_ReplicaID :: int32
  fq_MaxWaitTime :: int64
  fq_MinBytes :: int32
  fq_MaxBytes :: int32
  fq_IsolationLevel :: int8
  fq_Topics :: "FetchReqTopic list"

definition zero_FetchReqPartition :: FetchReqPartition where
  "zero_FetchReqPartition =
     \<lparr>fqp_ID = 0, fqp_FetchOffset = 0, fqp_LogStartOffset = 0, fqp_MaxBytes = 0\<rparr>"

definition zero_FetchReqTopic :: FetchReqTopic where
  "zero_FetchReqTopic = \<lparr>fqt_Name = [], fqt_Partitions = []\<rparr>"

definition zero_FetchReq :: FetchReq where
  "zero_FetchReq = \<lparr>version = 0, correlationID = 0, ClientID = [], fq_ReplicaID = 0,
     fq_MaxWaitTime = 0, fq_MinBytes = 0, fq_MaxBytes = 0, fq_IsolationLevel = 0, fq_Topics = []\<rparr>"

definition read_FetchReqPartition :: "int16 \<Rightarrow> (error, decoder \<times> FetchReqPartition) stmt list" where
  "read_FetchReqPartition v =
     [read_field DecodeInt32 (\<lambda>x p. p\<lparr>fqp_ID := x\<rparr>),
      read_field DecodeInt64 (\<lambda>x p. p\<lparr>fqp_FetchOffset := x\<rparr>),
      if_do (\<lambda>_. KafkaV5 \<le>s v) [read_field DecodeInt64 (\<lambda>x p. p\<lparr>fqp_LogStartOffset := x\<rparr>)],
      read_field DecodeInt32 (\<lambda>x p. p\<lparr>fqp_MaxBytes := x\<rparr>)]"

definition read_FetchReqTopic :: "int16 \<Rightarrow> (error, decoder \<times> FetchReqTopic) stmt list" where
  "read_FetchReqTopic v =
     [read_field DecodeString (\<lambda>x t. t\<lparr>fqt_Name := x\<rparr>),
      read_array (struct (read_FetchReqPartition v) zero_FetchReqPartition)
        (\<lambda>x t. t\<lparr>fqt_Partitions := x\<rparr>)]"

definition ReadFetchReq :: "reader \<Rightarrow> FetchReq res" where
  "ReadFetchReq = run_reader (decodeHeader @
     [read_field DecodeInt32 (\<lambda>x r. r\<lparr>fq_ReplicaID := x\<rparr>),
      read_field DecodeDuration32 (\<lambda>x r. r\<lparr>fq_MaxWaitTime := x\<rparr>),
      read_field DecodeInt32 (\<lambda>x r. r\<lparr>fq_MinBytes := x\<rparr>),
      if_do (\<lambda>(d, r). KafkaV3 \<le>s version r) [read_field DecodeInt32 (\<lambda>x r. r\<lparr>fq_MaxBytes := x\<rparr>)],
      if_do (\<lambda>(d, r). KafkaV4 \<le>s version r)
        [read_field DecodeInt8 (\<lambda>x r. r\<lparr>fq_IsolationLevel := x\<rparr>)],
      dep version (\<lambda>v. read_array (struct (read_FetchReqTopic v) zero_FetchReqTopic)
        (\<lambda>x r. r\<lparr>fq_Topics := x\<rparr>))])
     zero_FetchReq"

definition write_FetchReqPartition :: "int16 \<Rightarrow> FetchReqPartition \<Rightarrow> (error, encoder) stmt list" where
  "write_FetchReqPartition v part =
     [EncodeInt32 (fqp_ID part),
      EncodeInt64 (fqp_FetchOffset part),
      if_do (\<lambda>_. KafkaV5 \<le>s v) [EncodeInt64 (fqp_LogStartOffset part)],
      EncodeInt32 (fqp_MaxBytes part)]"

definition write_FetchReqTopic :: "int16 \<Rightarrow> FetchReqTopic \<Rightarrow> (error, encoder) stmt list" where
  "write_FetchReqTopic v topic =
     [EncodeString (fqt_Name topic),
      write_array (write_FetchReqPartition v) (fqt_Partitions topic)]"

definition FetchReq_Bytes :: "FetchReq \<Rightarrow> byte list res" where
  "FetchReq_Bytes r = run_bytes (encodeHeader FetchReqKind r @
     [EncodeInt32 (- 1),
      EncodeDuration (fq_MaxWaitTime r),
      EncodeInt32 (fq_MinBytes r),
      if_do (\<lambda>_. KafkaV3 \<le>s version r) [EncodeInt32 (fq_MaxBytes r)],
      if_do (\<lambda>_. KafkaV4 \<le>s version r) [EncodeInt8 (fq_IsolationLevel r)],
      write_array (write_FetchReqTopic (version r)) (fq_Topics r)])"

section \<open>FetchResp\<close>

record FetchRespAbortedTransaction =
  at_ProducerID :: int64
  at_FirstOffset :: int64

record FetchRespPartition =
  frp_ID :: int32
  frp_Err :: goerror
  frp_TipOffset :: int64
  frp_LastStableOffset :: int64
  frp_LogStartOffset :: int64
  frp_AbortedTransactions :: "FetchRespAbortedTransaction list"
  frp_Messages :: "Message list"
  frp_MessageVersion :: int8
  frp_RecordBatches :: "RecordBatch list"

record FetchRespTopic =
  frt_Name :: gostring
  frt_Partitions :: "FetchRespPartition list"

record FetchResp =
  fr_Version :: int16
  fr_CorrelationID :: int32
  fr_ThrottleTime :: int64
  fr_Topics :: "FetchRespTopic list"

definition zero_FetchRespAbortedTransaction :: FetchRespAbortedTransaction where
  "zero_FetchRespAbortedTransaction = \<lparr>at_ProducerID = 0, at_FirstOffset = 0\<rparr>"

definition zero_FetchRespPartition :: FetchRespPartition where
  "zero_FetchRespPartition = \<lparr>frp_ID = 0, frp_Err = None, frp_TipOffset = 0,
     frp_LastStableOffset = 0, frp_LogStartOffset = 0, frp_AbortedTransactions = [],
     frp_Messages = [], frp_MessageVersion = 0, frp_RecordBatches = []\<rparr>"

definition zero_FetchRespTopic :: FetchRespTopic where
  "zero_FetchRespTopic = \<lparr>frt_Name = [], frt_Partitions = []\<rparr>"

definition zero_FetchResp :: FetchResp where
  "zero_FetchResp =
     \<lparr>fr_Version = 0, fr_CorrelationID = 0, fr_ThrottleTime = 0, fr_Topics = []\<rparr>"

definition write_AbortedTransaction ::
  "FetchRespAbortedTransaction \<Rightarrow> (error, encoder) stmt list"
where
  "write_AbortedTransaction tx =
     [EncodeInt64 (at_ProducerID tx), EncodeInt64 (at_FirstOffset tx)]"

definition write_FetchRespPartition_fields ::
  "int16 \<Rightarrow> FetchRespPartition \<Rightarrow> (error, encoder) stmt list"
where
  "write_FetchRespPartition_fields v part =
     [EncodeInt32 (frp_ID part),
      EncodeError (frp_Err part),
      EncodeInt64 (frp_TipOffset part),
      if_do (\<lambda>_. KafkaV4 \<le>s v)
        [EncodeInt64 (frp_LastStableOffset part),
         if_do (\<lambda>_. KafkaV5 \<le>s v) [EncodeInt64 (frp_LogStartOffset part)],
         write_array write_AbortedTransaction (frp_AbortedTransactions part)]]"

definition write_FetchRespPartition ::
  "codecs \<Rightarrow> int16 \<Rightarrow> FetchRespPartition \<Rightarrow> (error, encoder) stmt list"
where
  "write_FetchRespPartition lib v part =
     write_FetchRespPartition_fields v part @
     [put_message_set lib CompressionNone (frp_Messages part)]"

definition write_FetchRespTopic ::
  "codecs \<Rightarrow> int16 \<Rightarrow> FetchRespTopic \<Rightarrow> (error, encoder) stmt list"
where
  "write_FetchRespTopic lib v topic =
     [EncodeString (frt_Name topic),
      write_array (write_FetchRespPartition lib v) (frt_Partitions topic)]"

definition FetchResp_Bytes :: "codecs \<Rightarrow> FetchResp \<Rightarrow> byte list res" where
  "FetchResp_Bytes lib r = run_bytes
     [EncodeInt32 0,
      EncodeInt32 (fr_CorrelationID r),
      if_do (\<lambda>_. KafkaV1 \<le>s fr_Version r) [EncodeDuration (fr_ThrottleTime r)],
      write_array (write_FetchRespTopic lib (fr_Version r)) (fr_Topics r)]"

section \<open>Reading the data of a partition\<close>

definition label_message :: "gostring \<Rightarrow> FetchRespPartition \<Rightarrow> Message \<Rightarrow> Message" where
  "label_message name part msg =
     msg\<lparr>Topic := name, Partition := frp_ID part, TipOffset := frp_TipOffset part\<rparr>"

text \<open>
  The loop over \<open>br\<close>, the buffered reader of the bytes of one partition.  \<open>br.Peek(17)\<close> fails
  with the error the reader ends with when fewer bytes are left.  Every round that goes on
  uses up bytes, so the number of bytes bounds the rounds.
\<close>

primrec fetch_loop ::
  "nat \<Rightarrow> codecs \<Rightarrow> ParserConfig \<Rightarrow> nat \<Rightarrow> (byte list \<Rightarrow> byte list) \<Rightarrow> gostring \<Rightarrow> int32 \<Rightarrow>
   reader \<Rightarrow> FetchRespPartition \<Rightarrow> FetchRespPartition res"
where
  "fetch_loop 0 lib conf depth spare name msgSetSize br part = NoFuel"
| "fetch_loop (Suc n) lib conf depth spare name msgSetSize br part =
     (if length (rd_bytes br) < 17
      then (if rd_end br = EOF then Ok part else Err (rd_end br))
      else
        let part = part\<lparr>frp_MessageVersion := rd_bytes br ! 16\<rparr>
        in if frp_MessageVersion part <s MessageV2 then
             (case readMessageSet lib conf depth br msgSetSize of
                (Ok msgs, br') \<Rightarrow>
                  fetch_loop n lib conf depth spare name msgSetSize br'
                    (part\<lparr>frp_Messages := map (label_message name part) msgs\<rparr>)
              | (Err err, br') \<Rightarrow> Err err
              | (Panic, br') \<Rightarrow> Panic
              | (NoFuel, br') \<Rightarrow> NoFuel)
           else if frp_MessageVersion part = MessageV2 then
             (case readRecordBatch lib spare br of
                Ok (batch, br') \<Rightarrow>
                  fetch_loop n lib conf depth spare name msgSetSize br'
                    (part\<lparr>frp_RecordBatches := frp_RecordBatches part @ [batch]\<rparr>)
              | Err err \<Rightarrow>
                  if (err = ErrNotEnoughData \<or> err = EOF \<or> err = ErrUnexpectedEOF) \<and>
                     frp_RecordBatches part \<noteq> []
                  then Ok part else Err err
              | Panic \<Rightarrow> Panic
              | NoFuel \<Rightarrow> NoFuel)
           else Err IncorrectMessageByte)"

text \<open>
  \<open>io.LimitReader(r, int64(msgSetSize))\<close>: at most that many bytes, none for a negative size.
  The loop is left without an error only at the end of \<open>br\<close>, and then the buffer has taken all
  the limited reader had to give from \<open>r\<close>.
\<close>

definition LimitReader :: "int \<Rightarrow> reader \<Rightarrow> reader" where
  "LimitReader n r =
     (if n \<le> int (length (rd_bytes r)) then r\<lparr>rd_bytes := take (nat n) (rd_bytes r), rd_end := EOF\<rparr>
      else r)"

definition read_partition_data ::
  "codecs \<Rightarrow> ParserConfig \<Rightarrow> nat \<Rightarrow> (byte list \<Rightarrow> byte list) \<Rightarrow> gostring \<Rightarrow>
   (error, decoder \<times> FetchRespPartition) stmt"
where
  "read_partition_data lib conf depth spare name s =
     (let (msgSetSize, d) = DecodeInt32 (fst s)
      in case d_err d of
           Some err \<Rightarrow> Err err
         | None \<Rightarrow>
             let br = LimitReader (sint msgSetSize) (d_r d)
             in obind (fetch_loop (Suc (length (rd_bytes br))) lib conf depth spare name msgSetSize br
                         (snd s))
                  (\<lambda>part. Ok (d\<lparr>d_r := advance (nat (sint msgSetSize)) (d_r d)\<rparr>, part)))"

definition read_AbortedTransaction :: "(error, decoder \<times> FetchRespAbortedTransaction) stmt list" where
  "read_AbortedTransaction =
     [read_field DecodeInt64 (\<lambda>x t. t\<lparr>at_ProducerID := x\<rparr>),
      read_field DecodeInt64 (\<lambda>x t. t\<lparr>at_FirstOffset := x\<rparr>)]"

definition read_FetchRespPartition_fields ::
  "int16 \<Rightarrow> (error, decoder \<times> FetchRespPartition) stmt list"
where
  "read_FetchRespPartition_fields v =
     [read_field DecodeInt32 (\<lambda>x p. p\<lparr>frp_ID := x\<rparr>),
      read_error (\<lambda>x p. p\<lparr>frp_Err := x\<rparr>),
      read_field DecodeInt64 (\<lambda>x p. p\<lparr>frp_TipOffset := x\<rparr>),
      if_do (\<lambda>_. KafkaV4 \<le>s v)
        [read_field DecodeInt64 (\<lambda>x p. p\<lparr>frp_LastStableOffset := x\<rparr>),
         if_do (\<lambda>_. KafkaV5 \<le>s v)
           [read_field DecodeInt64 (\<lambda>x p. p\<lparr>frp_LogStartOffset := x\<rparr>)],
         read_array (struct read_AbortedTransaction zero_FetchRespAbortedTransaction)
           (\<lambda>x p. p\<lparr>frp_AbortedTransactions := x\<rparr>)]]"

definition read_FetchRespPartition ::
  "codecs \<Rightarrow> ParserConfig \<Rightarrow> nat \<Rightarrow> (byte list \<Rightarrow> byte list) \<Rightarrow> gostring \<Rightarrow> int16 \<Rightarrow>
   (error, decoder \<times> FetchRespPartition) stmt list"
where
  "read_FetchRespPartition lib conf depth spare name v =
     read_FetchRespPartition_fields v @
     [check_err, read_partition_data lib conf depth spare name]"

definition read_FetchRespTopic ::
  "codecs \<Rightarrow> ParserConfig \<Rightarrow> nat \<Rightarrow> (byte list \<Rightarrow> byte list) \<Rightarrow> int16 \<Rightarrow>
   (error, decoder \<times> FetchRespTopic) stmt list"
where
  "read_FetchRespTopic lib conf depth spare v =
     [read_field DecodeString (\<lambda>x t. t\<lparr>frt_Name := x\<rparr>),
      dep frt_Name (\<lambda>name.
        read_array (struct (read_FetchRespPartition lib conf depth spare name v) zero_FetchRespPartition)
          (\<lambda>x t. t\<lparr>frt_Partitions := x\<rparr>))]"

definition ReadVersionedFetchResp ::
  "codecs \<Rightarrow> ParserConfig \<Rightarrow> nat \<Rightarrow> (byte list \<Rightarrow> byte list) \<Rightarrow> int16 \<Rightarrow> reader \<Rightarrow> FetchResp res"
where
  "ReadVersionedFetchResp lib conf depth spare v = run_reader
     [skip_field DecodeInt32,
      read_field DecodeInt32 (\<lambda>x r. r\<lparr>fr_CorrelationID := x\<rparr>),
      if_do (\<lambda>_. KafkaV1 \<le>s v) [read_field DecodeDuration32 (\<lambda>x r. r\<lparr>fr_ThrottleTime := x\<rparr>)],
      read_array (struct (read_FetchRespTopic lib conf depth spare v) zero_FetchRespTopic)
        (\<lambda>x r. r\<lparr>fr_Topics := x\<rparr>)]
     (zero_FetchResp\<lparr>fr_Version := v\<rparr>)"

definition ReadFetchResp ::
  "codecs \<Rightarrow> ParserConfig \<Rightarrow> nat \<Rightarrow> (byte list \<Rightarrow> byte list) \<Rightarrow> reader \<Rightarrow> FetchResp res"
where
  "ReadFetchResp lib conf depth spare = ReadVersionedFetchResp lib conf depth spare KafkaV0"

section \<open>Round trip of requests\<close>

definition wf_FetchReqTopic :: "FetchReqTopic \<Rightarrow> bool" where
  "wf_FetchReqTopic t \<longleftrightarrow> wf_string (fqt_Name t) \<and> wf_array (fqt_Partitions t)"

definition wf_FetchReq :: "FetchReq \<Rightarrow> bool" where
  "wf_FetchReq r \<longleftrightarrow> wf_header r \<and> wf_array (fq_Topics r) \<and> list_all wf_FetchReqTopic (fq_Topics r)"

definition norm_FetchReqPartition :: "int16 \<Rightarrow> FetchReqPartition \<Rightarrow> FetchReqPartition" where
  "norm_FetchReqPartition v p =
     p\<lparr>fqp_LogStartOffset := if KafkaV5 \<le>s v then fqp_LogStartOffset p else 0\<rparr>"

definition norm_FetchReqTopic :: "int16 \<Rightarrow> FetchReqTopic \<Rightarrow> FetchReqTopic" where
  "norm_FetchReqTopic v t = t\<lparr>fqt_Partitions := map (norm_FetchReqPartition v) (fqt_Partitions t)\<rparr>"

definition norm_FetchReq :: "FetchReq \<Rightarrow> FetchReq" where
  "norm_FetchReq r = r\<lparr>fq_ReplicaID := - 1,
     fq_MaxWaitTime := wire_duration (fq_MaxWaitTime r),
     fq_MaxBytes := if KafkaV3 \<le>s version r then fq_MaxBytes r else 0,
     fq_IsolationLevel := if KafkaV4 \<le>s version r then fq_IsolationLevel r else 0,
     fq_Topics := map (norm_FetchReqTopic (version r)) (fq_Topics r)\<rparr>"

interpretation FetchReqPartition: versioned_struct
  write_FetchReqPartition read_FetchReqPartition zero_FetchReqPartition
  norm_FetchReqPartition "\<lambda>_. True"
proof
  fix p v
  show "transfers (write_FetchReqPartition v p) (read_FetchReqPartition v)
      zero_FetchReqPartition (norm_FetchReqPartition v p)"
    unfolding write_FetchReqPartition_def read_FetchReqPartition_def
    by (rule transfers_eqI, (rule codec_intros | (simp; fail))+)
      (simp add: norm_FetchReqPartition_def zero_FetchReqPartition_def)
qed

interpretation FetchReqTopic: versioned_struct
  write_FetchReqTopic read_FetchReqTopic zero_FetchReqTopic norm_FetchReqTopic wf_FetchReqTopic
proof
  fix t v assume "wf_FetchReqTopic t"
  note wf = this[unfolded wf_FetchReqTopic_def]
  show "transfers (write_FetchReqTopic v t) (read_FetchReqTopic v) zero_FetchReqTopic
      (norm_FetchReqTopic v t)"
    unfolding write_FetchReqTopic_def read_FetchReqTopic_def
    by (rule transfers_eqI,
        (rule codec_intros FetchReqPartition.array | (simp add: wf list_all_iff; fail))+)
      (simp add: norm_FetchReqTopic_def zero_FetchReqTopic_def)
qed

lemma FetchReq_round_trip:
  assumes "wf_FetchReq r"
  shows "round_trips (FetchReq_Bytes r) ReadFetchReq (norm_FetchReq r)"
proof -
  note wf = assms[unfolded wf_FetchReq_def]
  show ?thesis
    unfolding FetchReq_Bytes_def ReadFetchReq_def
    by (rule request_round_trips, (simp add: wf; fail), rule transfers_eqI,
        (rule codec_intros FetchReqTopic.dep_array | (simp add: wf; fail))+)
      (simp add: norm_FetchReq_def set_header_def zero_FetchReq_def)
qed

lemma carries_FetchReq: "carries (PutUint16 FetchReqKind) (FetchReq_Bytes r)"
  unfolding FetchReq_Bytes_def
  by (rule carries_header) (simp add: write_FetchReqTopic_def write_FetchReqPartition_def)

interpretation FetchReq: request_message FetchReq_Bytes ReadFetchReq norm_FetchReq wf_FetchReq
  FetchReqKind
  by unfold_locales (rule FetchReq_round_trip, assumption, rule carries_FetchReq)

section \<open>Round trip of responses\<close>

definition wf_FetchRespPartition :: "codecs \<Rightarrow> FetchRespPartition \<Rightarrow> bool" where
  "wf_FetchRespPartition lib p \<longleftrightarrow> wire_error (frp_Err p) \<and> wf_array (frp_AbortedTransactions p) \<and>
     wf_messages lib CompressionNone (frp_Messages p)"

definition wf_FetchRespTopic :: "codecs \<Rightarrow> FetchRespTopic \<Rightarrow> bool" where
  "wf_FetchRespTopic lib t \<longleftrightarrow> wf_string (frt_Name t) \<and> wf_array (frt_Partitions t) \<and>
     list_all (wf_FetchRespPartition lib) (frt_Partitions t)"

definition wf_FetchResp :: "codecs \<Rightarrow> FetchResp \<Rightarrow> bool" where
  "wf_FetchResp lib r \<longleftrightarrow> wf_array (fr_Topics r) \<and> list_all (wf_FetchRespTopic lib) (fr_Topics r)"

definition norm_FetchRespPartition_fields :: "int16 \<Rightarrow> FetchRespPartition \<Rightarrow> FetchRespPartition" where
  "norm_FetchRespPartition_fields v p =
     p\<lparr>frp_LastStableOffset := if KafkaV4 \<le>s v then frp_LastStableOffset p else 0,
       frp_LogStartOffset := if KafkaV4 \<le>s v \<and> KafkaV5 \<le>s v then frp_LogStartOffset p else 0,
       frp_AbortedTransactions := if KafkaV4 \<le>s v then frp_AbortedTransactions p else [],
       frp_Messages := [], frp_MessageVersion := 0, frp_RecordBatches := []\<rparr>"

text \<open>The messages come back with their topic, partition and tip offset filled in.\<close>

definition norm_FetchRespPartition :: "gostring \<Rightarrow> int16 \<Rightarrow> FetchRespPartition \<Rightarrow> FetchRespPartition" where
  "norm_FetchRespPartition name v p = (norm_FetchRespPartition_fields v p)
     \<lparr>frp_Messages := map (\<lambda>m. (read_back m)\<lparr>Topic := name, Partition := frp_ID p, TipOffset := frp_TipOffset p\<rparr>)
        (frp_Messages p)\<rparr>"

definition norm_FetchRespTopic :: "int16 \<Rightarrow> FetchRespTopic \<Rightarrow> FetchRespTopic" where
  "norm_FetchRespTopic v t =
     t\<lparr>frt_Partitions := map (norm_FetchRespPartition (frt_Name t) v) (frt_Partitions t)\<rparr>"

definition norm_FetchResp :: "FetchResp \<Rightarrow> FetchResp" where
  "norm_FetchResp r =
     r\<lparr>fr_ThrottleTime := if KafkaV1 \<le>s fr_Version r then wire_duration (fr_ThrottleTime r) else 0,
       fr_Topics := map (norm_FetchRespTopic (fr_Version r)) (fr_Topics r)\<rparr>"

interpretation AbortedTransaction: struct_codec write_AbortedTransaction read_AbortedTransaction
  zero_FetchRespAbortedTransaction "\<lambda>x. x" "\<lambda>_. True"
proof
  fix t
  show "transfers (write_AbortedTransaction t) read_AbortedTransaction
      zero_FetchRespAbortedTransaction t"
    unfolding write_AbortedTransaction_def read_AbortedTransaction_def
    by (rule transfers_eqI,
        (rule codec_intros | (simp add: zero_FetchRespAbortedTransaction_def; fail))+)
qed

lemma transfers_FetchRespPartition_fields:
  assumes "wf_FetchRespPartition lib p"
  shows "transfers (write_FetchRespPartition_fields v p) (read_FetchRespPartition_fields v)
    zero_FetchRespPartition (norm_FetchRespPartition_fields v p)"
proof -
  note wf = assms[unfolded wf_FetchRespPartition_def]
  show ?thesis
    unfolding write_FetchRespPartition_fields_def read_FetchRespPartition_fields_def
    by (rule transfers_eqI,
        (rule codec_intros AbortedTransaction.array | (simp add: wf list_all_iff; fail))+)
      (simp add: norm_FetchRespPartition_fields_def zero_FetchRespPartition_def)
qed

text \<open>One message set makes one round of the loop; byte 16 is its magic byte.\<close>

lemma magic_byte: "ms \<noteq> [] \<Longrightarrow> messages_wire CompressionNone ms ! 16 = 0"
  by (cases ms) (simp_all add: message_wire_def message_payload_def nth_append)

lemma label_message_version [simp]:
  "label_message name (part\<lparr>frp_MessageVersion := v\<rparr>) = label_message name part"
  by (rule ext) (simp add: label_message_def)

lemma magic_V0: "MessageV0 <s MessageV2"
  by (simp add: word_sless_alt)

lemma fetch_loop_set_step:
  assumes "17 \<le> length (rd_bytes br)" "rd_bytes br ! 16 <s MessageV2"
    "readMessageSet lib conf depth br sz = (Ok msgs, br')"
  shows "fetch_loop (Suc n) lib conf depth spare name sz br part =
    fetch_loop n lib conf depth spare name sz br'
      (part\<lparr>frp_MessageVersion := rd_bytes br ! 16,
        frp_Messages := map (label_message name part) msgs\<rparr>)"
  using assms by (simp add: Let_def)

lemma fetch_loop_messages:
  assumes "wf_messages lib CompressionNone ms" "\<not> SimplifiedMessageSetParsing conf"
    "frp_MessageVersion part = 0" "frp_Messages part = []"
  shows "fetch_loop (Suc (length (messages_wire CompressionNone ms))) lib conf depth spare name
      (of_nat (length (messages_wire CompressionNone ms)))
      (NewReader (messages_wire CompressionNone ms)) part =
    Ok (part\<lparr>frp_Messages := map (\<lambda>m. label_message name part (read_back m)) ms\<rparr>)"
proof (cases "ms = []")
  case True
  then show ?thesis using assms(4) by (simp add: NewReader_def)
next
  case False
  let ?w = "messages_wire CompressionNone ms"
  note wf = assms(1)[unfolded wf_messages_def]
  have "list_all fits ms" using wf by (auto simp: list_all_iff roomy_def fits_def)
  from read_set_plain[OF this, of lib depth "[]"]
  have rd: "readMessageSet lib conf depth (NewReader ?w) (of_nat (length ?w)) =
      (Ok (map read_back ms), NewReader [])"
    using readMessageSet_loop[OF assms(2)] wf by simp
  have long: "17 \<le> length ?w" using False by (cases ms) simp_all
  then obtain n where n: "length ?w = Suc n" by (cases "length ?w") auto
  have "fetch_loop (Suc (Suc n)) lib conf depth spare name (of_nat (length ?w)) (NewReader ?w) part =
      fetch_loop (Suc n) lib conf depth spare name (of_nat (length ?w)) (NewReader [])
        (part\<lparr>frp_MessageVersion := 0, frp_Messages := map (label_message name part) (map read_back ms)\<rparr>)"
    using fetch_loop_set_step[OF _ _ rd, of "Suc n" spare name part] long magic_byte[OF False]
      magic_V0
    by (simp add: NewReader_def del: fetch_loop.simps)
  also have "\<dots> = Ok (part\<lparr>frp_Messages := map (\<lambda>m. label_message name part (read_back m)) ms\<rparr>)"
    using assms(3) by (simp add: NewReader_def comp_def)
  finally show ?thesis by (simp only: n)
qed

lemma delivers_partition_data:
  assumes "wf_messages lib CompressionNone ms" "\<not> SimplifiedMessageSetParsing conf"
    "frp_MessageVersion part = 0" "frp_Messages part = []"
  shows "delivers [put_message_set lib CompressionNone ms]
    [read_partition_data lib conf depth spare name] part
    (part\<lparr>frp_Messages := map (\<lambda>m. label_message name part (read_back m)) ms\<rparr>)"
proof -
  let ?w = "messages_wire CompressionNone ms"
  have w: "set_wire lib CompressionNone ms = ?w" by (simp add: set_wire_def packed_def)
  have len: "length ?w < 2147483648" using assms(1) by (simp add: wf_messages_def)
  have limit: "LimitReader (int (length ?w)) \<lparr>rd_bytes = ?w @ rest, rd_end = EOF, rd_tee = None\<rparr> =
      NewReader ?w" for rest
    by (simp add: LimitReader_def NewReader_def)
  have "read_partition_data lib conf depth spare name
      (memdec (sized_set lib CompressionNone ms @ rest), part) =
    Ok (memdec rest, part\<lparr>frp_Messages := map (\<lambda>m. label_message name part (read_back m)) ms\<rparr>)" for rest
    using fetch_loop_messages[OF assms, of depth spare name] limit[of rest] sint_of_nat_32[OF len]
    by (simp add: read_partition_data_def sized_set_def w decodesD[OF decodes_prims(3)] advance_def
        NewReader_def Let_def del: fetch_loop.simps)
  with emits_message_set[OF assms(1)] show ?thesis
    unfolding delivers_def block_single by blast
qed

lemma delivers_FetchRespPartition:
  assumes "wf_FetchRespPartition lib p" "\<not> SimplifiedMessageSetParsing conf"
  shows "delivers (write_FetchRespPartition lib v p) (read_FetchRespPartition lib conf depth spare name v)
    zero_FetchRespPartition (norm_FetchRespPartition name v p)"
proof -
  let ?p = "norm_FetchRespPartition_fields v p"
  have "delivers ([] @ [put_message_set lib CompressionNone (frp_Messages p)])
      ([check_err] @ [read_partition_data lib conf depth spare name]) ?p
      (?p\<lparr>frp_Messages := map (\<lambda>m. label_message name ?p (read_back m)) (frp_Messages p)\<rparr>)"
    using assms
    by (intro delivers_append[OF delivers_check_err] delivers_partition_data)
      (simp_all add: wf_FetchRespPartition_def norm_FetchRespPartition_fields_def)
  from delivers_append[OF transfers_delivers[OF transfers_FetchRespPartition_fields[OF assms(1)]] this]
  show ?thesis
    by (simp add: write_FetchRespPartition_def read_FetchRespPartition_def norm_FetchRespPartition_def
        label_message_def norm_FetchRespPartition_fields_def)
qed

lemma delivers_FetchRespTopic:
  assumes "wf_FetchRespTopic lib t" "\<not> SimplifiedMessageSetParsing conf"
  shows "delivers (write_FetchRespTopic lib v t) (read_FetchRespTopic lib conf depth spare v)
    zero_FetchRespTopic (norm_FetchRespTopic v t)"
proof -
  note wf = assms(1)[unfolded wf_FetchRespTopic_def]
  let ?t = "zero_FetchRespTopic\<lparr>frt_Name := frt_Name t\<rparr>"
  let ?read = "\<lambda>name. read_array (struct (read_FetchRespPartition lib conf depth spare name v)
      zero_FetchRespPartition) (\<lambda>x t. t\<lparr>frt_Partitions := x\<rparr>)"
  have name: "transfers [EncodeString (frt_Name t)] [read_field DecodeString (\<lambda>x t. t\<lparr>frt_Name := x\<rparr>)]
      zero_FetchRespTopic ?t"
    using pairs_String[of "frt_Name t" "\<lambda>x t. t\<lparr>frt_Name := x\<rparr>" zero_FetchRespTopic] wf
    by (simp add: pairs_def)
  have "delivers [write_array (write_FetchRespPartition lib v) (frt_Partitions t)] [?read (frt_Name t)] ?t
      (?t\<lparr>frt_Partitions := map (norm_FetchRespPartition (frt_Name t) v) (frt_Partitions t)\<rparr>)"
    using wf assms(2)
    by (intro delivers_array delivers_FetchRespPartition) (auto simp: list_all_iff)
  then have "delivers [write_array (write_FetchRespPartition lib v) (frt_Partitions t)]
      [dep frt_Name ?read] ?t
      (?t\<lparr>frt_Partitions := map (norm_FetchRespPartition (frt_Name t) v) (frt_Partitions t)\<rparr>)"
    by (intro delivers_dep) simp_all
  moreover have "?t\<lparr>frt_Partitions := map (norm_FetchRespPartition (frt_Name t) v) (frt_Partitions t)\<rparr> =
      norm_FetchRespTopic v t"
    by (simp add: norm_FetchRespTopic_def zero_FetchRespTopic_def)
  ultimately show ?thesis
    using delivers_append[OF transfers_delivers[OF name]]
    by (simp add: write_FetchRespTopic_def read_FetchRespTopic_def)
qed

lemma delivers_FetchResp:
  assumes "wf_FetchResp lib r" "fr_Version r = v" "\<not> SimplifiedMessageSetParsing conf"
  shows "delivers
    [EncodeInt32 (fr_CorrelationID r),
     if_do (\<lambda>_. KafkaV1 \<le>s v) [EncodeDuration (fr_ThrottleTime r)],
     write_array (write_FetchRespTopic lib v) (fr_Topics r)]
    [read_field DecodeInt32 (\<lambda>x r. r\<lparr>fr_CorrelationID := x\<rparr>),
     if_do (\<lambda>_. KafkaV1 \<le>s v) [read_field DecodeDuration32 (\<lambda>x r. r\<lparr>fr_ThrottleTime := x\<rparr>)],
     read_array (struct (read_FetchRespTopic lib conf depth spare v) zero_FetchRespTopic)
       (\<lambda>x r. r\<lparr>fr_Topics := x\<rparr>)]
    (zero_FetchResp\<lparr>fr_Version := v\<rparr>) (norm_FetchResp r)"
proof -
  note wf = assms(1)[unfolded wf_FetchResp_def]
  let ?r = "zero_FetchResp\<lparr>fr_Version := v, fr_CorrelationID := fr_CorrelationID r,
    fr_ThrottleTime := (if KafkaV1 \<le>s v then wire_duration (fr_ThrottleTime r) else 0)\<rparr>"
  have 1: "transfers [EncodeInt32 (fr_CorrelationID r),
      if_do (\<lambda>_. KafkaV1 \<le>s v) [EncodeDuration (fr_ThrottleTime r)]]
    [read_field DecodeInt32 (\<lambda>x r. r\<lparr>fr_CorrelationID := x\<rparr>),
     if_do (\<lambda>_. KafkaV1 \<le>s v) [read_field DecodeDuration32 (\<lambda>x r. r\<lparr>fr_ThrottleTime := x\<rparr>)]]
    (zero_FetchResp\<lparr>fr_Version := v\<rparr>) ?r"
    by (rule transfers_eqI, (rule codec_intros | (simp; fail))+) (simp add: zero_FetchResp_def)
  have 2: "delivers [write_array (write_FetchRespTopic lib v) (fr_Topics r)]
      [read_array (struct (read_FetchRespTopic lib conf depth spare v) zero_FetchRespTopic)
         (\<lambda>x r. r\<lparr>fr_Topics := x\<rparr>)] ?r
      (?r\<lparr>fr_Topics := map (norm_FetchRespTopic v) (fr_Topics r)\<rparr>)"
    using wf assms(3) by (intro delivers_array delivers_FetchRespTopic) (auto simp: list_all_iff)
  have "?r\<lparr>fr_Topics := map (norm_FetchRespTopic v) (fr_Topics r)\<rparr> = norm_FetchResp r"
    using assms(2) by (simp add: norm_FetchResp_def zero_FetchResp_def)
  with delivers_append[OF transfers_delivers[OF 1] 2] show ?thesis by simp
qed

lemma FetchResp_read_back:
  assumes "wf_FetchResp lib r" "\<not> SimplifiedMessageSetParsing conf"
  shows "obind (FetchResp_Bytes lib r)
      (\<lambda>b. ReadVersionedFetchResp lib conf depth spare (fr_Version r) (NewReader b)) =
    Ok (norm_FetchResp r)"
  by (rule delivers_message[OF delivers_FetchResp[OF assms(1) refl assms(2), of depth spare]])
    (simp add: FetchResp_Bytes_def ReadVersionedFetchResp_def)

text \<open>The correlation ID comes first, as in every response.\<close>

lemma carries_FetchResp: "carries (PutUint32 (fr_CorrelationID r)) (FetchResp_Bytes lib r)"
  unfolding FetchResp_Bytes_def
  by (rule carries_response)
    (simp add: write_FetchRespTopic_def write_FetchRespPartition_def
      write_FetchRespPartition_fields_def write_AbortedTransaction_def)

section \<open>A corrupted message in the middle\<close>

lemma label_message_messages [simp]:
  "label_message name (part\<lparr>frp_Messages := ms\<rparr>) = label_message name part"
  by (rule ext) (simp add: label_message_def)

text \<open>
  \<open>readMessageSet\<close> stops at a message with a wrong checksum, but the loop around it then starts
  over behind that message and assigns \<open>part.Messages\<close> again.
\<close>

lemma fetch_loop_restarts:
  assumes "list_all fits ms" "ms \<noteq> []" "list_all fits ms'" "ms' \<noteq> []"
    "fits m" "length body = 10 + message_len m" "crc \<noteq> ChecksumIEEE body"
    "w = messages_wire CompressionNone ms @ PutUint64 off @ PutUint32 (of_nat (14 + message_len m)) @
      PutUint32 crc @ body @ messages_wire CompressionNone ms'"
    "length w < 2147483648" "\<not> SimplifiedMessageSetParsing conf" "frp_MessageVersion part = 0"
  shows "fetch_loop (Suc (length w)) lib conf depth spare name (of_nat (length w)) (NewReader w) part =
    Ok (part\<lparr>frp_Messages := map (\<lambda>m. label_message name part (read_back m)) ms'\<rparr>)"
proof -
  let ?w' = "messages_wire CompressionNone ms'"
  have r1: "readMessageSet lib conf depth (NewReader w) (of_nat (length w)) =
      (Ok (map read_back ms), NewReader ?w')"
    using read_set_bad_crc[OF assms(1,5,6,7), of lib depth off ?w' "[]"]
      readMessageSet_loop[OF assms(10,9)] by (simp add: assms(8))
  have r2: "readMessageSet lib conf depth (NewReader ?w') (of_nat (length w)) =
      (Ok (map read_back ms'), NewReader [])"
    using read_set_plain[OF assms(3), of lib depth "[]"] readMessageSet_loop[OF assms(10,9)] by simp
  have long: "17 \<le> length ?w'" using assms(4) by (cases ms') simp_all
  have "17 \<le> length (messages_wire CompressionNone ms)" using assms(2) by (cases ms) simp_all
  then have w: "17 \<le> length w" "w ! 16 = 0"
    using magic_byte[OF assms(2)] by (simp_all add: assms(8) nth_append)
  from w(1) obtain n where n: "length w = Suc (Suc n)" by (cases "length w"; cases "length w - 1") auto
  have "fetch_loop (Suc (Suc (Suc n))) lib conf depth spare name (of_nat (length w)) (NewReader w) part =
      fetch_loop (Suc (Suc n)) lib conf depth spare name (of_nat (length w)) (NewReader ?w')
        (part\<lparr>frp_MessageVersion := 0, frp_Messages := map (label_message name part) (map read_back ms)\<rparr>)"
    using fetch_loop_set_step[OF _ _ r1, of "Suc (Suc n)" spare name part] w magic_V0
    by (simp add: NewReader_def del: fetch_loop.simps)
  also have "\<dots> = fetch_loop (Suc n) lib conf depth spare name (of_nat (length w)) (NewReader [])
      (part\<lparr>frp_MessageVersion := 0, frp_Messages := map (label_message name part) (map read_back ms')\<rparr>)"
    using fetch_loop_set_step[OF _ _ r2, of "Suc n" spare name] long magic_byte[OF assms(4)] magic_V0
    by (simp add: NewReader_def del: fetch_loop.simps)
  also have "\<dots> = Ok (part\<lparr>frp_Messages := map (\<lambda>m. label_message name part (read_back m)) ms'\<rparr>)"
    using assms(11) by (simp add: NewReader_def comp_def)
  finally show ?thesis by (simp only: n)
qed

section \<open>Properties\<close>

definition example_FetchReq :: FetchReq where
  "example_FetchReq = \<lparr>version = 5, correlationID = 7, ClientID = str ''c'', fq_ReplicaID = 3,
     fq_MaxWaitTime = 3000000, fq_MinBytes = 1, fq_MaxBytes = 100, fq_IsolationLevel = 1,
     fq_Topics = [\<lparr>fqt_Name = str ''a'', fqt_Partitions =
       [\<lparr>fqp_ID = 0, fqp_FetchOffset = 42, fqp_LogStartOffset = 0, fqp_MaxBytes = 100\<rparr>]\<rparr>]\<rparr>"

definition example_FetchResp :: FetchResp where
  "example_FetchResp = \<lparr>fr_Version = 5, fr_CorrelationID = 7, fr_ThrottleTime = 3000000,
     fr_Topics = [\<lparr>frt_Name = str ''a'', frt_Partitions =
       [zero_FetchRespPartition\<lparr>frp_TipOffset := 7, frp_Messages := example_messages\<rparr>,
        zero_FetchRespPartition\<lparr>frp_ID := 1, frp_Messages := example_messages\<rparr>]\<rparr>]\<rparr>"

lemma example_messages_wf: "wf_messages lib CompressionNone example_messages"
  by (simp add: wf_messages_def example_messages_def zero_Message_def roomy_def message_len_def
      maxInt32_def packed_def set_wire_def)

text \<open>
  Fetch requests of every version are read back as they were written, up to the fields
  their version does not carry and the replica ID, which is always -1; a truncated one is rejected.
\<close>

lemma fetch_request_codec:
  assumes "wf_FetchReq q"
  shows "round_trips (FetchReq_Bytes q) ReadFetchReq (norm_FetchReq q)"
  using assms by (rule FetchReq.round_trip)

lemma fetch_request_codec_witness:
  "round_trips (FetchReq_Bytes example_FetchReq) ReadFetchReq (norm_FetchReq example_FetchReq)"
  by (rule fetch_request_codec)
    (simp add: example_FetchReq_def wf_FetchReq_def wf_FetchReqTopic_def wf_header_def wf_string_def
      wf_array_def str_def)

text \<open>
  C10. Fetch responses of every version with any number of topics and partitions are read
  back: every partition gets exactly its own messages, labelled with topic, partition and tip offset.
\<close>

lemma fetch_response_codec:
  assumes "wf_FetchResp lib r" "\<not> SimplifiedMessageSetParsing conf"
  shows "obind (FetchResp_Bytes lib r)
      (\<lambda>b. ReadVersionedFetchResp lib conf depth spare (fr_Version r) (NewReader b)) =
    Ok (norm_FetchResp r)"
  using assms by (rule FetchResp_read_back)

lemma fetch_response_codec_witness:
  "obind (FetchResp_Bytes example_codecs example_FetchResp)
     (\<lambda>b. ReadVersionedFetchResp example_codecs full_parsing 0 (\<lambda>_. []) (fr_Version example_FetchResp)
       (NewReader b)) = Ok (norm_FetchResp example_FetchResp)"
  by (rule fetch_response_codec)
    (simp_all add: example_FetchResp_def wf_FetchResp_def wf_FetchRespTopic_def
      wf_FetchRespPartition_def zero_FetchRespPartition_def example_messages_wf wf_string_def
      wf_array_def str_def wire_error_def full_parsing_def)

text \<open>
  C29. When a message in the middle of the data of a partition fails its checksum, the
  messages in front of it are lost and the ones behind it are delivered, although the reader of the
  message set says that nothing behind it is processed.
\<close>

lemma fetch_skips_corrupted:
  assumes "list_all fits ms" "ms \<noteq> []" "list_all fits ms'" "ms' \<noteq> []"
    "fits m" "length body = 10 + message_len m" "crc \<noteq> ChecksumIEEE body"
    "w = messages_wire CompressionNone ms @ PutUint64 off @ PutUint32 (of_nat (14 + message_len m)) @
      PutUint32 crc @ body @ messages_wire CompressionNone ms'"
    "length w < 2147483648" "\<not> SimplifiedMessageSetParsing conf" "frp_MessageVersion part = 0"
  shows "fetch_loop (Suc (length w)) lib conf depth spare name (of_nat (length w)) (NewReader w) part =
    Ok (part\<lparr>frp_Messages := map (\<lambda>m. label_message name part (read_back m)) ms'\<rparr>)"
  using assms by (rule fetch_loop_restarts)

definition corrupted_data :: "byte list" where
  "corrupted_data = messages_wire CompressionNone [zero_Message] @ PutUint64 1 @
     PutUint32 (of_nat (14 + message_len zero_Message)) @
     PutUint32 (ChecksumIEEE (replicate 10 0) + 1) @ replicate 10 0 @
     messages_wire CompressionNone [zero_Message\<lparr>Offset := 2\<rparr>]"

lemma fetch_skips_corrupted_witness:
  "fetch_loop (Suc (length corrupted_data)) example_codecs full_parsing 0 (\<lambda>_. []) [] (of_nat (length corrupted_data))
     (NewReader corrupted_data) zero_FetchRespPartition =
   Ok (zero_FetchRespPartition\<lparr>frp_Messages := map (\<lambda>m. label_message [] zero_FetchRespPartition (read_back m))
     [zero_Message\<lparr>Offset := 2\<rparr>]\<rparr>)"
  by (rule fetch_skips_corrupted[OF _ _ _ _ _ _ _ corrupted_data_def])
    (simp_all add: fits_def message_len_def zero_Message_def maxInt32_def corrupted_data_def
    full_parsing_def zero_FetchRespPartition_def)

end
