(* ===== verification/Connection.thy ===== *)
theory Connection
  imports Steps Metadata ConsumerMetadata OffsetCommit OffsetFetch OffsetQuery CreateTopics ApiVersions
    Fetch
begin

text \<open>
  \<open>v2/connection.go\<close>: one connection to a broker, shared by any number of goroutines that
  send requests.  Three kinds of goroutines work on it: \<open>nextIDLoop\<close> hands out correlation IDs,
  \<open>readRespLoop\<close> reads responses and passes each to the goroutine that waits for it, and the
  callers of \<open>sendRequest\<close>.  The operations under the mutex are functions on the state, and
  \<open>conn_step\<close> interleaves the goroutines.  The network is free to succeed or fail at any time and
  to deliver any response.
\<close>

section \<open>State\<close>

text \<open>
  A response channel is a number; \<open>closed\<close> collects the closed ones.  Closing a closed channel
  panics, which \<open>panicked\<close> records.
\<close>

record connection =
  stop_closed :: bool
  nextID :: int32
  nextID_closed :: bool
  respc :: "int32 \<rightharpoonup> nat"
  stopErr :: goerror
  apiVersions :: "int16 \<rightharpoonup> SupportedVersion"
  fresh :: nat
  closed :: "nat set"
  panicked :: bool

definition new_connection :: connection where
  "new_connection = \<lparr>stop_closed = False, nextID = 1, nextID_closed = False, respc = (\<lambda>_. None),
     stopErr = None, apiVersions = (\<lambda>_. None), fresh = 0, closed = {}, panicked = False\<rparr>"

definition close_chan :: "nat \<Rightarrow> connection \<Rightarrow> connection" where
  "close_chan ch c =
     c\<lparr>closed := insert ch (closed c), panicked := panicked c \<or> ch \<in> closed c\<rparr>"

definition close_stop :: "connection \<Rightarrow> connection" where
  "close_stop c = c\<lparr>stop_closed := True, panicked := panicked c \<or> stop_closed c\<rparr>"

section \<open>Versions\<close>

definition min16 :: "int16 \<Rightarrow> int16 \<Rightarrow> int16" where
  "min16 a b = (if a <s b then a else b)"

definition max16 :: "int16 \<Rightarrow> int16 \<Rightarrow> int16" where
  "max16 a b = (if b <s a then a else b)"

text \<open>A key the driver's table does not list gives the zero value.\<close>

definition supported_by_driver :: "int16 \<Rightarrow> SupportedVersion" where
  "supported_by_driver apiKey =
     (case SupportedByDriver apiKey of None \<Rightarrow> zero_SupportedVersion | Some v \<Rightarrow> v)"

definition getBestVersion :: "int16 \<Rightarrow> connection \<Rightarrow> int16" where
  "getBestVersion apiKey c =
     (case apiVersions c apiKey of
        Some requested \<Rightarrow>
          let supported = supported_by_driver apiKey
          in if max16 (MinVersion supported) (MinVersion requested) \<le>s
                min16 (MaxVersion supported) (MaxVersion requested)
             then min16 (MaxVersion supported) (MaxVersion requested)
             else 0
      | None \<Rightarrow> 0)"

text \<open>\<open>resp\<close> is what \<open>c.APIVersions\<close> returned.\<close>

definition cacheApiVersions :: "APIVersionsResp res \<Rightarrow> connection \<Rightarrow> connection res" where
  "cacheApiVersions resp c =
     obind resp (\<lambda>r. Ok (c\<lparr>apiVersions :=
       foldl (\<lambda>m api. m(APIKey api \<mapsto> api)) (apiVersions c) (av_APIVersions r)\<rparr>))"

section \<open>Operations under the mutex\<close>

definition next_id :: "int32 \<Rightarrow> int32" where
  "next_id i = (let i = i + 1 in if i = of_int maxInt32 then 1 else i)"

definition respWaiter :: "int32 \<Rightarrow> connection \<Rightarrow> (error + nat) \<times> connection" where
  "respWaiter i c =
     (case stopErr c of
        Some err \<Rightarrow> (Inl err, c)
      | None \<Rightarrow>
          (case respc c i of
             Some _ \<Rightarrow> (Inl (CorrelationConflict i), c)
           | None \<Rightarrow>
               (Inr (fresh c), c\<lparr>respc := (respc c)(i \<mapsto> fresh c), fresh := Suc (fresh c)\<rparr>)))"

definition releaseWaiter :: "int32 \<Rightarrow> connection \<Rightarrow> connection" where
  "releaseWaiter i c =
     (case respc c i of
        Some rc \<Rightarrow> close_chan rc (c\<lparr>respc := (respc c)(i := None)\<rparr>)
      | None \<Rightarrow> c)"

definition conn_Close :: "connection \<Rightarrow> connection" where
  "conn_Close c = (if stopErr c = None then close_stop (c\<lparr>stopErr := Some ErrClosed\<rparr>) else c)"

text \<open>
  The critical sections of \<open>readRespLoop\<close>: a failed read, the lookup of the waiter, the stop
  signal while a response is handed over, and the deferred function.
\<close>

definition read_failed :: "error \<Rightarrow> connection \<Rightarrow> connection" where
  "read_failed err c = (if stopErr c = None then close_stop (c\<lparr>stopErr := Some err\<rparr>) else c)"

definition take_waiter :: "int32 \<Rightarrow> connection \<Rightarrow> nat option \<times> connection" where
  "take_waiter i c = (respc c i, c\<lparr>respc := (respc c)(i := None)\<rparr>)"

definition stopped_handing :: "connection \<Rightarrow> connection" where
  "stopped_handing c = (if stopErr c = None then c\<lparr>stopErr := Some ErrClosed\<rparr> else c)"

definition close_waiters :: "connection \<Rightarrow> connection" where
  "close_waiters c =
     c\<lparr>closed := closed c \<union> ran (respc c), respc := (\<lambda>_. None),
       panicked := panicked c \<or> closed c \<inter> ran (respc c) \<noteq> {}\<rparr>"

section \<open>Interleaving\<close>

text \<open>
  A call of \<open>sendRequest\<close> (\<open>acks\<close>) or \<open>sendRequestWithoutAcks\<close> (no \<open>acks\<close>): before it has an ID,
  with one, registered and writing, waiting for the response, or returned.  \<open>Returned\<close> holds the
  ID it used and the response or the error (\<open>Inl None\<close>: no response and a nil error); \<open>Sent\<close> is
  the return of the call without acks.  The reader is reading, handing over a response, about to
  close the channel it has handed over, past a failed read, or at its end.  \<open>arrived\<close> lists the
  responses \<open>ReadResp\<close> has returned, the latest first; \<open>issued\<close> counts the IDs taken.
\<close>

datatype sender =
    Start bool
  | HasID bool int32
  | Registered int32 nat
  | Waiting int32 nat
  | Returned int32 "goerror + byte list"
  | Sent goerror

datatype respLoop = Reading | Handing int32 nat "byte list" | Closing nat | Stopping | Ended

record world =
  conn :: connection
  senders :: "nat \<Rightarrow> sender"
  respLoop_at :: respLoop
  arrived :: "(int32 \<times> byte list) list"
  issued :: nat

definition world_init :: "world \<Rightarrow> bool" where
  "world_init w \<longleftrightarrow> conn w = new_connection \<and> (\<forall>t. \<exists>acks. senders w t = Start acks) \<and>
     respLoop_at w = Reading \<and> arrived w = [] \<and> issued w = 0"

abbreviation set_sender :: "nat \<Rightarrow> sender \<Rightarrow> world \<Rightarrow> world" where
  "set_sender t s w \<equiv> w\<lparr>senders := (senders w)(t := s)\<rparr>"

inductive conn_step :: "world \<Rightarrow> world \<Rightarrow> bool" where
  take_id: "senders w t = Start acks \<Longrightarrow> \<not> nextID_closed (conn w) \<Longrightarrow>
    conn_step w (set_sender t (HasID acks (nextID (conn w)))
      (w\<lparr>conn := (conn w)\<lparr>nextID := next_id (nextID (conn w))\<rparr>, issued := Suc (issued w)\<rparr>))"
| ids_stop: "stop_closed (conn w) \<Longrightarrow> \<not> nextID_closed (conn w) \<Longrightarrow>
    conn_step w (w\<lparr>conn := (conn w)\<lparr>nextID_closed := True\<rparr>\<rparr>)"
| no_id: "senders w t = Start acks \<Longrightarrow> nextID_closed (conn w) \<Longrightarrow>
    conn_step w (set_sender t
      (if acks then Returned 0 (Inl (stopErr (conn w))) else Sent (stopErr (conn w))) w)"
| sent: "senders w t = HasID False i \<Longrightarrow> conn_step w (set_sender t (Sent err) w)"
| register: "senders w t = HasID True i \<Longrightarrow> respWaiter i (conn w) = (Inr ch, c') \<Longrightarrow>
    conn_step w (set_sender t (Registered i ch) (w\<lparr>conn := c'\<rparr>))"
| register_fails: "senders w t = HasID True i \<Longrightarrow> respWaiter i (conn w) = (Inl err, c') \<Longrightarrow>
    conn_step w (set_sender t (Returned i (Inl (Some (WaitForResponse err)))) (w\<lparr>conn := c'\<rparr>))"
| written: "senders w t = Registered i ch \<Longrightarrow> conn_step w (set_sender t (Waiting i ch) w)"
| write_fails: "senders w t = Registered i ch \<Longrightarrow>
    conn_step w (set_sender t (Returned i (Inl (Some err)))
      (w\<lparr>conn := releaseWaiter i (conn w)\<rparr>))"
| receive_closed: "senders w t = Waiting i ch \<Longrightarrow> ch \<in> closed (conn w) \<Longrightarrow>
    conn_step w (set_sender t (Returned i (Inl (stopErr (conn w)))) w)"
| read_response: "respLoop_at w = Reading \<Longrightarrow> ReadResp rd = (Ok (i, b), rd') \<Longrightarrow>
    take_waiter i (conn w) = (Some ch, c') \<Longrightarrow>
    conn_step w (w\<lparr>conn := c', respLoop_at := Handing i ch b, arrived := (i, b) # arrived w\<rparr>)"
| read_unknown: "respLoop_at w = Reading \<Longrightarrow> ReadResp rd = (Ok (i, b), rd') \<Longrightarrow>
    take_waiter i (conn w) = (None, c') \<Longrightarrow>
    conn_step w (w\<lparr>conn := c', arrived := (i, b) # arrived w\<rparr>)"
| read_fails: "respLoop_at w = Reading \<Longrightarrow> ReadResp rd = (Err err, rd') \<Longrightarrow>
    conn_step w (w\<lparr>conn := read_failed err (conn w), respLoop_at := Stopping\<rparr>)"
| hand_over: "respLoop_at w = Handing i ch b \<Longrightarrow> senders w t = Waiting j ch \<Longrightarrow>
    conn_step w (set_sender t (Returned j (Inr b)) (w\<lparr>respLoop_at := Closing ch\<rparr>))"
| hand_stop: "respLoop_at w = Handing i ch b \<Longrightarrow> stop_closed (conn w) \<Longrightarrow>
    conn_step w (w\<lparr>conn := stopped_handing (conn w), respLoop_at := Closing ch\<rparr>)"
| close_handed: "respLoop_at w = Closing ch \<Longrightarrow>
    conn_step w (w\<lparr>conn := close_chan ch (conn w), respLoop_at := Reading\<rparr>)"
| reader_ends: "respLoop_at w = Stopping \<Longrightarrow>
    conn_step w (w\<lparr>conn := close_waiters (conn w), respLoop_at := Ended\<rparr>)"
| close_conn: "conn_step w (w\<lparr>conn := conn_Close (conn w)\<rparr>)"

inductive_cases conn_stepE: "conn_step w w'"

section \<open>Invariants\<close>

definition chan_inv :: "connection \<Rightarrow> bool" where
  "chan_inv c \<longleftrightarrow> (stop_closed c \<longleftrightarrow> stopErr c \<noteq> None) \<and> (nextID_closed c \<longrightarrow> stop_closed c) \<and>
     \<not> panicked c \<and> (\<forall>ch \<in> closed c. ch < fresh c) \<and>
     (\<forall>i ch. respc c i = Some ch \<longrightarrow> ch < fresh c \<and> ch \<notin> closed c) \<and>
     (\<forall>i j ch. respc c i = Some ch \<longrightarrow> respc c j = Some ch \<longrightarrow> i = j)"

primrec held :: "respLoop \<Rightarrow> nat option" where
  "held Reading = None"
| "held (Handing i ch b) = Some ch"
| "held (Closing ch) = Some ch"
| "held Stopping = None"
| "held Ended = None"

definition loop_inv :: "world \<Rightarrow> bool" where
  "loop_inv w \<longleftrightarrow>
     (\<forall>ch. held (respLoop_at w) = Some ch \<longrightarrow>
        ch < fresh (conn w) \<and> ch \<notin> closed (conn w) \<and> (\<forall>j. respc (conn w) j \<noteq> Some ch)) \<and>
     (\<forall>i ch b. respLoop_at w = Handing i ch b \<longrightarrow> (i, b) \<in> set (arrived w)) \<and>
     (respLoop_at w = Stopping \<or> respLoop_at w = Ended \<longrightarrow> stopErr (conn w) \<noteq> None) \<and>
     (respLoop_at w = Ended \<longrightarrow> respc (conn w) = (\<lambda>_. None))"

primrec waits :: "sender \<Rightarrow> (int32 \<times> nat) option" where
  "waits (Start acks) = None"
| "waits (HasID acks i) = None"
| "waits (Registered i ch) = Some (i, ch)"
| "waits (Waiting i ch) = Some (i, ch)"
| "waits (Returned i r) = None"
| "waits (Sent err) = None"

definition attended :: "world \<Rightarrow> int32 \<Rightarrow> nat \<Rightarrow> bool" where
  "attended w i ch \<longleftrightarrow> ch < fresh (conn w) \<and>
     (respc (conn w) i = Some ch \<or> (\<exists>b. respLoop_at w = Handing i ch b) \<or>
      respLoop_at w = Closing ch \<and> stopErr (conn w) \<noteq> None \<or> ch \<in> closed (conn w))"

definition sender_inv :: "world \<Rightarrow> bool" where
  "sender_inv w \<longleftrightarrow>
     (\<forall>t i ch. waits (senders w t) = Some (i, ch) \<longrightarrow> attended w i ch) \<and>
     (\<forall>t t' i i' ch. waits (senders w t) = Some (i, ch) \<longrightarrow>
        waits (senders w t') = Some (i', ch) \<longrightarrow> t = t') \<and>
     (\<forall>i ch. respc (conn w) i = Some ch \<longrightarrow> (\<exists>t. waits (senders w t) = Some (i, ch)))"

definition answer_inv :: "world \<Rightarrow> bool" where
  "answer_inv w \<longleftrightarrow> (\<forall>t i b. senders w t = Returned i (Inr b) \<longrightarrow> (i, b) \<in> set (arrived w))"

lemmas conn_ops = close_chan_def close_stop_def respWaiter_def releaseWaiter_def conn_Close_def
  read_failed_def take_waiter_def stopped_handing_def close_waiters_def

lemma respWaiter_Inl: "respWaiter i c = (Inl err, c') \<Longrightarrow> c' = c"
  by (auto simp: respWaiter_def split: option.splits)

lemma respWaiter_Inr:
  "respWaiter i c = (Inr ch, c') \<longleftrightarrow> stopErr c = None \<and> respc c i = None \<and> ch = fresh c \<and>
     c' = c\<lparr>respc := (respc c)(i \<mapsto> ch), fresh := Suc ch\<rparr>"
  by (auto simp: respWaiter_def split: option.splits)

lemma chan_inv_respWaiter:
  "respWaiter i c = (Inr ch, c') \<Longrightarrow> chan_inv c \<Longrightarrow> chan_inv c'"
  by (auto simp: respWaiter_Inr chan_inv_def less_Suc_eq split: if_splits)

lemma chan_inv_take_waiter: "chan_inv c \<Longrightarrow> chan_inv (c\<lparr>respc := (respc c)(i := None)\<rparr>)"
  by (auto simp: chan_inv_def)

lemma chan_inv_close_chan:
  assumes "chan_inv c" "ch < fresh c" "ch \<notin> closed c" "\<forall>j. respc c j \<noteq> Some ch"
  shows "chan_inv (close_chan ch c)"
  using assms by (auto simp: chan_inv_def close_chan_def)

lemma chan_inv_releaseWaiter:
  assumes "chan_inv c"
  shows "chan_inv (releaseWaiter i c)"
proof (cases "respc c i")
  case (Some ch)
  with assms have "ch < fresh c" "ch \<notin> closed c" "\<forall>j. ((respc c)(i := None)) j \<noteq> Some ch"
    by (auto simp: chan_inv_def)
  with Some show ?thesis
    by (simp add: releaseWaiter_def chan_inv_close_chan chan_inv_take_waiter assms)
qed (simp add: releaseWaiter_def assms)

lemma chan_inv_close_waiters: "chan_inv c \<Longrightarrow> chan_inv (close_waiters c)"
  by (auto simp: chan_inv_def close_waiters_def ran_def)

lemma chan_inv_stop:
  assumes "chan_inv c"
  shows "chan_inv (conn_Close c)" "chan_inv (read_failed err c)"
  using assms
  by (auto simp: chan_inv_def conn_Close_def read_failed_def close_stop_def)

lemma stopped_handing_id: "chan_inv c \<Longrightarrow> stop_closed c \<Longrightarrow> stopped_handing c = c"
  by (simp add: chan_inv_def stopped_handing_def)

lemma step_chan_inv:
  assumes "conn_step w w'" "chan_inv (conn w)" "loop_inv w"
  shows "chan_inv (conn w')"
  using assms
proof (cases rule: conn_step.cases)
  case take_id
  then show ?thesis using assms(2) by (simp add: chan_inv_def)
next
  case ids_stop
  then show ?thesis using assms(2) by (simp add: chan_inv_def)
next
  case (close_handed ch)
  with assms(3) have "ch < fresh (conn w)" "ch \<notin> closed (conn w)"
    "\<forall>j. respc (conn w) j \<noteq> Some ch"
    by (auto simp: loop_inv_def)
  with close_handed assms(2) show ?thesis by (simp add: chan_inv_close_chan)
qed (auto simp: assms(2) chan_inv_take_waiter chan_inv_releaseWaiter chan_inv_close_waiters
    chan_inv_stop stopped_handing_id take_waiter_def dest: respWaiter_Inl chan_inv_respWaiter)

lemmas chan_simps = close_chan_def close_stop_def conn_Close_def read_failed_def close_waiters_def

lemma step_loop_inv:
  assumes "conn_step w w'" "chan_inv (conn w)" "loop_inv w"
  shows "loop_inv w'"
  using assms
proof (cases rule: conn_step.cases)
  case (register t i ch c')
  then show ?thesis using assms by (auto simp: loop_inv_def respWaiter_Inr less_Suc_eq)
next
  case (register_fails t i err c')
  then show ?thesis using assms by (auto simp: loop_inv_def dest: respWaiter_Inl)
next
  case (write_fails t i ch err)
  then show ?thesis using assms
    by (auto simp: loop_inv_def releaseWaiter_def close_chan_def split: option.splits)
next
  case (read_response rd i b rd' ch c')
  then show ?thesis using assms(2) by (auto simp: loop_inv_def take_waiter_def chan_inv_def split: if_splits)
next
  case (hand_stop i ch b)
  then show ?thesis using assms by (auto simp: loop_inv_def stopped_handing_id)
qed (use assms in \<open>auto simp: loop_inv_def chan_simps take_waiter_def\<close>)

lemma step_answer_inv:
  assumes "conn_step w w'" "chan_inv (conn w)" "loop_inv w" "sender_inv w" "answer_inv w"
  shows "answer_inv w'"
  using assms
proof (cases rule: conn_step.cases)
  case (hand_over i ch b t j)
  then have "waits (senders w t) = Some (j, ch)" by simp
  with assms(4) have "attended w j ch" by (auto simp: sender_inv_def)
  with hand_over assms(3) have "i = j" by (auto simp: attended_def loop_inv_def)
  with hand_over assms(3,5) show ?thesis by (auto simp: answer_inv_def loop_inv_def)
qed (use assms(5) in \<open>auto simp: answer_inv_def split: if_splits\<close>)


lemma sender_invI:
  assumes "\<And>t i ch. waits (senders w t) = Some (i, ch) \<Longrightarrow> attended w i ch"
    and "\<And>t t' i i' ch. waits (senders w t) = Some (i, ch) \<Longrightarrow>
      waits (senders w t') = Some (i', ch) \<Longrightarrow> t = t'"
    and "\<And>i ch. respc (conn w) i = Some ch \<Longrightarrow> \<exists>t. waits (senders w t) = Some (i, ch)"
  shows "sender_inv w"
  using assms unfolding sender_inv_def by blast

lemma sender_invD:
  assumes "sender_inv w"
  shows "waits (senders w t) = Some (i, ch) \<Longrightarrow> attended w i ch"
    and "waits (senders w t) = Some (i, ch) \<Longrightarrow> waits (senders w t') = Some (i', ch) \<Longrightarrow> t = t'"
    and "respc (conn w) i = Some ch \<Longrightarrow> \<exists>t. waits (senders w t) = Some (i, ch)"
  using assms unfolding sender_inv_def by blast+

text \<open>Steps in which no call starts or stops to wait.\<close>

lemma sender_inv_mono:
  assumes "sender_inv w" "\<And>t. waits (senders w' t) = waits (senders w t)"
    "\<And>i ch. respc (conn w') i = Some ch \<Longrightarrow> respc (conn w) i = Some ch"
    "\<And>i ch. attended w i ch \<Longrightarrow> attended w' i ch"
  shows "sender_inv w'"
  by (rule sender_invI) (use assms sender_invD[OF assms(1)] in metis)+

lemma waits_upd: "waits (((senders w)(t := s)) u) = (if u = t then waits s else waits (senders w u))"
  by simp

lemma sender_inv_same:
  assumes "sender_inv w" "waits s = waits (senders w t)"
  shows "sender_inv (set_sender t s w)"
  by (rule sender_inv_mono[OF assms(1)]) (use assms(2) in \<open>auto simp: attended_def\<close>)

lemma sender_inv_register:
  assumes "sender_inv w" "chan_inv (conn w)" "loop_inv w" "senders w t = HasID acks i"
    "respWaiter i (conn w) = (Inr ch, c')"
  shows "sender_inv (set_sender t (Registered i ch) (w\<lparr>conn := c'\<rparr>))" (is "sender_inv ?w")
proof -
  note new = assms(5)[unfolded respWaiter_Inr]
  have lt: "ch' < fresh (conn w)" if "waits (senders w u) = Some (j, ch')" for u j ch'
    using sender_invD(1)[OF assms(1) that] by (simp add: attended_def)
  show ?thesis
  proof (rule sender_invI)
    show "attended ?w j ch'" if "waits (senders ?w u) = Some (j, ch')" for u j ch'
    proof (cases "u = t")
      case False
      with that have "attended w j ch'" using sender_invD(1)[OF assms(1)] by simp
      with new show ?thesis by (auto simp: attended_def)
    qed (use that new in \<open>auto simp: attended_def\<close>)
    show "u = u'" if "waits (senders ?w u) = Some (j, ch')" "waits (senders ?w u') = Some (j', ch')"
      for u u' j j' ch'
      using that lt new sender_invD(2)[OF assms(1)] by (fastforce split: if_splits)
    show "\<exists>u. waits (senders ?w u) = Some (j, ch')" if "respc (conn ?w) j = Some ch'" for j ch'
    proof (cases "j = i")
      case False
      with that new have "respc (conn w) j = Some ch'" by simp
      then obtain u where "waits (senders w u) = Some (j, ch')"
        using sender_invD(3)[OF assms(1)] by blast
      moreover from this assms(4) have "u \<noteq> t" by auto
      ultimately show ?thesis by (intro exI[of _ u]) simp
    qed (use that new in \<open>auto intro: exI[of _ t]\<close>)
  qed
qed

text \<open>A call that stops to wait while no entry of the table is its own.\<close>

lemma sender_inv_leave:
  assumes "sender_inv w" "waits s = None"
    "\<And>i ch. waits (senders w t) = Some (i, ch) \<Longrightarrow> respc (conn w') i \<noteq> Some ch"
    "senders w' = (senders w)(t := s)"
    "\<And>i ch. respc (conn w') i = Some ch \<Longrightarrow> respc (conn w) i = Some ch"
    "\<And>u i ch. u \<noteq> t \<Longrightarrow> waits (senders w u) = Some (i, ch) \<Longrightarrow> attended w' i ch"
  shows "sender_inv w'"
proof (rule sender_invI)
  show "attended w' i ch" if "waits (senders w' u) = Some (i, ch)" for u i ch
    using that assms(2,4,6) by (auto split: if_splits)
  show "u = u'" if "waits (senders w' u) = Some (i, ch)" "waits (senders w' u') = Some (i', ch)"
    for u u' i i' ch
    using that assms(2,4) sender_invD(2)[OF assms(1)] by (auto split: if_splits)
  show "\<exists>u. waits (senders w' u) = Some (i, ch)" if "respc (conn w') i = Some ch" for i ch
  proof -
    from that have "respc (conn w) i = Some ch" by (rule assms(5))
    then obtain u where u: "waits (senders w u) = Some (i, ch)"
      using sender_invD(3)[OF assms(1)] by blast
    with assms(3)[of i ch] that have "u \<noteq> t" by auto
    with u assms(4) show ?thesis by (intro exI[of _ u]) simp
  qed
qed

lemma step_sender_inv:
  assumes "conn_step w w'" "chan_inv (conn w)" "loop_inv w" "sender_inv w"
  shows "sender_inv w'"
  using assms(1)
proof (cases rule: conn_step.cases)
  case (register t i ch c')
  show ?thesis
    unfolding register(1) by (rule sender_inv_register[OF assms(4,2,3) register(2,3)])
next
  case (register_fails t i err c')
  then show ?thesis using assms(4)
    by (auto dest!: respWaiter_Inl simp: sender_inv_same)
next
  case (write_fails t i ch err)
  show ?thesis
    by (rule sender_inv_leave[OF assms(4), of "Returned i (Inl (Some err))" t])
      (use write_fails sender_invD(1)[OF assms(4)] in
        \<open>fastforce simp: releaseWaiter_def close_chan_def attended_def
           split: option.splits if_splits\<close>)+
next
  case (receive_closed t i ch)
  show ?thesis
    by (rule sender_inv_leave[OF assms(4), of "Returned i (Inl (stopErr (conn w)))" t])
      (use receive_closed assms(2) sender_invD(1)[OF assms(4)] in
        \<open>fastforce simp: attended_def chan_inv_def\<close>)+
next
  case (hand_over i ch b t j)
  show ?thesis
  proof (rule sender_inv_leave[OF assms(4), of "Returned j (Inr b)" t])
    show "attended w' k ch'" if "u \<noteq> t" "waits (senders w u) = Some (k, ch')" for u k ch'
    proof -
      have "ch' \<noteq> ch" using that hand_over sender_invD(2)[OF assms(4)] by fastforce
      with hand_over sender_invD(1)[OF assms(4) that(2)] show ?thesis
        by (simp add: attended_def)
    qed
  qed (use hand_over assms(3) in \<open>auto simp: loop_inv_def\<close>)
next
  case (hand_stop i ch b)
  then show ?thesis using assms(2)
    by (intro sender_inv_mono[OF assms(4)])
      (auto simp: stopped_handing_id attended_def chan_inv_def)
qed (rule sender_inv_mono[OF assms(4)];
  auto simp: attended_def take_waiter_def chan_simps ran_def split: if_splits)+

definition conn_inv :: "world \<Rightarrow> bool" where
  "conn_inv w \<longleftrightarrow> chan_inv (conn w) \<and> loop_inv w \<and> sender_inv w \<and> answer_inv w"

interpretation ci: invariant world_init conn_step conn_inv
proof
  fix w assume "world_init w"
  moreover from this have "waits (senders w t) = None" "senders w t \<noteq> Returned i r" for t i r
    by (auto simp: world_init_def dest: spec[of _ t])
  ultimately show "conn_inv w"
    by (auto simp: world_init_def conn_inv_def chan_inv_def loop_inv_def sender_inv_def
        answer_inv_def new_connection_def)
next
  fix w w' assume "conn_inv w" "conn_step w w'"
  then show "conn_inv w'"
    unfolding conn_inv_def using step_chan_inv step_loop_inv step_sender_inv step_answer_inv by blast
qed

section \<open>Correlation IDs\<close>

definition ids :: nat where
  "ids = 2147483646"

lemma next_id_unat:
  assumes "unat i = Suc (n mod ids)"
  shows "unat (next_id i) = Suc (Suc n mod ids)"
proof -
  have lt: "n mod ids < ids" by (simp add: ids_def)
  with assms have suc: "unat (i + 1) = Suc (Suc (n mod ids))"
    by (simp add: unat_plus_if' ids_def)
  show ?thesis
  proof (cases "Suc (n mod ids) = ids")
    case True
    with suc have "i + 1 = 2147483647"
      by (intro word_unat_eq_iff[THEN iffD2]) (simp add: ids_def)
    with True show ?thesis by (simp add: next_id_def maxInt32_def Let_def mod_Suc)
  next
    case False
    then have "unat (i + 1) \<noteq> 2147483647" using suc by (simp add: ids_def)
    then have "i + 1 \<noteq> 2147483647" by auto
    with suc False show ?thesis by (simp add: next_id_def maxInt32_def Let_def mod_Suc)
  qed
qed

primrec id_of :: "sender \<Rightarrow> int32 option" where
  "id_of (Start acks) = None"
| "id_of (HasID acks i) = Some i"
| "id_of (Registered i ch) = Some i"
| "id_of (Waiting i ch) = Some i"
| "id_of (Returned i r) = None"
| "id_of (Sent err) = None"

definition distinct_ids :: "world \<Rightarrow> bool" where
  "distinct_ids w \<longleftrightarrow>
     (\<forall>t i. id_of (senders w t) = Some i \<longrightarrow> 1 \<le> unat i \<and> unat i \<le> issued w) \<and>
     (\<forall>t t' i. id_of (senders w t) = Some i \<longrightarrow> id_of (senders w t') = Some i \<longrightarrow> t = t')"

definition explained :: "world \<Rightarrow> bool" where
  "explained w \<longleftrightarrow>
     (\<forall>t i ch. waits (senders w t) = Some (i, ch) \<longrightarrow> ch \<in> closed (conn w) \<longrightarrow>
        stopErr (conn w) \<noteq> None) \<and>
     (\<forall>t i err. senders w t = Returned i (Inl err) \<longrightarrow> err \<noteq> None)"

definition id_inv :: "world \<Rightarrow> bool" where
  "id_inv w \<longleftrightarrow> conn_inv w \<and> unat (nextID (conn w)) = Suc (issued w mod ids) \<and>
     (issued w \<le> ids \<longrightarrow> distinct_ids w \<and> explained w)"

lemma step_nextID:
  assumes "conn_step w w'" "unat (nextID (conn w)) = Suc (issued w mod ids)"
  shows "unat (nextID (conn w')) = Suc (issued w' mod ids)"
  using assms(1)
proof (cases rule: conn_step.cases)
  case (take_id t acks)
  then show ?thesis using next_id_unat[OF assms(2)] by simp
qed (use assms(2) in \<open>auto simp: chan_simps respWaiter_def releaseWaiter_def take_waiter_def
  stopped_handing_def split: option.splits if_splits\<close>)

lemma step_issued: "conn_step w w' \<Longrightarrow> issued w \<le> issued w'"
  by (erule conn_stepE) auto

lemma id_of_waits: "waits s = Some (i, ch) \<Longrightarrow> id_of s = Some i"
  by (cases s) auto

lemma distinct_ids_mono:
  assumes "distinct_ids w" "issued w \<le> issued w'"
    "\<And>t. id_of (senders w' t) = None \<or> id_of (senders w' t) = id_of (senders w t)"
  shows "distinct_ids w'"
proof -
  have "id_of (senders w t) = Some i" if "id_of (senders w' t) = Some i" for t i
    using assms(3)[of t] that by auto
  with assms(1,2) show ?thesis unfolding distinct_ids_def by (meson le_trans)
qed

lemma step_distinct_ids:
  assumes "conn_step w w'" "unat (nextID (conn w)) = Suc (issued w mod ids)"
    "distinct_ids w" "issued w' \<le> ids"
  shows "distinct_ids w'"
  using assms(1)
proof (cases rule: conn_step.cases)
  case (take_id t acks)
  then have "unat (nextID (conn w)) = Suc (issued w)" using assms(2,4) by simp
  moreover from this assms(3) have "id_of (senders w u) \<noteq> Some (nextID (conn w))" for u
    by (fastforce simp: distinct_ids_def)
  ultimately show ?thesis using take_id assms(3)
    by (auto simp: distinct_ids_def le_SucI)
qed (rule distinct_ids_mono[OF assms(3)]; auto)+

lemma releaseWaiter_own:
  assumes "conn_inv w" "distinct_ids w" "waits (senders w t) = Some (i, ch)"
    "waits (senders w u) = Some (j, ch')" "u \<noteq> t"
  shows "ch' \<in> closed (releaseWaiter i (conn w)) \<longleftrightarrow> ch' \<in> closed (conn w)"
proof (cases "respc (conn w) i")
  case (Some ch0)
  moreover have "sender_inv w" using assms(1) by (simp add: conn_inv_def)
  ultimately obtain t0 where "waits (senders w t0) = Some (i, ch0)"
    using sender_invD(3) by blast
  moreover from this have "t0 = t"
    using assms(2,3) id_of_waits by (metis distinct_ids_def)
  ultimately have "ch0 = ch" using assms(3) by simp
  moreover have "ch' \<noteq> ch" using assms \<open>sender_inv w\<close> sender_invD(2) by blast
  ultimately show ?thesis using Some by (simp add: releaseWaiter_def close_chan_def)
qed (simp add: releaseWaiter_def)

lemma stopErr_releaseWaiter [simp]: "stopErr (releaseWaiter i c) = stopErr c"
  by (simp add: releaseWaiter_def close_chan_def split: option.split)

lemma explained_waits:
  "explained w \<Longrightarrow> waits (senders w t) = Some (i, ch) \<Longrightarrow> ch \<in> closed (conn w) \<Longrightarrow>
     \<exists>err. stopErr (conn w) = Some err"
  by (auto simp: explained_def)

lemma step_explained:
  assumes "conn_step w w'" "conn_inv w" "distinct_ids w" "explained w"
  shows "explained w'"
  using assms(1)
proof (cases rule: conn_step.cases)
  case (write_fails t i ch err)
  then have "waits (senders w t) = Some (i, ch)" by simp
  note own = releaseWaiter_own[OF assms(2,3) this]
  show ?thesis using write_fails assms(4)
    by (auto simp: explained_def own split: if_splits)
next
  case (register t i ch c')
  then show ?thesis using assms(2,4)
    by (auto simp: explained_def respWaiter_Inr conn_inv_def chan_inv_def split: if_splits)
next
  case (close_handed ch)
  have "stopErr (conn w) \<noteq> None" if "waits (senders w t) = Some (i, ch)" for t i
  proof -
    have "attended w i ch" using that assms(2) sender_invD(1) by (auto simp: conn_inv_def)
    with close_handed assms(2) show ?thesis by (auto simp: attended_def conn_inv_def loop_inv_def)
  qed
  with close_handed assms(4) show ?thesis by (auto simp: explained_def close_chan_def)
next
  case (no_id t acks)
  then show ?thesis using assms(2,4)
    by (auto simp: explained_def conn_inv_def chan_inv_def split: if_splits)
next
  case (hand_stop i ch b)
  then show ?thesis using assms(2,4)
    by (auto simp: explained_def conn_inv_def stopped_handing_id)
next
  case (written t i ch)
  then have "ch \<in> closed (conn w) \<Longrightarrow> stopErr (conn w) \<noteq> None"
    using explained_waits[OF assms(4), of t i ch] by auto
  with written assms(4) show ?thesis by (auto simp: explained_def split: if_splits)
next
  case (receive_closed t i ch)
  then have "ch \<in> closed (conn w) \<Longrightarrow> stopErr (conn w) \<noteq> None"
    using explained_waits[OF assms(4), of t i ch] by auto
  with receive_closed assms(4) show ?thesis by (auto simp: explained_def split: if_splits)
next
  case reader_ends
  then have "stopErr (conn w) \<noteq> None" using assms(2) by (simp add: conn_inv_def loop_inv_def)
  with reader_ends assms(4) show ?thesis by (auto simp: explained_def close_waiters_def)
qed (use assms(4) in \<open>auto simp: explained_def chan_simps take_waiter_def
  dest: respWaiter_Inl split: if_splits\<close>)

interpretation ii: invariant world_init conn_step id_inv
proof
  fix w assume init: "world_init w"
  moreover from this have "id_of (senders w t) = None" "waits (senders w t) = None"
    "senders w t \<noteq> Returned i r" for t i r
    by (auto simp: world_init_def dest: spec[of _ t])
  ultimately show "id_inv w"
    using ci.init_inv[OF init] by (auto simp: id_inv_def world_init_def distinct_ids_def
      explained_def new_connection_def)
next
  fix w w' assume inv: "id_inv w" and step: "conn_step w w'"
  from inv have next_ok: "unat (nextID (conn w)) = Suc (issued w mod ids)" and old: "conn_inv w"
    by (simp_all add: id_inv_def)
  have "distinct_ids w' \<and> explained w'" if "issued w' \<le> ids"
  proof -
    have "distinct_ids w" "explained w" using inv step_issued[OF step] that by (auto simp: id_inv_def)
    then show ?thesis
      using step_distinct_ids[OF step next_ok] step_explained[OF step old] that by blast
  qed
  with ci.step_inv[OF old step] step_nextID[OF step next_ok] show "id_inv w'"
    by (simp add: id_inv_def)
qed

section \<open>Stopping\<close>

lemma step_stopErr:
  assumes "conn_step w w'" "stopErr (conn w) = Some err"
  shows "stopErr (conn w') = Some err"
  using assms
  by (cases rule: conn_step.cases)
    (auto simp: chan_simps take_waiter_def stopped_handing_def respWaiter_Inr dest: respWaiter_Inl)

lemma step_stop_closed:
  assumes "conn_step w w'" "stop_closed (conn w)"
  shows "stop_closed (conn w')"
  using assms
  by (cases rule: conn_step.cases)
    (auto simp: chan_simps take_waiter_def stopped_handing_def respWaiter_Inr releaseWaiter_def
      dest: respWaiter_Inl split: option.splits)

definition returned :: "sender \<Rightarrow> bool" where
  "returned s \<longleftrightarrow> (case s of Returned _ _ \<Rightarrow> True | Sent _ \<Rightarrow> True | _ \<Rightarrow> False)"

definition can_return :: "world \<Rightarrow> nat \<Rightarrow> bool" where
  "can_return w t \<longleftrightarrow> (\<exists>w'. conn_step\<^sup>*\<^sup>* w w' \<and> returned (senders w' t))"

lemma can_return_now: "returned (senders w t) \<Longrightarrow> can_return w t"
  unfolding can_return_def by blast

lemma can_return_step: "conn_step w w' \<Longrightarrow> can_return w' t \<Longrightarrow> can_return w t"
  unfolding can_return_def by (meson converse_rtranclp_into_rtranclp)

lemma ReadResp_may_fail: "\<exists>rd err rd'. ReadResp rd = (Err err, rd')"
  using ReadResp_short[of "NewReader []"] by (metis NewReader_def list.size(3) prod.collapse
    reader.select_convs(1) zero_less_numeral)

lemma closed_returns: "senders w t = Waiting i ch \<Longrightarrow> ch \<in> closed (conn w) \<Longrightarrow> can_return w t"
  by (rule can_return_step[OF conn_step.receive_closed])
    (auto intro: can_return_now simp: returned_def)

lemma stopping_returns:
  assumes "conn_inv w" "senders w t = Waiting i ch" "respLoop_at w = Stopping"
  shows "can_return w t"
proof -
  have "attended w i ch" using assms(1,2) sender_invD(1)[of w t] by (simp add: conn_inv_def)
  then have "respc (conn w) i = Some ch \<or> ch \<in> closed (conn w)"
    using assms(3) by (auto simp: attended_def)
  then have "ch \<in> closed (close_waiters (conn w))" by (auto simp: close_waiters_def ran_def)
  with assms(2,3) show ?thesis
    by (intro can_return_step[OF conn_step.reader_ends[OF assms(3)] closed_returns[of _ t i ch]])
      simp_all
qed

lemma reading_returns:
  assumes "conn_inv w" "senders w t = Waiting i ch" "respLoop_at w = Reading"
  shows "can_return w t"
proof -
  obtain rd err rd' where "ReadResp rd = (Err err, rd')" using ReadResp_may_fail by blast
  then have step: "conn_step w (w\<lparr>conn := read_failed err (conn w), respLoop_at := Stopping\<rparr>)"
    by (rule conn_step.read_fails[OF assms(3)])
  show ?thesis
    using stopping_returns[OF ci.step_inv[OF assms(1) step]] assms(2)
    by (intro can_return_step[OF step]) simp
qed

lemma closing_returns:
  assumes "conn_inv w" "senders w t = Waiting i ch" "respLoop_at w = Closing ch'"
  shows "can_return w t"
  using reading_returns[OF ci.step_inv[OF assms(1) conn_step.close_handed[OF assms(3)]]] assms(2)
  by (intro can_return_step[OF conn_step.close_handed[OF assms(3)]]) simp

lemma waiting_returns:
  assumes "conn_inv w" "stop_closed (conn w)" "senders w t = Waiting i ch"
  shows "can_return w t"
proof (cases "respLoop_at w")
  case (Handing j ch' b)
  note step = conn_step.hand_stop[OF Handing assms(2)]
  show ?thesis
    using closing_returns[OF ci.step_inv[OF assms(1) step]] assms(3)
    by (intro can_return_step[OF step]) simp
next
  case Ended
  then have "attended w i ch" "respc (conn w) = (\<lambda>_. None)"
    using assms(1,3) sender_invD(1)[of w t] by (auto simp: conn_inv_def loop_inv_def)
  then show ?thesis using Ended assms(3) by (intro closed_returns) (auto simp: attended_def)
qed (use assms reading_returns closing_returns stopping_returns in blast)+

lemma start_returns:
  assumes "stop_closed (conn w)" "senders w t = Start acks"
  shows "can_return w t"
proof -
  have shut: "can_return w t" if "nextID_closed (conn w)" "senders w t = Start acks" for w
    by (rule can_return_step[OF conn_step.no_id[OF that(2,1)] can_return_now])
      (simp add: returned_def)
  show ?thesis
  proof (cases "nextID_closed (conn w)")
    case False
    show ?thesis
      by (rule can_return_step[OF conn_step.ids_stop[OF assms(1) False] shut])
        (use assms in simp_all)
  qed (use shut assms in blast)
qed

lemma stopped_returns:
  assumes "conn_inv w" "stop_closed (conn w)"
  shows "can_return w t"
proof (cases "senders w t")
  case (HasID acks i)
  show ?thesis
  proof (cases acks)
    case True
    from assms obtain err where "respWaiter i (conn w) = (Inl err, conn w)"
      by (auto simp: respWaiter_def conn_inv_def chan_inv_def)
    with HasID True have "conn_step w (set_sender t (Returned i (Inl (Some (WaitForResponse err)))) w)"
      using conn_step.register_fails by fastforce
    then show ?thesis
      by (rule can_return_step[OF _ can_return_now]) (simp add: returned_def)
  next
    case False
    with HasID have "senders w t = HasID False i" by simp
    then show ?thesis
      by (rule can_return_step[OF conn_step.sent can_return_now]) (simp add: returned_def)
  qed
next
  case (Registered i ch)
  note step = conn_step.written[OF Registered]
  show ?thesis
    using waiting_returns[OF ci.step_inv[OF assms(1) step]] assms(2)
    by (intro can_return_step[OF step]) simp
qed (use assms start_returns waiting_returns in \<open>auto intro: can_return_now simp: returned_def\<close>)

section \<open>A response nobody waits for\<close>

text \<open>
  \<open>readRespLoop\<close> takes a waiter out of the table before it hands the response over.  When the
  write of that request fails in between, \<open>releaseWaiter\<close> finds no entry and the call returns: the
  loop then offers the response to nobody and reads nothing until the connection is closed.
\<close>

definition orphaned :: "world \<Rightarrow> bool" where
  "orphaned w \<longleftrightarrow> (\<exists>i ch b. respLoop_at w = Handing i ch b \<and>
     (\<forall>t j. waits (senders w t) \<noteq> Some (j, ch)))"

lemma orphaned_step:
  assumes "conn_step w w'" "conn_inv w" "orphaned w" "\<not> stop_closed (conn w)"
  shows "orphaned w' \<and> respLoop_at w' = respLoop_at w \<and> arrived w' = arrived w"
proof -
  from assms(3) obtain i ch b where at: "respLoop_at w = Handing i ch b"
    and none: "\<And>t j. waits (senders w t) \<noteq> Some (j, ch)"
    by (auto simp: orphaned_def)
  have old: "ch < fresh (conn w)" using assms(2) at by (simp add: conn_inv_def loop_inv_def)
  have "waits (senders w' t) \<noteq> Some (j, ch)" for t j
    using assms(1) none[of t j] old
    by (cases rule: conn_step.cases) (auto simp: respWaiter_Inr split: if_splits)
  moreover have "respLoop_at w' = respLoop_at w \<and> arrived w' = arrived w"
    using assms(1)
  proof (cases rule: conn_step.cases)
    case (hand_over i' ch' b' t j)
    with at none[of t j] show ?thesis by simp
  qed (use at assms(4) in auto)
  ultimately show ?thesis using at by (auto simp: orphaned_def)
qed

lemma orphaned_run:
  assumes "conn_step\<^sup>*\<^sup>* w w'" "conn_inv w" "orphaned w" "\<not> stop_closed (conn w')"
  shows "conn_inv w' \<and> orphaned w' \<and> respLoop_at w' = respLoop_at w \<and> arrived w' = arrived w"
  using assms(1,4)
proof (induction rule: rtranclp_induct)
  case (step w1 w2)
  then have "\<not> stop_closed (conn w1)" using step_stop_closed by blast
  with step show ?case using orphaned_step ci.step_inv by metis
qed (use assms in blast)

text \<open>
  While the call whose waiter was taken is still writing its request, nobody can receive the
  response: the reader stays where it is, unless the connection is closed.
\<close>

definition taken_early :: "nat \<Rightarrow> int32 \<Rightarrow> nat \<Rightarrow> byte list \<Rightarrow> (int32 \<times> byte list) list \<Rightarrow> world \<Rightarrow> bool" where
  "taken_early t i ch b resps w \<longleftrightarrow> conn_inv w \<and> ch < fresh (conn w) \<and>
     (senders w t = Registered i ch \<longrightarrow> \<not> stop_closed (conn w) \<longrightarrow>
        respLoop_at w = Handing i ch b \<and> arrived w = resps)"

lemma step_fresh: "conn_step w w' \<Longrightarrow> fresh (conn w) \<le> fresh (conn w')"
  by (cases rule: conn_step.cases)
    (auto simp: respWaiter_Inr releaseWaiter_def take_waiter_def stopped_handing_def chan_simps
      dest: respWaiter_Inl split: option.splits)

lemma taken_early_step:
  assumes "taken_early t i ch b resps w" "conn_step w w'"
  shows "taken_early t i ch b resps w'"
proof -
  have inv: "conn_inv w" and old: "ch < fresh (conn w)" using assms(1) by (simp_all add: taken_early_def)
  have "respLoop_at w' = Handing i ch b \<and> arrived w' = resps"
    if writing: "senders w' t = Registered i ch" and running: "\<not> stop_closed (conn w')"
  proof -
    have before: "senders w t = Registered i ch"
      using assms(2) writing old by (cases rule: conn_step.cases) (auto simp: respWaiter_Inr split: if_splits)
    moreover have running_before: "\<not> stop_closed (conn w)" using assms(2) running step_stop_closed by blast
    ultimately have at: "respLoop_at w = Handing i ch b" "arrived w = resps"
      using assms(1) by (simp_all add: taken_early_def)
    from assms(2) show ?thesis
    proof (cases rule: conn_step.cases)
      case (hand_over i' ch' b' u j)
      with inv at before sender_invD(2)[of w u j ch t i] show ?thesis by (auto simp: conn_inv_def)
    qed (use at running_before in auto)
  qed
  then show ?thesis
    using ci.step_inv[OF inv assms(2)] step_fresh[OF assms(2)] old by (simp add: taken_early_def)
qed

lemma taken_early_run:
  "conn_step\<^sup>*\<^sup>* w w' \<Longrightarrow> taken_early t i ch b resps w \<Longrightarrow> taken_early t i ch b resps w'"
  by (induction rule: rtranclp_induct) (auto intro: taken_early_step)

lemma stop_closed_run: "conn_step\<^sup>*\<^sup>* w w' \<Longrightarrow> stop_closed (conn w) \<Longrightarrow> stop_closed (conn w')"
  by (induction rule: rtranclp_induct) (auto intro: step_stop_closed)

lemma returned_run:
  assumes "conn_step\<^sup>*\<^sup>* w w'" "senders w t = Returned i r"
  shows "senders w' t = Returned i r"
  using assms
  by (induction rule: rtranclp_induct) (auto elim!: conn_step.cases)

section \<open>Versions\<close>

definition in_range :: "int16 \<Rightarrow> SupportedVersion \<Rightarrow> bool" where
  "in_range v r \<longleftrightarrow> MinVersion r \<le>s v \<and> v \<le>s MaxVersion r"

lemma min16_le: "v \<le>s min16 a b \<longleftrightarrow> v \<le>s a \<and> v \<le>s b"
  by (auto simp: min16_def word_sle_eq word_sless_alt)

lemma max16_le: "max16 a b \<le>s v \<longleftrightarrow> a \<le>s v \<and> b \<le>s v"
  by (auto simp: max16_def word_sle_eq word_sless_alt)

lemma sle_trans: "a \<le>s b \<Longrightarrow> b \<le>s c \<Longrightarrow> a \<le>s (c :: 'a::len word)"
  by (simp add: word_sle_eq)

lemma getBestVersion_common:
  assumes "apiVersions c k = Some r"
  shows "if \<exists>v. in_range v (supported_by_driver k) \<and> in_range v r
    then in_range (getBestVersion k c) (supported_by_driver k) \<and> in_range (getBestVersion k c) r \<and>
      (\<forall>v. in_range v (supported_by_driver k) \<and> in_range v r \<longrightarrow> v \<le>s getBestVersion k c)
    else getBestVersion k c = 0"
proof -
  let ?s = "supported_by_driver k"
  let ?m = "min16 (MaxVersion ?s) (MaxVersion r)"
  have both: "in_range v ?s \<and> in_range v r \<longleftrightarrow> max16 (MinVersion ?s) (MinVersion r) \<le>s v \<and> v \<le>s ?m" for v
    by (auto simp: in_range_def min16_le max16_le)
  have best: "getBestVersion k c = (if max16 (MinVersion ?s) (MinVersion r) \<le>s ?m then ?m else 0)"
    by (simp add: getBestVersion_def assms Let_def)
  show ?thesis
  proof (cases "max16 (MinVersion ?s) (MinVersion r) \<le>s ?m")
    case True
    then have "in_range ?m ?s \<and> in_range ?m r" by (simp add: both word_sle_eq)
    moreover have "\<forall>v. in_range v ?s \<and> in_range v r \<longrightarrow> v \<le>s ?m" using both by blast
    ultimately show ?thesis using best True by auto
  next
    case False
    then have "\<nexists>v. in_range v ?s \<and> in_range v r" using both sle_trans by blast
    with best False show ?thesis by auto
  qed
qed

section \<open>Properties\<close>

text \<open>
  A run of two calls: the first gets the response \<open>[0, 0, 0, 4, 0, 0, 0, 1]\<close> with the ID 1, then
  the connection is closed.
\<close>

definition example_start :: world where
  "example_start = \<lparr>conn = new_connection, senders = (\<lambda>_. Start True), respLoop_at = Reading,
     arrived = [], issued = 0\<rparr>"

definition example_registered :: world where
  "example_registered = example_start\<lparr>conn := new_connection\<lparr>nextID := 2, respc := [1 \<mapsto> 0], fresh := 1\<rparr>,
     senders := (\<lambda>_. Start True)(0 := Registered 1 0), issued := 1\<rparr>"

definition example_taken :: world where
  "example_taken = example_registered\<lparr>conn := new_connection\<lparr>nextID := 2, fresh := 1\<rparr>,
     respLoop_at := Handing 1 0 (frame (PutUint32 1)), arrived := [(1, frame (PutUint32 1))]\<rparr>"

definition example_answered :: world where
  "example_answered = example_taken\<lparr>senders := (\<lambda>_. Start True)(0 := Returned 1 (Inr (frame (PutUint32 1)))),
     respLoop_at := Closing 0\<rparr>"

definition example_failed :: world where
  "example_failed = example_taken\<lparr>senders := (\<lambda>_. Start True)(0 := Returned 1 (Inl (Some EPIPE)))\<rparr>"

definition example_closed :: world where
  "example_closed = example_registered\<lparr>conn := new_connection\<lparr>nextID := 2, respc := [1 \<mapsto> 0],
     fresh := 1, stopErr := Some ErrClosed, stop_closed := True\<rparr>\<rparr>"

lemma reach_registered: "reachable world_init conn_step example_registered"
proof -
  have "reachable world_init conn_step example_start"
    by (rule reachable.start) (auto simp: world_init_def example_start_def)
  moreover have "conn_step example_start (example_start\<lparr>conn := new_connection\<lparr>nextID := 2\<rparr>,
      senders := (\<lambda>_. Start True)(0 := HasID True 1), issued := 1\<rparr>)" (is "conn_step _ ?w")
    using conn_step.take_id[of example_start 0 True]
    by (simp add: example_start_def new_connection_def next_id_def maxInt32_def)
  moreover have "conn_step ?w example_registered"
    using conn_step.register[of ?w 0 1 0 "new_connection\<lparr>nextID := 2, respc := [1 \<mapsto> 0], fresh := 1\<rparr>"]
    by (simp add: example_start_def example_registered_def new_connection_def respWaiter_def)
  ultimately show ?thesis by (blast intro: reachable.advance)
qed

lemma reach_taken: "reachable world_init conn_step example_taken"
proof (rule reachable.advance[OF reach_registered])
  have "ReadResp (NewReader (frame (PutUint32 1))) =
      (Ok (1, frame (PutUint32 1)), NewReader [])"
    using ReadResp_frame[of "[]" 1 "[]" EOF] by (simp add: NewReader_def)
  then show "conn_step example_registered example_taken"
    using conn_step.read_response[of example_registered _ 1 "frame (PutUint32 1)" _ 0
        "new_connection\<lparr>nextID := 2, fresh := 1\<rparr>"]
    by (simp add: example_taken_def example_registered_def example_start_def take_waiter_def
        new_connection_def)
qed

lemma reach_answered: "reachable world_init conn_step example_answered"
proof -
  let ?w = "example_taken\<lparr>senders := (\<lambda>_. Start True)(0 := Waiting 1 0)\<rparr>"
  have "conn_step example_taken ?w"
    using conn_step.written[of example_taken 0 1 0]
    by (simp add: example_taken_def example_registered_def)
  moreover have "conn_step ?w example_answered"
    using conn_step.hand_over[of ?w 1 0 "frame (PutUint32 1)" 0 1]
    by (simp add: example_answered_def example_taken_def example_registered_def example_start_def)
  ultimately show ?thesis using reach_taken by (blast intro: reachable.advance)
qed

lemma reach_failed: "reachable world_init conn_step example_failed"
proof (rule reachable.advance[OF reach_taken])
  show "conn_step example_taken example_failed"
    using conn_step.write_fails[of example_taken 0 1 0 EPIPE]
    by (simp add: example_failed_def example_taken_def example_registered_def example_start_def
        releaseWaiter_def new_connection_def)
qed

lemma reach_closed: "reachable world_init conn_step example_closed"
proof (rule reachable.advance[OF reach_registered])
  show "conn_step example_registered example_closed"
    using conn_step.close_conn[of example_registered]
    by (simp add: example_closed_def example_registered_def conn_Close_def close_stop_def
        new_connection_def)
qed

text \<open>
  C5.  However the goroutines of a connection interleave and whatever the network delivers: a
  call of \<open>sendRequest\<close> that returns a response returns one that \<open>ReadResp\<close> read with the
  correlation ID the call had sent.
\<close>

theorem response_matches_request:
  assumes "reachable world_init conn_step w" "senders w t = Returned i (Inr b)"
  shows "(i, b) \<in> set (arrived w)"
  using ci.reachable_inv[OF assms(1)] assms(2) by (auto simp: conn_inv_def answer_inv_def)

theorem response_matches_request_witness:
  "(1, frame (PutUint32 1)) \<in> set (arrived example_answered)"
  by (rule response_matches_request[OF reach_answered, of 0]) (simp add: example_answered_def)

text \<open>
  C22.  No interleaving closes a channel twice, neither a response channel nor \<open>stop\<close>: the
  connection never panics, and \<open>stop\<close> is closed exactly when a reason is recorded.
\<close>

theorem no_double_close:
  assumes "reachable world_init conn_step w"
  shows "\<not> panicked (conn w) \<and> (stop_closed (conn w) \<longleftrightarrow> stopErr (conn w) \<noteq> None)"
  using ci.reachable_inv[OF assms] by (auto simp: conn_inv_def chan_inv_def)

theorem no_double_close_witness:
  "\<not> panicked (conn example_closed) \<and> (stop_closed (conn example_closed) \<longleftrightarrow>
     stopErr (conn example_closed) \<noteq> None)"
  using no_double_close[OF reach_closed] by blast

text \<open>
  C21.  Once the connection is stopped, by \<open>Close\<close> or by a failed read, every call that is under
  way can run to its return, whatever point it has reached and whatever the reader is doing.
\<close>

theorem stopped_calls_return:
  assumes "reachable world_init conn_step w" "stop_closed (conn w)"
  shows "\<exists>w'. conn_step\<^sup>*\<^sup>* w w' \<and> returned (senders w' t)"
  using stopped_returns[OF ci.reachable_inv[OF assms(1)] assms(2)] by (simp add: can_return_def)

theorem stopped_calls_return_witness:
  "\<exists>w'. conn_step\<^sup>*\<^sup>* example_closed w' \<and> returned (senders w' 0)"
  by (rule stopped_calls_return[OF reach_closed]) (simp add: example_closed_def)

text \<open>
  C23.  Until \<open>nextIDLoop\<close> starts its second round (2147483646 IDs), a call that returns without a
  response returns an error: \<open>c.stopErr\<close>, read after the channel was found closed, is never nil.
\<close>

theorem no_response_has_error:
  assumes "reachable world_init conn_step w" "issued w \<le> ids"
    "senders w t = Returned i (Inl err)"
  shows "err \<noteq> None"
  using ii.reachable_inv[OF assms(1)] assms(2,3) by (auto simp: id_inv_def explained_def)

theorem no_response_has_error_witness:
  "\<exists>err. senders example_failed 0 = Returned 1 (Inl err) \<and> err \<noteq> None"
proof -
  have failed: "senders example_failed 0 = Returned 1 (Inl (Some EPIPE))"
    by (simp add: example_failed_def)
  have "issued example_failed \<le> ids"
    by (simp add: example_failed_def example_taken_def example_registered_def ids_def)
  from failed no_response_has_error[OF reach_failed this failed] show ?thesis by blast
qed

text \<open>
  The \<open>n\<close>-th ID (from 0) is 1 + n mod 2147483646, so the IDs in use are distinct during the
  first round.
\<close>

theorem correlation_ids:
  assumes "reachable world_init conn_step w"
  shows "unat (nextID (conn w)) = Suc (issued w mod ids) \<and>
    (issued w \<le> ids \<longrightarrow> id_of (senders w t) = Some i \<longrightarrow> id_of (senders w u) = Some i \<longrightarrow> t = u)"
  using ii.reachable_inv[OF assms] by (simp add: id_inv_def distinct_ids_def)

theorem correlation_ids_witness:
  "unat (nextID (conn example_registered)) = Suc (issued example_registered mod ids)"
  using correlation_ids[OF reach_registered] by blast

text \<open>
  The reason a connection stopped for is recorded once: no later failure and no \<open>Close\<close>
  replaces it.
\<close>

theorem stop_reason_kept:
  assumes "conn_step\<^sup>*\<^sup>* w w'" "stopErr (conn w) = Some err"
  shows "stopErr (conn w') = Some err"
  using rtranclp_stable[where P = "\<lambda>w. stopErr (conn w) = Some err", OF step_stopErr assms] .

theorem stop_reason_kept_witness:
  "stopErr (read_failed EOF (conn example_closed)) = Some ErrClosed"
proof -
  have "ReadResp (NewReader []) = (Err EOF, NewReader [])" by code_simp
  moreover have "respLoop_at example_closed = Reading"
    by (simp add: example_closed_def example_registered_def example_start_def)
  ultimately have "conn_step\<^sup>*\<^sup>* example_closed
      (example_closed\<lparr>conn := read_failed EOF (conn example_closed), respLoop_at := Stopping\<rparr>)"
    by (intro r_into_rtranclp conn_step.read_fails)
  from stop_reason_kept[OF this] show ?thesis by (simp add: example_closed_def)
qed

text \<open>
  C36.  A call has registered its waiter and is still writing its request when \<open>readRespLoop\<close> reads a
  response with its ID and takes the waiter out of the table.  However the goroutines go on from
  there, when that write then fails and \<open>releaseWaiter\<close> is called, the call returns the error of
  the write and nobody is left to receive the response: until the connection is closed, no step
  moves the reader on, and it reads no further response.
\<close>

theorem orphaned_response_blocks:
  assumes "reachable world_init conn_step w"
    and "senders w t = Registered i ch" "respLoop_at w = Reading"
    and "ReadResp rd = (Ok (i, b), rd')" "take_waiter i (conn w) = (Some ch, c')"
    and "w1 = w\<lparr>conn := c', respLoop_at := Handing i ch b, arrived := (i, b) # arrived w\<rparr>"
    and "conn_step\<^sup>*\<^sup>* w1 w2" "senders w2 t = Registered i ch"
    and "w3 = set_sender t (Returned i (Inl (Some err))) (w2\<lparr>conn := releaseWaiter i (conn w2)\<rparr>)"
    and "conn_step\<^sup>*\<^sup>* w3 w4" "\<not> stop_closed (conn w4)"
  shows "conn_step w w1 \<and> conn_step w2 w3 \<and> releaseWaiter i (conn w1) = conn w1 \<and>
    senders w4 t = Returned i (Inl (Some err)) \<and>
    respLoop_at w4 = Handing i ch b \<and> arrived w4 = (i, b) # arrived w \<and>
    (\<forall>u j. senders w4 u \<noteq> Registered j ch \<and> senders w4 u \<noteq> Waiting j ch)"
proof -
  have taken: "conn_step w w1" using conn_step.read_response[OF assms(3,4,5)] assms(6) by simp
  have failed: "conn_step w2 w3" using conn_step.write_fails[OF assms(8)] assms(9) by simp
  have inv1: "conn_inv w1" using ci.step_inv[OF ci.reachable_inv[OF assms(1)] taken] .
  then have "taken_early t i ch b ((i, b) # arrived w) w1"
    using assms(6) by (simp add: taken_early_def conn_inv_def loop_inv_def)
  then have early: "taken_early t i ch b ((i, b) # arrived w) w2" using taken_early_run[OF assms(7)] by blast
  have "conn_step\<^sup>*\<^sup>* w2 w4" using failed assms(10) by simp
  then have "\<not> stop_closed (conn w2)"
    using stop_closed_run assms(11) by blast
  with early assms(8) have at: "conn_inv w2" "respLoop_at w2 = Handing i ch b" "arrived w2 = (i, b) # arrived w"
    by (simp_all add: taken_early_def)
  have "orphaned w3"
    using at(1,2) assms(8,9) sender_invD(2)[of w2 _ _ ch t i] by (auto simp: orphaned_def conn_inv_def)
  from orphaned_run[OF assms(10) ci.step_inv[OF at(1) failed] this assms(11)]
  have "orphaned w4" "respLoop_at w4 = Handing i ch b" "arrived w4 = (i, b) # arrived w"
    using at(2,3) assms(9) by simp_all
  moreover from this have "senders w4 u \<noteq> Registered j ch \<and> senders w4 u \<noteq> Waiting j ch" for u j
    by (metis orphaned_def respLoop.inject(1) waits.simps(3,4))
  moreover have "senders w4 t = Returned i (Inl (Some err))"
    using returned_run[OF assms(10)] assms(9) by simp
  moreover have "releaseWaiter i (conn w1) = conn w1"
    using assms(5,6) by (auto simp: releaseWaiter_def take_waiter_def)
  ultimately show ?thesis using taken failed by blast
qed

theorem orphaned_response_blocks_witness:
  "\<exists>w w1 w2. reachable world_init conn_step w \<and> conn_step w w1 \<and> conn_step w1 w2 \<and>
    senders w1 0 = Registered 1 0 \<and> releaseWaiter 1 (conn w1) = conn w1 \<and> senders w2 0 = Returned 1 (Inl (Some EPIPE)) \<and>
    (\<forall>w'. conn_step\<^sup>*\<^sup>* w2 w' \<longrightarrow> \<not> stop_closed (conn w') \<longrightarrow>
      senders w' 0 = Returned 1 (Inl (Some EPIPE)) \<and> respLoop_at w' = Handing 1 0 (frame (PutUint32 1)))"
proof -
  note blocks = orphaned_response_blocks[OF reach_registered, of 0 1 0 "NewReader (frame (PutUint32 1))"
      "frame (PutUint32 1)" "NewReader []" "new_connection\<lparr>nextID := 2, fresh := 1\<rparr>" example_taken
      example_taken example_failed EPIPE]
  have response: "ReadResp (NewReader (frame (PutUint32 1))) = (Ok (1, frame (PutUint32 1)), NewReader [])"
    using ReadResp_frame[of "[]" 1 "[]" EOF] by (simp add: NewReader_def)
  note run = blocks[OF _ _ response _ _ rtranclp.rtrancl_refl]
  have states: "senders example_registered 0 = Registered 1 0" "respLoop_at example_registered = Reading"
    "take_waiter 1 (conn example_registered) = (Some 0, new_connection\<lparr>nextID := 2, fresh := 1\<rparr>)"
    "example_taken = example_registered\<lparr>conn := new_connection\<lparr>nextID := 2, fresh := 1\<rparr>,
       respLoop_at := Handing 1 0 (frame (PutUint32 1)),
       arrived := (1, frame (PutUint32 1)) # arrived example_registered\<rparr>"
    "senders example_taken 0 = Registered 1 0"
    "example_failed = set_sender 0 (Returned 1 (Inl (Some EPIPE)))
       (example_taken\<lparr>conn := releaseWaiter 1 (conn example_taken)\<rparr>)"
    by (simp_all add: example_failed_def example_taken_def example_registered_def example_start_def
        releaseWaiter_def take_waiter_def new_connection_def)
  have "\<not> stop_closed (conn example_failed)"
    by (simp add: example_failed_def example_taken_def new_connection_def)
  moreover have "senders example_failed 0 = Returned 1 (Inl (Some EPIPE))" by (simp add: example_failed_def)
  ultimately show ?thesis
    using run[OF states rtranclp.rtrancl_refl] run[OF states] reach_registered states(5)
    by (intro exI[of _ example_registered] exI[of _ example_taken] exI[of _ example_failed]) blast
qed

text \<open>
  \<open>getBestVersion\<close>, for a key the server listed, is the largest version that both the driver
  and the server support, and 0 when there is none.
\<close>

theorem best_version_largest:
  assumes "apiVersions c k = Some r"
  shows "if \<exists>v. in_range v (supported_by_driver k) \<and> in_range v r
    then in_range (getBestVersion k c) (supported_by_driver k) \<and> in_range (getBestVersion k c) r \<and>
      (\<forall>v. in_range v (supported_by_driver k) \<and> in_range v r \<longrightarrow> v \<le>s getBestVersion k c)
    else getBestVersion k c = 0"
  using assms by (rule getBestVersion_common)

theorem best_version_largest_witness:
  "getBestVersion 1 (new_connection\<lparr>apiVersions := [1 \<mapsto> \<lparr>APIKey = 1, MinVersion = 0, MaxVersion = 3\<rparr>]\<rparr>) = 3"
proof -
  let ?r = "\<lparr>APIKey = 1, MinVersion = 0, MaxVersion = 3\<rparr>"
  let ?c = "new_connection\<lparr>apiVersions := [1 \<mapsto> ?r]\<rparr>"
  have 3: "in_range 3 (supported_by_driver 1) \<and> in_range 3 ?r"
    by code_simp
  have "apiVersions ?c 1 = Some ?r" by simp
  from best_version_largest[OF this] 3 have "3 \<le>s getBestVersion 1 ?c" "in_range (getBestVersion 1 ?c) ?r"
    by (auto split: if_splits)
  then show ?thesis by (simp add: in_range_def signed.order_antisym)
qed

end
