(* ===== verification/ConnectionApi.thy ===== *)
theory ConnectionApi
  imports Connection
begin

text \<open>
  The rest of \<open>v2/connection.go\<close>: opening a connection (\<open>newTCPConnection\<close>, \<open>newTLSConnection\<close>),
  the methods a broker offers through it (\<open>APIVersions\<close>, \<open>Metadata\<close>, ..., \<open>OffsetFetch\<close>), and
  \<open>trimLeadingMessages\<close>.
\<close>

section \<open>Opening a connection\<close>

text \<open>
  \<open>dial\<close> and \<open>versions\<close> are the network: the result of the \<open>n\<close>-th dial, and of \<open>c.APIVersions\<close> on
  the connection it opened with the state that call leaves the connection in.
\<close>

function tcp_loop ::
  "(nat \<Rightarrow> error + unit) \<Rightarrow> (nat \<Rightarrow> APIVersionsResp res \<times> connection) \<Rightarrow> bool \<Rightarrow> nat \<Rightarrow> connection res"
where
  "tcp_loop dial versions fetchVersions n =
     (case dial n of
        Inl err \<Rightarrow> Err err
      | Inr _ \<Rightarrow>
          if fetchVersions then
            (case cacheApiVersions (fst (versions n)) (snd (versions n)) of
               Err err \<Rightarrow> tcp_loop dial versions False (Suc n)
             | r \<Rightarrow> r)
          else Ok new_connection)"
  by pat_completeness auto
termination by (relation "measure (\<lambda>(_, _, fetchVersions, _). if fetchVersions then 1 else 0)") auto

declare tcp_loop.simps [simp del]

definition newTCPConnection ::
  "(nat \<Rightarrow> error + unit) \<Rightarrow> (nat \<Rightarrow> APIVersionsResp res \<times> connection) \<Rightarrow> connection res"
where
  "newTCPConnection dial versions = tcp_loop dial versions True 0"

text \<open>
  The loop of \<open>newTLSConnection\<close> has no \<open>continue\<close>: its body runs once, and the connection it
  closed when the versions could not be fetched is the one it returns.  \<open>root_ok\<close> is the result of
  \<open>AppendCertsFromPEM\<close>, \<open>keypair\<close> the error of \<open>tls.X509KeyPair\<close>.
\<close>

definition newTLSConnection ::
  "bool \<Rightarrow> goerror \<Rightarrow> (error + unit) \<Rightarrow> APIVersionsResp res \<times> connection \<Rightarrow> connection res"
where
  "newTLSConnection root_ok keypair dial versions =
     (if \<not> root_ok then Err BadRootCertificate
      else case keypair of
        Some err \<Rightarrow> Err (BadKeyPair err)
      | None \<Rightarrow>
          (case dial of
             Inl err \<Rightarrow> Err err
           | Inr _ \<Rightarrow>
               (case cacheApiVersions (fst versions) (snd versions) of
                  Err err \<Rightarrow> Ok (conn_Close (snd versions))
                | r \<Rightarrow> r)))"

section \<open>Methods\<close>

text \<open>
  The header \<open>sendRequest\<close> and \<open>sendRequestWithoutAcks\<close> put on a request: the version for its
  kind and the correlation ID \<open>i\<close> they took from \<open>nextID\<close>.
\<close>

definition send_header ::
  "connection \<Rightarrow> int16 \<Rightarrow> int32 \<Rightarrow> 'a RequestHeader_scheme \<Rightarrow> 'a RequestHeader_scheme"
where
  "send_header c kind i req = SetCorrelationID i (SetVersion (getBestVersion kind c) req)"

text \<open>
  Every method sends its request and reads the response at the version the request was sent with.
  \<open>transport\<close> is what \<open>sendRequest\<close> returns when \<open>WriteTo\<close> writes those bytes: the bytes of a
  response or an error, as the steps of \<open>conn_step\<close> determine it.
\<close>

definition exchange :: "(byte list res \<Rightarrow> byte list res) \<Rightarrow> byte list res \<Rightarrow> (reader \<Rightarrow> 'r res) \<Rightarrow> 'r res"
where
  "exchange transport out read = obind (transport out) (\<lambda>b. read (NewReader b))"

definition conn_APIVersions ::
  "(byte list res \<Rightarrow> byte list res) \<Rightarrow> connection \<Rightarrow> int32 \<Rightarrow> APIVersionsReq \<Rightarrow> APIVersionsResp res"
where
  "conn_APIVersions transport c i req =
     (let req = send_header c APIVersionsReqKind i req
      in exchange transport (APIVersionsReq_Bytes req) (ReadVersionedAPIVersionsResp (version req)))"

definition conn_Metadata ::
  "(byte list res \<Rightarrow> byte list res) \<Rightarrow> connection \<Rightarrow> int32 \<Rightarrow> MetadataReq \<Rightarrow> MetadataResp res"
where
  "conn_Metadata transport c i req =
     (let req = send_header c MetadataReqKind i req
      in exchange transport (MetadataReq_Bytes req) (ReadVersionedMetadataResp (version req)))"

definition conn_CreateTopic ::
  "(byte list res \<Rightarrow> byte list res) \<Rightarrow> connection \<Rightarrow> int32 \<Rightarrow> CreateTopicsReq \<Rightarrow> CreateTopicsResp res"
where
  "conn_CreateTopic transport c i req =
     (let req = send_header c CreateTopicsReqKind i req
      in exchange transport (CreateTopicsReq_Bytes req) ReadCreateTopicsResp)"

definition RequiredAcksNone :: int16 where
  "RequiredAcksNone = 0"

text \<open>\<open>None\<close> is the nil response of a request without acks, whose send returned no error.\<close>

definition conn_Produce ::
  "(byte list res \<Rightarrow> byte list res) \<Rightarrow> (byte list res \<Rightarrow> goerror) \<Rightarrow> codecs \<Rightarrow> connection \<Rightarrow> int32 \<Rightarrow>
   ProduceReq \<Rightarrow> ProduceResp option res"
where
  "conn_Produce transport send lib c i req =
     (let req = send_header c ProduceReqKind i req
      in if pq_RequiredAcks req = RequiredAcksNone then
           (case send (ProduceReq_Bytes lib req) of Some err \<Rightarrow> Err err | None \<Rightarrow> Ok None)
         else obind (exchange transport (ProduceReq_Bytes lib req)
                       (ReadVersionedProduceResp (version req))) (\<lambda>resp. Ok (Some resp)))"

definition conn_Offset ::
  "(byte list res \<Rightarrow> byte list res) \<Rightarrow> connection \<Rightarrow> int32 \<Rightarrow> OffsetReq \<Rightarrow> OffsetResp res"
where
  "conn_Offset transport c i req =
     (let req = send_header c OffsetReqKind i (req\<lparr>oq_ReplicaID := - 1\<rparr>)
      in exchange transport (OffsetReq_Bytes req) (ReadVersionedOffsetResp (version req)))"

definition conn_ConsumerMetadata ::
  "(byte list res \<Rightarrow> byte list res) \<Rightarrow> connection \<Rightarrow> int32 \<Rightarrow> ConsumerMetadataReq \<Rightarrow>
   ConsumerMetadataResp res"
where
  "conn_ConsumerMetadata transport c i req =
     (let req = send_header c ConsumerMetadataReqKind i req
      in exchange transport (ConsumerMetadataReq_Bytes req)
           (ReadVersionedConsumerMetadataResp (version req)))"

definition conn_OffsetCommit ::
  "(byte list res \<Rightarrow> byte list res) \<Rightarrow> connection \<Rightarrow> int32 \<Rightarrow> OffsetCommitReq \<Rightarrow> OffsetCommitResp res"
where
  "conn_OffsetCommit transport c i req =
     (let req = send_header c OffsetCommitReqKind i req
      in exchange transport (OffsetCommitReq_Bytes req) (ReadVersionedOffsetCommitResp (version req)))"

definition conn_OffsetFetch ::
  "(byte list res \<Rightarrow> byte list res) \<Rightarrow> connection \<Rightarrow> int32 \<Rightarrow> OffsetFetchReq \<Rightarrow> OffsetFetchResp res"
where
  "conn_OffsetFetch transport c i req =
     (let req = send_header c OffsetFetchReqKind i req
      in exchange transport (OffsetFetchReq_Bytes req) (ReadVersionedOffsetFetchResp (version req)))"

section \<open>Trimming\<close>

definition trim_messages :: "int64 \<Rightarrow> Message list \<Rightarrow> Message list" where
  "trim_messages requestedOffset ms = dropWhile (\<lambda>msg. \<not> requestedOffset \<le>s Offset msg) ms"

definition trim_batch :: "int64 \<Rightarrow> RecordBatch \<Rightarrow> RecordBatch" where
  "trim_batch requestedOffset rb =
     rb\<lparr>rb_Records :=
       dropWhile (\<lambda>r. \<not> requestedOffset \<le>s rb_FirstOffset rb + rec_OffsetDelta r) (rb_Records rb)\<rparr>"

definition trim_partition :: "int64 \<Rightarrow> FetchRespPartition \<Rightarrow> FetchRespPartition" where
  "trim_partition requestedOffset p =
     (if frp_MessageVersion p <s 2
      then p\<lparr>frp_Messages := trim_messages requestedOffset (frp_Messages p)\<rparr>
      else p\<lparr>frp_RecordBatches := map (trim_batch requestedOffset) (frp_RecordBatches p)\<rparr>)"

text \<open>The response is matched with the request by position; a longer response panics.\<close>

fun trim_partitions ::
  "FetchReqPartition list \<Rightarrow> FetchRespPartition list \<Rightarrow> FetchRespPartition list res"
where
  "trim_partitions qs [] = Ok []"
| "trim_partitions [] (p # ps) = Panic"
| "trim_partitions (q # qs) (p # ps) =
     obind (trim_partitions qs ps) (\<lambda>ps. Ok (trim_partition (fqp_FetchOffset q) p # ps))"

fun trim_topics :: "FetchReqTopic list \<Rightarrow> FetchRespTopic list \<Rightarrow> FetchRespTopic list res" where
  "trim_topics qs [] = Ok []"
| "trim_topics [] (t # ts) = Panic"
| "trim_topics (q # qs) (t # ts) =
     obind (trim_partitions (fqt_Partitions q) (frt_Partitions t)) (\<lambda>ps.
     obind (trim_topics qs ts) (\<lambda>ts. Ok (t\<lparr>frt_Partitions := ps\<rparr> # ts)))"

definition trimLeadingMessages :: "FetchReq \<Rightarrow> FetchResp \<Rightarrow> FetchResp res" where
  "trimLeadingMessages req resp =
     obind (trim_topics (fq_Topics req) (fr_Topics resp)) (\<lambda>ts. Ok (resp\<lparr>fr_Topics := ts\<rparr>))"

definition conn_Fetch ::
  "(byte list res \<Rightarrow> byte list res) \<Rightarrow> codecs \<Rightarrow> ParserConfig \<Rightarrow> nat \<Rightarrow> (byte list \<Rightarrow> byte list) \<Rightarrow>
   connection \<Rightarrow> int32 \<Rightarrow> FetchReq \<Rightarrow> FetchResp res"
where
  "conn_Fetch transport lib conf depth spare c i req =
     (let req = send_header c FetchReqKind i req
      in obind (exchange transport (FetchReq_Bytes req)
                  (ReadVersionedFetchResp lib conf depth spare (version req)))
           (trimLeadingMessages req))"

section \<open>What trimming leaves\<close>

lemma dropWhile_filter_sorted:
  assumes "sorted_wrt R xs" "\<And>x y. R x y \<Longrightarrow> P x \<Longrightarrow> P y"
  shows "dropWhile (\<lambda>x. \<not> P x) xs = filter P xs"
  using assms(1)
proof (induction xs)
  case (Cons x xs)
  show ?case
  proof (cases "P x")
    case True
    with Cons.prems have "\<forall>y \<in> set xs. P y" using assms(2) by auto
    then have "filter P xs = xs" by (simp add: filter_id_conv)
    with True show ?thesis by simp
  qed (use Cons in auto)
qed simp

lemma trim_messages_sorted:
  assumes "sorted_wrt (\<lambda>m m'. Offset m \<le>s Offset m') ms"
  shows "trim_messages off ms = filter (\<lambda>m. off \<le>s Offset m) ms"
  unfolding trim_messages_def by (rule dropWhile_filter_sorted[OF assms]) (auto intro: sle_trans)

lemma trim_partitions_length: "trim_partitions qs ps = Ok ps' \<Longrightarrow> length ps' = length ps"
  by (induction qs ps arbitrary: ps' rule: trim_partitions.induct) (auto simp: obind_eq_Ok_conv)

lemma trim_partitions_nth:
  assumes "trim_partitions qs ps = Ok ps'" "k < length ps"
  shows "k < length qs \<and> ps' ! k = trim_partition (fqp_FetchOffset (qs ! k)) (ps ! k)"
  using assms
proof (induction qs ps arbitrary: ps' k rule: trim_partitions.induct)
  case (3 q qs p ps)
  then show ?case by (cases k) (auto simp: obind_eq_Ok_conv)
qed auto

lemma trim_topics_nth:
  assumes "trim_topics qs ts = Ok ts'" "k < length ts"
  shows "length ts' = length ts \<and> k < length qs \<and>
    (\<exists>ps. trim_partitions (fqt_Partitions (qs ! k)) (frt_Partitions (ts ! k)) = Ok ps \<and>
      ts' ! k = (ts ! k)\<lparr>frt_Partitions := ps\<rparr>)"
  using assms
proof (induction qs ts arbitrary: ts' k rule: trim_topics.induct)
  case (3 q qs t ts)
  from "3.prems"(1) obtain ps ts1 where
    ps: "trim_partitions (fqt_Partitions q) (frt_Partitions t) = Ok ps" and
    ts1: "trim_topics qs ts = Ok ts1" and ts': "ts' = t\<lparr>frt_Partitions := ps\<rparr> # ts1"
    by (auto simp: obind_eq_Ok_conv)
  show ?case
  proof (cases k)
    case 0
    have "length ts1 = length ts"
      using "3.IH"[OF ps ts1, of 0] ts1 by (cases ts) auto
    with 0 ps ts' show ?thesis by simp
  next
    case (Suc j)
    with "3.IH"[OF ps ts1, of j] "3.prems"(2) ts' show ?thesis by auto
  qed
qed auto

text \<open>The shape a response has to have not to panic.\<close>

definition matches_request :: "FetchReq \<Rightarrow> FetchResp \<Rightarrow> bool" where
  "matches_request req resp \<longleftrightarrow> length (fr_Topics resp) \<le> length (fq_Topics req) \<and>
     (\<forall>k < length (fr_Topics resp). length (frt_Partitions (fr_Topics resp ! k)) \<le>
        length (fqt_Partitions (fq_Topics req ! k)))"

lemma trim_partitions_Ok:
  "(\<exists>ps'. trim_partitions qs ps = Ok ps') \<longleftrightarrow> length ps \<le> length qs"
  by (induction qs ps rule: trim_partitions.induct) (auto simp: obind_eq_Ok_conv)

lemma trim_topics_Ok:
  "(\<exists>ts'. trim_topics qs ts = Ok ts') \<longleftrightarrow> length ts \<le> length qs \<and>
     (\<forall>k < length ts. length (frt_Partitions (ts ! k)) \<le> length (fqt_Partitions (qs ! k)))"
proof (induction qs ts rule: trim_topics.induct)
  case (3 q qs t ts)
  have "(\<exists>ts'. trim_topics (q # qs) (t # ts) = Ok ts') \<longleftrightarrow>
      length (frt_Partitions t) \<le> length (fqt_Partitions q) \<and> (\<exists>ts'. trim_topics qs ts = Ok ts')"
    by (auto simp: obind_eq_Ok_conv simp flip: trim_partitions_Ok)
  then show ?case
    using trim_partitions_Ok[of "fqt_Partitions q" "frt_Partitions t"] 3
    by (auto simp: All_less_Suc2 dest: sym)
qed auto

lemma trim_total: "(\<exists>resp'. trimLeadingMessages req resp = Ok resp') \<longleftrightarrow> matches_request req resp"
  using trim_topics_Ok[of "fq_Topics req" "fr_Topics resp"]
  by (simp add: trimLeadingMessages_def obind_eq_Ok_conv matches_request_def)

lemma trim_partitions_outcome: "trim_partitions qs ps = Panic \<or> (\<exists>ps'. trim_partitions qs ps = Ok ps')"
  by (induction qs ps rule: trim_partitions.induct) auto

lemma trim_topics_outcome: "trim_topics qs ts = Panic \<or> (\<exists>ts'. trim_topics qs ts = Ok ts')"
proof (induction qs ts rule: trim_topics.induct)
  case (3 q qs t ts)
  then show ?case
    using trim_partitions_outcome[of "fqt_Partitions q" "frt_Partitions t"] by auto
qed auto

section \<open>A call answered by the other side\<close>

text \<open>
  A server built from the same package: it cuts the request out of the stream, reads it, and
  writes the response of \<open>handle\<close>; the reader of the connection cuts that out of the stream.
\<close>

definition served ::
  "(reader \<Rightarrow> 'q res) \<Rightarrow> ('r \<Rightarrow> byte list res) \<Rightarrow> ('q \<Rightarrow> 'r) \<Rightarrow> byte list res \<Rightarrow> byte list res"
where
  "served read Bytes handle out =
     obind out (\<lambda>b.
     obind (fst (ReadReq (NewReader b))) (\<lambda>(_, b).
     obind (read (NewReader b)) (\<lambda>q.
     obind (Bytes (handle q)) (\<lambda>b.
     obind (fst (ReadResp (NewReader b))) (\<lambda>(_, b). Ok b)))))"

definition short :: "byte list res \<Rightarrow> bool" where
  "short out \<longleftrightarrow> (case out of Ok b \<Rightarrow> int (length b) < 2147483648 | _ \<Rightarrow> True)"

lemma carries_ReadReq:
  assumes "carries (PutUint16 kind) out" "out = Ok b" "short out"
  shows "fst (ReadReq (NewReader b)) = Ok (kind, b)"
proof -
  from assms obtain body where "b = frame (PutUint16 kind @ body)" "length body + 6 < 2147483648"
    by (auto simp: carries_def short_def frame_length)
  with ReadReq_frame[of body kind "[]" EOF] show ?thesis by (simp add: NewReader_def)
qed

lemma carries_ReadResp:
  assumes "carries (PutUint32 corr) out" "out = Ok b" "short out"
  shows "fst (ReadResp (NewReader b)) = Ok (corr, b)"
proof -
  from assms obtain body where "b = frame (PutUint32 corr @ body)" "length body + 8 < 2147483648"
    by (auto simp: carries_def short_def frame_length)
  with ReadResp_frame[of body corr "[]" EOF] show ?thesis by (simp add: NewReader_def)
qed

lemma exchange_served:
  assumes "carries (PutUint16 kind) out" "short out" "obind out (\<lambda>b. read_q (NewReader b)) = Ok q"
    and "carries (PutUint32 corr) (Bytes (handle q))" "short (Bytes (handle q))"
    and "obind (Bytes (handle q)) (\<lambda>b. read_r (NewReader b)) = r"
  shows "exchange (served read_q Bytes handle) out read_r = r"
proof -
  from assms(3) obtain b where b: "out = Ok b" "read_q (NewReader b) = Ok q"
    by (auto simp: obind_eq_Ok_conv)
  have sent: "served read_q Bytes handle out = obind (Bytes (handle q)) Ok"
    using b carries_ReadReq[OF assms(1) b(1) assms(2)] carries_ReadResp[OF assms(4) _ assms(5)]
    by (cases "Bytes (handle q)") (auto simp: served_def)
  show ?thesis unfolding exchange_def sent obind_Ok_right by (rule assms(6))
qed

lemma wf_send_header [simp]: "wf_header (send_header c k i r) \<longleftrightarrow> wf_header r"
  by (simp add: wf_header_def send_header_def SetCorrelationID_def SetVersion_def)

lemma send_header_version [simp]: "version (send_header c k i r) = getBestVersion k c"
  by (simp add: send_header_def SetCorrelationID_def SetVersion_def)

lemma tcp_fallback:
  assumes "dial 0 = Inr ()" "fst (versions 0) = Err err" "dial 1 = Inr ()"
  shows "newTCPConnection dial versions = Ok new_connection"
  using assms by (simp add: newTCPConnection_def tcp_loop.simps cacheApiVersions_def)

lemma conn_Close_stops: "stopErr (conn_Close c) \<noteq> None"
  by (simp add: conn_Close_def close_stop_def)

section \<open>Properties\<close>

text \<open>
  \<open>Fetch\<close> end to end: answered by a server that reads the request with \<open>ReadFetchReq\<close> and
  writes a response of the same version, the caller gets the server's response (up to the fields
  the version does not carry, the messages labelled), trimmed to the offsets of the request.
\<close>

lemma fetch_call:
  assumes q_def: "q = send_header c FetchReqKind i req" and r_def: "r = handle (norm_FetchReq q)"
    and "wf_FetchReq q" "short (FetchReq_Bytes q)"
    and "wf_FetchResp lib r" "short (FetchResp_Bytes lib r)" "fr_Version r = version q"
    and "\<not> SimplifiedMessageSetParsing conf"
  shows "conn_Fetch (served ReadFetchReq (FetchResp_Bytes lib) handle) lib conf depth spare c i req =
    trimLeadingMessages q (norm_FetchResp r)"
proof -
  have "exchange (served ReadFetchReq (FetchResp_Bytes lib) handle) (FetchReq_Bytes q)
      (ReadVersionedFetchResp lib conf depth spare (version q)) = Ok (norm_FetchResp r)"
  proof (rule exchange_served[OF FetchReq.kind_prefix assms(4) FetchReq.read_bytes[OF assms(3)]])
    show "short (FetchResp_Bytes lib (handle (norm_FetchReq q)))" using assms(6) by (simp add: r_def)
    show "obind (FetchResp_Bytes lib (handle (norm_FetchReq q)))
        (\<lambda>b. ReadVersionedFetchResp lib conf depth spare (version q) (NewReader b)) =
        Ok (norm_FetchResp r)"
      using FetchResp_read_back[OF assms(5,8), of depth spare] assms(7) by (simp add: r_def)
  qed (rule carries_FetchResp)
  then show ?thesis by (simp add: conn_Fetch_def q_def Let_def)
qed

definition example_reply :: FetchResp where
  "example_reply = \<lparr>fr_Version = 0, fr_CorrelationID = 1, fr_ThrottleTime = 0, fr_Topics =
     [\<lparr>frt_Name = str ''a'', frt_Partitions = [zero_FetchRespPartition\<lparr>frp_TipOffset := 42\<rparr>]\<rparr>]\<rparr>"

lemma example_reply_wf: "wf_FetchResp example_codecs example_reply"
  by (simp add: example_reply_def wf_FetchResp_def wf_FetchRespTopic_def wf_FetchRespPartition_def
      zero_FetchRespPartition_def wf_string_def wf_array_def str_def wire_error_def
      wf_messages_def packed_def set_wire_def maxInt32_def)

lemma fetch_call_witness:
  "conn_Fetch (served ReadFetchReq (FetchResp_Bytes example_codecs) (\<lambda>_. example_reply))
     example_codecs full_parsing 0 id new_connection 1 example_FetchReq =
   trimLeadingMessages (send_header new_connection FetchReqKind 1 example_FetchReq)
     (norm_FetchResp example_reply)"
proof (rule fetch_call[OF refl refl])
  show "short (FetchReq_Bytes (send_header new_connection FetchReqKind 1 example_FetchReq))"
    by code_simp
  show "short (FetchResp_Bytes example_codecs example_reply)"
    by code_simp
  show "wf_FetchResp example_codecs example_reply" by (rule example_reply_wf)
qed (simp_all add: full_parsing_def example_reply_def getBestVersion_def
    new_connection_def send_header_def SetVersion_def SetCorrelationID_def example_FetchReq_def
    wf_FetchReq_def wf_FetchReqTopic_def wf_header_def wf_string_def wf_array_def str_def)

text \<open>
  \<open>Metadata\<close> end to end, for a server that reads the request with \<open>ReadMetadataReq\<close> and
  writes a response of the same version.
\<close>

lemma metadata_call:
  assumes q_def: "q = send_header c MetadataReqKind i req" and r_def: "r = handle (norm_MetadataReq q)"
    and "wf_MetadataReq q" "short (MetadataReq_Bytes q)"
    and "wf_MetadataResp r" "short (MetadataResp_Bytes r)" "mr_Version r = version q"
  shows "conn_Metadata (served ReadMetadataReq MetadataResp_Bytes handle) c i req =
    Ok (norm_MetadataResp r)"
proof -
  have "exchange (served ReadMetadataReq MetadataResp_Bytes handle) (MetadataReq_Bytes q)
      (ReadVersionedMetadataResp (version q)) = Ok (norm_MetadataResp r)"
  proof (rule exchange_served[OF MetadataReq.kind_prefix assms(4) MetadataReq.read_bytes[OF assms(3)]])
    show "short (MetadataResp_Bytes (handle (norm_MetadataReq q)))" using assms(6) by (simp add: r_def)
    show "obind (MetadataResp_Bytes (handle (norm_MetadataReq q)))
        (\<lambda>b. ReadVersionedMetadataResp (version q) (NewReader b)) = Ok (norm_MetadataResp r)"
      using MetadataResp.read_bytes[of r "version q"] assms(5,7) by (simp add: r_def)
  qed (rule carries_MetadataResp)
  then show ?thesis by (simp add: conn_Metadata_def q_def Let_def)
qed

lemma metadata_call_witness:
  "conn_Metadata (served ReadMetadataReq MetadataResp_Bytes
      (\<lambda>_. example_MetadataResp\<lparr>mr_Version := 0\<rparr>)) new_connection 7 example_MetadataReq =
   Ok (norm_MetadataResp (example_MetadataResp\<lparr>mr_Version := 0\<rparr>))"
proof (rule metadata_call[OF refl refl])
  show "short (MetadataReq_Bytes (send_header new_connection MetadataReqKind 7 example_MetadataReq))"
    by code_simp
  show "short (MetadataResp_Bytes (example_MetadataResp\<lparr>mr_Version := 0\<rparr>))"
    by code_simp
qed (simp_all add: example_MetadataReq_def example_MetadataResp_def wf_MetadataReq_def
    wf_MetadataResp_def wf_MetadataRespBroker_def wf_MetadataRespTopic_def
    wf_MetadataRespPartition_def wf_header_def wf_string_def wf_array_def str_def wire_error_def
    kafkaErrors_def getBestVersion_def new_connection_def send_header_def SetVersion_def
    SetCorrelationID_def)

text \<open>
  \<open>trimLeadingMessages\<close> returns exactly when the response has no more topics, and no topic
  more partitions, than the request at the same position; otherwise it panics.
\<close>

lemma trim_returns:
  "if matches_request req resp then \<exists>resp'. trimLeadingMessages req resp = Ok resp'
   else trimLeadingMessages req resp = Panic"
  using trim_total[of req resp] trim_topics_outcome[of "fq_Topics req" "fr_Topics resp"]
  by (auto simp: trimLeadingMessages_def)

text \<open>
  C27.  Where the offsets of a partition do not decrease, \<open>trimLeadingMessages\<close> leaves exactly the
  messages from the requested offset on, as signed 64-bit numbers.
\<close>

lemma trim_exact:
  assumes "trimLeadingMessages req resp = Ok resp'"
    and "k < length (fr_Topics resp)" "l < length (frt_Partitions (fr_Topics resp ! k))"
    and "frp_MessageVersion (frt_Partitions (fr_Topics resp ! k) ! l) <s 2"
    and "sorted_wrt (\<lambda>m m'. Offset m \<le>s Offset m')
           (frp_Messages (frt_Partitions (fr_Topics resp ! k) ! l))"
  shows "frp_Messages (frt_Partitions (fr_Topics resp' ! k) ! l) =
    filter (\<lambda>m. fqp_FetchOffset (fqt_Partitions (fq_Topics req ! k) ! l) \<le>s Offset m)
      (frp_Messages (frt_Partitions (fr_Topics resp ! k) ! l))"
proof -
  from assms(1) have "trim_topics (fq_Topics req) (fr_Topics resp) = Ok (fr_Topics resp')"
    by (auto simp: trimLeadingMessages_def obind_eq_Ok_conv)
  from trim_topics_nth[OF this assms(2)] obtain ps where
    "trim_partitions (fqt_Partitions (fq_Topics req ! k)) (frt_Partitions (fr_Topics resp ! k)) = Ok ps"
    "fr_Topics resp' ! k = (fr_Topics resp ! k)\<lparr>frt_Partitions := ps\<rparr>"
    by blast
  with trim_partitions_nth[OF this(1) assms(3)] assms(4,5) show ?thesis
    by (simp add: trim_partition_def trim_messages_sorted)
qed

definition example_offsets :: FetchResp where
  "example_offsets = zero_FetchResp\<lparr>fr_Topics := [\<lparr>frt_Name = str ''a'', frt_Partitions =
     [zero_FetchRespPartition\<lparr>frp_Messages := map (\<lambda>off. zero_Message\<lparr>Offset := off\<rparr>) [41, 42, 43]\<rparr>]\<rparr>]\<rparr>"

lemma trim_exact_witness:
  "\<exists>resp'. trimLeadingMessages example_FetchReq example_offsets = Ok resp' \<and>
     map Offset (frp_Messages (frt_Partitions (fr_Topics resp' ! 0) ! 0)) = [42, 43]"
proof -
  have "matches_request example_FetchReq example_offsets"
    by (simp add: matches_request_def example_offsets_def example_FetchReq_def zero_FetchResp_def)
  then obtain resp' where r: "trimLeadingMessages example_FetchReq example_offsets = Ok resp'"
    using trim_total by blast
  have "frp_Messages (frt_Partitions (fr_Topics resp' ! 0) ! 0) =
    filter (\<lambda>m. fqp_FetchOffset (fqt_Partitions (fq_Topics example_FetchReq ! 0) ! 0) \<le>s Offset m)
      (frp_Messages (frt_Partitions (fr_Topics example_offsets ! 0) ! 0))"
    by (rule trim_exact[OF r])
      (simp_all add: example_offsets_def zero_FetchRespPartition_def zero_FetchResp_def word_sle_eq
        word_sless_alt)
  with r show ?thesis
    by (simp add: example_offsets_def example_FetchReq_def zero_FetchRespPartition_def
        zero_FetchResp_def word_sle_eq)
qed

text \<open>
  C35.  A server that does not answer \<open>ApiVersions\<close>: \<open>newTCPConnection\<close> dials again and returns an
  open connection that sends every request at version 0, \<open>newTLSConnection\<close> returns the connection
  it has just closed.
\<close>

lemma version_fallback:
  assumes "dial 0 = Inr ()" "dial 1 = Inr ()" "versions 0 = (Err err, c)"
  shows "newTCPConnection dial versions = Ok new_connection \<and> stopErr new_connection = None \<and>
    (\<forall>kind. getBestVersion kind new_connection = 0) \<and>
    (\<exists>c'. newTLSConnection True None (dial 0) (versions 0) = Ok c' \<and> stopErr c' \<noteq> None)"
  using tcp_fallback[of dial versions err] assms conn_Close_stops[of c]
  by (simp add: newTLSConnection_def cacheApiVersions_def getBestVersion_def new_connection_def)

lemma version_fallback_witness:
  "newTCPConnection (\<lambda>_. Inr ()) (\<lambda>_. (Err EOF, new_connection)) = Ok new_connection"
  using version_fallback[of "\<lambda>_. Inr ()" "\<lambda>_. (Err EOF, new_connection)" EOF new_connection] by simp

end
