(* ===== verification/GoMap.thy ===== *)
theory GoMap
  imports Main
begin

text \<open>
  Go maps the code iterates over: association lists with distinct keys, with the assignment
  \<open>m[k] = v\<close> and \<open>delete(m, k)\<close>, visited in an order the program does not control.
\<close>

section \<open>Iteration over maps\<close>

text \<open>
  A map that the code iterates over is an association list with distinct keys; \<open>range\<close> visits the
  entries in any order, the permutation \<open>p\<close>, as does \<open>rand.Perm\<close>.
\<close>

definition permutation :: "nat list \<Rightarrow> nat \<Rightarrow> bool" where
  "permutation p n \<longleftrightarrow> sort p = [0..<n]"

definition in_order :: "nat list \<Rightarrow> 'a list \<Rightarrow> 'a list" where
  "in_order p xs = (if permutation p (length xs) then map (\<lambda>i. xs ! i) p else xs)"

definition put :: "'k \<Rightarrow> 'v \<Rightarrow> ('k \<times> 'v) list \<Rightarrow> ('k \<times> 'v) list" where
  "put k v m = (k, v) # filter (\<lambda>x. fst x \<noteq> k) m"

definition del :: "'k \<Rightarrow> ('k \<times> 'v) list \<Rightarrow> ('k \<times> 'v) list" where
  "del k m = filter (\<lambda>x. fst x \<noteq> k) m"

section \<open>Lemmas\<close>

lemma permutation_set: "permutation p n \<Longrightarrow> set p = {0..<n}"
  unfolding permutation_def by (metis set_sort set_upt)

lemma set_in_order [simp]: "set (in_order p xs) = set xs"
proof (cases "permutation p (length xs)")
  case True
  have "set (map (\<lambda>i. xs ! i) p) = (\<lambda>i. xs ! i) ` {0..<length xs}"
    using permutation_set[OF True] by simp
  also have "\<dots> = set xs" by (auto simp: set_conv_nth)
  finally show ?thesis using True by (simp add: in_order_def)
qed (simp add: in_order_def)

lemma map_of_del: "map_of (del k m) = (map_of m)(k := None)"
  by (rule ext) (induction m; auto simp: del_def)

lemma map_of_put: "map_of (put k v m) = (map_of m)(k \<mapsto> v)"
  using map_of_del[of k m] by (simp add: put_def del_def)

lemma set_del: "set (del k m) = {x \<in> set m. fst x \<noteq> k}"
  by (auto simp: del_def)

lemma distinct_del: "distinct (map fst m) \<Longrightarrow> distinct (map fst (del k m))"
  by (simp add: del_def distinct_map_filter)

lemma map_of_foldl_put:
  "map_of (foldl (\<lambda>ns x. put (k x) (v x) ns) ns xs) = map_of ns ++ map_of (rev (map (\<lambda>x. (k x, v x)) xs))"
  by (induction xs arbitrary: ns) (simp_all add: map_of_put map_add_upd_left)

lemma distinct_put: "distinct (map fst ns) \<Longrightarrow> distinct (map fst (put k v ns))"
  by (auto simp: put_def distinct_map_filter)

lemma distinct_foldl_put:
  "distinct (map fst ns) \<Longrightarrow> distinct (map fst (foldl (\<lambda>ns x. put (k x) (v x) ns) ns xs))"
  by (induction xs arbitrary: ns) (simp_all add: distinct_put)

lemma map_of_const:
  "\<forall>x \<in> set xs. snd x = v \<Longrightarrow> map_of xs k = (if k \<in> fst ` set xs then Some v else None)"
  by (induction xs) auto

lemma distinct_in_order: "distinct (map fst xs) \<Longrightarrow> distinct (map fst (in_order p xs))"
proof (cases "permutation p (length xs)")
  case True
  assume dist: "distinct (map fst xs)"
  have "distinct p" using True by (metis distinct_sort distinct_upt permutation_def)
  moreover have "inj_on (\<lambda>i. fst (xs ! i)) (set p)"
    using dist permutation_set[OF True] by (auto simp: inj_on_def distinct_conv_nth)
      (metis length_map nth_map)
  ultimately show ?thesis using True by (simp add: in_order_def distinct_map comp_def)
qed (simp add: in_order_def)

lemma map_of_in_order: "distinct (map fst xs) \<Longrightarrow> map_of (rev (in_order p xs)) = map_of xs"
  using map_of_inject_set[of "rev (in_order p xs)" xs] distinct_in_order[of xs p] by (simp add: rev_map[symmetric])

end
