(* ===== verification/GoStrings.thy ===== *)
theory GoStrings
  imports GoLib
begin

text \<open>
  What the program uses of the packages \<open>strings\<close> and \<open>strconv\<close>: decimal numbers, \<open>Split\<close> and \<open>TrimSpace\<close>.
\<close>

section \<open>Numbers\<close>

text \<open>\<open>strconv.Itoa\<close>, the verb \<open>%d\<close>\<close>

fun digits :: "nat \<Rightarrow> gostring" where
  "digits n = (if n < 10 then [of_nat (48 + n)] else digits (n div 10) @ [of_nat (48 + n mod 10)])"

declare digits.simps [simp del]

definition itoa :: "int \<Rightarrow> gostring" where
  "itoa i = (if i < 0 then str ''-'' @ digits (nat (- i)) else digits (nat i))"

definition digits_value :: "gostring \<Rightarrow> nat option" where
  "digits_value s =
     (if s \<noteq> [] \<and> (\<forall>b \<in> set s. 48 \<le> b \<and> b \<le> 57) then Some (foldl (\<lambda>n b. 10 * n + (unat b - 48)) 0 s) else None)"

text \<open>
  \<open>strconv.Atoi\<close>: the value and whether there is no error; a number that does not fit is cut to the range.
\<close>

definition Atoi :: "gostring \<Rightarrow> int \<times> bool" where
  "Atoi s =
     (let (neg, ds) = (case s of c # t \<Rightarrow> if c = 45 then (True, t) else if c = 43 then (False, t) else (False, s)
                       | [] \<Rightarrow> (False, []))
      in case digits_value ds of
           None \<Rightarrow> (0, False)
         | Some n \<Rightarrow>
             if neg then if 2 ^ 63 < n then (- (2 ^ 63), False) else (- int n, True)
             else if 2 ^ 63 \<le> n then (2 ^ 63 - 1, False) else (int n, True))"

section \<open>Strings\<close>

text \<open>\<open>strings.Split\<close> with a separator of one byte\<close>

fun Split :: "byte \<Rightarrow> gostring \<Rightarrow> gostring list" where
  "Split c [] = [[]]"
| "Split c (b # bs) =
     (if b = c then [] # Split c bs
      else case Split c bs of x # xs \<Rightarrow> (b # x) # xs | [] \<Rightarrow> [[b]])"

text \<open>
  \<open>strings.TrimSpace\<close>.  \<open>spaces\<close> has the characters of \<open>unicode.IsSpace\<close> in UTF-8: the blank and \<open>\t\<close> to \<open>\r\<close>,
  U+0085, U+00A0, U+1680, U+2000 to U+200A, U+2028, U+2029, U+202F, U+205F and U+3000.
\<close>

definition spaces :: "gostring list" where
  "spaces = [[32], [9], [10], [11], [12], [13], [0xC2, 0x85], [0xC2, 0xA0], [0xE1, 0x9A, 0x80]] @
     map (\<lambda>i. [0xE2, 0x80, 0x80 + of_nat i]) [0..<11] @
     [[0xE2, 0x80, 0xA8], [0xE2, 0x80, 0xA9], [0xE2, 0x80, 0xAF], [0xE2, 0x81, 0x9F], [0xE3, 0x80, 0x80]]"

fun strip :: "gostring list \<Rightarrow> gostring \<Rightarrow> gostring" where
  "strip ws [] = []"
| "strip ws (b # bs) =
     (case find (\<lambda>w. w \<noteq> [] \<and> take (length w) (b # bs) = w) ws of
        None \<Rightarrow> b # bs
      | Some w \<Rightarrow> strip ws (drop (length w - 1) bs))"

definition TrimSpace :: "gostring \<Rightarrow> gostring" where
  "TrimSpace s = rev (strip (map rev spaces) (rev (strip spaces s)))"

section \<open>Lemmas on numbers\<close>

lemma unat_digit: "k < 10 \<Longrightarrow> unat (of_nat (48 + k) :: byte) = 48 + k"
  by (simp del: of_nat_add add: unat_of_nat)

lemma digits_range: "b \<in> set (digits n) \<Longrightarrow> 48 \<le> b \<and> b \<le> 57"
proof (induction n rule: digits.induct)
  case (1 n)
  have "48 \<le> (of_nat (48 + k) :: byte) \<and> (of_nat (48 + k) :: byte) \<le> 57" if "k < 10" for k
    using that unat_digit[OF that] by (simp del: of_nat_add add: word_le_nat_alt)
  from this[of n] this[of "n mod 10"] 1 show ?case
    by (subst (asm) (2) digits.simps) (auto split: if_splits simp del: of_nat_add)
qed

lemma digits_value_digits: "digits_value (digits n) = Some n"
proof -
  have "foldl (\<lambda>n b. 10 * n + (unat b - 48)) 0 (digits n) = n"
  proof (induction n rule: digits.induct)
    case (1 n)
    with unat_digit[of n] unat_digit[of "n mod 10"] show ?case
      by (subst digits.simps) (simp del: of_nat_add)
  qed
  moreover have "digits n \<noteq> []" by (subst digits.simps) simp
  ultimately show ?thesis using digits_range by (auto simp: digits_value_def)
qed

lemma digits_inject: "digits m = digits n \<Longrightarrow> m = n"
  using digits_value_digits by (metis option.inject)

lemma itoa_no_colon: "58 \<notin> set (itoa i)"
proof -
  have "58 \<notin> set (digits n)" for n
  proof
    assume "58 \<in> set (digits n)"
    from digits_range[OF this] show False by (simp add: word_le_nat_alt)
  qed
  then show ?thesis by (simp add: itoa_def str_def)
qed

lemma itoa_inject:
  assumes "itoa i = itoa j"
  shows "i = j"
proof -
  have "hd (digits n) \<noteq> 45" for n
  proof
    assume "hd (digits n) = 45"
    moreover have "digits n \<noteq> []" by (subst digits.simps) simp
    ultimately have "45 \<in> set (digits n)" by (metis list.set_sel(1))
    from digits_range[OF this] show False by (simp add: word_le_nat_alt)
  qed
  then have minus: "digits n \<noteq> 45 # x" for n x by (metis list.sel(1))
  show ?thesis
    using assms minus minus[symmetric]
    by (auto simp: itoa_def str_def split: if_splits dest!: digits_inject)
qed

lemma first_occurrence:
  "c \<notin> set xs \<Longrightarrow> c \<notin> set xs' \<Longrightarrow> xs @ c # ys = xs' @ c # ys' \<Longrightarrow> xs = xs' \<and> ys = ys'"
  by (induction xs xs' rule: list_induct2') auto

lemma Atoi_itoa:
  assumes "- (2 ^ 63) \<le> i" "i < 2 ^ 63"
  shows "Atoi (itoa i) = (i, True)"
proof -
  have "digits n \<noteq> []" "hd (digits n) \<noteq> 45" "hd (digits n) \<noteq> 43" for n
  proof -
    show ne: "digits n \<noteq> []" by (subst digits.simps) simp
    have "48 \<le> hd (digits n)" using digits_range[of "hd (digits n)" n] ne by simp
    then show "hd (digits n) \<noteq> 45" "hd (digits n) \<noteq> 43" by (auto simp: word_le_nat_alt)
  qed
  then have "(case digits n of c # t \<Rightarrow> if c = 45 then (True, t) else if c = 43 then (False, t) else (False, digits n)
      | [] \<Rightarrow> (False, [])) = (False, digits n)" for n
    by (simp split: list.split) (metis list.sel(1))
  then show ?thesis
    using assms by (auto simp: Atoi_def itoa_def str_def digits_value_digits Let_def)
qed

section \<open>Lemmas on strings\<close>

lemma Split_none: "c \<notin> set s \<Longrightarrow> Split c s = [s]"
  by (induction s) auto

lemma Split_append: "c \<notin> set s \<Longrightarrow> Split c (s @ c # t) = s # Split c t"
  by (induction s) auto

text \<open>Lines, each ended by a newline, which is what a command prints.\<close>

lemma Split_lines:
  assumes "\<forall>l \<in> set ls. c \<notin> set l" "ls \<noteq> []"
  shows "Split c (butlast (concat (map (\<lambda>l. l @ [c]) ls))) = ls"
  using assms
proof (induction ls rule: induct_list012)
  case (2 l)
  then show ?case by (simp add: Split_none butlast_append)
next
  case (3 l m ls)
  then show ?case by (simp add: Split_append butlast_append)
qed simp

text \<open>A string that starts and ends with a visible character is trimmed of nothing.\<close>

definition visible :: "byte \<Rightarrow> bool" where
  "visible b \<longleftrightarrow> 33 \<le> b \<and> b \<le> 126"

lemma strip_visible:
  assumes "visible b" "\<forall>w \<in> set ws. w \<noteq> [] \<longrightarrow> \<not> visible (hd w)"
  shows "strip ws (b # bs) = b # bs"
proof -
  have "find (\<lambda>w. w \<noteq> [] \<and> take (length w) (b # bs) = w) ws = None"
    unfolding find_None_iff
  proof
    assume "\<exists>w. w \<in> set ws \<and> w \<noteq> [] \<and> take (length w) (b # bs) = w"
    then obtain w where "w \<in> set ws" "w \<noteq> []" "take (length w) (b # bs) = w" by blast
    then have "hd w = b" by (metis hd_take length_greater_0_conv list.sel(1))
    with assms \<open>w \<in> set ws\<close> \<open>w \<noteq> []\<close> show False by auto
  qed
  then show ?thesis by simp
qed

lemma spaces_invisible: "\<forall>w \<in> set spaces. \<not> visible (hd w) \<and> \<not> visible (last w)"
  by code_simp

lemma TrimSpace_visible:
  assumes "visible (hd s)" "visible (last s)"
  shows "TrimSpace (s @ [10]) = s"
proof (cases s rule: rev_cases)
  case (snoc t b)
  have "\<forall>w \<in> set (map rev spaces). w \<noteq> [] \<longrightarrow> \<not> visible (hd w)"
    using spaces_invisible by (auto simp: hd_rev)
  moreover have "find (\<lambda>w. w \<noteq> [] \<and> take (length w) (10 # xs) = w) (map rev spaces) = Some [10]" for xs :: gostring
    by (simp add: spaces_def)
  ultimately have "strip (map rev spaces) (10 # rev s) = rev s"
    using strip_visible[of b "map rev spaces" "rev t"] assms(2) snoc by (simp del: strip.simps(2) add: strip.simps(2)[of _ 10])
  moreover have "strip spaces (hd s # tl s @ [10]) = hd s # tl s @ [10]"
    using strip_visible[OF assms(1)] spaces_invisible by blast
  moreover have "hd s # tl s @ [10] = s @ [10]"
    using snoc by (metis Nil_is_append_conv append_Cons list.collapse not_Cons_self2)
  ultimately show ?thesis by (simp add: TrimSpace_def)
qed (use assms spaces_invisible in \<open>simp add: TrimSpace_def spaces_def\<close>)

end
