(* ===== verification/TestServer.thy ===== *)
theory TestServer
  imports ConnectionApi GoMap GoStrings
begin

text \<open>
  The in-memory Kafka server of \<open>v2/kafkatest/server.go\<close>: its state, the operations a test calls
  (\<open>AddMessages\<close>, \<open>Reset\<close>, ...), one handler per kind of request, and \<open>handleClient\<close>, which reads
  requests from a connection, dispatches them and writes the responses.
\<close>

section \<open>State\<close>

record topicOffset =
  to_offset :: int64
  to_metadata :: gostring

text \<open>
  \<open>topics\<close> is iterated over, so it is an association list; \<open>ln\<close> is the address of the listener;
  \<open>events\<close> is the number of tokens in the channel, which holds 1000.
\<close>

record Server =
  brokers :: "MetadataRespBroker list"
  topics :: "(gostring \<times> (int32 \<times> Message list) list) list"
  offsets :: "gostring \<rightharpoonup> int32 \<rightharpoonup> gostring \<rightharpoonup> topicOffset"
  ln :: "gostring option"
  events :: nat

definition NewServer :: Server where
  "NewServer = \<lparr>brokers = [], topics = [], offsets = (\<lambda>_. None), ln = None, events = 0\<rparr>"

definition events_capacity :: nat where
  "events_capacity = 1000"

definition Addr :: "Server \<Rightarrow> gostring" where
  "Addr s = (case ln s of Some addr \<Rightarrow> addr | None \<Rightarrow> [])"

definition Reset :: "Server \<Rightarrow> Server" where
  "Reset s = s\<lparr>topics := []\<rparr>"

definition Server_Close :: "Server \<Rightarrow> Server" where
  "Server_Close s = s\<lparr>ln := None\<rparr>"

text \<open>The messages of a partition; a topic or partition that does not exist has none.\<close>

definition part_log :: "Server \<Rightarrow> gostring \<Rightarrow> int32 \<Rightarrow> Message list option" where
  "part_log s topic part = Option.bind (map_of (topics s) topic) (\<lambda>parts. map_of parts part)"

section \<open>Adding messages\<close>

definition topic_or_new :: "gostring \<Rightarrow> Server \<Rightarrow> (int32 \<times> Message list) list" where
  "topic_or_new topic s = (case map_of (topics s) topic of Some parts \<Rightarrow> parts | None \<Rightarrow> [])"

definition part_or_new :: "int32 \<Rightarrow> (int32 \<times> Message list) list \<Rightarrow> (int32 \<times> Message list) list" where
  "part_or_new part parts = (case map_of parts part of Some _ \<Rightarrow> parts | None \<Rightarrow> put part [] parts)"

definition messages_of :: "int32 \<Rightarrow> (int32 \<times> Message list) list \<Rightarrow> Message list" where
  "messages_of part parts = (case map_of parts part of Some ms \<Rightarrow> ms | None \<Rightarrow> [])"

text \<open>
  \<open>AddMessages\<close>.  The loop \<open>for i := int32(0); i <= partition; i++\<close> never ends for the largest
  partition, because \<open>i\<close> wraps; this is \<open>NoFuel\<close>.
\<close>

definition AddMessages :: "gostring \<Rightarrow> int32 \<Rightarrow> Message list \<Rightarrow> Server \<Rightarrow> Server res" where
  "AddMessages topic part messages s =
     (if sint part = maxInt32 then NoFuel
      else
        let parts = foldl (\<lambda>parts i. part_or_new (of_nat i) parts) (topic_or_new topic s)
              [0..<nat (sint part + 1)];
            start = length (messages_of part parts);
            messages = map (\<lambda>(i, msg). msg\<lparr>Offset := of_nat (start + i), Partition := part, Topic := topic\<rparr>)
              (enumerate 0 messages);
            parts = (if messages = [] then parts else put part (messages_of part parts @ messages) parts)
        in Ok (s\<lparr>topics := put topic parts (topics s)\<rparr>))"

section \<open>Handlers\<close>

text \<open>
  What a handler comes to: a response, the nil response, an operation on a channel that blocks, or a
  panic, which ends the program.
\<close>

datatype 'r reply = Reply 'r | NoReply | Blocks | Panics

definition append_message :: "gostring \<Rightarrow> int32 \<Rightarrow> Message \<Rightarrow> (int32 \<times> Message list) list \<Rightarrow> (int32 \<times> Message list) list"
where
  "append_message topic part msg parts =
     put part (messages_of part parts @ [msg\<lparr>Offset := of_nat (length (messages_of part parts)), Topic := topic\<rparr>])
       parts"

definition produce_part ::
  "gostring \<Rightarrow> ProduceReqPartition \<Rightarrow> (int32 \<times> Message list) list \<Rightarrow>
   ProduceRespPartition \<times> (int32 \<times> Message list) list"
where
  "produce_part topic q parts =
     (let parts = part_or_new (pqp_ID q) parts;
          parts = foldl (\<lambda>parts msg. append_message topic (pqp_ID q) msg parts) parts (pqp_Messages q)
      in (zero_ProduceRespPartition\<lparr>prp_ID := pqp_ID q,
            prp_Offset := of_nat (length (messages_of (pqp_ID q) parts)) - 1\<rparr>, parts))"

text \<open>Go's \<open>for i, x := range xs { out[i] = ... }\<close> with a state that every round changes.\<close>

primrec map_state :: "('a \<Rightarrow> 's \<Rightarrow> 'b \<times> 's) \<Rightarrow> 'a list \<Rightarrow> 's \<Rightarrow> 'b list \<times> 's" where
  "map_state f [] s = ([], s)"
| "map_state f (x # xs) s = (let (y, s) = f x s; (ys, s) = map_state f xs s in (y # ys, s))"

definition produce_topic :: "ProduceReqTopic \<Rightarrow> Server \<Rightarrow> ProduceRespTopic \<times> Server" where
  "produce_topic q s =
     (let (ps, parts) = map_state (produce_part (pqt_Name q)) (pqt_Partitions q) (topic_or_new (pqt_Name q) s)
      in (\<lparr>prt_Name = pqt_Name q, prt_Partitions = ps\<rparr>, s\<lparr>topics := put (pqt_Name q) parts (topics s)\<rparr>))"

text \<open>The token is sent with the lock of the server held.\<close>

definition handleProduceRequest :: "ProduceReq \<Rightarrow> Server \<Rightarrow> ProduceResp reply \<times> Server" where
  "handleProduceRequest req s =
     (let (ts, s) = map_state produce_topic (pq_Topics req) s
      in if events s < events_capacity
         then (Reply (zero_ProduceResp\<lparr>pr_CorrelationID := correlationID req, pr_Topics := ts\<rparr>),
               s\<lparr>events := events s + 1\<rparr>)
         else (Blocks, s))"

text \<open>\<open>messages[part.FetchOffset:]\<close> panics for a negative offset.\<close>

definition fetch_part :: "Server \<Rightarrow> gostring \<Rightarrow> FetchReqPartition \<Rightarrow> (FetchRespPartition \<times> nat) res" where
  "fetch_part s name q =
     (let p = zero_FetchRespPartition\<lparr>frp_ID := fqp_ID q\<rparr>
      in case part_log s name (fqp_ID q) of
           None \<Rightarrow> Ok (p\<lparr>frp_Err := Some (KafkaErr ErrUnknownTopicOrPartition)\<rparr>, 0)
         | Some messages \<Rightarrow>
             if int (length messages) < sint (fqp_FetchOffset q)
             then Ok (p\<lparr>frp_Err := Some (KafkaErr ErrOffsetOutOfRange)\<rparr>, 0)
             else if sint (fqp_FetchOffset q) < 0 then Panic
             else let ms = drop (nat (sint (fqp_FetchOffset q))) messages
                  in Ok (p\<lparr>frp_TipOffset := of_nat (length messages), frp_Messages := ms\<rparr>, length ms))"

primrec fetch_parts :: "Server \<Rightarrow> gostring \<Rightarrow> FetchReqPartition list \<Rightarrow> (FetchRespPartition list \<times> nat) res"
where
  "fetch_parts s name [] = Ok ([], 0)"
| "fetch_parts s name (q # qs) =
     obind (fetch_part s name q) (\<lambda>(p, n). obind (fetch_parts s name qs) (\<lambda>(ps, k). Ok (p # ps, n + k)))"

primrec fetch_topics :: "Server \<Rightarrow> FetchReqTopic list \<Rightarrow> (FetchRespTopic list \<times> nat) res" where
  "fetch_topics s [] = Ok ([], 0)"
| "fetch_topics s (t # ts) =
     obind (fetch_parts s (fqt_Name t) (fqt_Partitions t)) (\<lambda>(ps, n).
     obind (fetch_topics s ts) (\<lambda>(rs, k). Ok (\<lparr>frt_Name = fqt_Name t, frt_Partitions = ps\<rparr> # rs, n + k)))"

definition fetchRequest :: "FetchReq \<Rightarrow> Server \<Rightarrow> (FetchResp \<times> nat) res" where
  "fetchRequest req s =
     obind (fetch_topics s (fq_Topics req)) (\<lambda>(ts, n).
       Ok (zero_FetchResp\<lparr>fr_CorrelationID := correlationID req, fr_Topics := ts\<rparr>, n))"

text \<open>
  Without messages the handler waits for a token or a second, with the lock released;
  \<open>meanwhile\<close> is what other clients do to the server until then.
\<close>

definition await_event :: "(Server \<Rightarrow> Server) \<Rightarrow> Server \<Rightarrow> Server" where
  "await_event meanwhile s = (if 0 < events s then s\<lparr>events := events s - 1\<rparr> else meanwhile s)"

definition as_reply :: "('r \<times> nat) res \<Rightarrow> 'r reply" where
  "as_reply r = (case r of Ok (resp, n) \<Rightarrow> Reply resp | _ \<Rightarrow> Panics)"

definition handleFetchRequest :: "(Server \<Rightarrow> Server) \<Rightarrow> FetchReq \<Rightarrow> Server \<Rightarrow> FetchResp reply \<times> Server" where
  "handleFetchRequest meanwhile req s =
     (case fetchRequest req s of
        Ok (resp, n) \<Rightarrow>
          if n = 0 then let s = await_event meanwhile s in (as_reply (fetchRequest req s), s)
          else (Reply resp, s)
      | _ \<Rightarrow> (Panics, s))"

definition offset_part :: "Server \<Rightarrow> gostring \<Rightarrow> OffsetReqPartition \<Rightarrow> OffsetRespPartition option" where
  "offset_part s name q =
     (let p = zero_OffsetRespPartition\<lparr>orp_ID := oqp_ID q\<rparr>
      in if oqp_TimeMs q = - 1 then
           Some (p\<lparr>orp_Offsets := [case part_log s name (oqp_ID q) of Some ms \<Rightarrow> of_nat (length ms) | None \<Rightarrow> 0, 0]\<rparr>)
         else if oqp_TimeMs q = - 2 then Some (p\<lparr>orp_Offsets := [0, 0]\<rparr>)
         else None)"

primrec all_some :: "'a option list \<Rightarrow> 'a list option" where
  "all_some [] = Some []"
| "all_some (x # xs) = (case x of None \<Rightarrow> None | Some y \<Rightarrow> map_option (Cons y) (all_some xs))"

definition offset_topic :: "Server \<Rightarrow> OffsetReqTopic \<Rightarrow> OffsetRespTopic option" where
  "offset_topic s t =
     map_option (\<lambda>ps. \<lparr>ort_Name = oqt_Name t, ort_Partitions = ps\<rparr>)
       (all_some (map (offset_part s (oqt_Name t)) (oqt_Partitions t)))"

definition handleOffsetRequest :: "OffsetReq \<Rightarrow> Server \<Rightarrow> OffsetResp reply \<times> Server" where
  "handleOffsetRequest req s =
     (case all_some (map (offset_topic s) (oq_Topics req)) of
        None \<Rightarrow> (NoReply, s)
      | Some ts \<Rightarrow> (Reply (zero_OffsetResp\<lparr>or_CorrelationID := correlationID req, or_Topics := ts\<rparr>), s))"

definition handleConsumerMetadataRequest ::
  "ConsumerMetadataReq \<Rightarrow> Server \<Rightarrow> ConsumerMetadataResp reply \<times> Server"
where
  "handleConsumerMetadataRequest req s =
     (case Split 58 (Addr s) of
        host # port # _ \<Rightarrow>
          (Reply (zero_ConsumerMetadataResp\<lparr>cr_CorrelationID := correlationID req, cr_CoordinatorHost := host,
             cr_CoordinatorPort := of_int (fst (Atoi port))\<rparr>), s)
      | _ \<Rightarrow> (Panics, s))"

definition handleAPIVersionsRequest :: "APIVersionsReq \<Rightarrow> Server \<Rightarrow> APIVersionsResp reply \<times> Server" where
  "handleAPIVersionsRequest req s =
     (Reply (zero_APIVersionsResp\<lparr>av_CorrelationID := correlationID req, av_APIVersions :=
        map (\<lambda>k. \<lparr>APIKey = k, MinVersion = KafkaV0, MaxVersion = KafkaV0\<rparr>)
          [ProduceReqKind, FetchReqKind, OffsetReqKind, MetadataReqKind, OffsetCommitReqKind,
           OffsetFetchReqKind, ConsumerMetadataReqKind, APIVersionsReqKind]\<rparr>), s)"

definition getTopicOffset :: "gostring \<Rightarrow> gostring \<Rightarrow> int32 \<Rightarrow> Server \<Rightarrow> topicOffset \<times> Server" where
  "getTopicOffset grp topic partID s =
     (let pmap = (case offsets s topic of Some m \<Rightarrow> m | None \<Rightarrow> (\<lambda>_. None));
          groups = (case pmap partID of Some m \<Rightarrow> m | None \<Rightarrow> (\<lambda>_. None));
          toffset = (case groups grp of Some t \<Rightarrow> t | None \<Rightarrow> \<lparr>to_offset = 0, to_metadata = []\<rparr>)
      in (toffset, s\<lparr>offsets := (offsets s)(topic \<mapsto> pmap(partID \<mapsto> groups(grp \<mapsto> toffset)))\<rparr>))"

text \<open>An assignment through the pointer \<open>getTopicOffset\<close> returned.\<close>

definition setTopicOffset :: "gostring \<Rightarrow> gostring \<Rightarrow> int32 \<Rightarrow> topicOffset \<Rightarrow> Server \<Rightarrow> Server" where
  "setTopicOffset grp topic partID toffset s =
     (case offsets s topic of
        None \<Rightarrow> s
      | Some pmap \<Rightarrow>
          (case pmap partID of
             None \<Rightarrow> s
           | Some groups \<Rightarrow> s\<lparr>offsets := (offsets s)(topic \<mapsto> pmap(partID \<mapsto> groups(grp \<mapsto> toffset)))\<rparr>))"

definition offset_fetch_part :: "gostring \<Rightarrow> gostring \<Rightarrow> int32 \<Rightarrow> Server \<Rightarrow> OffsetFetchRespPartition \<times> Server" where
  "offset_fetch_part grp topic part s =
     (let (toffset, s) = getTopicOffset grp topic part s
      in (zero_OffsetFetchRespPartition\<lparr>ofrp_ID := part, ofrp_Metadata := to_metadata toffset,
            ofrp_Offset := to_offset toffset\<rparr>, s))"

definition offset_fetch_topic :: "gostring \<Rightarrow> OffsetFetchReqTopic \<Rightarrow> Server \<Rightarrow> OffsetFetchRespTopic \<times> Server" where
  "offset_fetch_topic grp t s =
     (let (ps, s) = map_state (offset_fetch_part grp (ofqt_Name t)) (ofqt_Partitions t) s
      in (\<lparr>ofrt_Name = ofqt_Name t, ofrt_Partitions = ps\<rparr>, s))"

definition handleOffsetFetchRequest :: "OffsetFetchReq \<Rightarrow> Server \<Rightarrow> OffsetFetchResp reply \<times> Server" where
  "handleOffsetFetchRequest req s =
     (let (ts, s) = map_state (offset_fetch_topic (ofq_ConsumerGroup req)) (ofq_Topics req) s
      in (Reply (zero_OffsetFetchResp\<lparr>ofr_CorrelationID := correlationID req, ofr_Topics := ts\<rparr>), s))"

definition offset_commit_part ::
  "gostring \<Rightarrow> gostring \<Rightarrow> OffsetCommitReqPartition \<Rightarrow> Server \<Rightarrow> OffsetCommitRespPartition \<times> Server"
where
  "offset_commit_part grp topic q s =
     (let (toffset, s) = getTopicOffset grp topic (ocqp_ID q) s;
          s = setTopicOffset grp topic (ocqp_ID q)
                (toffset\<lparr>to_metadata := ocqp_Metadata q, to_offset := ocqp_Offset q\<rparr>) s
      in (zero_OffsetCommitRespPartition\<lparr>ocrp_ID := ocqp_ID q\<rparr>, s))"

definition offset_commit_topic :: "gostring \<Rightarrow> OffsetCommitReqTopic \<Rightarrow> Server \<Rightarrow> OffsetCommitRespTopic \<times> Server" where
  "offset_commit_topic grp t s =
     (let (ps, s) = map_state (offset_commit_part grp (ocqt_Name t)) (ocqt_Partitions t) s
      in (\<lparr>ocrt_Name = ocqt_Name t, ocrt_Partitions = ps\<rparr>, s))"

definition handleOffsetCommitRequest :: "OffsetCommitReq \<Rightarrow> Server \<Rightarrow> OffsetCommitResp reply \<times> Server" where
  "handleOffsetCommitRequest req s =
     (let (ts, s) = map_state (offset_commit_topic (ocq_ConsumerGroup req)) (ocq_Topics req) s
      in (Reply (zero_OffsetCommitResp\<lparr>ocr_CorrelationID := correlationID req, ocr_Topics := ts\<rparr>), s))"

text \<open>\<open>parts[pid]\<close> of a slice as long as the map: a partition number outside it panics.\<close>

definition metadata_part :: "int32 \<Rightarrow> int32 \<Rightarrow> MetadataRespPartition" where
  "metadata_part nodeID pid = zero_MetadataRespPartition\<lparr>mp_ID := pid, mp_Leader := nodeID,
     mp_Replicas := [nodeID], mp_Isrs := [nodeID]\<rparr>"

definition metadata_parts :: "int32 \<Rightarrow> (int32 \<times> Message list) list \<Rightarrow> MetadataRespPartition list option" where
  "metadata_parts nodeID parts =
     (if \<forall>pid \<in> set (map fst parts). 0 \<le> sint pid \<and> sint pid < int (length parts)
      then Some (foldl (\<lambda>ps pid. ps[nat (sint pid) := metadata_part nodeID pid])
             (replicate (length parts) zero_MetadataRespPartition) (map fst parts))
      else None)"

definition metadata_topic :: "int32 \<Rightarrow> gostring \<times> (int32 \<times> Message list) list \<Rightarrow> MetadataRespTopic option" where
  "metadata_topic nodeID t =
     map_option (\<lambda>ps. zero_MetadataRespTopic\<lparr>mt_Name := fst t, mt_Partitions := ps\<rparr>) (metadata_parts nodeID (snd t))"

definition named_topic :: "gostring \<Rightarrow> Server \<Rightarrow> (gostring \<times> (int32 \<times> Message list) list) \<times> Server" where
  "named_topic name s =
     (case map_of (topics s) name of
        Some parts \<Rightarrow> ((name, parts), s)
      | None \<Rightarrow> ((name, [(0, [])]), s\<lparr>topics := put name [(0, [])] (topics s)\<rparr>))"

text \<open>\<open>order\<close> is the order in which the topics are visited.\<close>

definition handleMetadataRequest ::
  "int32 \<Rightarrow> nat list \<Rightarrow> MetadataReq \<Rightarrow> Server \<Rightarrow> MetadataResp reply \<times> Server"
where
  "handleMetadataRequest nodeID order req s =
     (let (ts, s) = (if mq_Topics req \<noteq> [] then map_state named_topic (mq_Topics req) s
                     else (in_order order (topics s), s))
      in case all_some (map (metadata_topic nodeID) ts) of
           None \<Rightarrow> (Panics, s)
         | Some ts \<Rightarrow>
             (Reply (zero_MetadataResp\<lparr>mr_CorrelationID := correlationID req, mr_Brokers := brokers s,
                mr_Topics := ts\<rparr>), s))"

section \<open>Starting the server\<close>

text \<open>\<open>net.SplitHostPort\<close>, \<open>None\<close> for an error\<close>

definition index_byte :: "byte \<Rightarrow> gostring \<Rightarrow> nat option" where
  "index_byte c s = (let n = length (takeWhile (\<lambda>b. b \<noteq> c) s) in if n < length s then Some n else None)"

definition last_index_byte :: "byte \<Rightarrow> gostring \<Rightarrow> nat option" where
  "last_index_byte c s = map_option (\<lambda>n. length s - 1 - n) (index_byte c (rev s))"

definition SplitHostPort :: "gostring \<Rightarrow> (gostring \<times> gostring) option" where
  "SplitHostPort s =
     Option.bind (last_index_byte 58 s) (\<lambda>i.
     Option.bind
       (if hd s = 91
        then Option.bind (index_byte 93 s) (\<lambda>close. if close + 1 = i then Some (take (close - 1) (drop 1 s), 1, close + 1) else None)
        else if 58 \<in> set (take i s) then None
        else Some (take i s, 0, 0)) (\<lambda>(host, j, k).
     if 91 \<in> set (drop j s) \<or> 93 \<in> set (drop k s) then None
     else Some (host, drop (i + 1) s)))"

abbreviation server_node :: int32 where
  "server_node \<equiv> 100"

text \<open>The part \<open>Run\<close> and \<open>MustSpawn\<close> share: the listener, and the broker its address names.\<close>

definition listen_on :: "gostring \<Rightarrow> Server \<Rightarrow> bool \<times> Server" where
  "listen_on addr s =
     (let s = s\<lparr>ln := Some addr\<rparr>
      in case SplitHostPort addr of
           None \<Rightarrow> (False, s)
         | Some (host, port) \<Rightarrow>
             (let (prt, ok) = Atoi port
              in if ok then (True, s\<lparr>brokers := brokers s @ [zero_MetadataRespBroker\<lparr>mb_NodeID := server_node,
                    mb_Host := host, mb_Port := of_int prt\<rparr>]\<rparr>)
                 else (False, s)))"

text \<open>
  \<open>listen\<close> is the result of \<open>net.Listen\<close>, the address it listens on.  \<open>Run\<close> returns an error
  (\<open>False\<close>) or goes on to accept connections, which it never stops doing.
\<close>

definition Run :: "error + gostring \<Rightarrow> Server \<Rightarrow> bool \<times> Server" where
  "Run listen s =
     (if ln s \<noteq> None then (False, s)
      else case listen of Inl err \<Rightarrow> (False, s) | Inr addr \<Rightarrow> listen_on addr s)"

definition MustSpawn :: "error + gostring \<Rightarrow> Server \<Rightarrow> Server res" where
  "MustSpawn listen s =
     (if ln s \<noteq> None then Ok s
      else case listen of
             Inl err \<Rightarrow> Panic
           | Inr addr \<Rightarrow> (let (ok, s) = listen_on addr s in if ok then Ok s else Panic))"

section \<open>Serving a connection\<close>

text \<open>
  What the server has from outside: the compression libraries and the configuration of the parser,
  what other clients do while a fetch waits, and the order of an iteration.
\<close>

record server_env =
  se_lib :: codecs
  se_conf :: ParserConfig
  se_depth :: nat
  se_meanwhile :: "Server \<Rightarrow> Server"
  se_order :: "nat list"

text \<open>
  Read a request, handle it, and write the response.  A request that cannot be read closes the
  connection, as the nil response does.
\<close>

definition answer ::
  "(reader \<Rightarrow> 'q res) \<Rightarrow> ('q \<Rightarrow> Server \<Rightarrow> 'r reply \<times> Server) \<Rightarrow> ('r \<Rightarrow> byte list res) \<Rightarrow> byte list \<Rightarrow> Server \<Rightarrow>
   byte list res reply \<times> Server"
where
  "answer read handle Bytes b s =
     (case read (NewReader b) of
        Ok req \<Rightarrow>
          (case handle req s of
             (Reply resp, s) \<Rightarrow> (Reply (Bytes resp), s)
           | (NoReply, s) \<Rightarrow> (NoReply, s)
           | (Blocks, s) \<Rightarrow> (Blocks, s)
           | (Panics, s) \<Rightarrow> (Panics, s))
      | Err err \<Rightarrow> (NoReply, s)
      | _ \<Rightarrow> (Panics, s))"

definition default_handler ::
  "server_env \<Rightarrow> int32 \<Rightarrow> int16 \<Rightarrow> byte list \<Rightarrow> Server \<Rightarrow> byte list res reply \<times> Server"
where
  "default_handler E nodeID kind b s =
     (if kind = ProduceReqKind then
        answer (ReadProduceReq (se_lib E) (se_conf E) (se_depth E)) handleProduceRequest ProduceResp_Bytes b s
      else if kind = FetchReqKind then
        answer ReadFetchReq (handleFetchRequest (se_meanwhile E)) (FetchResp_Bytes (se_lib E)) b s
      else if kind = OffsetReqKind then answer ReadOffsetReq handleOffsetRequest OffsetResp_Bytes b s
      else if kind = MetadataReqKind then
        answer ReadMetadataReq (handleMetadataRequest nodeID (se_order E)) MetadataResp_Bytes b s
      else if kind = OffsetCommitReqKind then
        answer ReadOffsetCommitReq handleOffsetCommitRequest OffsetCommitResp_Bytes b s
      else if kind = OffsetFetchReqKind then
        answer ReadOffsetFetchReq handleOffsetFetchRequest OffsetFetchResp_Bytes b s
      else if kind = ConsumerMetadataReqKind then
        answer ReadConsumerMetadataReq handleConsumerMetadataRequest ConsumerMetadataResp_Bytes b s
      else if kind = APIVersionsReqKind then
        answer ReadAPIVersionsReq handleAPIVersionsRequest APIVersionsResp_Bytes b s
      else (NoReply, s))"

text \<open>A middleware returns nil, or a response, here the result of its \<open>Bytes\<close>.\<close>

type_synonym middleware = "int32 \<Rightarrow> int16 \<Rightarrow> byte list \<Rightarrow> byte list res option"

primrec first_response :: "middleware list \<Rightarrow> int32 \<Rightarrow> int16 \<Rightarrow> byte list \<Rightarrow> byte list res option" where
  "first_response [] nodeID kind b = None"
| "first_response (m # ms) nodeID kind b =
     (case m nodeID kind b of Some resp \<Rightarrow> Some resp | None \<Rightarrow> first_response ms nodeID kind b)"

definition respond ::
  "server_env \<Rightarrow> middleware list \<Rightarrow> int32 \<Rightarrow> int16 \<Rightarrow> byte list \<Rightarrow> Server \<Rightarrow> byte list res reply \<times> Server"
where
  "respond E mws nodeID kind b s =
     (case first_response mws nodeID kind b of
        Some resp \<Rightarrow> (Reply resp, s)
      | None \<Rightarrow> default_handler E nodeID kind b s)"

datatype client_end = Serving | Returned | Blocked | Crashed

text \<open>
  The first \<open>n\<close> rounds of \<open>handleClient\<close>: the bytes written, where the loop is, and the server.
  \<open>write_ok n\<close> tells whether the write with \<open>n\<close> rounds left succeeds.  A response whose
  \<open>Bytes\<close> fails is logged and an empty write follows.
\<close>

primrec handleClient ::
  "server_env \<Rightarrow> middleware list \<Rightarrow> int32 \<Rightarrow> (nat \<Rightarrow> bool) \<Rightarrow> nat \<Rightarrow> reader \<Rightarrow> Server \<Rightarrow>
   byte list \<times> client_end \<times> Server"
where
  "handleClient E mws nodeID write_ok 0 r s = ([], Serving, s)"
| "handleClient E mws nodeID write_ok (Suc n) r s =
     (case ReadReq r of
        (Ok (kind, b), r) \<Rightarrow>
          (case respond E mws nodeID kind b s of
             (Reply (Ok out), s) \<Rightarrow>
               if write_ok n
               then (let (outs, rest) = handleClient E mws nodeID write_ok n r s in (out @ outs, rest))
               else ([], Returned, s)
           | (Reply (Err err), s) \<Rightarrow>
               if write_ok n then handleClient E mws nodeID write_ok n r s else ([], Returned, s)
           | (NoReply, s) \<Rightarrow> ([], Returned, s)
           | (Blocks, s) \<Rightarrow> ([], Blocked, s)
           | (_, s) \<Rightarrow> ([], Crashed, s))
      | (Err err, r) \<Rightarrow> ([], Returned, s)
      | (_, r) \<Rightarrow> ([], Crashed, s))"

section \<open>What produce does to the logs\<close>

text \<open>The messages of a log from position \<open>n\<close> on: each has its position as its offset.\<close>

definition numbered :: "nat \<Rightarrow> gostring \<Rightarrow> Message list \<Rightarrow> Message list" where
  "numbered n topic ms = map (\<lambda>(i, m). m\<lparr>Offset := of_nat i, Topic := topic\<rparr>) (enumerate n ms)"

lemma numbered_Nil [simp]: "numbered n topic [] = []"
  and numbered_Cons [simp]: "numbered n topic (m # ms) = m\<lparr>Offset := of_nat n, Topic := topic\<rparr> # numbered (Suc n) topic ms"
  and length_numbered [simp]: "length (numbered n topic ms) = length ms"
  by (simp_all add: numbered_def)

lemma numbered_append: "numbered n topic (xs @ ys) = numbered n topic xs @ numbered (n + length xs) topic ys"
  by (induction xs arbitrary: n) simp_all

text \<open>Appending to a log, which need not exist.\<close>

definition extend_log :: "gostring \<Rightarrow> Message list \<Rightarrow> Message list option \<Rightarrow> Message list option" where
  "extend_log topic ms l = (let old = case l of Some old \<Rightarrow> old | None \<Rightarrow> [] in Some (old @ numbered (length old) topic ms))"

lemma extend_log_twice [simp]: "extend_log topic ys (extend_log topic xs l) = extend_log topic (xs @ ys) l"
  by (simp add: extend_log_def Let_def numbered_append)

lemma messages_of_put [simp]: "messages_of p (put q ms parts) = (if p = q then ms else messages_of p parts)"
  by (simp add: messages_of_def map_of_put)

lemma map_of_part_or_new:
  "map_of (part_or_new q parts) p = (if p = q then extend_log topic [] (map_of parts p) else map_of parts p)"
  by (auto simp: part_or_new_def map_of_put extend_log_def split: option.split)

lemma map_of_append_message:
  "map_of (append_message topic q m parts) p = (if p = q then extend_log topic [m] (map_of parts p) else map_of parts p)"
  by (auto simp: append_message_def map_of_put extend_log_def messages_of_def split: option.split)

lemma map_of_append_messages:
  "map_of (foldl (\<lambda>parts m. append_message topic q m parts) parts ms) p =
     (if p = q \<and> ms \<noteq> [] then extend_log topic ms (map_of parts p) else map_of parts p)"
  by (induction ms arbitrary: parts) (auto simp: map_of_append_message)

lemma map_of_produce_part:
  "map_of (snd (produce_part topic q parts)) p =
     (if p = pqp_ID q then extend_log topic (pqp_Messages q) (map_of parts p) else map_of parts p)"
  by (simp add: produce_part_def Let_def map_of_append_messages map_of_part_or_new[where topic = topic])

text \<open>The messages of a request for a partition, and whether it names the partition.\<close>

definition sent_part :: "ProduceReqPartition list \<Rightarrow> int32 \<Rightarrow> Message list" where
  "sent_part qs p = concat (map pqp_Messages (filter (\<lambda>q. pqp_ID q = p) qs))"

definition sent :: "ProduceReqTopic list \<Rightarrow> gostring \<Rightarrow> int32 \<Rightarrow> Message list" where
  "sent ts t p = concat (map (\<lambda>q. sent_part (pqt_Partitions q) p) (filter (\<lambda>q. pqt_Name q = t) ts))"

definition names_part :: "ProduceReqTopic list \<Rightarrow> gostring \<Rightarrow> int32 \<Rightarrow> bool" where
  "names_part ts t p \<longleftrightarrow> (\<exists>q \<in> set ts. pqt_Name q = t \<and> p \<in> pqp_ID ` set (pqt_Partitions q))"

lemma sent_part_Cons: "sent_part (q # qs) p = (if pqp_ID q = p then pqp_Messages q else []) @ sent_part qs p"
  by (simp add: sent_part_def)

lemma sent_part_none: "p \<notin> pqp_ID ` set qs \<Longrightarrow> sent_part qs p = []"
  by (auto simp: sent_part_def)

lemma sent_Cons: "sent (q # qs) t p = (if pqt_Name q = t then sent_part (pqt_Partitions q) p else []) @ sent qs t p"
  by (simp add: sent_def)

lemma names_part_Cons:
  "names_part (q # qs) t p \<longleftrightarrow> pqt_Name q = t \<and> p \<in> pqp_ID ` set (pqt_Partitions q) \<or> names_part qs t p"
  by (auto simp: names_part_def)

lemma sent_none: "\<not> names_part qs t p \<Longrightarrow> sent qs t p = []"
  by (induction qs) (auto simp: sent_Cons names_part_Cons sent_part_none, simp add: sent_def)

lemma map_of_produce_parts:
  "map_of (snd (map_state (produce_part topic) qs parts)) p =
     (if p \<in> pqp_ID ` set qs then extend_log topic (sent_part qs p) (map_of parts p) else map_of parts p)"
proof (induction qs arbitrary: parts)
  case (Cons q qs)
  show ?case
    using Cons.IH[of "snd (produce_part topic q parts)"]
    by (auto simp: split_beta Let_def map_of_produce_part sent_part_Cons sent_part_none)
qed simp

lemma part_log_produce_topic:
  "part_log (snd (produce_topic q s)) t p =
     (if pqt_Name q = t \<and> p \<in> pqp_ID ` set (pqt_Partitions q)
      then extend_log t (sent_part (pqt_Partitions q) p) (part_log s t p) else part_log s t p)"
  by (auto simp: produce_topic_def part_log_def split_beta Let_def map_of_put map_of_produce_parts
      topic_or_new_def split: option.split)

lemma part_log_produce_topics:
  "part_log (snd (map_state produce_topic qs s)) t p =
     (if names_part qs t p then extend_log t (sent qs t p) (part_log s t p) else part_log s t p)"
proof (induction qs arbitrary: s)
  case (Cons q qs)
  show ?case
    using Cons.IH[of "snd (produce_topic q s)"]
    by (simp add: split_beta Let_def part_log_produce_topic sent_Cons names_part_Cons)
      (auto simp: sent_none sent_part_none)
qed (simp add: names_part_def)

lemma part_log_events [simp]: "part_log (s\<lparr>events := n\<rparr>) = part_log s"
  by (simp add: part_log_def fun_eq_iff)

lemma part_log_handleProduce:
  "part_log (snd (handleProduceRequest req s)) t p =
     (if names_part (pq_Topics req) t p then extend_log t (sent (pq_Topics req) t p) (part_log s t p)
      else part_log s t p)"
  by (simp add: handleProduceRequest_def split_beta Let_def part_log_produce_topics)

section \<open>The invariant of the server\<close>

text \<open>
  One entry per topic and partition, the offset of every message its position in the log, its topic
  the name of the topic, and no more tokens than the channel holds.
\<close>

definition parts_ok :: "gostring \<Rightarrow> (int32 \<times> Message list) list \<Rightarrow> bool" where
  "parts_ok topic parts \<longleftrightarrow> distinct (map fst parts) \<and> (\<forall>x \<in> set parts. snd x = numbered 0 topic (snd x))"

definition server_ok :: "Server \<Rightarrow> bool" where
  "server_ok s \<longleftrightarrow> distinct (map fst (topics s)) \<and> (\<forall>x \<in> set (topics s). parts_ok (fst x) (snd x)) \<and>
     events s \<le> events_capacity"

lemma numbered_numbered [simp]: "numbered n topic (numbered n topic ms) = numbered n topic ms"
  by (induction ms arbitrary: n) simp_all

lemma numbered_snoc:
  "ms = numbered 0 topic ms \<Longrightarrow> ms @ numbered (length ms) topic new = numbered 0 topic (ms @ numbered (length ms) topic new)"
  by (simp add: numbered_append)

lemma parts_ok_put:
  "parts_ok topic parts \<Longrightarrow> ms = numbered 0 topic ms \<Longrightarrow> parts_ok topic (put p ms parts)"
  by (auto simp: parts_ok_def put_def distinct_map_filter)

lemma messages_of_ok: "parts_ok topic parts \<Longrightarrow> messages_of p parts = numbered 0 topic (messages_of p parts)"
  by (auto simp: parts_ok_def messages_of_def split: option.split dest: map_of_SomeD)

lemma part_or_new_ok: "parts_ok topic parts \<Longrightarrow> parts_ok topic (part_or_new p parts)"
  by (auto simp: part_or_new_def intro: parts_ok_put split: option.split)

lemma append_message_ok:
  assumes "parts_ok topic parts"
  shows "parts_ok topic (append_message topic p m parts)"
  using parts_ok_put[OF assms, of "messages_of p parts @ numbered (length (messages_of p parts)) topic [m]"]
    numbered_snoc[OF messages_of_ok[OF assms], of p "[m]"]
  by (simp add: append_message_def)

lemma append_messages_ok:
  "parts_ok topic parts \<Longrightarrow> parts_ok topic (foldl (\<lambda>parts m. append_message topic p m parts) parts ms)"
  by (induction ms arbitrary: parts) (simp_all add: append_message_ok)

lemma produce_part_ok: "parts_ok topic parts \<Longrightarrow> parts_ok topic (snd (produce_part topic q parts))"
  by (simp add: produce_part_def Let_def append_messages_ok part_or_new_ok)

lemma map_state_keeps:
  assumes "\<And>x s. P s \<Longrightarrow> P (snd (f x s))"
  shows "P s \<Longrightarrow> P (snd (map_state f xs s))"
  by (induction xs arbitrary: s) (simp_all add: split_beta Let_def assms)

lemma topic_or_new_ok: "server_ok s \<Longrightarrow> parts_ok topic (topic_or_new topic s)"
  by (cases "map_of (topics s) topic")
    (force simp: server_ok_def topic_or_new_def parts_ok_def[of topic "[]"] dest: map_of_SomeD)+

lemma server_ok_put:
  "server_ok s \<Longrightarrow> parts_ok topic parts \<Longrightarrow> server_ok (s\<lparr>topics := put topic parts (topics s)\<rparr>)"
  by (auto simp: server_ok_def put_def distinct_map_filter)

lemma produce_topic_ok: "server_ok s \<Longrightarrow> server_ok (snd (produce_topic q s))"
  using map_state_keeps[where P = "parts_ok (pqt_Name q)" and f = "produce_part (pqt_Name q)",
      OF produce_part_ok topic_or_new_ok]
  by (simp add: produce_topic_def split_beta Let_def server_ok_put)

lemma handleProduce_ok: "server_ok s \<Longrightarrow> server_ok (snd (handleProduceRequest req s))"
  using map_state_keeps[where P = server_ok and f = produce_topic, OF produce_topic_ok, of s "pq_Topics req"]
  by (simp add: handleProduceRequest_def split_beta Let_def) (simp add: server_ok_def)

lemma named_topic_ok: "server_ok s \<Longrightarrow> server_ok (snd (named_topic name s))"
  by (auto simp: named_topic_def intro!: server_ok_put split: option.split) (simp add: parts_ok_def)

lemma handleMetadata_ok: "server_ok s \<Longrightarrow> server_ok (snd (handleMetadataRequest nodeID order req s))"
  using map_state_keeps[where P = server_ok and f = named_topic, OF named_topic_ok, of s "mq_Topics req"]
  by (auto simp: handleMetadataRequest_def split_beta Let_def split: option.split)

lemma handleFetch_ok:
  assumes "\<And>s. server_ok s \<Longrightarrow> server_ok (meanwhile s)" "server_ok s"
  shows "server_ok (snd (handleFetchRequest meanwhile req s))"
  using assms by (auto simp: handleFetchRequest_def await_event_def Let_def server_ok_def split: outcome.split)

lemma getTopicOffset_topics [simp]: "topics (snd (getTopicOffset g t p s)) = topics s"
    "events (snd (getTopicOffset g t p s)) = events s"
  and setTopicOffset_topics [simp]: "topics (setTopicOffset g t p x s) = topics s"
    "events (setTopicOffset g t p x s) = events s"
  by (simp_all add: getTopicOffset_def setTopicOffset_def Let_def split: option.split)

lemma server_ok_cong: "topics s' = topics s \<Longrightarrow> events s' = events s \<Longrightarrow> server_ok s' = server_ok s"
  by (simp add: server_ok_def)

lemma handleOffsetFetch_same:
  "topics (snd (handleOffsetFetchRequest req s)) = topics s \<and> events (snd (handleOffsetFetchRequest req s)) = events s"
  unfolding handleOffsetFetchRequest_def split_beta Let_def snd_conv
  by (rule map_state_keeps[where P = "\<lambda>v. topics v = topics s \<and> events v = events s"])
    (auto simp: offset_fetch_topic_def offset_fetch_part_def split_beta Let_def
      intro!: map_state_keeps[where P = "\<lambda>v. topics v = topics s"] map_state_keeps[where P = "\<lambda>v. events v = events s"])

lemma handleOffsetCommit_same:
  "topics (snd (handleOffsetCommitRequest req s)) = topics s \<and> events (snd (handleOffsetCommitRequest req s)) = events s"
  unfolding handleOffsetCommitRequest_def split_beta Let_def snd_conv
  by (rule map_state_keeps[where P = "\<lambda>v. topics v = topics s \<and> events v = events s"])
    (auto simp: offset_commit_topic_def offset_commit_part_def split_beta Let_def
      intro!: map_state_keeps[where P = "\<lambda>v. topics v = topics s"] map_state_keeps[where P = "\<lambda>v. events v = events s"])

lemma AddMessages_ok:
  assumes "server_ok s" "AddMessages topic part ms s = Ok s'"
  shows "server_ok s'"
proof -
  have parts: "parts_ok topic (foldl (\<lambda>parts i. part_or_new (of_nat i) parts) parts is)"
    if "parts_ok topic parts" for parts "is"
    using that by (induction "is" arbitrary: parts) (simp_all add: part_or_new_ok)
  let ?parts = "foldl (\<lambda>parts i. part_or_new (of_nat i) parts) (topic_or_new topic s) [0..<nat (sint part + 1)]"
  let ?new = "map (\<lambda>(i, msg). msg\<lparr>Offset := of_nat (length (messages_of part ?parts) + i), Partition := part,
    Topic := topic\<rparr>) (enumerate 0 ms)"
  have "?new = numbered (length (messages_of part ?parts)) topic (map (\<lambda>m. m\<lparr>Partition := part\<rparr>) ms)"
    by (rule nth_equalityI) (simp_all add: numbered_def nth_enumerate_eq)
  then have "messages_of part ?parts @ ?new = numbered 0 topic (messages_of part ?parts @ ?new)"
    using numbered_snoc[OF messages_of_ok[OF parts[OF topic_or_new_ok[OF assms(1)]]]] by metis
  then have "parts_ok topic (put part (messages_of part ?parts @ ?new) ?parts)"
    by (intro parts_ok_put parts topic_or_new_ok assms(1))
  then show ?thesis
    using assms parts[OF topic_or_new_ok[OF assms(1)]]
    by (auto simp: AddMessages_def Let_def intro!: server_ok_put split: if_splits)
qed

section \<open>What a fetch returns\<close>

lemma part_log_ok:
  assumes "server_ok s" "part_log s topic part = Some ms"
  shows "ms = numbered 0 topic ms"
proof -
  from assms(2) obtain parts where "(topic, parts) \<in> set (topics s)" "(part, ms) \<in> set parts"
    by (auto simp: part_log_def bind_eq_Some_conv dest!: map_of_SomeD)
  with assms(1) show ?thesis by (force simp: server_ok_def parts_ok_def)
qed

lemma numbered_nth: "i < length ms \<Longrightarrow> Offset (numbered n topic ms ! i) = of_nat (n + i)"
  by (simp add: numbered_def nth_enumerate_eq)

lemma part_log_offset:
  "server_ok s \<Longrightarrow> part_log s topic part = Some ms \<Longrightarrow> i < length ms \<Longrightarrow> Offset (ms ! i) = of_nat i"
  using part_log_ok numbered_nth[of i ms 0 topic] by fastforce

lemma filter_ge_drop:
  assumes "\<And>i. i < length xs \<Longrightarrow> P (xs ! i) \<longleftrightarrow> n \<le> i"
  shows "filter P xs = drop n xs"
  using assms
proof (induction xs arbitrary: n)
  case (Cons x xs)
  show ?case
  proof (cases n)
    case 0
    then have "\<forall>y \<in> set (x # xs). P y" using Cons.prems by (metis in_set_conv_nth le0)
    with 0 show ?thesis by (simp add: filter_id_conv)
  next
    case (Suc k)
    then have "filter P xs = drop k xs"
      using Cons.prems[of "Suc _"] by (intro Cons.IH) auto
    with Suc Cons.prems[of 0] show ?thesis by simp
  qed
qed simp

lemma sle_of_nat:
  assumes "i < 2 ^ 63" "0 \<le> sint off"
  shows "off \<le>s (of_nat i :: int64) \<longleftrightarrow> nat (sint off) \<le> i"
proof -
  have "sint (of_nat i :: int64) = int i"
    using assms(1) by (intro sint_of_nat_small) simp
  with assms(2) show ?thesis by (simp add: word_sle_eq nat_le_iff)
qed

lemma drop_filter_log:
  assumes "server_ok s" "part_log s topic part = Some ms" "length ms < 2 ^ 63" "0 \<le> sint off"
  shows "drop (nat (sint off)) ms = filter (\<lambda>m. off \<le>s Offset m) ms"
  using assms by (intro filter_ge_drop[symmetric]) (simp add: part_log_offset sle_of_nat)

section \<open>What metadata says\<close>

lemma foldl_update_nth:
  "j < length xs \<Longrightarrow> foldl (\<lambda>ps i. ps[i := h i]) xs is ! j = (if j \<in> set is then h j else xs ! j)"
  by (induction "is" arbitrary: xs) auto

lemma length_foldl_update: "length (foldl (\<lambda>ps i. ps[i := h i]) xs is) = length xs"
  by (induction "is" arbitrary: xs) simp_all

lemma metadata_parts_Some:
  assumes "distinct (map fst parts)" "metadata_parts nodeID parts = Some ps"
  shows "ps = map (\<lambda>i. metadata_part nodeID (of_nat i)) [0..<length parts] \<and>
    fst ` set parts = of_nat ` {0..<length parts}"
proof -
  define ids where "ids = map (\<lambda>x. nat (sint (fst x))) parts"
  from assms(2) have in_range: "\<forall>pid \<in> fst ` set parts. 0 \<le> sint pid \<and> sint pid < int (length parts)"
    and ps_eq: "ps = foldl (\<lambda>ps pid. ps[nat (sint pid) := metadata_part nodeID pid])
      (replicate (length parts) zero_MetadataRespPartition) (map fst parts)"
    by (auto simp: metadata_parts_def split: if_splits)
  have undo: "of_nat (nat (sint pid)) = pid" if "pid \<in> fst ` set parts" for pid :: int32
    using bspec[OF in_range that] by (simp add: of_nat_nat)
  have "inj_on (\<lambda>pid. nat (sint pid)) (fst ` set parts)" by (rule inj_on_inverseI) (rule undo)
  then have "card ((\<lambda>pid. nat (sint pid)) ` fst ` set parts) = card (fst ` set parts)" by (rule card_image)
  moreover have "set ids = (\<lambda>pid. nat (sint pid)) ` fst ` set parts" by (simp only: ids_def set_map image_image)
  moreover have "card (fst ` set parts) = length parts"
    using distinct_card[OF assms(1)] by simp
  ultimately have "card (set ids) = length parts" by (simp only:)
  moreover have sub: "set ids \<subseteq> {0..<length parts}" using in_range by (auto simp: ids_def)
  ultimately have ids: "set ids = {0..<length parts}" by (intro card_subset_eq) auto
  have "foldl (\<lambda>ps pid. ps[nat (sint pid) := metadata_part nodeID pid]) xs (map fst qs) =
      foldl (\<lambda>ps i. ps[i := metadata_part nodeID (of_nat i)]) xs (map (\<lambda>x. nat (sint (fst x))) qs)"
    if "set qs \<subseteq> set parts" for xs qs
    using that by (induction qs arbitrary: xs) (auto simp: undo)
  then have "ps = foldl (\<lambda>ps i. ps[i := metadata_part nodeID (of_nat i)])
      (replicate (length parts) zero_MetadataRespPartition) ids"
    by (simp add: ps_eq ids_def)
  then have "ps = map (\<lambda>i. metadata_part nodeID (of_nat i)) [0..<length parts]"
    using ids by (intro nth_equalityI) (auto simp: foldl_update_nth length_foldl_update)
  moreover have "fst ` set parts = of_nat ` set ids"
    using undo by (force simp: ids_def image_iff)
  ultimately show ?thesis using ids by simp
qed

lemma all_some_Some: "all_some xs = Some ys \<longleftrightarrow> xs = map Some ys"
  by (induction xs arbitrary: ys) (auto split: option.split)

text \<open>The topics of a response are those of the server, with the partitions 0, 1, ... of each.\<close>

definition topic_answer :: "int32 \<Rightarrow> gostring \<times> (int32 \<times> Message list) list \<Rightarrow> MetadataRespTopic" where
  "topic_answer nodeID x = zero_MetadataRespTopic\<lparr>mt_Name := fst x,
     mt_Partitions := map (\<lambda>i. metadata_part nodeID (of_nat i)) [0..<length (snd x)]\<rparr>"

lemma metadata_reply:
  assumes "server_ok s" "mq_Topics req = []" "handleMetadataRequest nodeID order req s = (Reply resp, s')"
  shows "mr_Topics resp = map (topic_answer nodeID) (in_order order (topics s)) \<and>
    (\<forall>x \<in> set (topics s). fst ` set (snd x) = of_nat ` {0..<length (snd x)})"
proof -
  from assms(2,3) obtain ts where "map (metadata_topic nodeID) (in_order order (topics s)) = map Some ts"
    and ts: "mr_Topics resp = ts"
    by (auto simp: handleMetadataRequest_def all_some_Some split: option.splits)
  then have nth: "i < length (in_order order (topics s)) \<Longrightarrow>
      metadata_topic nodeID (in_order order (topics s) ! i) = Some (ts ! i)" for i
    by (metis length_map nth_map)
  have len: "length ts = length (in_order order (topics s))"
    using \<open>map _ _ = map Some ts\<close> by (metis length_map)
  have one: "t = topic_answer nodeID x \<and> fst ` set (snd x) = of_nat ` {0..<length (snd x)}"
    if "x \<in> set (topics s)" "metadata_topic nodeID x = Some t" for x t
    using metadata_parts_Some[of "snd x" nodeID] assms(1) that
    by (auto simp: metadata_topic_def topic_answer_def server_ok_def parts_ok_def)
  have "in_order order (topics s) ! i \<in> set (topics s)" if "i < length ts" for i
    using that len nth_mem[of i "in_order order (topics s)"] by simp
  then have "ts = map (topic_answer nodeID) (in_order order (topics s))"
    using nth len one by (intro nth_equalityI) auto
  moreover have "fst ` set (snd x) = of_nat ` {0..<length (snd x)}" if "x \<in> set (topics s)" for x
  proof -
    from that obtain i where "i < length (in_order order (topics s))" "in_order order (topics s) ! i = x"
      by (metis in_set_conv_nth set_in_order)
    with nth[of i] one[OF that] show ?thesis by simp
  qed
  ultimately show ?thesis using ts by blast
qed

section \<open>Committed offsets\<close>

text \<open>The offset and metadata a fetch of the entry finds; there is always one.\<close>

definition stored_offset :: "Server \<Rightarrow> gostring \<times> gostring \<times> int32 \<Rightarrow> int64 \<times> gostring" where
  "stored_offset s = (\<lambda>(grp, topic, part).
     let toffset = fst (getTopicOffset grp topic part s) in (to_offset toffset, to_metadata toffset))"

lemma stored_offset_get [simp]: "stored_offset (snd (getTopicOffset grp topic part s)) = stored_offset s"
  by (auto simp: stored_offset_def getTopicOffset_def Let_def fun_eq_iff split: option.split)

lemma stored_offset_set:
  "stored_offset (setTopicOffset grp topic part x (snd (getTopicOffset grp topic part s))) =
     (stored_offset s)((grp, topic, part) := (to_offset x, to_metadata x))"
  by (auto simp: stored_offset_def getTopicOffset_def setTopicOffset_def Let_def fun_eq_iff split: option.split)

lemma stored_offset_cong: "offsets s' = offsets s \<Longrightarrow> stored_offset s' = stored_offset s"
  by (simp add: stored_offset_def getTopicOffset_def Let_def)

lemma stored_offset_fetch: "stored_offset (snd (handleOffsetFetchRequest req s)) = stored_offset s"
  unfolding handleOffsetFetchRequest_def split_beta Let_def snd_conv
  by (rule map_state_keeps[where P = "\<lambda>v. stored_offset v = stored_offset s"])
    (auto simp: offset_fetch_topic_def offset_fetch_part_def split_beta Let_def
      intro!: map_state_keeps[where P = "\<lambda>v. stored_offset v = stored_offset s"])

lemma map_state_offsets:
  assumes "\<And>x s. offsets (snd (f x s)) = offsets s"
  shows "offsets (snd (map_state f xs s)) = offsets s"
  by (rule map_state_keeps[where P = "\<lambda>v. offsets v = offsets s"]) (simp_all add: assms)

lemma handleProduce_offsets: "offsets (snd (handleProduceRequest req s)) = offsets s"
  by (simp add: handleProduceRequest_def split_beta Let_def map_state_offsets produce_topic_def)

lemma handleMetadata_offsets: "offsets (snd (handleMetadataRequest nodeID order req s)) = offsets s"
  by (auto simp: handleMetadataRequest_def split_beta Let_def map_state_offsets named_topic_def split: option.split)

section \<open>Produce requests and the channel of events\<close>

lemma handleProduce_events:
  "handleProduceRequest req s = (if events s < events_capacity
     then (Reply (zero_ProduceResp\<lparr>pr_CorrelationID := correlationID req,
             pr_Topics := fst (map_state produce_topic (pq_Topics req) s)\<rparr>),
           (snd (map_state produce_topic (pq_Topics req) s))\<lparr>events := events s + 1\<rparr>)
     else (Blocks, snd (map_state produce_topic (pq_Topics req) s)))"
proof -
  have "events (snd (map_state produce_topic (pq_Topics req) s)) = events s"
    by (rule map_state_keeps[where P = "\<lambda>v. events v = events s"])
      (simp_all add: produce_topic_def split_beta Let_def)
  then show ?thesis by (simp add: handleProduceRequest_def split_beta Let_def)
qed

lemma Reset_ok [simp]: "server_ok s \<Longrightarrow> server_ok (Reset s)"
  by (simp add: server_ok_def Reset_def)

lemma server_ok_Close [simp]: "server_ok (Server_Close s) = server_ok s"
  by (simp add: Server_Close_def server_ok_def)

section \<open>Properties\<close>

definition example_messages :: "Message list" where
  "example_messages = [zero_Message\<lparr>Value := Some [1]\<rparr>, zero_Message\<lparr>Value := Some [2], Offset := 7\<rparr>]"

definition example_produce :: ProduceReq where
  "example_produce = zero_ProduceReq\<lparr>pq_Topics :=
     [\<lparr>pqt_Name = str ''t'', pqt_Partitions = [\<lparr>pqp_ID = 0, pqp_Messages = example_messages\<rparr>]\<rparr>]\<rparr>"

text \<open>
  What is produced is what is fetched: after \<open>handleProduceRequest\<close>, a fetch from the former end of the
  log of a partition returns the messages of the request for that partition, in their order, with
  the offsets that follow, and the former messages are in front of them.
\<close>

lemma produce_then_fetch:
  assumes "names_part (pq_Topics req) t p"
    and "old = (case part_log s t p of Some ms \<Rightarrow> ms | None \<Rightarrow> [])"
    and "new = numbered (length old) t (sent (pq_Topics req) t p)"
    and "length old < 2 ^ 63"
    and "s' = snd (handleProduceRequest req s)"
  shows "part_log s' t p = Some (old @ new) \<and>
    fetchRequest (zero_FetchReq\<lparr>fq_Topics := [\<lparr>fqt_Name = t, fqt_Partitions =
        [zero_FetchReqPartition\<lparr>fqp_ID := p, fqp_FetchOffset := of_nat (length old)\<rparr>]\<rparr>]\<rparr>) s' =
      Ok (zero_FetchResp\<lparr>fr_Topics := [\<lparr>frt_Name = t, frt_Partitions =
        [zero_FetchRespPartition\<lparr>frp_ID := p, frp_TipOffset := of_nat (length old + length new),
           frp_Messages := new\<rparr>]\<rparr>]\<rparr>, length new)"
proof -
  have log: "part_log s' t p = Some (old @ new)"
    using assms(1-3,5) by (simp add: part_log_handleProduce extend_log_def Let_def)
  have "sint (of_nat (length old) :: int64) = int (length old)"
    using assms(4) by (intro sint_of_nat_small) simp
  with log show ?thesis
    by (simp add: fetchRequest_def fetch_part_def Let_def zero_FetchReq_def zero_FetchResp_def)
qed

lemma produce_then_fetch_witness:
  "\<exists>new. part_log (snd (handleProduceRequest example_produce NewServer)) (str ''t'') 0 = Some new \<and>
     map Offset new = [0, 1]"
proof -
  have "names_part (pq_Topics example_produce) (str ''t'') 0"
    by (simp add: names_part_def example_produce_def)
  from produce_then_fetch[OF this refl refl _ refl, of NewServer] show ?thesis
    by (simp add: part_log_def NewServer_def example_produce_def sent_def sent_part_def example_messages_def)
qed

definition example_env :: server_env where
  "example_env = \<lparr>se_lib = example_codecs, se_conf = full_parsing, se_depth = 1, se_meanwhile = (\<lambda>s. s),
     se_order = []\<rparr>"

text \<open>
  \<open>handleMetadataRequest\<close> for all topics panics exactly if the partitions of some topic are not numbered from
  0 without gaps.
\<close>

lemma all_some_None: "all_some xs = None \<longleftrightarrow> None \<in> set xs"
  by (induction xs) (auto split: option.split)

lemma metadata_panics:
  assumes "server_ok s" "mq_Topics req = []"
  shows "fst (handleMetadataRequest nodeID order req s) = Panics \<longleftrightarrow>
    (\<exists>x \<in> set (topics s). sint ` fst ` set (snd x) \<noteq> {0..<int (length (snd x))})"
proof -
  have "metadata_parts nodeID parts = None \<longleftrightarrow> sint ` fst ` set parts \<noteq> {0..<int (length parts)}"
    if "distinct (map fst parts)" for parts :: "(int32 \<times> Message list) list"
  proof -
    have card: "card (sint ` fst ` set parts) = length parts"
      using distinct_card[OF that] card_image[of sint "fst ` set parts"] by (simp add: inj_on_def signed_word_eqI)
    have "sint ` fst ` set parts \<subseteq> {0..<int (length parts)} \<longleftrightarrow> sint ` fst ` set parts = {0..<int (length parts)}"
      using card card_subset_eq[of "{0..<int (length parts)}" "sint ` fst ` set parts"] by auto
    moreover have "metadata_parts nodeID parts = None \<longleftrightarrow> \<not> sint ` fst ` set parts \<subseteq> {0..<int (length parts)}"
      by (simp add: metadata_parts_def subset_iff)
    ultimately show ?thesis by simp
  qed
  moreover have "distinct (map fst (snd x))" if "x \<in> set (topics s)" for x
    using assms(1) that by (simp add: server_ok_def parts_ok_def)
  moreover have "fst (handleMetadataRequest nodeID order req s) = Panics \<longleftrightarrow>
      (\<exists>x \<in> set (topics s). metadata_parts nodeID (snd x) = None)"
  proof -
    have "fst (handleMetadataRequest nodeID order req s) = Panics \<longleftrightarrow>
        all_some (map (metadata_topic nodeID) (in_order order (topics s))) = None"
      using assms(2) by (simp add: handleMetadataRequest_def split: option.split)
    then show ?thesis by (auto simp: all_some_None metadata_topic_def image_iff)
  qed
  ultimately show ?thesis by (metis (no_types, lifting))
qed

end
