(* ===== verification/Broker.thy ===== *)
theory Broker
  imports ConnectionApi GoMap GoStrings
begin

text \<open>
  The broker of \<open>v2/broker.go\<close>: the cached metadata of the cluster, the pool of connections and
  the functions that choose one.  The network is an argument of type \<open>'e network\<close>: dialling, the
  requests of a connection, closing it, the order in which a map is iterated, and what other
  goroutines do to the broker while its lock is released.  Nothing is assumed of it unless a lemma
  says so.  Log messages and waiting times have no effect on the state.
\<close>

section \<open>State\<close>

record clusterMetadata =
  nodes :: "(int32 \<times> gostring) list"
  endpoints :: "gostring \<times> int32 \<rightharpoonup> int32"
  partitions :: "gostring \<rightharpoonup> int32"
  controllerId :: int32

record BrokerConf =
  bc_ClientID :: gostring
  bc_LeaderRetryLimit :: int
  bc_LeaderRetryWait :: int64
  bc_AllowTopicCreation :: bool
  bc_DialTimeout :: int64
  bc_DialRetryLimit :: int
  bc_DialRetryWait :: int64
  bc_ReadTimeout :: int64
  bc_RetryErrLimit :: int
  bc_RetryErrWait :: int64
  bc_TLSCa :: gobytes
  bc_TLSCert :: gobytes
  bc_TLSKey :: gobytes

definition useTLS :: "BrokerConf \<Rightarrow> bool" where
  "useTLS conf \<longleftrightarrow> bytes_of (bc_TLSCa conf) \<noteq> [] \<and> bytes_of (bc_TLSKey conf) \<noteq> [] \<and>
     bytes_of (bc_TLSCert conf) \<noteq> []"

definition NewBrokerConf :: "gostring \<Rightarrow> BrokerConf" where
  "NewBrokerConf clientID = \<lparr>bc_ClientID = clientID, bc_LeaderRetryLimit = 10,
     bc_LeaderRetryWait = of_int (500 * Millisecond), bc_AllowTopicCreation = False,
     bc_DialTimeout = of_int (10000 * Millisecond), bc_DialRetryLimit = 10,
     bc_DialRetryWait = of_int (500 * Millisecond), bc_ReadTimeout = of_int (30000 * Millisecond),
     bc_RetryErrLimit = 10, bc_RetryErrWait = of_int (500 * Millisecond),
     bc_TLSCa = None, bc_TLSCert = None, bc_TLSKey = None\<rparr>"

text \<open>A connection is the number of the dial that opened it, which stands for the pointer.\<close>

record Broker =
  conf :: BrokerConf
  metadata :: clusterMetadata
  conns :: "(int32 \<times> nat) list"
  nodeAddresses :: "gostring list"

text \<open>The world outside: its state \<open>'e\<close> is threaded through every call.\<close>

record 'e network =
  net_dial :: "bool \<Rightarrow> gostring \<Rightarrow> 'e \<Rightarrow> nat res \<times> 'e"
  net_Close :: "nat \<Rightarrow> 'e \<Rightarrow> 'e"
  net_Metadata :: "nat \<Rightarrow> MetadataReq \<Rightarrow> 'e \<Rightarrow> MetadataResp res \<times> 'e"
  net_CreateTopic :: "nat \<Rightarrow> CreateTopicsReq \<Rightarrow> 'e \<Rightarrow> CreateTopicsResp res \<times> 'e"
  net_Produce :: "nat \<Rightarrow> ProduceReq \<Rightarrow> 'e \<Rightarrow> ProduceResp option res \<times> 'e"
  net_Fetch :: "nat \<Rightarrow> FetchReq \<Rightarrow> 'e \<Rightarrow> FetchResp res \<times> 'e"
  net_Offset :: "nat \<Rightarrow> OffsetReq \<Rightarrow> 'e \<Rightarrow> OffsetResp res \<times> 'e"
  net_ConsumerMetadata :: "nat \<Rightarrow> ConsumerMetadataReq \<Rightarrow> 'e \<Rightarrow> ConsumerMetadataResp res \<times> 'e"
  net_OffsetCommit :: "nat \<Rightarrow> OffsetCommitReq \<Rightarrow> 'e \<Rightarrow> OffsetCommitResp res \<times> 'e"
  net_OffsetFetch :: "nat \<Rightarrow> OffsetFetchReq \<Rightarrow> 'e \<Rightarrow> OffsetFetchResp res \<times> 'e"
  net_perm :: "nat \<Rightarrow> 'e \<Rightarrow> nat list \<times> 'e"
  net_others :: "Broker \<times> 'e \<Rightarrow> Broker \<times> 'e"

text \<open>
  A call that returns a value or an error lets the caller go on; a panic ends the caller too.
\<close>

definition attempt :: "'a res \<times> 's \<Rightarrow> (error + 'a \<Rightarrow> 's \<Rightarrow> 'b res \<times> 's) \<Rightarrow> 'b res \<times> 's" where
  "attempt r k =
     (case fst r of
        Ok x \<Rightarrow> k (Inr x) (snd r)
      | Err err \<Rightarrow> k (Inl err) (snd r)
      | Panic \<Rightarrow> (Panic, snd r)
      | NoFuel \<Rightarrow> (NoFuel, snd r))"

text \<open>The first of several attempts that has a result.\<close>

definition first_of :: "'a option res \<times> 's \<Rightarrow> ('s \<Rightarrow> 'a option res \<times> 's) \<Rightarrow> 'a option res \<times> 's" where
  "first_of r k = (case r of (Ok None, s) \<Rightarrow> k s | _ \<Rightarrow> r)"

definition range_over :: "'e network \<Rightarrow> 'a list \<Rightarrow> 'e \<Rightarrow> 'a list \<times> 'e" where
  "range_over N xs e = (let (p, e) = net_perm N (length xs) e in (in_order p xs, e))"

definition getConnection :: "'e network \<Rightarrow> gostring \<Rightarrow> Broker \<times> 'e \<Rightarrow> nat res \<times> Broker \<times> 'e" where
  "getConnection N addr w = (let (r, e) = net_dial N (useTLS (conf (fst w))) addr (snd w) in (r, fst w, e))"

section \<open>Metadata\<close>

text \<open>\<open>fmt.Sprintf("%s:%d", host, port)\<close>\<close>

definition host_port :: "gostring \<Rightarrow> int32 \<Rightarrow> gostring" where
  "host_port host port = host @ str '':'' @ itoa (sint port)"

definition cache_topic :: "MetadataRespTopic \<Rightarrow> clusterMetadata \<Rightarrow> clusterMetadata" where
  "cache_topic topic m =
     (let m = foldl (\<lambda>m part. m\<lparr>endpoints := (endpoints m)((mt_Name topic, mp_ID part) \<mapsto> mp_Leader part)\<rparr>)
                m (mt_Partitions topic)
      in m\<lparr>partitions := (partitions m)(mt_Name topic \<mapsto> of_nat (length (mt_Partitions topic)))\<rparr>)"

definition cacheMetadata :: "MetadataResp \<Rightarrow> Broker \<Rightarrow> Broker" where
  "cacheMetadata resp b =
     (let m = \<lparr>nodes = [], endpoints = (\<lambda>_. None), partitions = (\<lambda>_. None),
               controllerId = mr_ControllerID resp\<rparr>;
          m = foldl (\<lambda>m node. m\<lparr>nodes := put (mb_NodeID node) (host_port (mb_Host node) (mb_Port node)) (nodes m)\<rparr>)
                m (mr_Brokers resp);
          m = foldl (\<lambda>m topic. cache_topic topic m) m (mr_Topics resp)
      in b\<lparr>metadata := m\<rparr>)"

text \<open>\<open>dest[v] = b.nodeAddresses[i]\<close> for every \<open>i, v\<close> of \<open>rand.Perm\<close>\<close>

definition getInitialAddresses :: "'e network \<Rightarrow> Broker \<times> 'e \<Rightarrow> gostring list \<times> 'e" where
  "getInitialAddresses N w =
     (let addrs = nodeAddresses (fst w);
          (p, e) = net_perm N (length addrs) (snd w)
      in (if permutation p (length addrs)
          then foldl (\<lambda>dest (i, v). dest[v := addrs ! i]) (replicate (length addrs) []) (enumerate 0 p)
          else addrs, e))"

definition metadata_req :: "Broker \<Rightarrow> gostring list \<Rightarrow> MetadataReq" where
  "metadata_req b topics = zero_MetadataReq\<lparr>ClientID := bc_ClientID (conf b), mq_Topics := topics\<rparr>"

text \<open>
  \<open>fetchMetadata\<close>: the connections that exist, then the nodes that are known and not connected,
  then the initial addresses.  The first loop marks every connected node as checked, so
  \<open>checkednodes\<close> holds the keys of \<open>b.conns\<close>.
\<close>

primrec ask_conns :: "'e network \<Rightarrow> MetadataReq \<Rightarrow> (int32 \<times> nat) list \<Rightarrow> 'e \<Rightarrow> MetadataResp option res \<times> 'e"
where
  "ask_conns N q [] e = (Ok None, e)"
| "ask_conns N q (x # xs) e =
     attempt (net_Metadata N (snd x) q e) (\<lambda>r e.
       case r of Inl err \<Rightarrow> ask_conns N q xs e | Inr resp \<Rightarrow> (Ok (Some resp), e))"

definition ask_addr :: "'e network \<Rightarrow> bool \<Rightarrow> MetadataReq \<Rightarrow> gostring \<Rightarrow> 'e \<Rightarrow> MetadataResp option res \<times> 'e"
where
  "ask_addr N tls q addr e =
     attempt (net_dial N tls addr e) (\<lambda>r e.
       case r of
         Inl err \<Rightarrow> (Ok None, e)
       | Inr c \<Rightarrow>
           attempt (net_Metadata N c q e) (\<lambda>r e.
             let e = net_Close N c e
             in case r of Inl err \<Rightarrow> (Ok None, e) | Inr resp \<Rightarrow> (Ok (Some resp), e)))"

primrec ask_addrs ::
  "'e network \<Rightarrow> bool \<Rightarrow> MetadataReq \<Rightarrow> gostring list \<Rightarrow> 'e \<Rightarrow> MetadataResp option res \<times> 'e"
where
  "ask_addrs N tls q [] e = (Ok None, e)"
| "ask_addrs N tls q (addr # addrs) e = first_of (ask_addr N tls q addr e) (ask_addrs N tls q addrs)"

definition fetchMetadata :: "'e network \<Rightarrow> gostring list \<Rightarrow> Broker \<times> 'e \<Rightarrow> MetadataResp res \<times> Broker \<times> 'e"
where
  "fetchMetadata N topics w =
     (let b = fst w;
          q = metadata_req b topics;
          tls = useTLS (conf b);
          checkednodes = map fst (conns b);
          (r, e) =
            first_of (let (cs, e) = range_over N (conns b) (snd w) in ask_conns N q cs e) (\<lambda>e.
            first_of (let (ns, e) = range_over N (nodes (metadata b)) e
                      in ask_addrs N tls q
                           (map snd (filter (\<lambda>x. fst x \<notin> set checkednodes) ns)) e) (\<lambda>e.
              let (addrs, e) = getInitialAddresses N (b, e) in ask_addrs N tls q addrs e))
      in (case r of
            Ok (Some resp) \<Rightarrow> Ok resp
          | Ok None \<Rightarrow> Err CannotFetchMetadata
          | Err err \<Rightarrow> Err err
          | Panic \<Rightarrow> Panic
          | NoFuel \<Rightarrow> NoFuel, b, e))"

definition refreshMetadata :: "'e network \<Rightarrow> Broker \<times> 'e \<Rightarrow> unit res \<times> Broker \<times> 'e" where
  "refreshMetadata N w =
     attempt (fetchMetadata N [] w) (\<lambda>r w.
       case r of
         Inl err \<Rightarrow> (Err err, w)
       | Inr meta \<Rightarrow> (Ok (), cacheMetadata meta (fst w), snd w))"

definition muRefreshMetadata :: "'e network \<Rightarrow> Broker \<times> 'e \<Rightarrow> unit res \<times> Broker \<times> 'e" where
  "muRefreshMetadata N w = refreshMetadata N w"

definition Broker_Metadata :: "'e network \<Rightarrow> Broker \<times> 'e \<Rightarrow> MetadataResp res \<times> Broker \<times> 'e" where
  "Broker_Metadata N w = fetchMetadata N [] w"

definition PartitionCount :: "gostring \<Rightarrow> Broker \<Rightarrow> int32 res" where
  "PartitionCount topic b =
     (case partitions (metadata b) topic of Some count \<Rightarrow> Ok count | None \<Rightarrow> Err (TopicNotFound topic))"

section \<open>Opening and closing\<close>

primrec dial_loop :: "'e network \<Rightarrow> nat \<Rightarrow> Broker \<times> 'e \<Rightarrow> Broker res \<times> Broker \<times> 'e" where
  "dial_loop N 0 w = (Err CannotConnect, w)"
| "dial_loop N (Suc n) w =
     attempt (refreshMetadata N w) (\<lambda>r w.
       case r of Inr _ \<Rightarrow> (Ok (fst w), w) | Inl err \<Rightarrow> dial_loop N n w)"

definition empty_metadata :: clusterMetadata where
  "empty_metadata = \<lparr>nodes = [], endpoints = (\<lambda>_. None), partitions = (\<lambda>_. None), controllerId = 0\<rparr>"

definition Dial :: "'e network \<Rightarrow> gostring list \<Rightarrow> BrokerConf \<Rightarrow> 'e \<Rightarrow> Broker res \<times> 'e" where
  "Dial N addrs cf e =
     (if addrs = [] then (Err NoAddresses, e)
      else let (r, w) = dial_loop N (nat (bc_DialRetryLimit cf))
                 (\<lparr>conf = cf, metadata = empty_metadata, conns = [], nodeAddresses = addrs\<rparr>, e)
           in (r, snd w))"

definition Broker_Close :: "'e network \<Rightarrow> Broker \<times> 'e \<Rightarrow> Broker \<times> 'e" where
  "Broker_Close N w =
     (let (cs, e) = range_over N (conns (fst w)) (snd w)
      in (fst w, foldl (\<lambda>e x. net_Close N (snd x) e) e cs))"

section \<open>Connections\<close>

text \<open>
  One round of \<open>muLeaderConnection\<close>: the leader of the partition, with fresh metadata when it is
  not known, and the connection to that node, dialled when there is none.
\<close>

definition leader_node :: "'e network \<Rightarrow> gostring \<times> int32 \<Rightarrow> Broker \<times> 'e \<Rightarrow> int32 res \<times> Broker \<times> 'e" where
  "leader_node N tp w =
     (case endpoints (metadata (fst w)) tp of
        Some nodeID \<Rightarrow> (Ok nodeID, w)
      | None \<Rightarrow>
          attempt (refreshMetadata N w) (\<lambda>r w.
            case r of
              Inl err \<Rightarrow> (Err err, w)
            | Inr _ \<Rightarrow>
                (case endpoints (metadata (fst w)) tp of
                   Some nodeID \<Rightarrow> (Ok nodeID, w)
                 | None \<Rightarrow>
                     if bc_AllowTopicCreation (conf (fst w)) then
                       attempt (fetchMetadata N [fst tp] w) (\<lambda>_ w.
                         (Err (KafkaErr ErrUnknownTopicOrPartition), w))
                     else (Err (KafkaErr ErrUnknownTopicOrPartition), w))))"

definition forget_leader :: "gostring \<times> int32 \<Rightarrow> Broker \<times> 'e \<Rightarrow> Broker \<times> 'e" where
  "forget_leader tp w =
     ((fst w)\<lparr>metadata := (metadata (fst w))\<lparr>endpoints := (endpoints (metadata (fst w)))(tp := None)\<rparr>\<rparr>, snd w)"

definition add_conn :: "int32 \<Rightarrow> nat \<Rightarrow> Broker \<times> 'e \<Rightarrow> Broker \<times> 'e" where
  "add_conn nodeID c w = ((fst w)\<lparr>conns := put nodeID c (conns (fst w))\<rparr>, snd w)"

definition node_connection ::
  "'e network \<Rightarrow> gostring \<times> int32 \<Rightarrow> int32 \<Rightarrow> Broker \<times> 'e \<Rightarrow> nat res \<times> Broker \<times> 'e"
where
  "node_connection N tp nodeID w =
     (case map_of (conns (fst w)) nodeID of
        Some c \<Rightarrow> (Ok c, w)
      | None \<Rightarrow>
          (case map_of (nodes (metadata (fst w))) nodeID of
             None \<Rightarrow> (Err (KafkaErr ErrBrokerNotAvailable), forget_leader tp w)
           | Some addr \<Rightarrow>
               attempt (getConnection N addr w) (\<lambda>r w.
                 case r of
                   Inl err \<Rightarrow> (Err err, forget_leader tp w)
                 | Inr c \<Rightarrow> (Ok c, add_conn nodeID c w))))"

definition as_result :: "goerror \<Rightarrow> 'a option res" where
  "as_result err = (case err of None \<Rightarrow> Ok None | Some err \<Rightarrow> Err err)"

text \<open>
  The retry loop: \<open>n\<close> rounds are left, \<open>err\<close> is the last error, and before every round but the
  first the lock is released for a while.  \<open>Ok None\<close> is a nil connection with a nil error.
\<close>

primrec leader_loop ::
  "'e network \<Rightarrow> gostring \<times> int32 \<Rightarrow> nat \<Rightarrow> bool \<Rightarrow> goerror \<Rightarrow> Broker \<times> 'e \<Rightarrow> nat option res \<times> Broker \<times> 'e"
where
  "leader_loop N tp 0 again err w = (as_result err, w)"
| "leader_loop N tp (Suc n) again err w =
     attempt (leader_node N tp (if again then net_others N w else w)) (\<lambda>r w.
       case r of
         Inl err \<Rightarrow> leader_loop N tp n True (Some err) w
       | Inr nodeID \<Rightarrow>
           attempt (node_connection N tp nodeID w) (\<lambda>r w.
             case r of
               Inl err \<Rightarrow> leader_loop N tp n True (Some err) w
             | Inr c \<Rightarrow> (Ok (Some c), w)))"

definition muLeaderConnection ::
  "'e network \<Rightarrow> gostring \<Rightarrow> int32 \<Rightarrow> Broker \<times> 'e \<Rightarrow> nat option res \<times> Broker \<times> 'e"
where
  "muLeaderConnection N topic part w =
     leader_loop N (topic, part) (nat (bc_LeaderRetryLimit (conf (fst w)))) False None w"

text \<open>
  \<open>muCoordinatorConnection\<close>: any connection is asked for the coordinator of the group, then, with
  fresh metadata, every node that is not connected yet, which it then is.  A response that carries an
  error sets \<open>resErr\<close> to \<open>err\<close>, which is nil there.
\<close>

definition coordinator_req :: "Broker \<Rightarrow> gostring \<Rightarrow> ConsumerMetadataReq" where
  "coordinator_req b grp =
     zero_ConsumerMetadataReq\<lparr>ClientID := bc_ClientID (conf b), cq_ConsumerGroup := grp\<rparr>"

definition on_env :: "('e \<Rightarrow> 'a res \<times> 'e) \<Rightarrow> Broker \<times> 'e \<Rightarrow> 'a res \<times> Broker \<times> 'e" where
  "on_env f w = (let (r, e) = f (snd w) in (r, fst w, e))"

text \<open>The address from a response without an error, and the connection to it.\<close>

definition coordinator_of ::
  "'e network \<Rightarrow> gostring \<Rightarrow> nat \<Rightarrow> Broker \<times> 'e \<Rightarrow> (goerror + nat) res \<times> Broker \<times> 'e"
where
  "coordinator_of N grp c w =
     attempt (on_env (net_ConsumerMetadata N c (coordinator_req (fst w) grp)) w) (\<lambda>r w.
       case r of
         Inl err \<Rightarrow> (Ok (Inl (Some err)), w)
       | Inr resp \<Rightarrow>
           if cr_Err resp \<noteq> None then (Ok (Inl None), w)
           else attempt (getConnection N (host_port (cr_CoordinatorHost resp) (cr_CoordinatorPort resp)) w)
             (\<lambda>r w.
               case r of
                 Inl err \<Rightarrow> (Ok (Inl (Some err)), w)
               | Inr c' \<Rightarrow> (Ok (Inr c'), add_conn (cr_CoordinatorID resp) c' w)))"

primrec coordinator_by_conns ::
  "'e network \<Rightarrow> gostring \<Rightarrow> (int32 \<times> nat) list \<Rightarrow> goerror \<Rightarrow> Broker \<times> 'e \<Rightarrow>
   (goerror + nat) res \<times> Broker \<times> 'e"
where
  "coordinator_by_conns N grp [] resErr w = (Ok (Inl resErr), w)"
| "coordinator_by_conns N grp (x # xs) resErr w =
     attempt (coordinator_of N grp (snd x) w) (\<lambda>r w.
       case r of
         Inr (Inr c) \<Rightarrow> (Ok (Inr c), w)
       | Inr (Inl err) \<Rightarrow> coordinator_by_conns N grp xs err w
       | Inl err \<Rightarrow> (Err err, w))"

primrec coordinator_by_nodes ::
  "'e network \<Rightarrow> gostring \<Rightarrow> (int32 \<times> gostring) list \<Rightarrow> Broker \<times> 'e \<Rightarrow> nat option res \<times> Broker \<times> 'e"
where
  "coordinator_by_nodes N grp [] w = (Ok None, w)"
| "coordinator_by_nodes N grp (x # xs) w =
     (if fst x \<in> fst ` set (conns (fst w)) then coordinator_by_nodes N grp xs w
      else attempt (getConnection N (snd x) w) (\<lambda>r w.
        case r of
          Inl err \<Rightarrow> coordinator_by_nodes N grp xs w
        | Inr c \<Rightarrow>
            attempt (coordinator_of N grp c (add_conn (fst x) c w)) (\<lambda>r w.
              case r of
                Inr (Inr c') \<Rightarrow> (Ok (Some c'), w)
              | Inr (Inl err) \<Rightarrow> coordinator_by_nodes N grp xs w
              | Inl err \<Rightarrow> (Err err, w))))"

text \<open>One round; when the nodes are exhausted \<open>resErr\<close> is \<open>ErrNoCoordinator\<close> whatever it was before.\<close>

definition coordinator_round ::
  "'e network \<Rightarrow> gostring \<Rightarrow> goerror \<Rightarrow> Broker \<times> 'e \<Rightarrow> (goerror + nat) res \<times> Broker \<times> 'e"
where
  "coordinator_round N grp resErr w =
     (let (cs, e) = range_over N (conns (fst w)) (snd w)
      in attempt (coordinator_by_conns N grp cs resErr (fst w, e)) (\<lambda>r w.
        case r of
          Inl err \<Rightarrow> (Err err, w)
        | Inr (Inr c) \<Rightarrow> (Ok (Inr c), w)
        | Inr (Inl _) \<Rightarrow>
            attempt (refreshMetadata N w) (\<lambda>r w.
              case r of
                Inl err \<Rightarrow> (Ok (Inl (Some err)), w)
              | Inr _ \<Rightarrow>
                  (let (ns, e) = range_over N (nodes (metadata (fst w))) (snd w)
                   in attempt (coordinator_by_nodes N grp ns (fst w, e)) (\<lambda>r w.
                     case r of
                       Inl err \<Rightarrow> (Err err, w)
                     | Inr (Some c) \<Rightarrow> (Ok (Inr c), w)
                     | Inr None \<Rightarrow> (Ok (Inl (Some (KafkaErr ErrNoCoordinator))), w))))))"

primrec coordinator_loop ::
  "'e network \<Rightarrow> gostring \<Rightarrow> nat \<Rightarrow> bool \<Rightarrow> goerror \<Rightarrow> Broker \<times> 'e \<Rightarrow> nat option res \<times> Broker \<times> 'e"
where
  "coordinator_loop N grp 0 again resErr w = (as_result resErr, w)"
| "coordinator_loop N grp (Suc n) again resErr w =
     attempt (coordinator_round N grp resErr (if again then net_others N w else w)) (\<lambda>r w.
       case r of
         Inl err \<Rightarrow> (Err err, w)
       | Inr (Inr c) \<Rightarrow> (Ok (Some c), w)
       | Inr (Inl resErr) \<Rightarrow> coordinator_loop N grp n True resErr w)"

definition muCoordinatorConnection ::
  "'e network \<Rightarrow> gostring \<Rightarrow> Broker \<times> 'e \<Rightarrow> nat option res \<times> Broker \<times> 'e"
where
  "muCoordinatorConnection N grp w =
     coordinator_loop N grp (nat (bc_LeaderRetryLimit (conf (fst w)))) False None w"

definition muCloseDeadConnection :: "'e network \<Rightarrow> nat \<Rightarrow> Broker \<times> 'e \<Rightarrow> unit res \<times> Broker \<times> 'e" where
  "muCloseDeadConnection N c w =
     (let (cs, e) = range_over N (conns (fst w)) (snd w)
      in case find (\<lambda>x. snd x = c) cs of
           None \<Rightarrow> (Ok (), fst w, e)
         | Some x \<Rightarrow>
             attempt (refreshMetadata N
               ((fst w)\<lparr>conns := del (fst x) (conns (fst w))\<rparr>, net_Close N (snd x) e)) (\<lambda>_ w. (Ok (), w)))"

section \<open>Calls on any connection\<close>

primrec controller_conns ::
  "(nat \<Rightarrow> Broker \<times> 'e \<Rightarrow> 'a res \<times> Broker \<times> 'e) \<Rightarrow> int32 \<Rightarrow> (int32 \<times> nat) list \<Rightarrow> goerror \<Rightarrow> Broker \<times> 'e \<Rightarrow>
   (goerror + 'a) res \<times> Broker \<times> 'e"
where
  "controller_conns f controllerID [] err w = (Ok (Inl err), w)"
| "controller_conns f controllerID (x # xs) err w =
     (if fst x = controllerID then
        attempt (f (snd x) w) (\<lambda>r w.
          case r of
            Inl err \<Rightarrow> controller_conns f controllerID xs (Some err) w
          | Inr a \<Rightarrow> (Ok (Inr a), w))
      else controller_conns f controllerID xs err w)"

definition close_after :: "'e network \<Rightarrow> nat \<Rightarrow> Broker \<times> 'e \<Rightarrow> Broker \<times> 'e" where
  "close_after N c w = (fst w, net_Close N c (snd w))"

definition callOnClusterController ::
  "'e network \<Rightarrow> (nat \<Rightarrow> Broker \<times> 'e \<Rightarrow> 'a res \<times> Broker \<times> 'e) \<Rightarrow> Broker \<times> 'e \<Rightarrow> 'a res \<times> Broker \<times> 'e"
where
  "callOnClusterController N f w =
     (let controllerID = controllerId (metadata (fst w));
          (cs, e) = range_over N (conns (fst w)) (snd w)
      in attempt (controller_conns f controllerID cs None (fst w, e)) (\<lambda>r w.
        case r of
          Inl err \<Rightarrow> (Err err, w)
        | Inr (Inr a) \<Rightarrow> (Ok a, w)
        | Inr (Inl err) \<Rightarrow>
            (case map_of (nodes (metadata (fst w))) controllerID of
               Some addr \<Rightarrow>
                 attempt (getConnection N addr w) (\<lambda>r w.
                   case r of
                     Inl err \<Rightarrow> (Err err, w)
                   | Inr c \<Rightarrow>
                       attempt (f c w) (\<lambda>r w.
                         case r of
                           Inl err \<Rightarrow> (Err err, close_after N c w)
                         | Inr a \<Rightarrow> (Ok a, close_after N c w)))
             | None \<Rightarrow>
                 (Err (case err of Some err \<Rightarrow> err | None \<Rightarrow> NoControllerConnection), w))))"

definition CreateTopic ::
  "'e network \<Rightarrow> TopicInfo list \<Rightarrow> int64 \<Rightarrow> bool \<Rightarrow> Broker \<times> 'e \<Rightarrow> CreateTopicsResp res \<times> Broker \<times> 'e"
where
  "CreateTopic N topics timeout validateOnly w =
     callOnClusterController N (\<lambda>c. on_env (net_CreateTopic N c
       (zero_CreateTopicsReq\<lparr>ct_Timeout := timeout, ct_CreateTopicsRequests := topics,
          ct_ValidateOnly := validateOnly\<rparr>))) w"

text \<open>
  \<open>callOnActiveConnection\<close> is \<open>fetchMetadata\<close> with the request as a parameter \<open>f\<close>, which returns
  only an error; \<open>err\<close> is the last one, nil when nothing could be tried.
\<close>

primrec active_conns ::
  "(nat \<Rightarrow> Broker \<times> 'e \<Rightarrow> unit res \<times> Broker \<times> 'e) \<Rightarrow> (int32 \<times> nat) list \<Rightarrow> goerror \<Rightarrow> Broker \<times> 'e \<Rightarrow>
   (goerror + unit) res \<times> Broker \<times> 'e"
where
  "active_conns f [] err w = (Ok (Inl err), w)"
| "active_conns f (x # xs) err w =
     attempt (f (snd x) w) (\<lambda>r w.
       case r of Inl err \<Rightarrow> active_conns f xs (Some err) w | Inr _ \<Rightarrow> (Ok (Inr ()), w))"

primrec active_addrs ::
  "'e network \<Rightarrow> (nat \<Rightarrow> Broker \<times> 'e \<Rightarrow> unit res \<times> Broker \<times> 'e) \<Rightarrow> gostring list \<Rightarrow> goerror \<Rightarrow> Broker \<times> 'e \<Rightarrow>
   (goerror + unit) res \<times> Broker \<times> 'e"
where
  "active_addrs N f [] err w = (Ok (Inl err), w)"
| "active_addrs N f (addr # addrs) err w =
     attempt (getConnection N addr w) (\<lambda>r w.
       case r of
         Inl err \<Rightarrow> active_addrs N f addrs (Some err) w
       | Inr c \<Rightarrow>
           attempt (f c w) (\<lambda>r w.
             case r of
               Inl err \<Rightarrow> active_addrs N f addrs (Some err) (close_after N c w)
             | Inr _ \<Rightarrow> (Ok (Inr ()), close_after N c w)))"

definition callOnActiveConnection ::
  "'e network \<Rightarrow> (nat \<Rightarrow> Broker \<times> 'e \<Rightarrow> unit res \<times> Broker \<times> 'e) \<Rightarrow> Broker \<times> 'e \<Rightarrow> goerror res \<times> Broker \<times> 'e"
where
  "callOnActiveConnection N f w =
     (let checkednodes = map fst (conns (fst w));
          (cs, e) = range_over N (conns (fst w)) (snd w)
      in attempt (active_conns f cs None (fst w, e)) (\<lambda>r w.
        case r of
          Inl err \<Rightarrow> (Err err, w)
        | Inr (Inr _) \<Rightarrow> (Ok None, w)
        | Inr (Inl err) \<Rightarrow>
            (let (ns, e) = range_over N (nodes (metadata (fst w))) (snd w)
             in attempt (active_addrs N f (map snd (filter (\<lambda>x. fst x \<notin> set checkednodes) ns)) err
                   (fst w, e)) (\<lambda>r w.
               case r of
                 Inl err \<Rightarrow> (Err err, w)
               | Inr (Inr _) \<Rightarrow> (Ok None, w)
               | Inr (Inl err) \<Rightarrow>
                   (let (addrs, e) = getInitialAddresses N w
                    in attempt (active_addrs N f addrs err (fst w, e)) (\<lambda>r w.
                      case r of
                        Inl err \<Rightarrow> (Err err, w)
                      | Inr (Inr _) \<Rightarrow> (Ok None, w)
                      | Inr (Inl err) \<Rightarrow> (Ok err, w)))))))"

section \<open>Offsets of a partition\<close>

definition broken :: "error \<Rightarrow> bool" where
  "broken err \<longleftrightarrow> (case err of OpError _ \<Rightarrow> True | EOF \<Rightarrow> True | EPIPE \<Rightarrow> True | _ \<Rightarrow> False)"

definition offset_req :: "Broker \<Rightarrow> gostring \<Rightarrow> int32 \<Rightarrow> int64 \<Rightarrow> OffsetReq" where
  "offset_req b topic part timems =
     zero_OffsetReq\<lparr>ClientID := bc_ClientID (conf b), oq_ReplicaID := - 1,
       oq_Topics := [\<lparr>oqt_Name = topic, oqt_Partitions =
         [\<lparr>oqp_ID = part, oqp_TimeMs = timems, oqp_MaxOffsets = 2\<rparr>]\<rparr>]\<rparr>"

text \<open>The first entry for the partition that has no error.\<close>

definition find_offset :: "gostring \<Rightarrow> int32 \<Rightarrow> OffsetResp \<Rightarrow> int64 option" where
  "find_offset topic part resp =
     map_option (\<lambda>p. case orp_Offsets p of [] \<Rightarrow> 0 | off # _ \<Rightarrow> off)
       (find (\<lambda>p. orp_ID p = part \<and> orp_Err p = None)
         (concat (map ort_Partitions (filter (\<lambda>t. ort_Name t = topic) (or_Topics resp)))))"

primrec offset_loop ::
  "'e network \<Rightarrow> gostring \<Rightarrow> int32 \<Rightarrow> int64 \<Rightarrow> nat \<Rightarrow> bool \<Rightarrow> Broker \<times> 'e \<Rightarrow> int64 res \<times> Broker \<times> 'e"
where
  "offset_loop N topic part timems 0 again w = (Err IncompleteFetchResponse, w)"
| "offset_loop N topic part timems (Suc n) again w =
     attempt (if again then muRefreshMetadata N w else (Ok (), w)) (\<lambda>r w.
       case r of
         Inl err \<Rightarrow> offset_loop N topic part timems n True w
       | Inr _ \<Rightarrow>
           attempt (muLeaderConnection N topic part w) (\<lambda>r w.
             case r of
               Inl err \<Rightarrow> (Err err, w)
             | Inr None \<Rightarrow> (Panic, w)
             | Inr (Some c) \<Rightarrow>
                 attempt (on_env (net_Offset N c (offset_req (fst w) topic part timems)) w) (\<lambda>r w.
                   case r of
                     Inl err \<Rightarrow>
                       attempt (if broken err then muCloseDeadConnection N c w else (Ok (), w)) (\<lambda>_ w.
                         offset_loop N topic part timems n True w)
                   | Inr resp \<Rightarrow>
                       (case find_offset topic part resp of
                          Some off \<Rightarrow> (Ok off, w)
                        | None \<Rightarrow> offset_loop N topic part timems n True w))))"

definition Broker_offset ::
  "'e network \<Rightarrow> gostring \<Rightarrow> int32 \<Rightarrow> int64 \<Rightarrow> Broker \<times> 'e \<Rightarrow> int64 res \<times> Broker \<times> 'e"
where
  "Broker_offset N topic part timems w =
     offset_loop N topic part timems (nat (bc_RetryErrLimit (conf (fst w)))) False w"

definition OffsetEarliest :: "'e network \<Rightarrow> gostring \<Rightarrow> int32 \<Rightarrow> Broker \<times> 'e \<Rightarrow> int64 res \<times> Broker \<times> 'e" where
  "OffsetEarliest N topic part w = Broker_offset N topic part (- 2) w"

definition OffsetLatest :: "'e network \<Rightarrow> gostring \<Rightarrow> int32 \<Rightarrow> Broker \<times> 'e \<Rightarrow> int64 res \<times> Broker \<times> 'e" where
  "OffsetLatest N topic part w = Broker_offset N topic part (- 1) w"

section \<open>Iteration and attempts\<close>

lemma range_over_set: "range_over N xs e = (ys, e') \<Longrightarrow> set ys = set xs"
  by (auto simp: range_over_def split: prod.splits)

lemma attempt_cases:
  obtains (ok) x where "fst r = Ok x" "attempt r k = k (Inr x) (snd r)"
  | (err) e where "fst r = Err e" "attempt r k = k (Inl e) (snd r)"
  | (panic) "fst r = Panic" "attempt r k = (Panic, snd r)"
  | (fuel) "fst r = NoFuel" "attempt r k = (NoFuel, snd r)"
  by (cases "fst r") (simp_all add: attempt_def)

text \<open>What holds after the first call and is kept by the second holds after both.\<close>

lemma attempt_keeps:
  assumes "P (snd r)" "\<And>x s. P s \<Longrightarrow> P (snd (k x s))"
  shows "P (snd (attempt r k))"
  by (rule attempt_cases[of r k]) (use assms in auto)

lemma attempt_post:
  assumes "\<And>x s. r = (Ok x, s) \<Longrightarrow> Q (k (Inr x) s)" "\<And>e s. r = (Err e, s) \<Longrightarrow> Q (k (Inl e) s)"
    "\<And>s. r = (Panic, s) \<Longrightarrow> Q (Panic, s)" "\<And>s. r = (NoFuel, s) \<Longrightarrow> Q (NoFuel, s)"
  shows "Q (attempt r k)"
  by (rule attempt_cases[of r k]) (use assms in \<open>metis prod.collapse\<close>)+

lemma attempt_Ok:
  assumes "attempt r k = (Ok y, s)"
  obtains x where "fst r = Ok x" "k (Inr x) (snd r) = (Ok y, s)"
  | e where "fst r = Err e" "k (Inl e) (snd r) = (Ok y, s)"
  using assms by (cases rule: attempt_cases[of r k]) auto

lemma attempt_result:
  assumes "attempt r k = (Ok y, s)"
  obtains x v where "r = (Ok x, v)" "k (Inr x) v = (Ok y, s)"
  | e v where "r = (Err e, v)" "k (Inl e) v = (Ok y, s)"
  using attempt_Ok[OF assms] by (metis prod.collapse)

lemma on_env_eq: "on_env f w = (r, w') \<longleftrightarrow> fst w' = fst w \<and> f (snd w) = (r, snd w')"
  by (auto simp: on_env_def split_beta Let_def prod_eq_iff)

lemma attempt_Err:
  assumes "attempt r k = (Err y, s)"
  obtains x where "fst r = Ok x" "k (Inr x) (snd r) = (Err y, s)"
  | e where "fst r = Err e" "k (Inl e) (snd r) = (Err y, s)"
  using assms by (cases rule: attempt_cases[of r k]) auto

section \<open>What the functions leave alone\<close>

lemma fetchMetadata_broker [simp]: "fst (snd (fetchMetadata N topics w)) = fst w"
  by (simp add: fetchMetadata_def Let_def split_beta)

lemma refreshMetadata_conns [simp]: "conns (fst (snd (refreshMetadata N w))) = conns (fst w)"
proof -
  have "conns (fst (snd (attempt (fetchMetadata N [] w) (\<lambda>r w. case r of
      Inl err \<Rightarrow> (Err err, w) | Inr meta \<Rightarrow> (Ok (), cacheMetadata meta (fst w), snd w))))) = conns (fst w)"
    by (rule attempt_keeps[where P = "\<lambda>v. conns (fst v) = conns (fst w)"])
      (auto simp: cacheMetadata_def Let_def split: sum.split)
  then show ?thesis by (simp add: refreshMetadata_def)
qed

lemma refreshMetadata_Err: "refreshMetadata N w = (Err err, w') \<Longrightarrow> fst w' = fst w"
  unfolding refreshMetadata_def
  by (erule attempt_Err) (auto split: sum.splits dest: arg_cong[of _ _ fst])

section \<open>The connection to a leader\<close>

lemma leader_node_Ok:
  "leader_node N tp w = (Ok nodeID, w') \<Longrightarrow> endpoints (metadata (fst w')) tp = Some nodeID"
  unfolding leader_node_def
  by (auto split: option.splits if_splits sum.splits elim!: attempt_Ok)

lemma leader_node_Err:
  assumes "leader_node N tp w = (Err err, w')"
  shows "endpoints (metadata (fst w')) tp = None"
proof (cases "endpoints (metadata (fst w)) tp")
  case None
  with assms have "attempt (refreshMetadata N w) (\<lambda>r w. case r of Inl err \<Rightarrow> (Err err, w)
      | Inr _ \<Rightarrow> (case endpoints (metadata (fst w)) tp of Some nodeID \<Rightarrow> (Ok nodeID, w)
         | None \<Rightarrow> if bc_AllowTopicCreation (conf (fst w)) then
             attempt (fetchMetadata N [fst tp] w) (\<lambda>_ w. (Err (KafkaErr ErrUnknownTopicOrPartition), w))
           else (Err (KafkaErr ErrUnknownTopicOrPartition), w))) = (Err err, w')"
    by (simp add: leader_node_def)
  then show ?thesis
  proof (cases rule: attempt_Err)
    case (2 e)
    then have "fst w' = fst w" using refreshMetadata_Err by (metis prod.collapse Pair_inject sum.simps(5))
    with None show ?thesis by simp
  qed (auto split: option.splits if_splits elim!: attempt_Err)
qed (use assms in \<open>simp add: leader_node_def\<close>)

lemma node_connection_Ok:
  assumes "node_connection N tp nodeID w = (Ok c, w')" "endpoints (metadata (fst w)) tp = Some nodeID"
  shows "endpoints (metadata (fst w')) tp = Some nodeID \<and> map_of (conns (fst w')) nodeID = Some c"
  using assms unfolding node_connection_def
  by (auto split: option.splits sum.splits elim!: attempt_Ok
      simp: getConnection_def split_beta Let_def add_conn_def map_of_put)

lemma node_connection_Err:
  assumes "node_connection N tp nodeID w = (Err err, w')"
  shows "endpoints (metadata (fst w')) tp = None"
  using assms unfolding node_connection_def
  by (auto split: option.splits sum.splits elim!: attempt_Err simp: forget_leader_def)

definition leader_outcome :: "gostring \<times> int32 \<Rightarrow> bool \<Rightarrow> nat option res \<times> Broker \<times> 'e \<Rightarrow> bool" where
  "leader_outcome tp may_be_nil rw \<longleftrightarrow>
     (case fst rw of
        Ok (Some c) \<Rightarrow> (\<exists>nodeID. endpoints (metadata (fst (snd rw))) tp = Some nodeID \<and>
          map_of (conns (fst (snd rw))) nodeID = Some c)
      | Ok None \<Rightarrow> may_be_nil
      | Err err \<Rightarrow> endpoints (metadata (fst (snd rw))) tp = None
      | _ \<Rightarrow> True)"

lemma leader_outcome_simps [simp]:
  "leader_outcome tp b (Ok (Some c), w) \<longleftrightarrow> (\<exists>nodeID. endpoints (metadata (fst w)) tp = Some nodeID \<and>
     map_of (conns (fst w)) nodeID = Some c)"
  "leader_outcome tp b (Ok None, w) \<longleftrightarrow> b"
  "leader_outcome tp b (Err err, w) \<longleftrightarrow> endpoints (metadata (fst w)) tp = None"
  "leader_outcome tp b (Panic, w)" "leader_outcome tp b (NoFuel, w)"
  by (simp_all add: leader_outcome_def)

lemma leader_loop_outcome:
  assumes "err \<noteq> None \<Longrightarrow> endpoints (metadata (fst w)) tp = None"
  shows "leader_outcome tp (n = 0 \<and> err = None) (leader_loop N tp n again err w)"
  using assms
proof (induction n arbitrary: again err w)
  case 0
  then show ?case by (auto simp: leader_outcome_def as_result_def split: option.split)
next
  case (Suc n)
  have rest: "leader_outcome tp False (leader_loop N tp n True (Some e) v)"
    if "endpoints (metadata (fst v)) tp = None" for e v
    using Suc.IH[of "Some e" v True] that by simp
  show ?case
    unfolding leader_loop.simps
  proof (rule attempt_post)
    fix e v assume "leader_node N tp (if again then net_others N w else w) = (Err e, v)"
    from rest[OF leader_node_Err[OF this]]
    show "leader_outcome tp (Suc n = 0 \<and> err = None) (case Inl e of
        Inl err \<Rightarrow> leader_loop N tp n True (Some err) v
      | Inr nodeID \<Rightarrow> attempt (node_connection N tp nodeID v) (\<lambda>r w. case r of
          Inl err \<Rightarrow> leader_loop N tp n True (Some err) w | Inr c \<Rightarrow> (Ok (Some c), w)))"
      by simp
  next
    fix nodeID v assume n: "leader_node N tp (if again then net_others N w else w) = (Ok nodeID, v)"
    have "leader_outcome tp False (attempt (node_connection N tp nodeID v) (\<lambda>r w. case r of
          Inl err \<Rightarrow> leader_loop N tp n True (Some err) w | Inr c \<Rightarrow> (Ok (Some c), w)))"
    proof (rule attempt_post)
      fix c v' assume "node_connection N tp nodeID v = (Ok c, v')"
      from node_connection_Ok[OF this leader_node_Ok[OF n]]
      show "leader_outcome tp False (case Inr c of Inl err \<Rightarrow> leader_loop N tp n True (Some err) v'
          | Inr c \<Rightarrow> (Ok (Some c), v'))" by simp
    next
      fix e v' assume "node_connection N tp nodeID v = (Err e, v')"
      from rest[OF node_connection_Err[OF this]]
      show "leader_outcome tp False (case Inl e of Inl err \<Rightarrow> leader_loop N tp n True (Some err) v'
          | Inr c \<Rightarrow> (Ok (Some c), v'))" by simp
    qed simp_all
    then show "leader_outcome tp (Suc n = 0 \<and> err = None) (case Inr nodeID of
        Inl err \<Rightarrow> leader_loop N tp n True (Some err) v
      | Inr nodeID \<Rightarrow> attempt (node_connection N tp nodeID v) (\<lambda>r w. case r of
          Inl err \<Rightarrow> leader_loop N tp n True (Some err) w | Inr c \<Rightarrow> (Ok (Some c), w)))"
      by simp
  qed simp_all
qed

text \<open>The connection the broker has for the leader of a partition, by its own cache.\<close>

definition leads :: "Broker \<Rightarrow> gostring \<times> int32 \<Rightarrow> nat \<Rightarrow> bool" where
  "leads b tp c \<longleftrightarrow>
     (case endpoints (metadata b) tp of None \<Rightarrow> False | Some nodeID \<Rightarrow> map_of (conns b) nodeID = Some c)"

lemma muLeaderConnection_Ok:
  "muLeaderConnection N topic part w = (Ok (Some c), w') \<Longrightarrow> leads (fst w') (topic, part) c"
  using leader_loop_outcome[of None w "(topic, part)" "nat (bc_LeaderRetryLimit (conf (fst w)))" N False]
  by (auto simp: muLeaderConnection_def leads_def)

lemma muLeaderConnection_nil:
  "muLeaderConnection N topic part w = (Ok None, w') \<Longrightarrow> bc_LeaderRetryLimit (conf (fst w)) \<le> 0"
  using leader_loop_outcome[of None w "(topic, part)" "nat (bc_LeaderRetryLimit (conf (fst w)))" N False]
  by (auto simp: muLeaderConnection_def)

lemma muLeaderConnection_Err:
  "muLeaderConnection N topic part w = (Err err, w') \<Longrightarrow> endpoints (metadata (fst w')) (topic, part) = None"
  using leader_loop_outcome[of None w "(topic, part)" "nat (bc_LeaderRetryLimit (conf (fst w)))" N False]
  by (auto simp: muLeaderConnection_def)

section \<open>Invariants of the broker\<close>

text \<open>
  A property of the broker and the network that survives the requests a broker makes to find and open
  connections, a dial together with the entry of the new connection, the removal of a connection and
  new metadata, is kept by every function that manages connections.
\<close>

locale conn_inv =
  fixes N :: "'e network" and I :: "Broker \<times> 'e \<Rightarrow> bool"
  assumes dial_I: "I (b, e) \<Longrightarrow> I (b, snd (net_dial N tls addr e))"
    and add_I: "I (b, e) \<Longrightarrow> net_dial N tls addr e = (Ok c, e') \<Longrightarrow> I (b\<lparr>conns := put nid c (conns b)\<rparr>, e')"
    and Close_I: "I (b, e) \<Longrightarrow> I (b, net_Close N c e)"
    and Metadata_I: "I (b, e) \<Longrightarrow> I (b, snd (net_Metadata N c q0 e))"
    and ConsumerMetadata_I: "I (b, e) \<Longrightarrow> I (b, snd (net_ConsumerMetadata N c q1 e))"
    and perm_I: "I (b, e) \<Longrightarrow> I (b, snd (net_perm N n e))"
    and metadata_I: "I (b, e) \<Longrightarrow> I (b\<lparr>metadata := m\<rparr>, e)"
    and del_I: "I (b, e) \<Longrightarrow> I (b\<lparr>conns := del nid (conns b)\<rparr>, e)"
    and others_I: "I w \<Longrightarrow> I (net_others N w)"
begin

lemmas env_I = dial_I Close_I Metadata_I ConsumerMetadata_I perm_I

lemma on_env_I: "(\<And>b e. I (b, e) \<Longrightarrow> I (b, snd (f e))) \<Longrightarrow> I w \<Longrightarrow> I (snd (on_env f w))"
  by (cases w) (simp add: on_env_def split_beta Let_def)

lemma getConnection_I: "I w \<Longrightarrow> I (snd (getConnection N addr w))"
  using dial_I by (cases w) (simp add: getConnection_def split_beta Let_def)

lemma getConnection_add_I:
  assumes "I w" "getConnection N addr w = (Ok c, w')"
  shows "I (add_conn nid c w')"
proof -
  from assms(2) have "net_dial N (useTLS (conf (fst w))) addr (snd w) = (Ok c, snd w')" "fst w' = fst w"
    by (auto simp: getConnection_def split_beta Let_def prod_eq_iff)
  with add_I[of "fst w" "snd w"] assms(1) show ?thesis by (simp add: add_conn_def)
qed

lemma range_over_I: "I (b, e) \<Longrightarrow> I (b, snd (range_over N xs e))"
  using perm_I by (simp add: range_over_def split_beta Let_def)

lemma getInitialAddresses_I: "I (b, e) \<Longrightarrow> I (b, snd (getInitialAddresses N (b', e)))"
  using perm_I by (simp add: getInitialAddresses_def split_beta Let_def)

lemma first_of_I:
  assumes "I (b, snd r)" "\<And>e. I (b, e) \<Longrightarrow> I (b, snd (k e))"
  shows "I (b, snd (first_of r k))"
  using assms by (auto simp: first_of_def split: prod.split outcome.split option.split)

lemma ask_conns_I: "I (b, e) \<Longrightarrow> I (b, snd (ask_conns N q xs e))"
proof (induction xs arbitrary: e)
  case (Cons x xs)
  then show ?case
    unfolding ask_conns.simps
    by (intro attempt_keeps[where P = "\<lambda>e. I (b, e)"]) (auto intro: env_I split: sum.split)
qed simp

lemma ask_addr_I: "I (b, e) \<Longrightarrow> I (b, snd (ask_addr N tls q addr e))"
  unfolding ask_addr_def
  by (intro attempt_keeps[where P = "\<lambda>e. I (b, e)"])
    (auto simp: Let_def intro: env_I intro!: attempt_keeps[where P = "\<lambda>e. I (b, e)"] split: sum.split)

lemma ask_addrs_I: "I (b, e) \<Longrightarrow> I (b, snd (ask_addrs N tls q addrs e))"
  by (induction addrs arbitrary: e) (auto intro!: first_of_I ask_addr_I)

lemma fetchMetadata_I: "I w \<Longrightarrow> I (snd (fetchMetadata N topics w))"
  unfolding fetchMetadata_def Let_def split_beta snd_conv
  by (cases w) (auto intro!: first_of_I ask_conns_I ask_addrs_I range_over_I getInitialAddresses_I)

lemma refreshMetadata_I: "I w \<Longrightarrow> I (snd (refreshMetadata N w))"
  unfolding refreshMetadata_def
  by (rule attempt_keeps[where P = I])
    (auto simp: cacheMetadata_def Let_def intro: fetchMetadata_I metadata_I split: sum.split)

lemma leader_node_I: "I w \<Longrightarrow> I (snd (leader_node N tp w))"
  unfolding leader_node_def
  by (auto intro!: attempt_keeps[where P = I] intro: refreshMetadata_I fetchMetadata_I
      split: option.split sum.split)

lemma forget_leader_I: "I w \<Longrightarrow> I (forget_leader tp w)"
  by (cases w) (auto simp: forget_leader_def intro: metadata_I)

lemma node_connection_I:
  assumes "I w"
  shows "I (snd (node_connection N tp nodeID w))"
proof -
  have "I (snd (attempt (getConnection N addr w) (\<lambda>r w. case r of
      Inl err \<Rightarrow> (Err err, forget_leader tp w) | Inr c \<Rightarrow> (Ok c, add_conn nodeID c w))))" for addr
    by (rule attempt_post[where Q = "\<lambda>r. I (snd r)"])
      (use assms getConnection_I[of w addr] in
        \<open>auto intro: getConnection_add_I forget_leader_I\<close>)
  with assms show ?thesis
    by (auto simp: node_connection_def intro: forget_leader_I split: option.split)
qed

lemma leader_loop_I: "I w \<Longrightarrow> I (snd (leader_loop N tp n again err w))"
proof (induction n arbitrary: again err w)
  case (Suc n)
  show ?case
    unfolding leader_loop.simps
    by (rule attempt_keeps[where P = I])
      (use Suc in \<open>auto intro!: attempt_keeps[where P = I] leader_node_I node_connection_I others_I
         split: sum.split\<close>)
qed simp

lemma muLeaderConnection_I: "I w \<Longrightarrow> I (snd (muLeaderConnection N topic part w))"
  unfolding muLeaderConnection_def by (rule leader_loop_I)

lemma coordinator_of_I:
  assumes "I w"
  shows "I (snd (coordinator_of N grp c w))"
  unfolding coordinator_of_def
proof (rule attempt_keeps[where P = I])
  fix x v assume "I v"
  have "I (snd (attempt (getConnection N addr v) (\<lambda>r w. case r of
      Inl err \<Rightarrow> (Ok (Inl (Some err)), w) | Inr c' \<Rightarrow> (Ok (Inr c'), add_conn nid c' w))))" for addr nid
    by (rule attempt_post[where Q = "\<lambda>r. I (snd r)"])
      (use \<open>I v\<close> getConnection_I[of v addr] in \<open>auto intro: getConnection_add_I\<close>)
  with \<open>I v\<close> show "I (snd (case x of Inl err \<Rightarrow> (Ok (Inl (Some err)), v) | Inr resp \<Rightarrow>
      if cr_Err resp \<noteq> None then (Ok (Inl None), v)
      else attempt (getConnection N (host_port (cr_CoordinatorHost resp) (cr_CoordinatorPort resp)) v)
        (\<lambda>r w. case r of Inl err \<Rightarrow> (Ok (Inl (Some err)), w)
          | Inr c' \<Rightarrow> (Ok (Inr c'), add_conn (cr_CoordinatorID resp) c' w))))"
    by (auto split: sum.split)
qed (use assms on_env_I ConsumerMetadata_I in blast)

lemma coordinator_by_conns_I: "I w \<Longrightarrow> I (snd (coordinator_by_conns N grp xs resErr w))"
proof (induction xs arbitrary: resErr w)
  case (Cons x xs)
  then show ?case
    unfolding coordinator_by_conns.simps
    by (intro attempt_keeps[where P = I]) (auto intro: coordinator_of_I split: sum.split)
qed simp

lemma coordinator_by_nodes_I: "I w \<Longrightarrow> I (snd (coordinator_by_nodes N grp xs w))"
proof (induction xs arbitrary: w)
  case (Cons x xs)
  have "I (snd (attempt (coordinator_of N grp c v) (\<lambda>r w. case r of
      Inr (Inr c') \<Rightarrow> (Ok (Some c'), w) | Inr (Inl err) \<Rightarrow> coordinator_by_nodes N grp xs w
    | Inl err \<Rightarrow> (Err err, w))))" if "I v" for c v
    using Cons.IH that
    by (intro attempt_keeps[where P = I]) (auto intro: coordinator_of_I split: sum.split)
  moreover have "I v" if "getConnection N (snd x) w = (r, v)" for r v
    using getConnection_I[OF Cons.prems, of "snd x"] that by simp
  ultimately have "I (snd (attempt (getConnection N (snd x) w) (\<lambda>r w. case r of
      Inl err \<Rightarrow> coordinator_by_nodes N grp xs w
    | Inr c \<Rightarrow> attempt (coordinator_of N grp c (add_conn (fst x) c w)) (\<lambda>r w. case r of
        Inr (Inr c') \<Rightarrow> (Ok (Some c'), w) | Inr (Inl err) \<Rightarrow> coordinator_by_nodes N grp xs w
      | Inl err \<Rightarrow> (Err err, w)))))"
    using Cons getConnection_add_I by (intro attempt_post[where Q = "\<lambda>r. I (snd r)"]) auto
  with Cons show ?case by simp
qed simp

lemma coordinator_round_I:
  assumes "I w"
  shows "I (snd (coordinator_round N grp resErr w))"
proof -
  have range: "I (fst v, snd (range_over N xs (snd v)))" if "I v" for v and xs :: "'x list"
    using range_over_I[of "fst v" "snd v" xs] that by simp
  show ?thesis
    unfolding coordinator_round_def Let_def split_beta
    by (rule attempt_keeps[where P = I])
      (auto intro!: attempt_keeps[where P = I] coordinator_by_conns_I coordinator_by_nodes_I
        refreshMetadata_I range range_over_I assms split: sum.split option.split)
qed

lemma coordinator_loop_I: "I w \<Longrightarrow> I (snd (coordinator_loop N grp n again resErr w))"
proof (induction n arbitrary: again resErr w)
  case (Suc n)
  show ?case
    unfolding coordinator_loop.simps
    by (rule attempt_keeps[where P = I])
      (use Suc in \<open>auto intro!: coordinator_round_I others_I split: sum.split\<close>)
qed simp

lemma muCoordinatorConnection_I: "I w \<Longrightarrow> I (snd (muCoordinatorConnection N grp w))"
  unfolding muCoordinatorConnection_def by (rule coordinator_loop_I)

lemma muCloseDeadConnection_I:
  assumes "I w"
  shows "I (snd (muCloseDeadConnection N c w))"
proof -
  have "I (fst w, snd (range_over N (conns (fst w)) (snd w)))"
    using range_over_I[of "fst w" "snd w"] assms by simp
  then show ?thesis
    unfolding muCloseDeadConnection_def Let_def split_beta
    by (auto intro!: attempt_keeps[where P = I] refreshMetadata_I del_I Close_I split: option.split)
qed

lemma close_after_I: "I w \<Longrightarrow> I (close_after N c w)"
  by (cases w) (simp add: close_after_def Close_I)

lemma range_over_I': "I w \<Longrightarrow> range_over N xs (snd w) = (ys, e) \<Longrightarrow> I (fst w, e)"
  using range_over_I[of "fst w" "snd w" xs] by simp

lemma controller_conns_I:
  assumes "\<And>c w. I w \<Longrightarrow> I (snd (f c w))"
  shows "I w \<Longrightarrow> I (snd (controller_conns f cid xs err w))"
proof (induction xs arbitrary: err w)
  case (Cons x xs)
  then show ?case
    by (auto intro!: attempt_keeps[where P = I] assms split: sum.split)
qed simp

lemma callOnClusterController_I:
  assumes "\<And>c w. I w \<Longrightarrow> I (snd (f c w))" "I w"
  shows "I (snd (callOnClusterController N f w))"
  unfolding callOnClusterController_def Let_def
  by (auto intro!: attempt_keeps[where P = I] controller_conns_I assms getConnection_I close_after_I
      dest: range_over_I'[OF assms(2)] split: prod.split sum.split option.split)

lemma active_conns_I:
  assumes "\<And>c w. I w \<Longrightarrow> I (snd (f c w))"
  shows "I w \<Longrightarrow> I (snd (active_conns f xs err w))"
proof (induction xs arbitrary: err w)
  case (Cons x xs)
  then show ?case
    by (auto intro!: attempt_keeps[where P = I] assms split: sum.split)
qed simp

lemma active_addrs_I:
  assumes "\<And>c w. I w \<Longrightarrow> I (snd (f c w))"
  shows "I w \<Longrightarrow> I (snd (active_addrs N f addrs err w))"
proof (induction addrs arbitrary: err w)
  case (Cons x xs)
  then show ?case
    by (auto intro!: attempt_keeps[where P = I] assms getConnection_I close_after_I Cons.IH split: sum.split)
qed simp

lemma callOnActiveConnection_I:
  assumes "\<And>c w. I w \<Longrightarrow> I (snd (f c w))" "I w"
  shows "I (snd (callOnActiveConnection N f w))"
proof -
  have range: "I (fst v, snd (range_over N xs (snd v)))" if "I v" for v and xs :: "'x list"
    using range_over_I[of "fst v" "snd v" xs] that by simp
  show ?thesis
    unfolding callOnActiveConnection_def Let_def split_beta
    by (rule attempt_keeps[where P = I])
      (auto intro!: attempt_keeps[where P = I] active_conns_I active_addrs_I assms range
        getInitialAddresses_I split: sum.split)
qed

lemma Broker_Close_I:
  assumes "I w"
  shows "I (Broker_Close N w)"
proof -
  have "I (b, foldl (\<lambda>e x. net_Close N (snd x) e) e xs)" if "I (b, e)" for b e and xs :: "(int32 \<times> nat) list"
    using that by (induction xs arbitrary: e) (simp_all add: Close_I)
  then show ?thesis
    using range_over_I[of "fst w" "snd w" "conns (fst w)"] assms
    by (simp add: Broker_Close_def split_beta Let_def)
qed

end

text \<open>One that survives every request is kept by every function of the broker.\<close>

locale broker_inv = conn_inv N I
  for N :: "'e network" and I :: "Broker \<times> 'e \<Rightarrow> bool" +
  assumes CreateTopic_I: "I (b, e) \<Longrightarrow> I (b, snd (net_CreateTopic N c q2 e))"
    and Produce_I: "I (b, e) \<Longrightarrow> I (b, snd (net_Produce N c q3 e))"
    and Fetch_I: "I (b, e) \<Longrightarrow> I (b, snd (net_Fetch N c q4 e))"
    and Offset_I: "I (b, e) \<Longrightarrow> I (b, snd (net_Offset N c q5 e))"
    and OffsetCommit_I: "I (b, e) \<Longrightarrow> I (b, snd (net_OffsetCommit N c q6 e))"
    and OffsetFetch_I: "I (b, e) \<Longrightarrow> I (b, snd (net_OffsetFetch N c q7 e))"
begin

lemma offset_loop_I: "I w \<Longrightarrow> I (snd (offset_loop N topic part timems n again w))"
proof (induction n arbitrary: again w)
  case (Suc n)
  have call: "I (snd (attempt (on_env (net_Offset N c q) v) (\<lambda>r w. case r of
      Inl err \<Rightarrow> attempt (if broken err then muCloseDeadConnection N c w else (Ok (), w))
        (\<lambda>_ w. offset_loop N topic part timems n True w)
    | Inr resp \<Rightarrow> (case find_offset topic part resp of Some off \<Rightarrow> (Ok off, w)
        | None \<Rightarrow> offset_loop N topic part timems n True w))))" if "I v" for c q v
    using that Suc.IH
    by (auto intro!: attempt_keeps[where P = I] on_env_I Offset_I muCloseDeadConnection_I
        split: sum.split option.split)
  show ?case
    unfolding offset_loop.simps
    by (rule attempt_keeps[where P = I])
      (use Suc call in \<open>auto intro!: attempt_keeps[where P = I] muLeaderConnection_I refreshMetadata_I
         simp: muRefreshMetadata_def split: sum.split option.split\<close>)
qed simp

lemma CreateTopic_I': "I w \<Longrightarrow> I (snd (CreateTopic N topics timeout validateOnly w))"
  unfolding CreateTopic_def by (intro callOnClusterController_I on_env_I CreateTopic_I)

lemma Broker_offset_I: "I w \<Longrightarrow> I (snd (Broker_offset N topic part timems w))"
  unfolding Broker_offset_def by (rule offset_loop_I)

end

section \<open>The pool of connections\<close>

text \<open>
  The invariant of \<open>b.conns\<close>: one entry per node, no connection under two nodes, and every
  connection was opened by a dial.  \<open>used e\<close> is the set of connections opened so far.
\<close>

definition pool_ok :: "('e \<Rightarrow> nat set) \<Rightarrow> Broker \<times> 'e \<Rightarrow> bool" where
  "pool_ok used w \<longleftrightarrow> distinct (map fst (conns (fst w))) \<and> distinct (map snd (conns (fst w))) \<and>
     snd ` set (conns (fst w)) \<subseteq> used (snd w)"

text \<open>
  What it takes: a dial returns a pointer no earlier dial returned, no connection is forgotten to
  have been opened, and other goroutines keep the invariant too.
\<close>

locale pool =
  fixes N :: "'e network" and used :: "'e \<Rightarrow> nat set"
  assumes dial_fresh: "net_dial N tls addr e = (Ok c, e') \<Longrightarrow> c \<notin> used e \<and> c \<in> used e'"
    and dial_used: "used e \<subseteq> used (snd (net_dial N tls addr e))"
    and Close_used: "used e \<subseteq> used (net_Close N c e)"
    and Metadata_used: "used e \<subseteq> used (snd (net_Metadata N c q0 e))"
    and CreateTopic_used: "used e \<subseteq> used (snd (net_CreateTopic N c q1 e))"
    and Produce_used: "used e \<subseteq> used (snd (net_Produce N c q2 e))"
    and Fetch_used: "used e \<subseteq> used (snd (net_Fetch N c q3 e))"
    and Offset_used: "used e \<subseteq> used (snd (net_Offset N c q4 e))"
    and ConsumerMetadata_used: "used e \<subseteq> used (snd (net_ConsumerMetadata N c q5 e))"
    and OffsetCommit_used: "used e \<subseteq> used (snd (net_OffsetCommit N c q6 e))"
    and OffsetFetch_used: "used e \<subseteq> used (snd (net_OffsetFetch N c q7 e))"
    and perm_used: "used e \<subseteq> used (snd (net_perm N n e))"
    and others_ok: "pool_ok used w \<Longrightarrow> pool_ok used (net_others N w)"

lemma pool_ok_used: "pool_ok used (b, e) \<Longrightarrow> used e \<subseteq> used e' \<Longrightarrow> pool_ok used (b, e')"
  by (auto simp: pool_ok_def)

lemma pool_ok_del: "pool_ok used (b, e) \<Longrightarrow> pool_ok used (b\<lparr>conns := del nid (conns b)\<rparr>, e)"
  by (auto simp: pool_ok_def del_def distinct_map_filter)

lemma pool_ok_put:
  assumes "pool_ok used (b, e)" "used e \<subseteq> used e'" "c \<notin> used e" "c \<in> used e'"
  shows "pool_ok used (b\<lparr>conns := put nid c (conns b)\<rparr>, e')"
  using assms by (auto simp: pool_ok_def put_def distinct_map_filter)

lemma pool_ok_metadata: "pool_ok used (b, e) \<Longrightarrow> pool_ok used (b\<lparr>metadata := m\<rparr>, e)"
  by (simp add: pool_ok_def)

sublocale pool \<subseteq> broker_inv N "pool_ok used"
proof
  fix b e tls addr c e' nid
  assume "pool_ok used (b, e)" "net_dial N tls addr e = (Ok c, e')"
  then show "pool_ok used (b\<lparr>conns := put nid c (conns b)\<rparr>, e')"
    using pool_ok_put[of used b e e' c nid] dial_fresh[of tls addr e c e'] dial_used[of e tls addr]
    by simp
qed ((rule pool_ok_del pool_ok_metadata others_ok, assumption |
    (erule pool_ok_used, rule dial_used Close_used Metadata_used CreateTopic_used Produce_used
      Fetch_used Offset_used ConsumerMetadata_used OffsetCommit_used OffsetFetch_used perm_used))+)

context pool
begin

lemma is_broker_inv: "broker_inv N (pool_ok used)"
  by (rule broker_inv_axioms)

end

text \<open>Closing a dead connection takes exactly its entry out of the pool.\<close>

lemma muCloseDead_conns:
  assumes "pool_ok used w"
  shows "conns (fst (snd (muCloseDeadConnection N c w))) = filter (\<lambda>x. snd x \<noteq> c) (conns (fst w))"
proof -
  obtain cs e where cs: "range_over N (conns (fst w)) (snd w) = (cs, e)" by fastforce
  note set = range_over_set[OF cs]
  have same: "fst x = fst y \<longleftrightarrow> snd x = snd y" if "x \<in> set (conns (fst w))" "y \<in> set (conns (fst w))" for x y
    using assms that by (auto simp: pool_ok_def distinct_map dest: inj_onD)
  show ?thesis
  proof (cases "find (\<lambda>x. snd x = c) cs")
    case None
    then have "\<forall>x \<in> set (conns (fst w)). snd x \<noteq> c" using set by (auto simp: find_None_iff)
    then have "filter (\<lambda>x. snd x \<noteq> c) (conns (fst w)) = conns (fst w)" by (simp add: filter_id_conv)
    with None cs show ?thesis by (simp add: muCloseDeadConnection_def)
  next
    case (Some x)
    then have x: "x \<in> set (conns (fst w))" "snd x = c" using set by (auto simp: find_Some_iff)
    then have "del (fst x) (conns (fst w)) = filter (\<lambda>x. snd x \<noteq> c) (conns (fst w))"
      using same unfolding del_def by (intro filter_cong) auto
    moreover have "conns (fst (snd (attempt (refreshMetadata N v) (\<lambda>_ w. (Ok (), w))))) = conns (fst v)" for v
      by (rule attempt_keeps[where P = "\<lambda>u. conns (fst u) = conns (fst v)"]) simp_all
    ultimately show ?thesis using Some cs by (simp add: muCloseDeadConnection_def)
  qed
qed

section \<open>The connection to a coordinator\<close>

lemma coordinator_round_Inl:
  "coordinator_round N grp resErr w = (Ok (Inl r), w') \<Longrightarrow> r \<noteq> None"
  unfolding coordinator_round_def Let_def split_beta
  by (auto elim!: attempt_Ok split: sum.splits option.splits)

lemma coordinator_loop_nil:
  assumes "n \<noteq> 0 \<or> resErr \<noteq> None"
  shows "fst (coordinator_loop N grp n again resErr w) \<noteq> Ok None"
  using assms
proof (induction n arbitrary: again resErr w)
  case 0
  then show ?case by (auto simp: as_result_def)
next
  case (Suc n)
  show ?case
    unfolding coordinator_loop.simps
  proof (rule attempt_post[where Q = "\<lambda>r. fst r \<noteq> Ok None"])
    fix x v assume "coordinator_round N grp resErr (if again then net_others N w else w) = (Ok x, v)"
    with coordinator_round_Inl[of N grp resErr _ _ v] Suc.IH[of _ True v]
    show "fst (case Inr x of Inl err \<Rightarrow> (Err err, v) | Inr (Inr c) \<Rightarrow> (Ok (Some c), v)
      | Inr (Inl resErr) \<Rightarrow> coordinator_loop N grp n True resErr v) \<noteq> Ok None"
      by (cases x) auto
  qed auto
qed

section \<open>What the cache holds\<close>

definition brokers_of :: "MetadataResp \<Rightarrow> (int32 \<times> gostring) list" where
  "brokers_of resp = map (\<lambda>n. (mb_NodeID n, host_port (mb_Host n) (mb_Port n))) (mr_Brokers resp)"

definition leaders_of :: "MetadataResp \<Rightarrow> ((gostring \<times> int32) \<times> int32) list" where
  "leaders_of resp = concat (map (\<lambda>t. map (\<lambda>p. ((mt_Name t, mp_ID p), mp_Leader p)) (mt_Partitions t))
     (mr_Topics resp))"

definition counts_of :: "MetadataResp \<Rightarrow> (gostring \<times> int32) list" where
  "counts_of resp = map (\<lambda>t. (mt_Name t, of_nat (length (mt_Partitions t)))) (mr_Topics resp)"

lemma foldl_nodes:
  "foldl (\<lambda>m node. m\<lparr>nodes := put (k node) (v node) (nodes m)\<rparr>) m xs =
     m\<lparr>nodes := foldl (\<lambda>ns node. put (k node) (v node) ns) (nodes m) xs\<rparr>"
  by (induction xs arbitrary: m) simp_all

lemma cache_topic_simps [simp]:
  "nodes (cache_topic t m) = nodes m"
  "controllerId (cache_topic t m) = controllerId m"
  "partitions (cache_topic t m) = (partitions m)(mt_Name t \<mapsto> of_nat (length (mt_Partitions t)))"
  "endpoints (cache_topic t m) =
     endpoints m ++ map_of (rev (map (\<lambda>p. ((mt_Name t, mp_ID p), mp_Leader p)) (mt_Partitions t)))"
proof -
  have *: "foldl (\<lambda>m part. m\<lparr>endpoints := (endpoints m)((n, mp_ID part) \<mapsto> mp_Leader part)\<rparr>) m ps =
      m\<lparr>endpoints := endpoints m ++ map_of (rev (map (\<lambda>p. ((n, mp_ID p), mp_Leader p)) ps))\<rparr>" for n ps
    by (induction ps arbitrary: m) (simp_all add: map_add_upd_left)
  show "nodes (cache_topic t m) = nodes m"
    "controllerId (cache_topic t m) = controllerId m"
    "partitions (cache_topic t m) = (partitions m)(mt_Name t \<mapsto> of_nat (length (mt_Partitions t)))"
    "endpoints (cache_topic t m) =
       endpoints m ++ map_of (rev (map (\<lambda>p. ((mt_Name t, mp_ID p), mp_Leader p)) (mt_Partitions t)))"
    by (simp_all add: cache_topic_def Let_def *)
qed

lemma foldl_cache_topic:
  "nodes (foldl (\<lambda>m t. cache_topic t m) m ts) = nodes m"
  "controllerId (foldl (\<lambda>m t. cache_topic t m) m ts) = controllerId m"
  "partitions (foldl (\<lambda>m t. cache_topic t m) m ts) =
     partitions m ++ map_of (rev (map (\<lambda>t. (mt_Name t, of_nat (length (mt_Partitions t)))) ts))"
  "endpoints (foldl (\<lambda>m t. cache_topic t m) m ts) =
     endpoints m ++ map_of (rev (concat (map (\<lambda>t. map (\<lambda>p. ((mt_Name t, mp_ID p), mp_Leader p)) (mt_Partitions t)) ts)))"
  by (induction ts arbitrary: m) (simp_all add: map_add_upd_left)

text \<open>The cache is the response read as maps, the last entry of a key deciding.\<close>

lemma cacheMetadata_spec:
  "map_of (nodes (metadata (cacheMetadata resp b))) = map_of (rev (brokers_of resp))"
  "distinct (map fst (nodes (metadata (cacheMetadata resp b))))"
  "endpoints (metadata (cacheMetadata resp b)) = map_of (rev (leaders_of resp))"
  "partitions (metadata (cacheMetadata resp b)) = map_of (rev (counts_of resp))"
  "controllerId (metadata (cacheMetadata resp b)) = mr_ControllerID resp"
  by (simp_all add: cacheMetadata_def Let_def foldl_cache_topic foldl_nodes map_of_foldl_put
      distinct_foldl_put brokers_of_def leaders_of_def counts_of_def)

section \<open>Properties\<close>

text \<open>
  \<open>muCoordinatorConnection\<close> with a positive number of retries returns a connection or an error, although
  an error in a response sets \<open>resErr\<close> to nil on the way.
\<close>

lemma coordinator_not_nil:
  "0 < bc_LeaderRetryLimit (conf (fst w)) \<Longrightarrow> fst (muCoordinatorConnection N grp w) \<noteq> Ok None"
  unfolding muCoordinatorConnection_def by (rule coordinator_loop_nil) simp

text \<open>
  C12.  \<open>muLeaderConnection\<close>, whatever the network does: a connection it returns is the one in the pool for
  the node that the cached metadata has as the leader of the partition; it returns nil without an
  error only if the configured number of retries is not positive; and with an error it has forgotten
  the leader, so that the next call asks for fresh metadata.
\<close>

lemma leader_connection:
  "case muLeaderConnection N topic part w of
     (Ok (Some c), w') \<Rightarrow> leads (fst w') (topic, part) c
   | (Ok None, w') \<Rightarrow> bc_LeaderRetryLimit (conf (fst w)) \<le> 0
   | (Err err, w') \<Rightarrow> endpoints (metadata (fst w')) (topic, part) = None
   | _ \<Rightarrow> True"
  by (auto split: prod.split outcome.split option.split
      dest: muLeaderConnection_Ok muLeaderConnection_nil muLeaderConnection_Err)

text \<open>
  C17.  A refresh of the metadata that succeeds leaves in the broker exactly what the response says, read as
  maps in which the last entry of a key decides, and the pool as it was; one that fails leaves the
  broker as it was.
\<close>

lemma metadata_cached:
  "case refreshMetadata N w of
     (Ok _, b, e) \<Rightarrow>
       (\<exists>resp. fst (fetchMetadata N [] w) = Ok resp \<and>
          map_of (nodes (metadata b)) = map_of (rev (brokers_of resp)) \<and>
          distinct (map fst (nodes (metadata b))) \<and>
          endpoints (metadata b) = map_of (rev (leaders_of resp)) \<and>
          controllerId (metadata b) = mr_ControllerID resp \<and>
          (\<forall>topic. PartitionCount topic b =
             (case map_of (rev (counts_of resp)) topic of Some n \<Rightarrow> Ok n | None \<Rightarrow> Err (TopicNotFound topic))) \<and>
          conns b = conns (fst w) \<and> conf b = conf (fst w))
   | (_, b, e) \<Rightarrow> b = fst w"
proof -
  obtain r b e where f: "fetchMetadata N [] w = (r, b, e)" using prod_cases3 by blast
  have b: "b = fst w" using fetchMetadata_broker[of N "[]" w] f by simp
  show ?thesis
  proof (cases r)
    case (Ok resp)
    have "refreshMetadata N w = (Ok (), cacheMetadata resp b, e)"
      using f Ok by (simp add: refreshMetadata_def attempt_def)
    then show ?thesis
      using f Ok b cacheMetadata_spec[of resp b]
      by (simp add: PartitionCount_def) (simp add: cacheMetadata_def Let_def)
  qed (use f b in \<open>simp_all add: refreshMetadata_def attempt_def\<close>)
qed

end
