(* ===== verification/Producer.thy ===== *)
theory Producer
  imports Broker
begin

text \<open>
  The producer of \<open>v2/broker.go\<close>: \<open>ProducerConf\<close>, the single attempt \<open>produce\<close> and the retry loop
  of \<open>Produce\<close>, over the state of the broker it is bound to.
\<close>

section \<open>Definitions\<close>

record ProducerConf =
  pc_Compression :: int8
  pc_RequiredAcks :: int16
  pc_RequestTimeout :: int64
  pc_RetryLimit :: int
  pc_RetryWait :: int64

definition RequiredAcksAll :: int16 where
  "RequiredAcksAll = - 1"

definition NewProducerConf :: ProducerConf where
  "NewProducerConf = \<lparr>pc_Compression = CompressionNone, pc_RequiredAcks = RequiredAcksAll,
     pc_RequestTimeout = of_int (5000 * Millisecond), pc_RetryLimit = 10,
     pc_RetryWait = of_int (200 * Millisecond)\<rparr>"

definition produce_req :: "Broker \<Rightarrow> ProducerConf \<Rightarrow> gostring \<Rightarrow> int32 \<Rightarrow> Message list \<Rightarrow> ProduceReq" where
  "produce_req b pc topic part messages =
     zero_ProduceReq\<lparr>ClientID := bc_ClientID (conf b), pq_Compression := pc_Compression pc,
       pq_RequiredAcks := pc_RequiredAcks pc, pq_Timeout := pc_RequestTimeout pc,
       pq_Topics := [\<lparr>pqt_Name = topic, pqt_Partitions = [\<lparr>pqp_ID = part, pqp_Messages = messages\<rparr>]\<rparr>]\<rparr>"

text \<open>The entries for the partition; the last of them decides, for every one overwrites \<open>offset\<close> and \<open>err\<close>.\<close>

definition produced_entries :: "gostring \<Rightarrow> int32 \<Rightarrow> ProduceResp \<Rightarrow> ProduceRespPartition list" where
  "produced_entries topic part resp =
     filter (\<lambda>p. prp_ID p = part)
       (concat (map prt_Partitions (filter (\<lambda>t. prt_Name t = topic) (pr_Topics resp))))"

definition produced_offset :: "gostring \<Rightarrow> int32 \<Rightarrow> ProduceResp \<Rightarrow> int64 res" where
  "produced_offset topic part resp =
     (case rev (produced_entries topic part resp) of
        [] \<Rightarrow> Err IncompleteProduceResponse
      | p # _ \<Rightarrow> (case prp_Err p of Some err \<Rightarrow> Err err | None \<Rightarrow> Ok (prp_Offset p)))"

text \<open>
  \<open>produce\<close> returns its offset together with an error of the partition, and \<open>Produce\<close> looks at the
  offset only when there is no error.  A nil connection and a nil response are dereferenced.
\<close>

definition produce ::
  "'e network \<Rightarrow> ProducerConf \<Rightarrow> gostring \<Rightarrow> int32 \<Rightarrow> Message list \<Rightarrow> Broker \<times> 'e \<Rightarrow> int64 res \<times> Broker \<times> 'e"
where
  "produce N pc topic part messages w =
     attempt (muLeaderConnection N topic part w) (\<lambda>r w.
       case r of
         Inl err \<Rightarrow> (Err err, w)
       | Inr None \<Rightarrow> (Panic, w)
       | Inr (Some c) \<Rightarrow>
           attempt (on_env (net_Produce N c (produce_req (fst w) pc topic part messages)) w) (\<lambda>r w.
             case r of
               Inl err \<Rightarrow>
                 attempt (if broken err then muCloseDeadConnection N c w else (Ok (), w)) (\<lambda>_ w. (Err err, w))
             | Inr resp \<Rightarrow>
                 if pc_RequiredAcks pc = RequiredAcksNone then (Ok 0, w)
                 else (case resp of
                         None \<Rightarrow> (Panic, w)
                       | Some resp \<Rightarrow> (produced_offset topic part resp, w))))"

text \<open>\<open>msg.Offset = int64(i) + offset\<close>\<close>

definition number_messages :: "int64 \<Rightarrow> Message list \<Rightarrow> Message list" where
  "number_messages off messages = map (\<lambda>(i, msg). msg\<lparr>Offset := of_nat i + off\<rparr>) (enumerate 0 messages)"

text \<open>
  The retry loop with \<open>n\<close> rounds left and the error \<open>err\<close> of the last one.  The result carries the
  messages, whose offsets the caller finds changed after a success; an error leaves them as they were.
\<close>

primrec produce_loop ::
  "'e network \<Rightarrow> ProducerConf \<Rightarrow> gostring \<Rightarrow> int32 \<Rightarrow> Message list \<Rightarrow> nat \<Rightarrow> goerror \<Rightarrow> Broker \<times> 'e \<Rightarrow>
   (int64 \<times> Message list) res \<times> Broker \<times> 'e"
where
  "produce_loop N pc topic part messages 0 err w =
     (case err of None \<Rightarrow> Ok (0, messages) | Some err \<Rightarrow> Err err, w)"
| "produce_loop N pc topic part messages (Suc n) err w =
     attempt (produce N pc topic part messages w) (\<lambda>r w.
       case r of
         Inr off \<Rightarrow> (Ok (off, number_messages off messages), w)
       | Inl err \<Rightarrow>
           attempt (if err = EOF \<or> err = EPIPE then (Ok (), w) else muRefreshMetadata N w) (\<lambda>_ w.
             produce_loop N pc topic part messages n (Some err) w))"

definition producer_Produce ::
  "'e network \<Rightarrow> ProducerConf \<Rightarrow> gostring \<Rightarrow> int32 \<Rightarrow> Message list \<Rightarrow> Broker \<times> 'e \<Rightarrow>
   (int64 \<times> Message list) res \<times> Broker \<times> 'e"
where
  "producer_Produce N pc topic part messages w =
     (if messages = [] then (Ok (0, []), w)
      else produce_loop N pc topic part messages (nat (pc_RetryLimit pc)) None w)"

section \<open>What a success means\<close>

lemma number_messages_nth:
  "i < length ms \<Longrightarrow> number_messages off ms ! i = (ms ! i)\<lparr>Offset := of_nat i + off\<rparr>"
  by (simp add: number_messages_def nth_enumerate_eq)

lemma length_number_messages [simp]: "length (number_messages off ms) = length ms"
  by (simp add: number_messages_def)

text \<open>An offset \<open>produce\<close> reads is the one of an entry for the partition that has no error.\<close>

lemma produced_offset_answer:
  assumes "produced_offset topic part resp = Ok off"
  shows "\<exists>t \<in> set (pr_Topics resp). prt_Name t = topic \<and>
    (\<exists>p \<in> set (prt_Partitions t). prp_ID p = part \<and> prp_Err p = None \<and> prp_Offset p = off)"
proof -
  obtain p ps where "rev (produced_entries topic part resp) = p # ps"
    and p: "prp_Err p = None" "prp_Offset p = off"
    using assms by (auto simp: produced_offset_def split: list.splits option.splits)
  then have "p \<in> set (produced_entries topic part resp)" by (metis list.set_intros(1) set_rev)
  with p show ?thesis by (auto simp: produced_entries_def)
qed

text \<open>
  The attempt succeeded: the response came over the connection to the leader, for a request with
  exactly these messages, and its last entry for the partition has this offset and no error.
\<close>

definition acknowledged ::
  "'e network \<Rightarrow> ProducerConf \<Rightarrow> gostring \<Rightarrow> int32 \<Rightarrow> Message list \<Rightarrow> int64 \<Rightarrow> Broker \<times> 'e \<Rightarrow> bool"
where
  "acknowledged N pc topic part ms off w \<longleftrightarrow>
     (\<exists>c e resp. leads (fst w) (topic, part) c \<and>
        net_Produce N c (produce_req (fst w) pc topic part ms) e = (Ok (Some resp), snd w) \<and>
        produced_offset topic part resp = Ok off)"

lemma produce_Ok:
  assumes "produce N pc topic part ms w = (Ok off, w')" "pc_RequiredAcks pc \<noteq> RequiredAcksNone"
  shows "acknowledged N pc topic part ms off w'"
  using assms unfolding produce_def acknowledged_def
  by (fastforce elim!: attempt_result split: option.splits if_splits simp: on_env_eq
      dest: muLeaderConnection_Ok)

lemma produce_loop_Ok:
  assumes "produce_loop N pc topic part ms n err w = (Ok (off, ms'), w')"
    "n \<noteq> 0 \<or> err \<noteq> None" "pc_RequiredAcks pc \<noteq> RequiredAcksNone"
  shows "ms' = number_messages off ms \<and> acknowledged N pc topic part ms off w'"
  using assms
proof (induction n arbitrary: err w)
  case (Suc n)
  from Suc.prems(1) show ?case
    unfolding produce_loop.simps
    by (rule attempt_result)
      (use Suc.IH Suc.prems(3) in \<open>auto elim!: attempt_result intro: produce_Ok\<close>)
qed (auto split: option.splits)

section \<open>What the producer keeps\<close>

context broker_inv
begin

lemma produce_I: "I w \<Longrightarrow> I (snd (produce N pc topic part ms w))"
  unfolding produce_def
  by (auto intro!: attempt_keeps[where P = I] muLeaderConnection_I on_env_I Produce_I muCloseDeadConnection_I
      split: sum.split option.split)

lemma produce_loop_I: "I w \<Longrightarrow> I (snd (produce_loop N pc topic part ms n err w))"
proof (induction n arbitrary: err w)
  case (Suc n)
  show ?case
    unfolding produce_loop.simps
    by (rule attempt_keeps[where P = I])
      (use Suc in \<open>auto intro!: attempt_keeps[where P = I] produce_I refreshMetadata_I
         simp: muRefreshMetadata_def split: sum.split\<close>)
qed simp

lemma producer_Produce_I: "I w \<Longrightarrow> I (snd (producer_Produce N pc topic part ms w))"
  by (simp add: producer_Produce_def produce_loop_I)

end

end
