(* ===== verification/Consumer.thy ===== *)
theory Consumer
  imports Broker
begin

text \<open>
  The consumer of \<open>v2/broker.go\<close>: \<open>ConsumerConf\<close>, the state of a consumer, opening it at a start
  offset, \<open>extractMessages\<close>, the retry loop of \<open>fetch\<close>, \<open>consume\<close>, \<open>Consume\<close> and \<open>ConsumeBatch\<close>.
\<close>

section \<open>State\<close>

record ConsumerConf =
  cc_Topic :: gostring
  cc_Partition :: int32
  cc_RequestTimeout :: int64
  cc_RetryLimit :: int
  cc_RetryWait :: int64
  cc_RetryErrLimit :: int
  cc_RetryErrWait :: int64
  cc_MinFetchSize :: int32
  cc_MaxFetchSize :: int32
  cc_StartOffset :: int64

definition StartOffsetNewest :: int64 where
  "StartOffsetNewest = - 1"

definition StartOffsetOldest :: int64 where
  "StartOffsetOldest = - 2"

definition NewConsumerConf :: "gostring \<Rightarrow> int32 \<Rightarrow> ConsumerConf" where
  "NewConsumerConf topic part = \<lparr>cc_Topic = topic, cc_Partition = part,
     cc_RequestTimeout = of_int (50 * Millisecond), cc_RetryLimit = - 1,
     cc_RetryWait = of_int (50 * Millisecond), cc_RetryErrLimit = 10,
     cc_RetryErrWait = of_int (500 * Millisecond), cc_MinFetchSize = 1,
     cc_MaxFetchSize = 4 * 1024 * 1024, cc_StartOffset = StartOffsetOldest\<rparr>"

record consumer =
  c_conf :: ConsumerConf
  c_offset :: int64
  c_conn :: "nat option"
  c_msgbuf :: "Message list"

section \<open>Opening\<close>

definition start_offset :: "'e network \<Rightarrow> ConsumerConf \<Rightarrow> Broker \<times> 'e \<Rightarrow> int64 res \<times> Broker \<times> 'e" where
  "start_offset N cf w =
     (let off = cc_StartOffset cf
      in if off <s 0 then
           if off = StartOffsetNewest then OffsetLatest N (cc_Topic cf) (cc_Partition cf) w
           else if off = StartOffsetOldest then OffsetEarliest N (cc_Topic cf) (cc_Partition cf) w
           else (Err (InvalidStartOffset off), w)
         else (Ok off, w))"

text \<open>\<open>Consumer\<close> and \<open>BatchConsumer\<close> return the result of \<open>consumer\<close>.\<close>

definition Broker_consumer :: "'e network \<Rightarrow> ConsumerConf \<Rightarrow> Broker \<times> 'e \<Rightarrow> consumer res \<times> Broker \<times> 'e" where
  "Broker_consumer N cf w =
     attempt (muLeaderConnection N (cc_Topic cf) (cc_Partition cf) w) (\<lambda>r w.
       case r of
         Inl err \<Rightarrow> (Err err, w)
       | Inr c \<Rightarrow>
           attempt (start_offset N cf w) (\<lambda>r w.
             case r of
               Inl err \<Rightarrow> (Err err, w)
             | Inr off \<Rightarrow> (Ok \<lparr>c_conf = cf, c_offset = off, c_conn = c, c_msgbuf = []\<rparr>, w)))"

text \<open>The two interfaces of a consumer are one type.\<close>

definition Broker_Consumer :: "'e network \<Rightarrow> ConsumerConf \<Rightarrow> Broker \<times> 'e \<Rightarrow> consumer res \<times> Broker \<times> 'e" where
  "Broker_Consumer N cf w = Broker_consumer N cf w"

definition Broker_BatchConsumer :: "'e network \<Rightarrow> ConsumerConf \<Rightarrow> Broker \<times> 'e \<Rightarrow> consumer res \<times> Broker \<times> 'e" where
  "Broker_BatchConsumer N cf w = Broker_consumer N cf w"

section \<open>Reading a response\<close>

definition retriable :: "goerror \<Rightarrow> bool" where
  "retriable err \<longleftrightarrow> err \<in> {Some (KafkaErr ErrLeaderNotAvailable), Some (KafkaErr ErrNotLeaderForPartition),
     Some (KafkaErr ErrBrokerNotAvailable), Some (KafkaErr ErrUnknownTopicOrPartition)}"

definition record_message :: "gostring \<Rightarrow> FetchRespPartition \<Rightarrow> RecordBatch \<Rightarrow> Record \<Rightarrow> Message" where
  "record_message name part rb r =
     zero_Message\<lparr>Key := rec_Key r, Value := rec_Value r, Offset := rb_FirstOffset rb + rec_OffsetDelta r,
       Topic := name, Partition := frp_ID part, TipOffset := frp_TipOffset part\<rparr>"

definition part_messages :: "gostring \<Rightarrow> FetchRespPartition \<Rightarrow> Message list" where
  "part_messages name part =
     (if frp_MessageVersion part <s 2 then frp_Messages part
      else concat (map (\<lambda>rb. map (record_message name part rb) (rb_Records rb)) (frp_RecordBatches part)))"

text \<open>\<open>extractMessages\<close> returns the messages, whether to retry, and an error.\<close>

definition extractMessages :: "FetchResp \<Rightarrow> ConsumerConf \<Rightarrow> Message list \<times> bool \<times> goerror" where
  "extractMessages resp cf =
     (case concat (map (\<lambda>t. map (Pair (frt_Name t)) (filter (\<lambda>p. frp_ID p = cc_Partition cf) (frt_Partitions t)))
             (filter (\<lambda>t. frt_Name t = cc_Topic cf) (fr_Topics resp))) of
        [] \<Rightarrow> ([], False, Some IncompleteFetchResponse)
      | (name, part) # _ \<Rightarrow>
          if retriable (frp_Err part) then ([], True, frp_Err part)
          else (part_messages name part, False, frp_Err part))"

section \<open>Fetching\<close>

definition fetch_req :: "Broker \<Rightarrow> consumer \<Rightarrow> FetchReq" where
  "fetch_req b c =
     zero_FetchReq\<lparr>ClientID := bc_ClientID (conf b), fq_MaxWaitTime := cc_RequestTimeout (c_conf c),
       fq_MinBytes := cc_MinFetchSize (c_conf c), fq_MaxBytes := cc_MaxFetchSize (c_conf c),
       fq_Topics := [\<lparr>fqt_Name = cc_Topic (c_conf c), fqt_Partitions =
         [zero_FetchReqPartition\<lparr>fqp_ID := cc_Partition (c_conf c), fqp_FetchOffset := c_offset c,
            fqp_MaxBytes := cc_MaxFetchSize (c_conf c)\<rparr>]\<rparr>]\<rparr>"

text \<open>The connection a round uses: the one from before, or a new one to the leader.\<close>

definition fetch_conn ::
  "'e network \<Rightarrow> ConsumerConf \<Rightarrow> nat option \<Rightarrow> Broker \<times> 'e \<Rightarrow> nat option res \<times> Broker \<times> 'e"
where
  "fetch_conn N cf c w =
     (case c of
        Some c \<Rightarrow> (Ok (Some c), w)
      | None \<Rightarrow> muLeaderConnection N (cc_Topic cf) (cc_Partition cf) w)"

text \<open>
  A round of the loop of \<open>fetch\<close>, \<open>q\<close> the request it built and \<open>cn\<close> the field \<open>c.conn\<close>: it goes on
  (\<open>Inl\<close>, with \<open>resErr\<close> and \<open>c.conn\<close>) or returns messages and an error (\<open>Inr\<close>, with \<open>c.conn\<close>).
  A response with an error worth a retry leaves \<open>resErr\<close> nil.
\<close>

definition fetch_round ::
  "'e network \<Rightarrow> ConsumerConf \<Rightarrow> FetchReq \<Rightarrow> nat option \<Rightarrow> Broker \<times> 'e \<Rightarrow>
   ((goerror \<times> nat option) + ((Message list \<times> goerror) \<times> nat option)) res \<times> Broker \<times> 'e"
where
  "fetch_round N cf q cn w =
     attempt (fetch_conn N cf cn w) (\<lambda>r w.
       case r of
         Inl err \<Rightarrow> (Ok (Inl (Some err, cn)), w)
       | Inr None \<Rightarrow> (Panic, w)
       | Inr (Some c) \<Rightarrow>
           attempt (on_env (net_Fetch N c q) w) (\<lambda>r w.
             case r of
               Inl err \<Rightarrow> attempt (muCloseDeadConnection N c w) (\<lambda>_ w. (Ok (Inl (Some err, None)), w))
             | Inr resp \<Rightarrow>
                 (let (messages, shouldRetry, err) = extractMessages resp cf
                  in if shouldRetry then
                       attempt (muRefreshMetadata N w) (\<lambda>_ w. (Ok (Inl (None, None)), w))
                     else (Ok (Inr ((messages, err), Some c)), w))))"

primrec fetch_attempts ::
  "'e network \<Rightarrow> ConsumerConf \<Rightarrow> FetchReq \<Rightarrow> nat \<Rightarrow> goerror \<Rightarrow> nat option \<Rightarrow> Broker \<times> 'e \<Rightarrow>
   ((Message list \<times> goerror) \<times> nat option) res \<times> Broker \<times> 'e"
where
  "fetch_attempts N cf q 0 resErr cn w = (Ok (([], resErr), cn), w)"
| "fetch_attempts N cf q (Suc n) resErr cn w =
     attempt (fetch_round N cf q cn w) (\<lambda>r w.
       case r of
         Inl err \<Rightarrow> (Err err, w)
       | Inr (Inl (resErr, cn)) \<Rightarrow> fetch_attempts N cf q n resErr cn w
       | Inr (Inr x) \<Rightarrow> (Ok x, w))"

definition consumer_fetch ::
  "'e network \<Rightarrow> consumer \<Rightarrow> Broker \<times> 'e \<Rightarrow> (Message list \<times> goerror) res \<times> consumer \<times> Broker \<times> 'e"
where
  "consumer_fetch N c w =
     (let (r, w) = fetch_attempts N (c_conf c) (fetch_req (fst w) c) (nat (cc_RetryErrLimit (c_conf c)))
                     None (c_conn c) w
      in case r of
           Ok (x, cn) \<Rightarrow> (Ok x, c\<lparr>c_conn := cn\<rparr>, w)
         | Err err \<Rightarrow> (Err err, c, w)
         | Panic \<Rightarrow> (Panic, c, w)
         | NoFuel \<Rightarrow> (NoFuel, c, w))"

text \<open>
  \<open>consume\<close> fetches until there is a message; with \<open>RetryLimit\<close> \<open>-1\<close> nothing bounds the number of
  rounds, so the loop has fuel.  \<open>retry\<close> counts the fetches without a message.
\<close>

primrec consume_loop ::
  "'e network \<Rightarrow> nat \<Rightarrow> int \<Rightarrow> consumer \<Rightarrow> Broker \<times> 'e \<Rightarrow> Message list res \<times> consumer \<times> Broker \<times> 'e"
where
  "consume_loop N 0 retry c w = (NoFuel, c, w)"
| "consume_loop N (Suc fuel) retry c w =
     (case consumer_fetch N c w of
        (Ok (msgbuf, None), c, w) \<Rightarrow>
          if msgbuf = [] then
            if cc_RetryLimit (c_conf c) \<noteq> - 1 \<and> cc_RetryLimit (c_conf c) < retry + 1 then (Err ErrNoData, c, w)
            else consume_loop N fuel (retry + 1) c w
          else (Ok msgbuf, c, w)
      | (Ok (_, Some err), c, w) \<Rightarrow> (Err err, c, w)
      | (Err err, c, w) \<Rightarrow> (Err err, c, w)
      | (Panic, c, w) \<Rightarrow> (Panic, c, w)
      | (NoFuel, c, w) \<Rightarrow> (NoFuel, c, w))"

definition consume ::
  "'e network \<Rightarrow> nat \<Rightarrow> consumer \<Rightarrow> Broker \<times> 'e \<Rightarrow> Message list res \<times> consumer \<times> Broker \<times> 'e"
where
  "consume N fuel c w = consume_loop N fuel 0 c w"

definition take_message :: "Message list \<Rightarrow> consumer \<Rightarrow> Message res \<times> consumer" where
  "take_message buf c =
     (case buf of
        [] \<Rightarrow> (Panic, c)
      | msg # rest \<Rightarrow> (Ok msg, c\<lparr>c_msgbuf := rest, c_offset := Offset msg + 1\<rparr>))"

definition Consume ::
  "'e network \<Rightarrow> nat \<Rightarrow> consumer \<Rightarrow> Broker \<times> 'e \<Rightarrow> Message res \<times> consumer \<times> Broker \<times> 'e"
where
  "Consume N fuel c w =
     (if c_msgbuf c = [] then
        (case consume N fuel c w of
           (Ok buf, c, w) \<Rightarrow> (let (r, c) = take_message buf c in (r, c, w))
         | (Err err, c, w) \<Rightarrow> (Err err, c\<lparr>c_msgbuf := []\<rparr>, w)
         | (Panic, c, w) \<Rightarrow> (Panic, c, w)
         | (NoFuel, c, w) \<Rightarrow> (NoFuel, c, w))
      else let (r, c) = take_message (c_msgbuf c) c in (r, c, w))"

definition ConsumeBatch ::
  "'e network \<Rightarrow> nat \<Rightarrow> consumer \<Rightarrow> Broker \<times> 'e \<Rightarrow> Message list res \<times> consumer \<times> Broker \<times> 'e"
where
  "ConsumeBatch N fuel c w =
     (case consume N fuel c w of
        (Ok batch, c, w) \<Rightarrow>
          if batch = [] then (Panic, c, w)
          else (Ok batch, c\<lparr>c_offset := Offset (last batch) + 1\<rparr>, w)
      | r \<Rightarrow> r)"

section \<open>Where messages come from\<close>

lemma consumer_fetch_conf: "consumer_fetch N c w = (r, c', w') \<Longrightarrow> \<exists>cn. c' = c\<lparr>c_conn := cn\<rparr>"
  by (auto simp: consumer_fetch_def Let_def split: prod.splits outcome.splits intro: exI[of _ "c_conn c"])

text \<open>Messages that are the content of one response to the request, sent in a state with \<open>I\<close>.\<close>

definition fetched ::
  "'e network \<Rightarrow> (Broker \<times> 'e \<Rightarrow> bool) \<Rightarrow> ConsumerConf \<Rightarrow> FetchReq \<Rightarrow> Message list \<Rightarrow> 'e \<Rightarrow> bool"
where
  "fetched N I cf q ms e' \<longleftrightarrow> (\<exists>c b e resp. I (b, e) \<and> net_Fetch N c q e = (Ok resp, e') \<and>
     extractMessages resp cf = (ms, False, None))"

lemma fetchedI:
  "I (b, e) \<Longrightarrow> net_Fetch N c q e = (Ok resp, e') \<Longrightarrow> extractMessages resp cf = (ms, False, None) \<Longrightarrow>
   fetched N I cf q ms e'"
  by (auto simp: fetched_def)

text \<open>With a retry limit, \<open>consume\<close> makes at most one fetch more than the limit: more fuel changes nothing.\<close>

lemma consume_loop_fuel:
  assumes "cc_RetryLimit (c_conf c) \<noteq> - 1"
    and "nat (cc_RetryLimit (c_conf c) - retry) < f" "nat (cc_RetryLimit (c_conf c) - retry) < g"
  shows "consume_loop N f retry c w = consume_loop N g retry c w"
  using assms
proof (induction f arbitrary: g retry c w)
  case (Suc f)
  from Suc.prems obtain g' where g: "g = Suc g'" by (cases g) auto
  obtain r c1 w1 where fetch: "consumer_fetch N c w = (r, c1, w1)" using prod_cases3 by blast
  from consumer_fetch_conf[OF fetch] have conf: "c_conf c1 = c_conf c" by auto
  then have "consume_loop N f (retry + 1) c1 w1 = consume_loop N g' (retry + 1) c1 w1"
    if "\<not> cc_RetryLimit (c_conf c) < retry + 1"
    by (rule_tac Suc.IH) (use Suc.prems g that in auto)
  then show ?case using Suc.prems(1)
    by (auto simp: g fetch conf split: outcome.split option.split)
qed simp

lemma consume_fuel:
  "cc_RetryLimit (c_conf c) \<noteq> - 1 \<Longrightarrow> nat (cc_RetryLimit (c_conf c)) < f \<Longrightarrow>
   consume N f c w = consume N (Suc (nat (cc_RetryLimit (c_conf c)))) c w"
  unfolding consume_def by (rule consume_loop_fuel) simp_all

section \<open>How long the consumer polls\<close>

text \<open>The state behind \<open>k\<close> fetches, when each of them returned neither a message nor an error.\<close>

primrec empty_fetches :: "'e network \<Rightarrow> nat \<Rightarrow> consumer \<Rightarrow> Broker \<times> 'e \<Rightarrow> (consumer \<times> Broker \<times> 'e) option" where
  "empty_fetches N 0 c w = Some (c, w)"
| "empty_fetches N (Suc k) c w =
     (case consumer_fetch N c w of
        (Ok (msgbuf, None), c, w) \<Rightarrow> if msgbuf = [] then empty_fetches N k c w else None
      | _ \<Rightarrow> None)"

lemma empty_fetches_Suc:
  "empty_fetches N (Suc k) c w = Some x \<longleftrightarrow>
     (\<exists>c1 w1. consumer_fetch N c w = (Ok ([], None), c1, w1) \<and> empty_fetches N k c1 w1 = Some x)"
  by (auto split: prod.split outcome.split option.split)

lemma empty_fetches_conf: "empty_fetches N k c w = Some (c1, w1) \<Longrightarrow> \<exists>cn. c1 = c\<lparr>c_conn := cn\<rparr>"
proof (induction k arbitrary: c w)
  case 0
  then show ?case by (auto intro: exI[of _ "c_conn c"])
next
  case (Suc k)
  then obtain c2 w2 where "consumer_fetch N c w = (Ok ([], None), c2, w2)" "empty_fetches N k c2 w2 = Some (c1, w1)"
    by (auto simp only: empty_fetches_Suc)
  with Suc.IH[OF this(2)] consumer_fetch_conf[OF this(1)] show ?case by auto
qed

text \<open>As long as the limit allows it, the loop goes on behind fetches that found nothing.\<close>

lemma consume_loop_polls:
  assumes "empty_fetches N k c w = Some (c1, w1)"
    and "cc_RetryLimit (c_conf c) = - 1 \<or> k = 0 \<or> retry + int k \<le> cc_RetryLimit (c_conf c)"
  shows "consume_loop N (k + f) retry c w = consume_loop N f (retry + int k) c1 w1"
  using assms
proof (induction k arbitrary: retry c w)
  case (Suc k)
  then obtain c2 w2 where fetch: "consumer_fetch N c w = (Ok ([], None), c2, w2)" "empty_fetches N k c2 w2 = Some (c1, w1)"
    by (auto simp only: empty_fetches_Suc)
  from consumer_fetch_conf[OF fetch(1)] have conf: "c_conf c2 = c_conf c" by auto
  with Suc.IH[OF fetch(2), of "retry + 1"] Suc.prems(2) show ?case
    by (auto simp: fetch(1) conf algebra_simps)
qed simp

lemma some_fetch:
  "\<exists>k c1 w1. k \<le> n \<and> empty_fetches N k c w = Some (c1, w1) \<and>
     (k = n \<or> fst (consumer_fetch N c1 w1) \<noteq> Ok ([], None))"
proof (induction n arbitrary: c w)
  case (Suc n)
  show ?case
  proof (cases "fst (consumer_fetch N c w) = Ok ([], None)")
    case True
    then obtain c2 w2 where fetch: "consumer_fetch N c w = (Ok ([], None), c2, w2)" by (metis prod.collapse)
    from Suc.IH[of c2 w2] obtain k c1 w1 where "k \<le> n" "empty_fetches N k c2 w2 = Some (c1, w1)"
      "k = n \<or> fst (consumer_fetch N c1 w1) \<noteq> Ok ([], None)" by blast
    with fetch show ?thesis by (intro exI[of _ "Suc k"] exI[of _ c1] exI[of _ w1]) simp
  next
    case False
    then show ?thesis by (intro exI[of _ 0] exI[of _ c] exI[of _ w]) simp
  qed
qed simp

text \<open>What \<open>Consume\<close>, with an empty buffer, makes of the last of its fetches.\<close>

definition polled ::
  "(Message list \<times> goerror) res \<times> consumer \<times> Broker \<times> 'e \<Rightarrow> Message res \<times> consumer \<times> Broker \<times> 'e"
where
  "polled x =
     (case x of
        (Ok (m # ms, None), c, w) \<Rightarrow> (Ok m, c\<lparr>c_msgbuf := ms, c_offset := Offset m + 1\<rparr>, w)
      | (Ok ([], None), c, w) \<Rightarrow> (Err ErrNoData, c, w)
      | (Ok (ms, Some err), c, w) \<Rightarrow> (Err err, c, w)
      | (Err err, c, w) \<Rightarrow> (Err err, c, w)
      | (Panic, c, w) \<Rightarrow> (Panic, c, w)
      | (NoFuel, c, w) \<Rightarrow> (NoFuel, c, w))"

lemma Consume_polled:
  assumes "empty_fetches N k c w = Some (c1, w1)" "c_msgbuf c = []" "k < fuel"
    and "cc_RetryLimit (c_conf c) = - 1 \<or> k \<le> nat (cc_RetryLimit (c_conf c))"
    and "fst (consumer_fetch N c1 w1) = Ok ([], None) \<Longrightarrow>
      k = nat (cc_RetryLimit (c_conf c)) \<and> cc_RetryLimit (c_conf c) \<noteq> - 1"
  shows "Consume N fuel c w = polled (consumer_fetch N c1 w1)"
proof -
  obtain f where fuel: "fuel = k + Suc f" using assms(3) less_imp_Suc_add by fastforce
  have "consume N fuel c w = consume_loop N (Suc f) (int k) c1 w1"
    unfolding consume_def fuel using assms(4) consume_loop_polls[OF assms(1), of 0 "Suc f"] by fastforce
  moreover obtain r c2 w2 where fetch: "consumer_fetch N c1 w1 = (r, c2, w2)" by (metis prod_cases3)
  moreover have same: "c_conf c1 = c_conf c" "c_conf c2 = c_conf c" "c_msgbuf c2 = []"
    using empty_fetches_conf[OF assms(1)] consumer_fetch_conf[OF fetch] assms(2) by auto
  moreover have "c2\<lparr>c_msgbuf := []\<rparr> = c2" using same(3) by (cases c2) simp
  ultimately show ?thesis
    using assms(2,5) by (auto simp: Consume_def polled_def take_message_def Let_def
        split: outcome.split option.split list.split if_splits)
qed

text \<open>Without a limit, \<open>Consume\<close> returns exactly when one of its fetches finds something or fails.\<close>

lemma polled_returns: "fst x \<noteq> NoFuel \<longleftrightarrow> fst (polled x) \<noteq> NoFuel"
  by (cases x rule: prod_cases3) (auto simp: polled_def split: outcome.split list.split option.split)

lemma Consume_unlimited:
  assumes "c_msgbuf c = []" "cc_RetryLimit (c_conf c) = - 1"
  shows "(\<exists>fuel. fst (Consume N fuel c w) \<noteq> NoFuel) \<longleftrightarrow>
    (\<exists>k c1 w1. empty_fetches N k c w = Some (c1, w1) \<and> fst (consumer_fetch N c1 w1) \<notin> {Ok ([], None), NoFuel})"
proof
  assume "\<exists>fuel. fst (Consume N fuel c w) \<noteq> NoFuel"
  then obtain fuel where returns: "fst (Consume N fuel c w) \<noteq> NoFuel" by blast
  obtain k c1 w1 where k: "k \<le> fuel" "empty_fetches N k c w = Some (c1, w1)"
    "k = fuel \<or> fst (consumer_fetch N c1 w1) \<noteq> Ok ([], None)"
    using some_fetch by metis
  have "k \<noteq> fuel"
  proof
    assume "k = fuel"
    with consume_loop_polls[OF k(2), of 0 0] assms(2) have "consume N fuel c w = (NoFuel, c1, w1)"
      by (simp add: consume_def)
    with returns assms(1) show False by (simp add: Consume_def)
  qed
  with k Consume_polled[OF k(2) assms(1), of fuel] assms(2) returns polled_returns[of "consumer_fetch N c1 w1"]
  have "fst (consumer_fetch N c1 w1) \<notin> {Ok ([], None), NoFuel}" by auto
  with k(2) show "\<exists>k c1 w1. empty_fetches N k c w = Some (c1, w1) \<and>
    fst (consumer_fetch N c1 w1) \<notin> {Ok ([], None), NoFuel}" by blast
next
  assume "\<exists>k c1 w1. empty_fetches N k c w = Some (c1, w1) \<and> fst (consumer_fetch N c1 w1) \<notin> {Ok ([], None), NoFuel}"
  then obtain k c1 w1 where k: "empty_fetches N k c w = Some (c1, w1)"
    "fst (consumer_fetch N c1 w1) \<notin> {Ok ([], None), NoFuel}" by blast
  from Consume_polled[OF k(1) assms(1), of "Suc k"] assms(2) k(2) polled_returns[of "consumer_fetch N c1 w1"]
  show "\<exists>fuel. fst (Consume N fuel c w) \<noteq> NoFuel" by (intro exI[of _ "Suc k"]) simp
qed

lemma Consume_limited:
  assumes "c_msgbuf c = []" "cc_RetryLimit (c_conf c) \<noteq> - 1" "nat (cc_RetryLimit (c_conf c)) < fuel"
  shows "\<exists>k c1 w1. k \<le> nat (cc_RetryLimit (c_conf c)) \<and> empty_fetches N k c w = Some (c1, w1) \<and>
    Consume N fuel c w = polled (consumer_fetch N c1 w1) \<and>
    (fst (consumer_fetch N c1 w1) = Ok ([], None) \<longrightarrow> k = nat (cc_RetryLimit (c_conf c)))"
proof -
  obtain k c1 w1 where k: "k \<le> nat (cc_RetryLimit (c_conf c))" "empty_fetches N k c w = Some (c1, w1)"
    "k = nat (cc_RetryLimit (c_conf c)) \<or> fst (consumer_fetch N c1 w1) \<noteq> Ok ([], None)"
    using some_fetch by metis
  then have "Consume N fuel c w = polled (consumer_fetch N c1 w1)"
    using Consume_polled[OF k(2) assms(1), of fuel] assms(2,3) by auto
  with k show ?thesis by blast
qed

section \<open>What the consumer keeps\<close>

context broker_inv
begin

lemma fetch_conn_I: "I w \<Longrightarrow> I (snd (fetch_conn N cf cn w))"
  by (auto simp: fetch_conn_def intro: muLeaderConnection_I split: option.split)

lemma fetch_round_I: "I w \<Longrightarrow> I (snd (fetch_round N cf q cn w))"
  unfolding fetch_round_def
  by (auto intro!: attempt_keeps[where P = I] fetch_conn_I on_env_I Fetch_I muCloseDeadConnection_I
      refreshMetadata_I simp: muRefreshMetadata_def split: sum.split option.split prod.split)

lemma fetch_attempts_I: "I w \<Longrightarrow> I (snd (fetch_attempts N cf q n resErr cn w))"
proof (induction n arbitrary: resErr cn w)
  case (Suc n)
  show ?case
    unfolding fetch_attempts.simps
    by (rule attempt_keeps[where P = I])
      (use Suc in \<open>auto intro!: fetch_round_I split: sum.split prod.split\<close>)
qed simp

lemma fetch_round_source:
  assumes "fetch_round N cf q cn w = (Ok (Inr ((ms, None), cn')), w')" "I w"
  shows "fetched N I cf q ms (snd w')"
proof -
  have kept: "I v" if "fetch_conn N cf cn w = (x, v)" for x v
    using fetch_conn_I[OF assms(2), of cf cn] that by simp
  from assms(1) show ?thesis
    unfolding fetch_round_def
    apply (rule attempt_result)
     apply (auto elim!: attempt_result split: option.splits prod.splits if_splits
        simp: on_env_eq dest!: kept)
    apply (rule fetchedI, assumption+)
    done
qed

lemma fetch_attempts_source:
  assumes "fetch_attempts N cf q n resErr cn w = (Ok ((ms, None), cn'), w')" "ms \<noteq> []" "I w"
  shows "fetched N I cf q ms (snd w')"
  using assms
proof (induction n arbitrary: resErr cn w)
  case (Suc n)
  have kept: "I v" if "fetch_round N cf q cn w = (x, v)" for x v
    using fetch_round_I[OF Suc.prems(3), of cf q cn] that by simp
  from Suc.prems(1) show ?case
    unfolding fetch_attempts.simps
    by (rule attempt_result)
      (use kept Suc.IH Suc.prems(2,3) fetch_round_source[OF _ Suc.prems(3)] in
        \<open>auto split: sum.splits prod.splits dest!: fetch_round_source\<close>)
qed simp

lemma consumer_fetch_I: "I w \<Longrightarrow> I (snd (snd (consumer_fetch N c w)))"
  using fetch_attempts_I[of w "c_conf c" "fetch_req (fst w) c"]
  by (auto simp: consumer_fetch_def Let_def split: prod.split outcome.split) (metis snd_conv)+

lemma consume_loop_I: "I w \<Longrightarrow> I (snd (snd (consume_loop N fuel retry c w)))"
proof (induction fuel arbitrary: retry c w)
  case (Suc fuel)
  from Suc.prems consumer_fetch_I[of w c] Suc.IH show ?case
    by (auto split: prod.split outcome.split option.split)
qed simp

lemma consume_loop_source:
  assumes "consume_loop N fuel retry c w = (Ok ms, c', w')" "I w"
  shows "ms \<noteq> [] \<and> (\<exists>cn. c' = c\<lparr>c_conn := cn\<rparr>) \<and> (\<exists>b. fetched N I (c_conf c) (fetch_req b c) ms (snd w'))"
  using assms
proof (induction fuel arbitrary: retry c w)
  case (Suc fuel)
  obtain r c1 w1 where f: "consumer_fetch N c w = (r, c1, w1)" using prod_cases3 by blast
  from consumer_fetch_conf[OF f] obtain cn where c1: "c1 = c\<lparr>c_conn := cn\<rparr>" by blast
  have I1: "I w1" using consumer_fetch_I[OF Suc.prems(2), of c] f by simp
  have same: "fetch_req b c1 = fetch_req b c" "c_conf c1 = c_conf c" for b
    by (simp_all add: c1 fetch_req_def)
  from Suc.prems(1) f have "(\<exists>ms'. r = Ok (ms', None) \<and> ms' \<noteq> [] \<and> ms = ms' \<and> c' = c1 \<and> w' = w1) \<or>
      consume_loop N fuel (retry + 1) c1 w1 = (Ok ms, c', w')"
    by (auto split: outcome.splits prod.splits option.splits if_splits)
  then show ?case
  proof
    assume *: "\<exists>ms'. r = Ok (ms', None) \<and> ms' \<noteq> [] \<and> ms = ms' \<and> c' = c1 \<and> w' = w1"
    with f obtain cn' where "fetch_attempts N (c_conf c) (fetch_req (fst w) c) (nat (cc_RetryErrLimit (c_conf c)))
        None (c_conn c) w = (Ok ((ms, None), cn'), w')"
      by (auto simp: consumer_fetch_def Let_def split: prod.splits outcome.splits)
    from fetch_attempts_source[OF this _ Suc.prems(2)] * c1 show ?case by auto
  next
    assume "consume_loop N fuel (retry + 1) c1 w1 = (Ok ms, c', w')"
    from Suc.IH[OF this I1] same c1 show ?case by auto
  qed
qed simp

lemma Consume_I: "I w \<Longrightarrow> I (snd (snd (Consume N fuel c w)))"
  using consume_loop_I[of w fuel 0 c]
  by (auto simp: Consume_def consume_def Let_def split: prod.split outcome.split)

lemma ConsumeBatch_I: "I w \<Longrightarrow> I (snd (snd (ConsumeBatch N fuel c w)))"
  using consume_loop_I[of w fuel 0 c]
  by (auto simp: ConsumeBatch_def consume_def split: prod.split outcome.split)

end

section \<open>Reading a partition in order\<close>

text \<open>Messages with the offsets from \<open>off\<close> on, one after the other.\<close>

definition consecutive :: "int64 \<Rightarrow> Message list \<Rightarrow> bool" where
  "consecutive off ms \<longleftrightarrow> map Offset ms = map (\<lambda>i. off + of_nat i) [0..<length ms]"

lemma consecutive_Nil [simp]: "consecutive off []"
  by (simp add: consecutive_def)

lemma consecutive_Cons [simp]: "consecutive off (m # ms) \<longleftrightarrow> Offset m = off \<and> consecutive (off + 1) ms"
  by (simp add: consecutive_def map_upt_Suc add.assoc del: upt_Suc)

lemma consecutive_last:
  "consecutive off ms \<Longrightarrow> ms \<noteq> [] \<Longrightarrow> Offset (last ms) + 1 = off + of_nat (length ms)"
proof (induction ms arbitrary: off)
  case (Cons m ms)
  then show ?case
    using Cons.IH[of "off + 1"] by (cases "ms = []") (auto simp: algebra_simps)
qed simp

text \<open>
  What a consumer of a partition relies on: a response that carries messages carries those from the
  requested offset on.  The network may fail, and may answer any other request as it likes.
\<close>

locale partition_log = broker_inv N I
  for N :: "'e network" and I :: "Broker \<times> 'e \<Rightarrow> bool" +
  fixes topic :: gostring and part :: int32
  assumes fetch_from: "I (b, e) \<Longrightarrow> net_Fetch N cn (fetch_req b' c) e = (Ok resp, e') \<Longrightarrow>
      extractMessages resp (c_conf c) = (ms, False, None) \<Longrightarrow>
      cc_Topic (c_conf c) = topic \<Longrightarrow> cc_Partition (c_conf c) = part \<Longrightarrow> consecutive (c_offset c) ms"

text \<open>
  A program that calls \<open>Consume\<close> up to \<open>k\<close> times, going on after an error: the messages it gets.
\<close>

primrec consume_calls :: "'e network \<Rightarrow> nat \<Rightarrow> nat \<Rightarrow> consumer \<Rightarrow> Broker \<times> 'e \<Rightarrow> Message list" where
  "consume_calls N fuel 0 c w = []"
| "consume_calls N fuel (Suc k) c w =
     (case Consume N fuel c w of
        (Ok m, c, w) \<Rightarrow> m # consume_calls N fuel k c w
      | (Err err, c, w) \<Rightarrow> consume_calls N fuel k c w
      | _ \<Rightarrow> [])"

text \<open>The invariant of a consumer: the buffer holds the messages from \<open>offset\<close> on.\<close>

definition reads_on :: "gostring \<Rightarrow> int32 \<Rightarrow> consumer \<Rightarrow> bool" where
  "reads_on topic part c \<longleftrightarrow> cc_Topic (c_conf c) = topic \<and> cc_Partition (c_conf c) = part \<and>
     consecutive (c_offset c) (c_msgbuf c)"

context partition_log
begin

lemma consume_from:
  assumes "consume N fuel c w = (Ok ms, c', w')" "I w" "reads_on topic part c"
  shows "ms \<noteq> [] \<and> (\<exists>cn. c' = c\<lparr>c_conn := cn\<rparr>) \<and> consecutive (c_offset c) ms"
  using consume_loop_source[OF assms(1)[unfolded consume_def] assms(2)] assms(3) fetch_from
  by (fastforce simp: fetched_def reads_on_def)

lemma consume_keeps_conf:
  "consume_loop N fuel retry c w = (r, c', w') \<Longrightarrow> \<exists>cn. c' = c\<lparr>c_conn := cn\<rparr>"
proof (induction fuel arbitrary: retry c w)
  case 0
  then show ?case by (auto intro: exI[of _ "c_conn c"])
next
  case (Suc fuel)
  obtain r1 c1 w1 where f: "consumer_fetch N c w = (r1, c1, w1)" using prod_cases3 by blast
  from consumer_fetch_conf[OF f] obtain cn where "c1 = c\<lparr>c_conn := cn\<rparr>" by blast
  moreover from this have "\<exists>cn'. c' = c\<lparr>c_conn := cn'\<rparr>"
    if "consume_loop N fuel (retry + 1) c1 w1 = (r, c', w')"
    using Suc.IH[OF that] by auto
  ultimately show ?case
    using Suc.prems f by (auto split: outcome.splits option.splits prod.splits if_splits)
qed

text \<open>Every call returns the message at the offset, and moves the offset past it.\<close>

lemma Consume_next:
  assumes "Consume N fuel c w = (r, c', w')" "I w" "reads_on topic part c"
  shows "reads_on topic part c' \<and> I w' \<and>
    (case r of Ok m \<Rightarrow> Offset m = c_offset c \<and> c_offset c' = c_offset c + 1 | _ \<Rightarrow> c_offset c' = c_offset c)"
proof -
  have "I w'" using Consume_I[OF assms(2), of fuel c] assms(1) by simp
  moreover have "reads_on topic part c' \<and>
    (case r of Ok m \<Rightarrow> Offset m = c_offset c \<and> c_offset c' = c_offset c + 1 | _ \<Rightarrow> c_offset c' = c_offset c)"
  proof (cases "c_msgbuf c")
    case Nil
    obtain r1 c1 w1 where f: "consume N fuel c w = (r1, c1, w1)" using prod_cases3 by blast
    with consume_keeps_conf[of fuel 0 c w] obtain cn where c1: "c1 = c\<lparr>c_conn := cn\<rparr>"
      by (auto simp: consume_def)
    show ?thesis
    proof (cases r1)
      case (Ok buf)
      with consume_from[OF _ assms(2,3)] f obtain m ms where "buf = m # ms" "consecutive (c_offset c) (m # ms)"
        by (cases buf) blast+
      with f assms Nil c1 Ok show ?thesis by (auto simp: Consume_def take_message_def reads_on_def)
    qed (use f assms Nil c1 in \<open>auto simp: Consume_def reads_on_def\<close>)
  next
    case (Cons m ms)
    with assms show ?thesis by (auto simp: Consume_def take_message_def reads_on_def)
  qed
  ultimately show ?thesis by blast
qed

lemma ConsumeBatch_next:
  assumes "ConsumeBatch N fuel c w = (Ok ms, c', w')" "I w" "reads_on topic part c"
  shows "ms \<noteq> [] \<and> consecutive (c_offset c) ms \<and> c_offset c' = c_offset c + of_nat (length ms)"
proof -
  obtain r1 c1 w1 where f: "consume N fuel c w = (r1, c1, w1)" using prod_cases3 by blast
  with assms(1) have "r1 = Ok ms" by (auto simp: ConsumeBatch_def split: outcome.splits if_splits)
  with f consume_from[of fuel c w ms c1 w1] assms consecutive_last[of "c_offset c" ms] show ?thesis
    by (auto simp: ConsumeBatch_def)
qed

lemma consume_calls_in_order:
  "I w \<Longrightarrow> reads_on topic part c \<Longrightarrow> consecutive (c_offset c) (consume_calls N fuel k c w)"
proof (induction k arbitrary: c w)
  case (Suc k)
  obtain r c1 w1 where f: "Consume N fuel c w = (r, c1, w1)" using prod_cases3 by blast
  with Consume_next[OF f Suc.prems] Suc.IH[of w1 c1] show ?case by (cases r) auto
qed simp

end

section \<open>Opening a consumer\<close>

context broker_inv
begin

lemma Broker_consumer_I: "I w \<Longrightarrow> I (snd (Broker_consumer N cf w))"
  unfolding Broker_consumer_def start_offset_def Let_def OffsetLatest_def OffsetEarliest_def
  by (auto intro!: attempt_keeps[where P = I] muLeaderConnection_I Broker_offset_I split: sum.split)

end

lemma Broker_consumer_reads_on:
  assumes "Broker_consumer N cf w = (Ok c, w')"
  shows "reads_on (cc_Topic cf) (cc_Partition cf) c \<and> c_conf c = cf \<and>
    (0 \<le>s cc_StartOffset cf \<longrightarrow> c_offset c = cc_StartOffset cf)"
  using assms unfolding Broker_consumer_def
  by (auto elim!: attempt_result simp: reads_on_def start_offset_def Let_def word_sle_eq word_sless_alt
      split: if_splits)

section \<open>An error that is lost\<close>

text \<open>
  An error of the partition that is worth a retry is not kept: when the last attempt ends with one, \<open>fetch\<close> returns
  no messages and no error, and \<open>consume\<close> goes on without a bound by default.
\<close>

lemma retriable_error_lost:
  assumes "c_conn c = Some cn" "cc_RetryErrLimit (c_conf c) = 1"
    and "net_Fetch N cn (fetch_req (fst w) c) (snd w) = (Ok resp, e)"
    and "extractMessages resp (c_conf c) = (ms, True, err)"
    and "refreshMetadata N (fst w, e) = (Ok (), w')"
  shows "consumer_fetch N c w = (Ok ([], None), c\<lparr>c_conn := None\<rparr>, w')"
  using assms
  by (simp add: consumer_fetch_def fetch_round_def fetch_conn_def attempt_def on_env_def muRefreshMetadata_def)

end
