(* ===== verification/OffsetCoordinator.thy ===== *)
theory OffsetCoordinator
  imports Broker
begin

text \<open>
  The offset coordinator of \<open>v2/broker.go\<close>: \<open>OffsetCoordinatorConf\<close>, \<open>OffsetCoordinator\<close>,
  \<open>Commit\<close>, \<open>CommitFull\<close> and \<open>Offset\<close> with their retry loops.
\<close>

section \<open>Definitions\<close>

record OffsetCoordinatorConf =
  occ_ConsumerGroup :: gostring
  occ_RetryErrLimit :: int
  occ_RetryErrWait :: int64

definition NewOffsetCoordinatorConf :: "gostring \<Rightarrow> OffsetCoordinatorConf" where
  "NewOffsetCoordinatorConf consumerGroup = \<lparr>occ_ConsumerGroup = consumerGroup, occ_RetryErrLimit = 10,
     occ_RetryErrWait = of_int (500 * Millisecond)\<rparr>"

record offsetCoordinator =
  oc_conf :: OffsetCoordinatorConf
  oc_conn :: "nat option"

definition Broker_OffsetCoordinator ::
  "'e network \<Rightarrow> OffsetCoordinatorConf \<Rightarrow> Broker \<times> 'e \<Rightarrow> offsetCoordinator res \<times> Broker \<times> 'e"
where
  "Broker_OffsetCoordinator N cf w =
     attempt (muCoordinatorConnection N (occ_ConsumerGroup cf) w) (\<lambda>r w.
       case r of Inl err \<Rightarrow> (Err err, w) | Inr c \<Rightarrow> (Ok \<lparr>oc_conf = cf, oc_conn = c\<rparr>, w))"

text \<open>
  The connection a round of \<open>commit\<close> or \<open>Offset\<close> uses: the one from before, or a new one to the
  coordinator of the group.
\<close>

definition coordinator_conn ::
  "'e network \<Rightarrow> offsetCoordinator \<Rightarrow> Broker \<times> 'e \<Rightarrow> nat option res \<times> Broker \<times> 'e"
where
  "coordinator_conn N c w =
     (case oc_conn c of
        Some cn \<Rightarrow> (Ok (Some cn), w)
      | None \<Rightarrow> muCoordinatorConnection N (occ_ConsumerGroup (oc_conf c)) w)"

text \<open>
  Both loops release the lock of the coordinator while they wait, so another call may have
  replaced the connection: \<open>interleave\<close> is what other goroutines do to the coordinator and the
  broker meanwhile.
\<close>

type_synonym 'e oc_world = "offsetCoordinator \<times> Broker \<times> 'e"

definition commit_req :: "Broker \<Rightarrow> gostring \<Rightarrow> gostring \<Rightarrow> int32 \<Rightarrow> int64 \<Rightarrow> gotime \<Rightarrow> gostring \<Rightarrow> OffsetCommitReq" where
  "commit_req b grp topic part off now meta =
     zero_OffsetCommitReq\<lparr>ClientID := bc_ClientID (conf b), ocq_ConsumerGroup := grp,
       ocq_Topics := [\<lparr>ocqt_Name = topic, ocqt_Partitions =
         [\<lparr>ocqp_ID = part, ocqp_Offset = off, ocqp_TimeStamp = now, ocqp_Metadata = meta\<rparr>]\<rparr>]\<rparr>"

text \<open>The first entry of the response for the partition decides.\<close>

definition committed :: "gostring \<Rightarrow> int32 \<Rightarrow> OffsetCommitResp \<Rightarrow> goerror" where
  "committed topic part resp =
     (case find (\<lambda>p. ocrp_ID p = part)
             (concat (map ocrt_Partitions (filter (\<lambda>t. ocrt_Name t = topic) (ocr_Topics resp)))) of
        None \<Rightarrow> Some NoCommitInformation
      | Some p \<Rightarrow> ocrp_Err p)"

text \<open>\<open>now\<close> is the clock at the request; the returned error, nil for a success, is the value of the call.\<close>

primrec commit_loop ::
  "'e network \<Rightarrow> ('e oc_world \<Rightarrow> 'e oc_world) \<Rightarrow> ('e \<Rightarrow> gotime) \<Rightarrow> gostring \<Rightarrow> int32 \<Rightarrow> int64 \<Rightarrow> gostring \<Rightarrow>
   nat \<Rightarrow> bool \<Rightarrow> goerror \<Rightarrow> 'e oc_world \<Rightarrow> goerror res \<times> 'e oc_world"
where
  "commit_loop N interleave now topic part off meta 0 again resErr s = (Ok resErr, s)"
| "commit_loop N interleave now topic part off meta (Suc n) again resErr s =
     (let (c, w) = (if again then interleave s else s);
          rest = commit_loop N interleave now topic part off meta n True
      in case coordinator_conn N c w of
           (Err err, w) \<Rightarrow> rest (Some err) (c, w)
         | (Ok None, w) \<Rightarrow> (Panic, c\<lparr>oc_conn := None\<rparr>, w)
         | (Ok (Some cn), w) \<Rightarrow>
             (let c = c\<lparr>oc_conn := Some cn\<rparr>
              in case on_env (net_OffsetCommit N cn (commit_req (fst w) (occ_ConsumerGroup (oc_conf c))
                    topic part off (now (snd w)) meta)) w of
                   (Ok resp, w) \<Rightarrow> (Ok (committed topic part resp), c, w)
                 | (Err err, w) \<Rightarrow>
                     if broken err then
                       (case muCloseDeadConnection N cn w of
                          (Ok _, w) \<Rightarrow> rest (Some err) (c\<lparr>oc_conn := None\<rparr>, w)
                        | (Err _, w) \<Rightarrow> rest (Some err) (c\<lparr>oc_conn := None\<rparr>, w)
                        | (Panic, w) \<Rightarrow> (Panic, c, w)
                        | (NoFuel, w) \<Rightarrow> (NoFuel, c, w))
                     else rest (Some err) (c, w)
                 | (Panic, w) \<Rightarrow> (Panic, c, w)
                 | (NoFuel, w) \<Rightarrow> (NoFuel, c, w))
         | (Panic, w) \<Rightarrow> (Panic, c, w)
         | (NoFuel, w) \<Rightarrow> (NoFuel, c, w))"

definition commit ::
  "'e network \<Rightarrow> ('e oc_world \<Rightarrow> 'e oc_world) \<Rightarrow> ('e \<Rightarrow> gotime) \<Rightarrow> gostring \<Rightarrow> int32 \<Rightarrow> int64 \<Rightarrow> gostring \<Rightarrow>
   'e oc_world \<Rightarrow> goerror res \<times> 'e oc_world"
where
  "commit N interleave now topic part off meta s =
     commit_loop N interleave now topic part off meta (nat (occ_RetryErrLimit (oc_conf (fst s)))) False None s"

definition Commit ::
  "'e network \<Rightarrow> ('e oc_world \<Rightarrow> 'e oc_world) \<Rightarrow> ('e \<Rightarrow> gotime) \<Rightarrow> gostring \<Rightarrow> int32 \<Rightarrow> int64 \<Rightarrow>
   'e oc_world \<Rightarrow> goerror res \<times> 'e oc_world"
where
  "Commit N interleave now topic part off s = commit N interleave now topic part off [] s"

definition CommitFull ::
  "'e network \<Rightarrow> ('e oc_world \<Rightarrow> 'e oc_world) \<Rightarrow> ('e \<Rightarrow> gotime) \<Rightarrow> gostring \<Rightarrow> int32 \<Rightarrow> int64 \<Rightarrow> gostring \<Rightarrow>
   'e oc_world \<Rightarrow> goerror res \<times> 'e oc_world"
where
  "CommitFull N interleave now topic part off meta s = commit N interleave now topic part off meta s"

definition offset_fetch_req :: "gostring \<Rightarrow> gostring \<Rightarrow> int32 \<Rightarrow> OffsetFetchReq" where
  "offset_fetch_req grp topic part =
     zero_OffsetFetchReq\<lparr>ofq_ConsumerGroup := grp,
       ofq_Topics := [\<lparr>ofqt_Name = topic, ofqt_Partitions = [part]\<rparr>]\<rparr>"

definition offset_found :: "gostring \<Rightarrow> int32 \<Rightarrow> OffsetFetchResp \<Rightarrow> (int64 \<times> gostring) res" where
  "offset_found topic part resp =
     (case find (\<lambda>p. ofrp_ID p = part)
             (concat (map ofrt_Partitions (filter (\<lambda>t. ofrt_Name t = topic) (ofr_Topics resp)))) of
        None \<Rightarrow> Err NoOffsetInformation
      | Some p \<Rightarrow> (case ofrp_Err p of Some err \<Rightarrow> Err err | None \<Rightarrow> Ok (ofrp_Offset p, ofrp_Metadata p)))"

text \<open>
  \<open>Offset\<close> gives up a connection only on \<open>io.EOF\<close> and \<open>EPIPE\<close>, not on a \<open>net.OpError\<close>.  With no round
  left and no error the result is offset 0.
\<close>

primrec Offset_loop ::
  "'e network \<Rightarrow> ('e oc_world \<Rightarrow> 'e oc_world) \<Rightarrow> gostring \<Rightarrow> int32 \<Rightarrow> nat \<Rightarrow> bool \<Rightarrow> goerror \<Rightarrow> 'e oc_world \<Rightarrow>
   (int64 \<times> gostring) res \<times> 'e oc_world"
where
  "Offset_loop N interleave topic part 0 again resErr s =
     (case resErr of None \<Rightarrow> Ok (0, []) | Some err \<Rightarrow> Err err, s)"
| "Offset_loop N interleave topic part (Suc n) again resErr s =
     (let (c, w) = (if again then interleave s else s);
          rest = Offset_loop N interleave topic part n True
      in case coordinator_conn N c w of
           (Err err, w) \<Rightarrow> rest (Some err) (c, w)
         | (Ok None, w) \<Rightarrow> (Panic, c\<lparr>oc_conn := None\<rparr>, w)
         | (Ok (Some cn), w) \<Rightarrow>
             (let c = c\<lparr>oc_conn := Some cn\<rparr>
              in case on_env (net_OffsetFetch N cn
                    (offset_fetch_req (occ_ConsumerGroup (oc_conf c)) topic part)) w of
                   (Ok resp, w) \<Rightarrow> (offset_found topic part resp, c, w)
                 | (Err err, w) \<Rightarrow>
                     if err = EOF \<or> err = EPIPE then
                       (case muCloseDeadConnection N cn w of
                          (Ok _, w) \<Rightarrow> rest (Some err) (c\<lparr>oc_conn := None\<rparr>, w)
                        | (Err _, w) \<Rightarrow> rest (Some err) (c\<lparr>oc_conn := None\<rparr>, w)
                        | (Panic, w) \<Rightarrow> (Panic, c, w)
                        | (NoFuel, w) \<Rightarrow> (NoFuel, c, w))
                     else rest (Some err) (c, w)
                 | (Panic, w) \<Rightarrow> (Panic, c, w)
                 | (NoFuel, w) \<Rightarrow> (NoFuel, c, w))
         | (Panic, w) \<Rightarrow> (Panic, c, w)
         | (NoFuel, w) \<Rightarrow> (NoFuel, c, w))"

definition coordinator_Offset ::
  "'e network \<Rightarrow> ('e oc_world \<Rightarrow> 'e oc_world) \<Rightarrow> gostring \<Rightarrow> int32 \<Rightarrow> 'e oc_world \<Rightarrow>
   (int64 \<times> gostring) res \<times> 'e oc_world"
where
  "coordinator_Offset N interleave topic part s =
     Offset_loop N interleave topic part (nat (occ_RetryErrLimit (oc_conf (fst s)))) False None s"

section \<open>What a success means\<close>

text \<open>
  A response to a request that commits these values, without an error for the partition; \<open>e'\<close> is the
  state of the network after it.
\<close>

definition commit_accepted ::
  "'e network \<Rightarrow> gostring \<Rightarrow> gostring \<Rightarrow> int32 \<Rightarrow> int64 \<Rightarrow> gostring \<Rightarrow> 'e \<Rightarrow> bool"
where
  "commit_accepted N grp topic part off meta e' \<longleftrightarrow>
     (\<exists>cn b e t resp. net_OffsetCommit N cn (commit_req b grp topic part off t meta) e = (Ok resp, e') \<and>
        committed topic part resp = None)"

lemma commit_acceptedI:
  "net_OffsetCommit N cn (commit_req b grp topic part off t meta) e = (Ok resp, e') \<Longrightarrow>
   committed topic part resp = None \<Longrightarrow> commit_accepted N grp topic part off meta e'"
  unfolding commit_accepted_def by (intro exI conjI)

lemma commit_loop_nil:
  assumes "commit_loop N interleave now topic part off meta n again resErr s = (Ok None, s')"
    and "n \<noteq> 0 \<or> resErr \<noteq> None"
    and "oc_conf (fst s) = cf" "\<And>s. oc_conf (fst (interleave s)) = oc_conf (fst s)"
  shows "commit_accepted N (occ_ConsumerGroup cf) topic part off meta (snd (snd s'))"
  using assms(1-3)
proof (induction n arbitrary: again resErr s)
  case (Suc n)
  obtain c w where s: "(if again then interleave s else s) = (c, w)" by (meson surj_pair)
  then have cf: "oc_conf c = cf" using Suc.prems(3) assms(4)[of s] by (auto split: if_splits)
  have rest: "commit_accepted N (occ_ConsumerGroup cf) topic part off meta (snd (snd s'))"
    if "commit_loop N interleave now topic part off meta n True (Some err) (c', w') = (Ok None, s')"
      "oc_conf c' = cf" for err c' w'
    using Suc.IH[OF that(1)] that(2) by simp
  from Suc.prems(1) show ?case
    unfolding commit_loop.simps s Let_def prod.case
    by (auto split: prod.splits outcome.splits option.splits if_splits simp: cf on_env_eq
        intro: rest commit_acceptedI)
qed simp

section \<open>What a coordinator reads back\<close>

text \<open>
  A store of committed offsets behind the network: a commit that is accepted writes the entry, a
  fetch reads it, and no request a broker makes to find a coordinator touches the store.
\<close>

locale offset_store =
  fixes N :: "'e network" and stored :: "'e \<Rightarrow> gostring \<times> gostring \<times> int32 \<Rightarrow> int64 \<times> gostring"
  assumes commit_stores: "net_OffsetCommit N cn (commit_req b grp topic part off t meta) e = (Ok resp, e') \<Longrightarrow>
      committed topic part resp = None \<Longrightarrow> stored e' (grp, topic, part) = (off, meta)"
    and fetch_reads: "net_OffsetFetch N cn (offset_fetch_req grp topic part) e = (Ok fresp, e') \<Longrightarrow>
      offset_found topic part fresp = Ok x \<Longrightarrow> x = stored e (grp, topic, part)"
    and fetch_keeps: "stored (snd (net_OffsetFetch N cn q e)) = stored e"
    and dial_keeps: "stored (snd (net_dial N tls addr e)) = stored e"
    and Close_keeps: "stored (net_Close N cn e) = stored e"
    and Metadata_keeps: "stored (snd (net_Metadata N cn q0 e)) = stored e"
    and ConsumerMetadata_keeps: "stored (snd (net_ConsumerMetadata N cn q1 e)) = stored e"
    and perm_keeps: "stored (snd (net_perm N n e)) = stored e"
    and others_keep: "stored (snd (net_others N w)) = stored (snd w)"

sublocale offset_store \<subseteq> keeps: conn_inv N "\<lambda>w. stored (snd w) = st" for st
proof
  fix b :: Broker and e tls addr c e' nid
  assume "stored (snd (b, e)) = st" "net_dial N tls addr e = (Ok c, e')"
  then show "stored (snd (b\<lparr>conns := put nid c (conns b)\<rparr>, e')) = st"
    using dial_keeps[of tls addr e] by simp
qed (simp_all add: dial_keeps Close_keeps Metadata_keeps ConsumerMetadata_keeps perm_keeps others_keep)

context offset_store
begin

lemma coordinator_conn_keeps: "coordinator_conn N c w = (r, w') \<Longrightarrow> stored (snd w') = stored (snd w)"
  using keeps.muCoordinatorConnection_I[of w "stored (snd w)" "occ_ConsumerGroup (oc_conf c)"]
  by (auto simp: coordinator_conn_def split: option.splits)

lemma closeDead_keeps: "muCloseDeadConnection N cn w = (r, w') \<Longrightarrow> stored (snd w') = stored (snd w)"
  using keeps.muCloseDeadConnection_I[of w "stored (snd w)" cn] by simp

lemma Offset_loop_reads:
  assumes "Offset_loop N interleave topic part n again resErr s = (Ok x, s')"
    and "n \<noteq> 0 \<or> resErr \<noteq> None"
    and "oc_conf (fst s) = cf" "\<And>s. oc_conf (fst (interleave s)) = oc_conf (fst s)"
    and "\<And>s. stored (snd (snd (interleave s))) = stored (snd (snd s))"
  shows "x = stored (snd (snd s)) (occ_ConsumerGroup cf, topic, part)"
  using assms(1-3)
proof (induction n arbitrary: again resErr s)
  case (Suc n)
  obtain c w where s: "(if again then interleave s else s) = (c, w)" by (meson surj_pair)
  then have cf: "oc_conf c = cf" and w: "stored (snd w) = stored (snd (snd s))"
    using Suc.prems(3) assms(4,5)[of s] by (auto split: if_splits)
  have rest: "x = stored (snd (snd s)) (occ_ConsumerGroup cf, topic, part)"
    if "Offset_loop N interleave topic part n True (Some err) (c', w') = (Ok x, s')"
      "oc_conf c' = cf" "stored (snd w') = stored (snd (snd s))" for err c' w'
    using Suc.IH[OF that(1)] that(2,3) by simp
  have asked: "stored e' = stored e" if "net_OffsetFetch N cn q e = (Err r, e')" for cn q e r e'
    using fetch_keeps[of cn q e] that by simp
  have answered: "x = st (occ_ConsumerGroup cf, topic, part)"
    if "net_OffsetFetch N cn (offset_fetch_req (occ_ConsumerGroup cf) topic part) e = (Ok resp, e')"
      "offset_found topic part resp = Ok x" "stored e = st" for cn e resp e' st
    using fetch_reads[OF that(1,2)] that(3) by simp
  from Suc.prems(1) show ?case
    unfolding Offset_loop.simps s Let_def prod.case
    by (auto split: prod.splits outcome.splits option.splits if_splits simp: cf on_env_eq w
        dest!: coordinator_conn_keeps closeDead_keeps asked intro: rest answered)
qed (auto split: option.splits)

text \<open>What was committed last is what is read.\<close>

lemma commit_then_Offset:
  assumes "commit N interleave now topic part off meta s = (Ok None, s1)"
    and "coordinator_Offset N interleave topic part s2 = (Ok x, s3)"
    and "stored (snd (snd s2)) = stored (snd (snd s1))"
    and "occ_ConsumerGroup (oc_conf (fst s2)) = occ_ConsumerGroup (oc_conf (fst s))"
    and "0 < occ_RetryErrLimit (oc_conf (fst s))" "0 < occ_RetryErrLimit (oc_conf (fst s2))"
    and "\<And>s. oc_conf (fst (interleave s)) = oc_conf (fst s)"
    and "\<And>s. stored (snd (snd (interleave s))) = stored (snd (snd s))"
  shows "x = (off, meta)"
proof -
  have "commit_accepted N (occ_ConsumerGroup (oc_conf (fst s))) topic part off meta (snd (snd s1))"
    by (rule commit_loop_nil[OF assms(1)[unfolded commit_def] _ refl assms(7)]) (use assms(5) in simp)
  then have "stored (snd (snd s1)) (occ_ConsumerGroup (oc_conf (fst s)), topic, part) = (off, meta)"
    using commit_stores by (auto simp: commit_accepted_def)
  moreover have "x = stored (snd (snd s2)) (occ_ConsumerGroup (oc_conf (fst s2)), topic, part)"
    by (rule Offset_loop_reads[OF assms(2)[unfolded coordinator_Offset_def] _ refl assms(7,8)])
      (use assms(6) in simp)
  ultimately show ?thesis using assms(3,4) by simp
qed

end

end
