(* ===== verification/Cluster.thy ===== *)
theory Cluster
  imports TestServer Producer Consumer OffsetCoordinator
begin

text \<open>
  The broker of \<open>v2/broker.go\<close> talking to the server of \<open>v2/kafkatest/server.go\<close>: a network in which
  one test server listens, on which the interfaces of the broker, the consumer and the offset
  coordinator hold.
\<close>

section \<open>The network\<close>

text \<open>\<open>cl_open\<close> are the connections that are open, \<open>cl_next\<close> is the number of the next dial.\<close>

record cluster =
  cl_server :: Server
  cl_open :: "nat list"
  cl_next :: nat

text \<open>
  A request reaches the server, and its response the caller, the way the codec theorems say:
  \<open>wire\<close> and \<open>back\<close> drop the fields that the version does not carry.  The test server speaks version 0
  of every request.  A server that does not answer closes the connection, one that panics is gone.
\<close>

definition remote ::
  "('q \<Rightarrow> 'q) \<Rightarrow> ('q \<Rightarrow> Server \<Rightarrow> 'r reply \<times> Server) \<Rightarrow> ('q \<Rightarrow> 'r \<Rightarrow> 'a res) \<Rightarrow> nat \<Rightarrow> 'q \<Rightarrow> cluster \<Rightarrow>
   'a res \<times> cluster"
where
  "remote wire handle back c q e =
     (if c \<notin> set (cl_open e) then (Err ErrClosed, e)
      else case handle (wire q) (cl_server e) of
             (Reply r, s) \<Rightarrow> (back (wire q) r, e\<lparr>cl_server := s\<rparr>)
           | (NoReply, s) \<Rightarrow> (Err EOF, e\<lparr>cl_server := s, cl_open := removeAll c (cl_open e)\<rparr>)
           | (Blocks, s) \<Rightarrow> (NoFuel, e\<lparr>cl_server := s\<rparr>)
           | (Panics, s) \<Rightarrow> (Err EOF, e\<lparr>cl_server := Server_Close s, cl_open := []\<rparr>))"

definition dial_server :: "bool \<Rightarrow> gostring \<Rightarrow> cluster \<Rightarrow> nat res \<times> cluster" where
  "dial_server tls addr e =
     (if \<not> tls \<and> ln (cl_server e) = Some addr
      then (Ok (cl_next e), e\<lparr>cl_open := cl_next e # cl_open e, cl_next := cl_next e + 1\<rparr>)
      else (Err (OpError 0), e))"

text \<open>A produce request without acks is answered by the server all the same; nobody waits for it.\<close>

definition server_network :: "cluster network" where
  "server_network =
     \<lparr>net_dial = dial_server,
      net_Close = (\<lambda>c e. e\<lparr>cl_open := removeAll c (cl_open e)\<rparr>),
      net_Metadata = remote (\<lambda>q. norm_MetadataReq (SetVersion KafkaV0 q))
        (handleMetadataRequest server_node []) (\<lambda>_ r. Ok (norm_MetadataResp r)),
      net_CreateTopic = remote (SetVersion KafkaV0) (\<lambda>_ s. (NoReply, s)) (\<lambda>_. Ok),
      net_Produce = remote (\<lambda>q. norm_ProduceReq (SetVersion KafkaV0 q)) handleProduceRequest
        (\<lambda>q r. if pq_RequiredAcks q = RequiredAcksNone then Ok None else Ok (Some (norm_ProduceResp r))),
      net_Fetch = remote (\<lambda>q. norm_FetchReq (SetVersion KafkaV0 q)) (handleFetchRequest id)
        (\<lambda>q r. trimLeadingMessages q (norm_FetchResp r)),
      net_Offset = remote (\<lambda>q. norm_OffsetReq (SetVersion KafkaV0 q)) handleOffsetRequest
        (\<lambda>_ r. Ok (norm_OffsetResp r)),
      net_ConsumerMetadata = remote (SetVersion KafkaV0) handleConsumerMetadataRequest
        (\<lambda>_ r. Ok (norm_ConsumerMetadataResp r)),
      net_OffsetCommit = remote (\<lambda>q. norm_OffsetCommitReq (SetVersion KafkaV0 q)) handleOffsetCommitRequest
        (\<lambda>_ r. Ok (norm_OffsetCommitResp r)),
      net_OffsetFetch = remote (SetVersion KafkaV0) handleOffsetFetchRequest
        (\<lambda>_ r. Ok (norm_OffsetFetchResp r)),
      net_perm = (\<lambda>n e. ([0..<n], e)),
      net_others = (\<lambda>w. w)\<rparr>"

lemma remote_next [simp]: "cl_next (snd (remote wire handle back c q e)) = cl_next e"
  by (auto simp: remote_def split: reply.split prod.split)

text \<open>What a handler keeps of the server, a request keeps of the cluster.\<close>

lemma remote_keeps:
  assumes "\<And>q s. P s \<Longrightarrow> P (snd (handle q s))" "\<And>s. P s \<Longrightarrow> P (Server_Close s)" "P (cl_server e)"
  shows "P (cl_server (snd (remote wire handle back c q e)))"
  using assms(1)[OF assms(3), of "wire q"] assms(2,3)
  by (auto simp: remote_def split: reply.split prod.split)

section \<open>The pool of connections\<close>

definition dialled :: "cluster \<Rightarrow> nat set" where
  "dialled e = {0..<cl_next e}"

interpretation server_pool: pool server_network dialled
  by unfold_locales (auto simp: server_network_def dialled_def dial_server_def split: if_splits)

section \<open>The log of a partition\<close>

definition cluster_ok :: "Broker \<times> cluster \<Rightarrow> bool" where
  "cluster_ok w \<longleftrightarrow> server_ok (cl_server (snd w))"

lemma same_ok:
  "server_ok s \<Longrightarrow> server_ok (snd (handleOffsetRequest q0 s))"
  "server_ok s \<Longrightarrow> server_ok (snd (handleConsumerMetadataRequest q1 s))"
  "server_ok s \<Longrightarrow> server_ok (snd (handleOffsetFetchRequest q2 s))"
  "server_ok s \<Longrightarrow> server_ok (snd (handleOffsetCommitRequest q3 s))"
  using server_ok_cong[of "snd (handleOffsetFetchRequest q2 s)" s] handleOffsetFetch_same[of q2 s]
    server_ok_cong[of "snd (handleOffsetCommitRequest q3 s)" s] handleOffsetCommit_same[of q3 s]
  by (simp_all add: handleOffsetRequest_def handleConsumerMetadataRequest_def split: option.split list.split)

interpretation server_keeps: broker_inv server_network cluster_ok
  by unfold_locales
    (auto simp: server_network_def cluster_ok_def dial_server_def split: if_splits
      intro!: remote_keeps[where P = server_ok] handleMetadata_ok handleProduce_ok handleFetch_ok same_ok)

text \<open>The answer to a fetch of a consumer holds the messages from the offset of the consumer on.\<close>

lemma read_back_Offset [simp]: "Offset (read_back m) = Offset m"
  by (simp add: read_back_def)

lemma consecutive_drop:
  assumes "server_ok s" "part_log s topic part = Some ms" "0 \<le> sint off"
  shows "consecutive off (drop (nat (sint off)) ms)"
  unfolding consecutive_def
proof (rule nth_equalityI)
  fix i assume "i < length (map Offset (drop (nat (sint off)) ms))"
  then have "nat (sint off) + i < length ms" by simp
  from part_log_offset[OF assms(1,2) this] \<open>i < _\<close> assms(3)
  show "map Offset (drop (nat (sint off)) ms) ! i =
      map (\<lambda>i. off + of_nat i) [0..<length (drop (nat (sint off)) ms)] ! i"
    by (simp add: of_nat_nat)
qed simp

lemma consecutive_map: "(\<And>m. Offset (f m) = Offset m) \<Longrightarrow> consecutive off (map f ms) = consecutive off ms"
  by (simp add: consecutive_def comp_def)

lemma trim_consecutive: "consecutive off ms \<Longrightarrow> trim_messages off ms = ms"
  by (cases ms) (auto simp: trim_messages_def)

lemma handleFetch_Reply:
  assumes "handleFetchRequest id q s = (Reply r, s')" "server_ok s"
  shows "\<exists>v n. server_ok v \<and> fetchRequest q v = Ok (r, n)"
proof (cases "fetchRequest q s")
  case (Ok x)
  have "server_ok (await_event id s)" using assms(2) by (auto simp: await_event_def server_ok_def)
  with assms Ok show ?thesis
    by (cases x) (auto simp: handleFetchRequest_def Let_def as_reply_def split: if_splits outcome.splits)
qed (use assms in \<open>simp_all add: handleFetchRequest_def\<close>)

lemma fetch_part_log:
  assumes "server_ok s" "fetch_part s topic q = Ok (p, n)" "frp_Err p = None"
  shows "consecutive (fqp_FetchOffset q) (frp_Messages p) \<and> frp_ID p = fqp_ID q \<and> frp_MessageVersion p = 0"
  using assms consecutive_drop[OF assms(1)]
  by (auto simp: fetch_part_def Let_def zero_FetchRespPartition_def split: option.splits if_splits)

lemma server_fetch_from:
  assumes "server_ok (cl_server e)" "net_Fetch server_network cn (fetch_req b c) e = (Ok resp, e')"
    "extractMessages resp (c_conf c) = (ms, False, None)"
  shows "consecutive (c_offset c) ms"
proof -
  define q where "q = norm_FetchReq (SetVersion KafkaV0 (fetch_req b c))"
  obtain qp where topics: "fq_Topics q = [\<lparr>fqt_Name = cc_Topic (c_conf c), fqt_Partitions = [qp]\<rparr>]"
    and qp: "fqp_ID qp = cc_Partition (c_conf c)" "fqp_FetchOffset qp = c_offset c"
    by (auto simp: q_def fetch_req_def norm_FetchReq_def SetVersion_def norm_FetchReqTopic_def
        norm_FetchReqPartition_def)
  from assms(2) obtain r s where "handleFetchRequest id q (cl_server e) = (Reply r, s)"
    and resp: "trimLeadingMessages q (norm_FetchResp r) = Ok resp"
    by (auto simp: server_network_def remote_def q_def split: if_splits reply.splits prod.splits)
  from handleFetch_Reply[OF this(1) assms(1)] obtain v n
    where v: "server_ok v" "fetchRequest q v = Ok (r, n)" by blast
  from v(2) topics obtain p where p: "fetch_part v (cc_Topic (c_conf c)) qp = Ok (p, n)"
    and r: "fr_Topics r = [\<lparr>frt_Name = cc_Topic (c_conf c), frt_Partitions = [p]\<rparr>]"
    by (auto simp: fetchRequest_def obind_eq_Ok_conv)
  let ?p = "norm_FetchRespPartition (cc_Topic (c_conf c)) (fr_Version r) p"
  have resp_topics: "fr_Topics resp =
      [\<lparr>frt_Name = cc_Topic (c_conf c), frt_Partitions = [trim_partition (c_offset c) ?p]\<rparr>]"
    using resp topics r qp
    by (auto simp: trimLeadingMessages_def norm_FetchResp_def norm_FetchRespTopic_def obind_eq_Ok_conv)
  have id: "frp_ID p = fqp_ID qp"
    using p by (auto simp: fetch_part_def Let_def split: option.splits if_splits)
  have err: "frp_Err p = None" and ms: "ms = part_messages (cc_Topic (c_conf c)) (trim_partition (c_offset c) ?p)"
    using assms(3) resp_topics id qp
    by (auto simp: extractMessages_def norm_FetchRespPartition_def norm_FetchRespPartition_fields_def
        trim_partition_def split: if_splits)
  have "consecutive (c_offset c) (frp_Messages ?p)"
    using fetch_part_log[OF v(1) p err] qp by (simp add: norm_FetchRespPartition_def consecutive_map)
  moreover have "frp_MessageVersion ?p <s 2"
    by (simp add: norm_FetchRespPartition_def norm_FetchRespPartition_fields_def word_sless_alt)
  ultimately show ?thesis
    by (simp add: ms part_messages_def trim_partition_def trim_consecutive)
qed

interpretation server_log: partition_log server_network cluster_ok topic part for topic part
  by unfold_locales (auto simp: cluster_ok_def dest: server_fetch_from)

section \<open>The store of offsets\<close>

definition cluster_stored :: "cluster \<Rightarrow> gostring \<times> gostring \<times> int32 \<Rightarrow> int64 \<times> gostring" where
  "cluster_stored e = stored_offset (cl_server e)"

lemma stored_Close [simp]: "stored_offset (Server_Close s) = stored_offset s"
  by (rule stored_offset_cong) (simp add: Server_Close_def)

lemma remote_stored:
  assumes "\<And>q s. stored_offset (snd (handle q s)) = stored_offset s"
  shows "cluster_stored (snd (remote wire handle back c q e)) = cluster_stored e"
  unfolding cluster_stored_def
  by (rule remote_keeps[where P = "\<lambda>s. stored_offset s = stored_offset (cl_server e)"]) (simp_all add: assms)

lemma commit_one:
  assumes "handleOffsetCommitRequest q s = (Reply r, s')"
    "ocq_Topics q = [\<lparr>ocqt_Name = topic, ocqt_Partitions = [p]\<rparr>]"
  shows "stored_offset s' = (stored_offset s)((ocq_ConsumerGroup q, topic, ocqp_ID p) := (ocqp_Offset p, ocqp_Metadata p))"
  using assms
  by (auto simp: handleOffsetCommitRequest_def offset_commit_topic_def offset_commit_part_def split_beta Let_def
      stored_offset_set)

lemma fetch_one:
  assumes "handleOffsetFetchRequest (SetVersion v (offset_fetch_req grp topic part)) s = (Reply r, s')"
    "offset_found topic part (norm_OffsetFetchResp r) = Ok x"
  shows "x = stored_offset s (grp, topic, part)"
  using assms
  by (auto simp: handleOffsetFetchRequest_def offset_fetch_topic_def offset_fetch_part_def split_beta Let_def
      SetVersion_def offset_fetch_req_def offset_found_def norm_OffsetFetchResp_def stored_offset_def
      zero_OffsetFetchRespPartition_def)

interpretation server_store: offset_store server_network cluster_stored
proof
  fix cn b grp topic part off t meta e resp e'
  assume "net_OffsetCommit server_network cn (commit_req b grp topic part off t meta) e = (Ok resp, e')"
  then show "cluster_stored e' (grp, topic, part) = (off, meta)"
    by (auto simp: server_network_def remote_def cluster_stored_def commit_req_def SetVersion_def
        norm_OffsetCommitReq_def norm_OffsetCommitReqTopic_def norm_OffsetCommitReqPartition_def
        dest!: commit_one split: if_splits reply.splits prod.splits)
next
  fix cn grp topic part e fresp e' x
  assume "net_OffsetFetch server_network cn (offset_fetch_req grp topic part) e = (Ok fresp, e')"
    "offset_found topic part fresp = Ok x"
  then show "x = cluster_stored e (grp, topic, part)"
    by (auto simp: server_network_def remote_def cluster_stored_def dest!: fetch_one
        split: if_splits reply.splits prod.splits)
next
  fix cn q e
  show "cluster_stored (snd (net_OffsetFetch server_network cn q e)) = cluster_stored e"
    by (simp add: server_network_def remote_stored stored_offset_fetch)
next
  fix cn q0 e
  show "cluster_stored (snd (net_Metadata server_network cn q0 e)) = cluster_stored e"
    using stored_offset_cong[OF handleMetadata_offsets] by (simp add: server_network_def remote_stored)
next
  fix cn q1 e
  have "stored_offset (snd (handleConsumerMetadataRequest q s)) = stored_offset s" for q s
    by (simp add: handleConsumerMetadataRequest_def split: list.split)
  then show "cluster_stored (snd (net_ConsumerMetadata server_network cn q1 e)) = cluster_stored e"
    by (simp add: server_network_def remote_stored)
qed (simp_all add: server_network_def dial_server_def cluster_stored_def)

section \<open>An example\<close>

text \<open>A broker that is connected to a test server with two messages in partition 0 of one topic.\<close>

definition example_server :: Server where
  "example_server = NewServer\<lparr>brokers := [zero_MetadataRespBroker\<lparr>mb_NodeID := 100, mb_Host := str ''a'', mb_Port := 9\<rparr>],
     topics := [(str ''t'', [(0, numbered 0 (str ''t'') [zero_Message, zero_Message])])], ln := Some (str ''a:9'')\<rparr>"

definition example_cluster :: cluster where
  "example_cluster = \<lparr>cl_server = example_server, cl_open = [0], cl_next = 1\<rparr>"

definition example_broker :: Broker where
  "example_broker = \<lparr>conf = NewBrokerConf (str ''me''),
     metadata = \<lparr>nodes = [(100, str ''a:9'')], endpoints = [(str ''t'', 0) \<mapsto> 100], partitions = [str ''t'' \<mapsto> 1],
       controllerId = 0\<rparr>,
     conns = [(100, 0)], nodeAddresses = [str ''a:9'']\<rparr>"

lemma attempt_return: "attempt (Ok x, s) k = k (Inr x) s"
  by (simp add: attempt_def)

lemma example_leader:
  "muLeaderConnection N (str ''t'') 0 (example_broker, e) = (Ok (Some 0), example_broker, e)"
proof -
  have "leader_loop N (str ''t'', 0) (Suc n) False None (example_broker, e) = (Ok (Some 0), example_broker, e)" for n
    by (simp add: leader_node_def node_connection_def example_broker_def attempt_return)
  from this[of 9] show ?thesis
    by (simp add: muLeaderConnection_def example_broker_def NewBrokerConf_def)
qed

text \<open>The number of messages in a log, which need not exist.\<close>

definition log_size :: "Message list option \<Rightarrow> nat" where
  "log_size l = (case l of Some ms \<Rightarrow> length ms | None \<Rightarrow> 0)"

abbreviation log_length :: "Server \<Rightarrow> gostring \<Rightarrow> int32 \<Rightarrow> nat" where
  "log_length s t p \<equiv> log_size (part_log s t p)"

text \<open>
  A message that a consumer gets: the topic, the partition and the end of the log are filled in.
\<close>

definition as_consumed :: "gostring \<Rightarrow> int32 \<Rightarrow> nat \<Rightarrow> Message \<Rightarrow> Message" where
  "as_consumed t p n m = (read_back m)\<lparr>Topic := t, Partition := p, TipOffset := of_nat n\<rparr>"

text \<open>A produce request with acks for one partition, and a fetch request for one.\<close>

definition produces_to :: "gostring \<Rightarrow> int32 \<Rightarrow> Message list \<Rightarrow> ProduceReq \<Rightarrow> bool" where
  "produces_to t p ms q \<longleftrightarrow> pq_RequiredAcks q \<noteq> RequiredAcksNone \<and>
     pq_Topics q = [\<lparr>pqt_Name = t, pqt_Partitions = [\<lparr>pqp_ID = p, pqp_Messages = ms\<rparr>]\<rparr>]"

definition fetches_from :: "gostring \<Rightarrow> int32 \<Rightarrow> int64 \<Rightarrow> FetchReq \<Rightarrow> bool" where
  "fetches_from t p off q \<longleftrightarrow>
     (\<exists>qp. fq_Topics q = [\<lparr>fqt_Name = t, fqt_Partitions = [qp]\<rparr>] \<and> fqp_ID qp = p \<and> fqp_FetchOffset qp = off)"

lemma produce_req_to: "pc_RequiredAcks pc \<noteq> RequiredAcksNone \<Longrightarrow> produces_to t p ms (produce_req b pc t p ms)"
  by (simp add: produces_to_def produce_req_def)

lemma fetch_req_from: "fetches_from (cc_Topic (c_conf c)) (cc_Partition (c_conf c)) (c_offset c) (fetch_req b c)"
  by (simp add: fetches_from_def fetch_req_def)

lemma consumed_numbered:
  "consecutive (of_nat n) (map (as_consumed t p k) (numbered n t (map read_back ms)))"
  "map (\<lambda>m. (Key m, Value m)) (map (as_consumed t p k) (numbered n t (map read_back ms))) =
     map (\<lambda>m. (norm_bytes (Key m), norm_bytes (Value m))) ms"
proof -
  have norm: "norm_bytes (norm_bytes b) = norm_bytes b" for b by (simp add: norm_bytes_def)
  show "consecutive (of_nat n) (map (as_consumed t p k) (numbered n t (map read_back ms)))"
  proof (induction ms arbitrary: n)
    case (Cons m ms)
    from Cons.IH[of "Suc n"] show ?case by (simp add: as_consumed_def read_back_def add.commute)
  qed simp
  show "map (\<lambda>m. (Key m, Value m)) (map (as_consumed t p k) (numbered n t (map read_back ms))) =
      map (\<lambda>m. (norm_bytes (Key m), norm_bytes (Value m))) ms"
    by (induction ms arbitrary: n) (simp_all add: as_consumed_def read_back_def norm)
qed

lemma consume_calls_buffer: "consume_calls N fuel (length (c_msgbuf c)) c w = c_msgbuf c"
proof (induction "c_msgbuf c" arbitrary: c)
  case (Cons m ms)
  then have "c_msgbuf c = m # ms" by simp
  with Cons(1)[of "c\<lparr>c_msgbuf := ms, c_offset := Offset m + 1\<rparr>"] show ?case
    by (simp add: Consume_def take_message_def)
qed simp

text \<open>
  What a producer and a consumer rely on to pass messages to each other: a produce request appends its messages to the
  log of the partition, and a fetch request gets those from an offset on.  \<open>sends\<close> and \<open>fetches\<close> tell when a network
  takes a request over a connection.
\<close>

locale delivery =
  fixes N :: "'e network" and log :: "'e \<Rightarrow> gostring \<Rightarrow> int32 \<Rightarrow> Message list option"
    and sends :: "nat \<Rightarrow> ProduceReq \<Rightarrow> 'e \<Rightarrow> bool" and fetches :: "nat \<Rightarrow> FetchReq \<Rightarrow> 'e \<Rightarrow> bool"
  assumes appends: "sends c q e \<Longrightarrow> produces_to t p ms q \<Longrightarrow>
      \<exists>resp e'. net_Produce N c q e = (Ok (Some resp), e') \<and>
        produced_offset t p resp = Ok (of_nat (log_size (log e t p) + length ms) - 1) \<and>
        log e' t p = extend_log t (map read_back ms) (log e t p)"
    and delivers: "fetches c q' e \<Longrightarrow> fetches_from (cc_Topic cf) (cc_Partition cf) (of_nat k) q' \<Longrightarrow>
      log e (cc_Topic cf) (cc_Partition cf) = Some ms \<Longrightarrow> k < length ms \<Longrightarrow> k < 2 ^ 63 \<Longrightarrow>
      \<exists>resp. net_Fetch N c q' e = (Ok resp, e) \<and>
        extractMessages resp cf = (map (as_consumed (cc_Topic cf) (cc_Partition cf) (length ms)) (drop k ms), False, None)"
begin

lemma produce_appends:
  assumes "muLeaderConnection N t p w = (Ok (Some c), b, e)" "sends c (produce_req b pc t p ms) e"
    and "pc_RequiredAcks pc \<noteq> RequiredAcksNone" "0 < pc_RetryLimit pc" "ms \<noteq> []"
    and "off = of_nat (log_size (log e t p) + length ms) - 1" "e' = snd (net_Produce N c (produce_req b pc t p ms) e)"
  shows "producer_Produce N pc t p ms w = (Ok (off, number_messages off ms), b, e') \<and>
    log e' t p = extend_log t (map read_back ms) (log e t p)"
proof -
  obtain resp where "net_Produce N c (produce_req b pc t p ms) e = (Ok (Some resp), e')"
    "produced_offset t p resp = Ok off" and e': "log e' t p = extend_log t (map read_back ms) (log e t p)"
    using appends[OF assms(2) produce_req_to[OF assms(3)]] assms(6,7) by fastforce
  then have "produce N pc t p ms w = (Ok off, b, e')"
    using assms(1,3) by (simp add: produce_def attempt_def on_env_def)
  moreover obtain n where "nat (pc_RetryLimit pc) = Suc n" using assms(4) by (cases "nat (pc_RetryLimit pc)") auto
  ultimately show ?thesis using assms(5) e' by (simp add: producer_Produce_def attempt_def)
qed

lemma consume_delivers:
  assumes "c_conn c = Some cn" "fetches cn (fetch_req b c) e"
    and "log e (cc_Topic (c_conf c)) (cc_Partition (c_conf c)) = Some ms"
    and "c_offset c = of_nat k" "k < length ms" "k < 2 ^ 63" "c_msgbuf c = []" "0 < cc_RetryErrLimit (c_conf c)"
  shows "consume_calls N (Suc fuel) (length ms - k) c (b, e) =
    map (as_consumed (cc_Topic (c_conf c)) (cc_Partition (c_conf c)) (length ms)) (drop k ms)"
proof -
  let ?got = "map (as_consumed (cc_Topic (c_conf c)) (cc_Partition (c_conf c)) (length ms)) (drop k ms)"
  obtain resp where resp: "net_Fetch N cn (fetch_req b c) e = (Ok resp, e)"
    "extractMessages resp (c_conf c) = (?got, False, None)"
    using delivers[OF assms(2) _ assms(3,5,6)] fetch_req_from[of c b] assms(4) by metis
  obtain n where n: "nat (cc_RetryErrLimit (c_conf c)) = Suc n"
    using assms(8) by (cases "nat (cc_RetryErrLimit (c_conf c))") auto
  have "consumer_fetch N c (b, e) = (Ok (?got, None), c\<lparr>c_conn := Some cn\<rparr>, b, e)"
    using assms(1) resp
    by (simp add: consumer_fetch_def n fetch_round_def fetch_conn_def attempt_def on_env_def)
  moreover obtain m rest where got: "?got = m # rest" "length ms - k = Suc (length rest)"
    using assms(5) by (metis Suc_diff_1 diff_Suc_1 length_Cons length_drop length_map neq_Nil_conv list.size(3)
        zero_less_diff not_less_zero)
  ultimately have "Consume N (Suc fuel) c (b, e) =
      (Ok m, c\<lparr>c_conn := Some cn, c_msgbuf := rest, c_offset := Offset m + 1\<rparr>, b, e)"
    using assms(7) by (simp add: Consume_def consume_def take_message_def)
  then show ?thesis
    using consume_calls_buffer[of N "Suc fuel"
        "c\<lparr>c_conn := Some cn, c_msgbuf := rest, c_offset := Offset m + 1\<rparr>" "(b, e)"]
    by (simp add: got)
qed

lemma produced_consumed:
  assumes "muLeaderConnection N t p w = (Ok (Some cn), b, e)" "sends cn (produce_req b pc t p ms) e"
    and "pc_RequiredAcks pc \<noteq> RequiredAcksNone" "0 < pc_RetryLimit pc" "ms \<noteq> []"
    and "cc_Topic (c_conf c) = t" "cc_Partition (c_conf c) = p" "0 < cc_RetryErrLimit (c_conf c)"
    and "c_conn c = Some cn'" "c_msgbuf c = []" "n = log_size (log e t p)" "c_offset c = of_nat n" "n < 2 ^ 63"
    and "fetches cn' (fetch_req b c) (snd (net_Produce N cn (produce_req b pc t p ms) e))"
  shows "\<exists>r w' got. producer_Produce N pc t p ms w = (Ok r, w') \<and>
    consume_calls N (Suc fuel) (length ms) c w' = got \<and> consecutive (of_nat n) got \<and>
    map (\<lambda>m. (Key m, Value m)) got = map (\<lambda>m. (norm_bytes (Key m), norm_bytes (Value m))) ms"
proof -
  define e' where "e' = snd (net_Produce N cn (produce_req b pc t p ms) e)"
  obtain r where produced: "producer_Produce N pc t p ms w = (Ok r, b, e')"
    and e': "log e' t p = extend_log t (map read_back ms) (log e t p)"
    using produce_appends[OF assms(1-5) refl e'_def] by blast
  obtain old where old: "length old = n"
    and log: "log e' t p = Some (old @ numbered n t (map read_back ms))"
    using e' assms(11) by (cases "log e t p") (auto simp: extend_log_def log_size_def)
  let ?got = "map (as_consumed t p (n + length ms)) (numbered n t (map read_back ms))"
  have "consume_calls N (Suc fuel) (length ms) c (b, e') = ?got"
    using consume_delivers[of c cn' b e' "old @ numbered n t (map read_back ms)" n fuel] assms log old
    by (simp add: e'_def)
  with consumed_numbered[where ms = ms and k = "n + length ms"] produced show ?thesis by blast
qed

end

text \<open>The offset in the response of the server is the one of the last message.\<close>

lemma produce_part_offset:
  "fst (produce_part t q parts) = zero_ProduceRespPartition\<lparr>prp_ID := pqp_ID q,
     prp_Offset := of_nat (length (messages_of (pqp_ID q) parts) + length (pqp_Messages q)) - 1\<rparr>"
  using map_of_produce_part[of t q parts "pqp_ID q"]
  by (simp add: produce_part_def Let_def messages_of_def extend_log_def split: option.split)

lemma server_produces:
  assumes "c \<in> set (cl_open e)" "events (cl_server e) < events_capacity" "produces_to t p ms q0"
  shows "\<exists>resp e'. net_Produce server_network c q0 e = (Ok (Some resp), e') \<and>
    produced_offset t p resp = Ok (of_nat (log_length (cl_server e) t p + length ms) - 1) \<and>
    part_log (cl_server e') t p = extend_log t (map read_back ms) (part_log (cl_server e) t p)"
proof -
  define q where "q = norm_ProduceReq (SetVersion KafkaV0 q0)"
  have topics: "pq_Topics q = [\<lparr>pqt_Name = t, pqt_Partitions = [\<lparr>pqp_ID = p, pqp_Messages = map read_back ms\<rparr>]\<rparr>]"
    and acks: "pq_RequiredAcks q \<noteq> RequiredAcksNone"
    using assms(3) by (simp_all add: q_def norm_ProduceReq_def ProduceReq_fields_def SetVersion_def produces_to_def)
  have len: "length (messages_of p (topic_or_new t (cl_server e))) = log_length (cl_server e) t p"
    by (simp add: messages_of_def topic_or_new_def log_size_def part_log_def split: option.split)
  have "fst (map_state produce_topic (pq_Topics q) (cl_server e)) =
      [\<lparr>prt_Name = t, prt_Partitions = [zero_ProduceRespPartition\<lparr>prp_ID := p,
         prp_Offset := of_nat (log_length (cl_server e) t p + length ms) - 1\<rparr>]\<rparr>]"
    using produce_part_offset[of t "\<lparr>pqp_ID = p, pqp_Messages = map read_back ms\<rparr>" "topic_or_new t (cl_server e)"]
    by (simp add: topics produce_topic_def split_beta Let_def len)
  moreover have "part_log (snd (map_state produce_topic (pq_Topics q) (cl_server e))) t p =
      extend_log t (map read_back ms) (part_log (cl_server e) t p)"
    unfolding part_log_produce_topics by (simp add: topics names_part_def sent_def sent_part_def)
  ultimately show ?thesis
    using assms(1,2) acks
    by (simp add: server_network_def remote_def handleProduce_events produced_offset_def produced_entries_def
        norm_ProduceResp_def norm_ProduceRespTopic_def norm_ProduceRespPartition_def zero_ProduceRespPartition_def
        flip: q_def)
qed

lemma server_fetches:
  assumes "cn \<in> set (cl_open e)" "server_ok (cl_server e)"
    and "fetches_from (cc_Topic cf) (cc_Partition cf) (of_nat k) q0"
    and "part_log (cl_server e) (cc_Topic cf) (cc_Partition cf) = Some ms" "k < length ms" "k < 2 ^ 63"
  shows "\<exists>resp. net_Fetch server_network cn q0 e = (Ok resp, e) \<and>
    extractMessages resp cf = (map (as_consumed (cc_Topic cf) (cc_Partition cf) (length ms)) (drop k ms), False, None)"
proof -
  let ?t = "cc_Topic cf" and ?p = "cc_Partition cf"
  let ?ms = "map (as_consumed ?t ?p (length ms)) (drop k ms)"
  define q where "q = norm_FetchReq (SetVersion KafkaV0 q0)"
  obtain qp where topics: "fq_Topics q = [\<lparr>fqt_Name = ?t, fqt_Partitions = [qp]\<rparr>]"
    and qp: "fqp_ID qp = ?p" "fqp_FetchOffset qp = of_nat k"
    using assms(3) by (auto simp: q_def fetches_from_def norm_FetchReq_def SetVersion_def norm_FetchReqTopic_def
        norm_FetchReqPartition_def)
  have k: "sint (of_nat k :: int64) = int k" using assms(6) by (intro sint_of_nat_small) simp
  have "consecutive (of_nat k) (drop k ms)" using consecutive_drop[OF assms(2,4), of "of_nat k"] k by simp
  then have "consecutive (of_nat k) ?ms"
    using consecutive_map[of "as_consumed ?t ?p (length ms)"] by (simp add: as_consumed_def read_back_def)
  note trim = trim_consecutive[OF this]
  show ?thesis
    using assms k trim qp
    by (simp add: server_network_def remote_def handleFetchRequest_def fetchRequest_def topics fetch_part_def
        trimLeadingMessages_def norm_FetchResp_def norm_FetchRespTopic_def norm_FetchRespPartition_def
        norm_FetchRespPartition_fields_def trim_partition_def extractMessages_def part_messages_def
        zero_FetchRespPartition_def zero_FetchResp_def retriable_def label_message_def as_consumed_def[abs_def]
        word_sless_alt flip: q_def)
qed

text \<open>At the end of a log, with no token in the channel of events, a fetch finds nothing and changes nothing.\<close>

lemma server_fetch_end:
  assumes "cn \<in> set (cl_open e)" "c_conn c = Some cn" "0 < cc_RetryErrLimit (c_conf c)" "events (cl_server e) = 0"
    and "part_log (cl_server e) (cc_Topic (c_conf c)) (cc_Partition (c_conf c)) = Some ms"
    and "c_offset c = of_nat (length ms)" "length ms < 2 ^ 63"
  shows "consumer_fetch server_network c (b, e) = (Ok ([], None), c, b, e)"
proof -
  let ?t = "cc_Topic (c_conf c)" and ?p = "cc_Partition (c_conf c)"
  define q where "q = norm_FetchReq (SetVersion KafkaV0 (fetch_req b c))"
  obtain qp where topics: "fq_Topics q = [\<lparr>fqt_Name = ?t, fqt_Partitions = [qp]\<rparr>]"
    and qp: "fqp_ID qp = ?p" "fqp_FetchOffset qp = of_nat (length ms)"
    using fetch_req_from[of c b] assms(6) by (auto simp: q_def fetches_from_def norm_FetchReq_def SetVersion_def
        norm_FetchReqTopic_def norm_FetchReqPartition_def)
  have k: "sint (of_nat (length ms) :: int64) = int (length ms)" using assms(7) by (intro sint_of_nat_small) simp
  obtain resp where "net_Fetch server_network cn (fetch_req b c) e = (Ok resp, e)"
    "extractMessages resp (c_conf c) = ([], False, None)"
    using assms(1,4,5) k qp
    by (simp add: server_network_def remote_def handleFetchRequest_def fetchRequest_def topics fetch_part_def
        trimLeadingMessages_def norm_FetchResp_def norm_FetchRespTopic_def norm_FetchRespPartition_def
        norm_FetchRespPartition_fields_def trim_partition_def extractMessages_def part_messages_def
        zero_FetchRespPartition_def zero_FetchResp_def retriable_def await_event_def as_reply_def trim_messages_def
        word_sless_alt flip: q_def)
  moreover obtain n where "nat (cc_RetryErrLimit (c_conf c)) = Suc n"
    using assms(3) by (cases "nat (cc_RetryErrLimit (c_conf c))") auto
  ultimately show ?thesis
    using assms(2) by (cases c) (simp add: consumer_fetch_def fetch_round_def fetch_conn_def attempt_def on_env_def)
qed

definition server_sends :: "nat \<Rightarrow> ProduceReq \<Rightarrow> cluster \<Rightarrow> bool" where
  "server_sends c q e \<longleftrightarrow> c \<in> set (cl_open e) \<and> events (cl_server e) < events_capacity"

definition server_answers :: "nat \<Rightarrow> FetchReq \<Rightarrow> cluster \<Rightarrow> bool" where
  "server_answers c q e \<longleftrightarrow> c \<in> set (cl_open e) \<and> server_ok (cl_server e)"

interpretation on_server: delivery server_network "\<lambda>e. part_log (cl_server e)" server_sends server_answers
  by unfold_locales
    ((rule server_produces; simp add: server_sends_def) | (rule server_fetches; simp add: server_answers_def))+

text \<open>A produce request that is answered leaves the connections as they are.\<close>

lemma server_produce_open:
  assumes "server_sends c q e"
  shows "cl_open (snd (net_Produce server_network c q e)) = cl_open e"
  using assms by (simp add: server_sends_def server_network_def remote_def handleProduce_events)

text \<open>The leaders that a broker caches from an answer about all topics.\<close>

lemma metadata_endpoints:
  assumes "server_ok s" "mq_Topics req = []" "handleMetadataRequest nodeID order req s = (Reply resp, s')"
    and "b' = cacheMetadata (norm_MetadataResp resp) b"
  shows "endpoints (metadata b') (t, p) = (if part_log s t p = None then None else Some nodeID)"
proof -
  let ?ts = "in_order order (topics s)"
  note reply = metadata_reply[OF assms(1-3)]
  have dist: "distinct (map fst (topics s))" using assms(1) by (simp add: server_ok_def)
  have leaders: "leaders_of (norm_MetadataResp resp) =
      concat (map (\<lambda>x. map (\<lambda>i. ((fst x, of_nat i), nodeID)) [0..<length (snd x)]) ?ts)"
    using reply by (simp add: leaders_of_def norm_MetadataResp_def Let_def norm_MetadataRespTopic_def
        norm_MetadataRespPartition_def topic_answer_def metadata_part_def comp_def)
  have "(t, p) \<in> fst ` set (leaders_of (norm_MetadataResp resp)) \<longleftrightarrow>
      (\<exists>x \<in> set (topics s). fst x = t \<and> p \<in> of_nat ` {0..<length (snd x)})"
    by (auto simp: leaders image_iff)
  also have "\<dots> \<longleftrightarrow> (\<exists>x \<in> set (topics s). fst x = t \<and> p \<in> fst ` set (snd x))"
    using reply by blast
  also have "\<dots> \<longleftrightarrow> part_log s t p \<noteq> None"
    using dist by (auto simp: part_log_def bind_eq_None_conv map_of_eq_None_iff image_iff)
      (force dest: map_of_SomeD)+
  finally show ?thesis
    using map_of_const[of "rev (leaders_of (norm_MetadataResp resp))" nodeID "(t, p)"]
    by (auto simp: assms(4) cacheMetadata_spec leaders)
qed

lemma example_server_ok: "server_ok example_server"
  by (simp add: server_ok_def example_server_def NewServer_def parts_ok_def)

lemma example_open: "0 \<in> set (cl_open example_cluster)" "events (cl_server example_cluster) < events_capacity"
  by (simp_all add: example_cluster_def example_server_def NewServer_def events_capacity_def)

lemma example_log: "log_length (cl_server example_cluster) (str ''t'') 0 = 2"
  by (simp add: example_cluster_def example_server_def NewServer_def log_size_def part_log_def)

section \<open>Properties\<close>

text \<open>
  C6.  \<open>Produce\<close> with acks and at least one attempt returns without an error only when the leader of the
  partition, over the connection the pool has for it, answered a request with exactly these messages
  by an offset without an error; this is the offset it returns, and the messages are numbered from it.
\<close>

lemma produce_acknowledged:
  assumes "producer_Produce N pc topic part ms w = (Ok (off, ms'), w')"
    and "ms \<noteq> []" "0 < pc_RetryLimit pc" "pc_RequiredAcks pc \<noteq> RequiredAcksNone"
  shows "length ms' = length ms \<and> (\<forall>i. i < length ms \<longrightarrow> ms' ! i = (ms ! i)\<lparr>Offset := of_nat i + off\<rparr>) \<and>
    (\<exists>c e resp. leads (fst w') (topic, part) c \<and>
       net_Produce N c (produce_req (fst w') pc topic part ms) e = (Ok (Some resp), snd w') \<and>
       (\<exists>t \<in> set (pr_Topics resp). prt_Name t = topic \<and>
         (\<exists>p \<in> set (prt_Partitions t). prp_ID p = part \<and> prp_Err p = None \<and> prp_Offset p = off)))"
  using produce_loop_Ok[of N pc topic part ms "nat (pc_RetryLimit pc)" None w off ms' w'] assms
  by (simp add: producer_Produce_def number_messages_nth acknowledged_def)
    (blast dest: produced_offset_answer)

lemma produce_acknowledged_witness:
  "\<exists>w'. producer_Produce server_network NewProducerConf (str ''t'') 0 [zero_Message] (example_broker, example_cluster) =
      (Ok (2, [zero_Message\<lparr>Offset := 2\<rparr>]), w') \<and> (\<exists>c. leads (fst w') (str ''t'', 0) c)"
proof -
  note acks = NewProducerConf_def RequiredAcksAll_def RequiredAcksNone_def
  obtain w' where w': "producer_Produce server_network NewProducerConf (str ''t'') 0 [zero_Message]
      (example_broker, example_cluster) = (Ok (2, number_messages 2 [zero_Message]), w')"
    using on_server.produce_appends[OF example_leader, of NewProducerConf "[zero_Message]"] example_open
    by (force simp: example_log acks server_sends_def)
  with produce_acknowledged[OF w'] show ?thesis by (auto simp: acks number_messages_def)
qed

text \<open>
  From end to end on a test server: with a leader whose connection is open, and a consumer at the end of the log of
  the partition, \<open>Produce\<close> returns without an error, and as many calls of \<open>Consume\<close> as there are messages return
  their keys and values, in the order they were given, at the offsets that follow.
\<close>

lemma produce_then_consume:
  assumes "muLeaderConnection server_network t p w = (Ok (Some cn), b, e)" "cn \<in> set (cl_open e)"
    and "server_ok (cl_server (snd w))" "events (cl_server e) < events_capacity"
    and "pc_RequiredAcks pc \<noteq> RequiredAcksNone" "0 < pc_RetryLimit pc" "ms \<noteq> []"
    and "cc_Topic (c_conf c) = t" "cc_Partition (c_conf c) = p" "0 < cc_RetryErrLimit (c_conf c)"
    and "c_conn c = Some cn'" "cn' \<in> set (cl_open e)" "c_msgbuf c = []"
    and "n = log_length (cl_server e) t p" "c_offset c = of_nat n" "n < 2 ^ 63"
  shows "\<exists>r w' got. producer_Produce server_network pc t p ms w = (Ok r, w') \<and>
    consume_calls server_network (Suc fuel) (length ms) c w' = got \<and> consecutive (of_nat n) got \<and>
    map (\<lambda>m. (Key m, Value m)) got = map (\<lambda>m. (norm_bytes (Key m), norm_bytes (Value m))) ms"
proof (rule on_server.produced_consumed[OF assms(1) _ assms(5-11,13-16)])
  show sends: "server_sends cn (produce_req b pc t p ms) e" using assms(2,4) by (simp add: server_sends_def)
  have "server_ok (cl_server e)"
    using server_keeps.muLeaderConnection_I[of w t p] assms(1,3) by (simp add: cluster_ok_def)
  then have "server_ok (cl_server (snd (net_Produce server_network cn (produce_req b pc t p ms) e)))"
    using server_keeps.Produce_I[of b e] by (simp add: cluster_ok_def)
  then show "server_answers cn' (fetch_req b c) (snd (net_Produce server_network cn (produce_req b pc t p ms) e))"
    using server_produce_open[OF sends] assms(12) by (simp add: server_answers_def)
qed

text \<open>
  Against the test server \<open>Produce\<close> numbers the messages from the offset of the last of them: the first message of a
  batch of two for an empty log gets offset 1, although it is at position 0 of the log.
\<close>

lemma test_server_numbers_from_last:
  assumes "muLeaderConnection server_network t p w = (Ok (Some c), b, e)"
    and "c \<in> set (cl_open e)" "events (cl_server e) < events_capacity" "log_length (cl_server e) t p = 0"
  shows "\<exists>ms' w'. producer_Produce server_network NewProducerConf t p [m0, m1] w = (Ok (1, ms'), w') \<and>
    map Offset ms' = [1, 2]"
  using on_server.produce_appends[OF assms(1), of NewProducerConf "[m0, m1]" 1] assms(2-4)
  by (auto simp: server_sends_def NewProducerConf_def RequiredAcksAll_def RequiredAcksNone_def number_messages_def)

text \<open>
  C26.  What a broker caches after a test server has answered a metadata request for all topics: the leader of
  exactly the partitions that exist, which is the node of the server, and the number of partitions of
  every topic.
\<close>

lemma cached_leaders:
  assumes "server_ok s" "mq_Topics req = []"
    and "handleMetadataRequest nodeID order req s = (Reply resp, s')"
    and "b' = cacheMetadata (norm_MetadataResp resp) b"
  shows "endpoints (metadata b') (t, p) = (if part_log s t p = None then None else Some nodeID) \<and>
    PartitionCount t b' = (case map_of (topics s) t of
      None \<Rightarrow> Err (TopicNotFound t) | Some parts \<Rightarrow> Ok (of_nat (length parts)))"
proof
  show "endpoints (metadata b') (t, p) = (if part_log s t p = None then None else Some nodeID)"
    using assms by (rule metadata_endpoints)
next
  let ?ts = "in_order order (topics s)"
  have dist: "distinct (map fst (topics s))" using assms(1) by (simp add: server_ok_def)
  have "counts_of (norm_MetadataResp resp) = map (\<lambda>x. (fst x, of_nat (length (snd x)))) ?ts"
    using metadata_reply[OF assms(1-3)]
    by (simp add: counts_of_def norm_MetadataResp_def Let_def norm_MetadataRespTopic_def topic_answer_def)
  then have "map_of (rev (counts_of (norm_MetadataResp resp))) t =
      map_option (\<lambda>parts. of_nat (length parts)) (map_of (topics s) t)"
    using map_of_in_order[OF dist, of order] map_of_map[of "\<lambda>parts. of_nat (length parts) :: int32" "rev ?ts"]
    by (simp add: rev_map split_def)
  then show "PartitionCount t b' = (case map_of (topics s) t of
      None \<Rightarrow> Err (TopicNotFound t) | Some parts \<Rightarrow> Ok (of_nat (length parts)))"
    by (simp add: PartitionCount_def assms(4) cacheMetadata_spec split: option.split)
qed

lemma cached_leaders_witness:
  "\<exists>resp s'. handleMetadataRequest 100 [] zero_MetadataReq example_server = (Reply resp, s') \<and>
     endpoints (metadata (cacheMetadata (norm_MetadataResp resp) example_broker)) (str ''t'', 0) = Some 100"
proof -
  obtain resp where r: "handleMetadataRequest 100 [] zero_MetadataReq example_server = (Reply resp, example_server)"
    by (simp add: handleMetadataRequest_def zero_MetadataReq_def example_server_def NewServer_def in_order_def
        permutation_def metadata_topic_def metadata_parts_def)
  have "mq_Topics zero_MetadataReq = []" by (simp add: zero_MetadataReq_def)
  from cached_leaders[OF example_server_ok this r refl, of example_broker "str ''t''" 0] r show ?thesis
    by (simp add: example_server_def NewServer_def part_log_def)
qed

text \<open>
  C13.  The invariant of the pool of connections (one entry per node, no connection under two nodes, every
  connection opened by a dial) is kept by every operation of a broker, a producer and a consumer, on
  any network whose dials return new connections; and closing a dead connection takes exactly its entry out of the
  pool, whether or not the refresh of the metadata that follows succeeds.
\<close>

lemma pool_kept:
  assumes "pool N used" "pool_ok used w"
  shows "pool_ok used (snd (refreshMetadata N w)) \<and>
    pool_ok used (snd (muLeaderConnection N topic part w)) \<and>
    pool_ok used (snd (muCoordinatorConnection N grp w)) \<and>
    pool_ok used (snd (muCloseDeadConnection N c w)) \<and>
    pool_ok used (snd (Broker_offset N topic part timems w)) \<and>
    pool_ok used (snd (CreateTopic N infos timeout validateOnly w)) \<and>
    pool_ok used (snd (producer_Produce N pc topic part ms w)) \<and>
    pool_ok used (snd (Broker_consumer N cf w)) \<and>
    pool_ok used (snd (snd (Consume N fuel con w))) \<and>
    pool_ok used (snd (snd (ConsumeBatch N fuel con w))) \<and>
    pool_ok used (Broker_Close N w) \<and>
    conns (fst (snd (muCloseDeadConnection N c w))) = filter (\<lambda>x. snd x \<noteq> c) (conns (fst w))"
proof -
  have inv: "broker_inv N (pool_ok used)" by (rule pool.is_broker_inv[OF assms(1)])
  then have inv': "conn_inv N (pool_ok used)" by (rule broker_inv.axioms)
  show ?thesis
    using assms(2) conn_inv.refreshMetadata_I[OF inv'] conn_inv.muLeaderConnection_I[OF inv']
      conn_inv.muCoordinatorConnection_I[OF inv'] conn_inv.muCloseDeadConnection_I[OF inv']
      broker_inv.Broker_offset_I[OF inv] broker_inv.CreateTopic_I'[OF inv]
      broker_inv.producer_Produce_I[OF inv] broker_inv.Broker_consumer_I[OF inv]
      broker_inv.Consume_I[OF inv] broker_inv.ConsumeBatch_I[OF inv] conn_inv.Broker_Close_I[OF inv']
      muCloseDead_conns[OF assms(2)]
    by (intro conjI)
qed

lemma example_pool_ok: "pool_ok dialled (example_broker, example_cluster)"
  by (simp add: pool_ok_def example_broker_def example_cluster_def dialled_def)

lemma pool_kept_witness:
  "pool_ok dialled (snd (muLeaderConnection server_network (str ''t'') 0 (example_broker, example_cluster))) \<and>
   conns (fst (snd (muCloseDeadConnection server_network 0 (example_broker, example_cluster)))) = []"
  using pool_kept[OF server_pool.pool_axioms example_pool_ok, where c = 0] by (simp add: example_broker_def)

text \<open>
  C3.  A consumer of a test server reads the partition in order: whatever number of calls of \<open>Consume\<close> a program
  makes, and whatever errors it ignores, the messages it gets have the offsets from the start offset on,
  none left out and none repeated.
\<close>

lemma consume_in_order:
  assumes "server_ok (cl_server e)" "Broker_consumer server_network cf (b, e) = (Ok c, w)"
  shows "consecutive (c_offset c) (consume_calls server_network fuel k c w) \<and>
    (0 \<le>s cc_StartOffset cf \<longrightarrow> c_offset c = cc_StartOffset cf)"
proof -
  have "cluster_ok w"
    using server_keeps.Broker_consumer_I[of "(b, e)" cf] assms by (simp add: cluster_ok_def)
  with Broker_consumer_reads_on[OF assms(2)] server_log.consume_calls_in_order show ?thesis by blast
qed

definition example_consumer_conf :: ConsumerConf where
  "example_consumer_conf = (NewConsumerConf (str ''t'') 0)\<lparr>cc_StartOffset := 1\<rparr>"

lemma consume_in_order_witness:
  "\<exists>c w. Broker_consumer server_network example_consumer_conf (example_broker, example_cluster) = (Ok c, w) \<and>
     c_offset c = 1 \<and> consecutive 1 (consume_calls server_network 5 2 c w)"
proof -
  let ?c = "\<lparr>c_conf = example_consumer_conf, c_offset = 1, c_conn = Some 0, c_msgbuf = []\<rparr>"
  have "Broker_consumer server_network example_consumer_conf (example_broker, example_cluster) =
      (Ok ?c, example_broker, example_cluster)"
    by (simp add: Broker_consumer_def example_consumer_conf_def NewConsumerConf_def example_leader attempt_return
        start_offset_def Let_def word_sless_alt)
  moreover from consume_in_order[OF _ this, of 5 2]
  have "consecutive 1 (consume_calls server_network 5 2 ?c (example_broker, example_cluster))"
    by (simp add: example_cluster_def example_server_ok)
  ultimately show ?thesis by (intro exI conjI) simp_all
qed

text \<open>
  What a consumer group committed is what it reads: after a commit on a test server that returned no error,
  \<open>Offset\<close> of any coordinator of the same group returns the committed offset and metadata, or an error.
\<close>

lemma commit_then_offset:
  assumes "commit server_network (\<lambda>s. s) now topic part off meta s = (Ok None, s1)"
    and "coordinator_Offset server_network (\<lambda>s. s) topic part (c2, b2, snd (snd s1)) = (Ok x, s2)"
    and "occ_ConsumerGroup (oc_conf c2) = occ_ConsumerGroup (oc_conf (fst s))"
    and "0 < occ_RetryErrLimit (oc_conf (fst s))" "0 < occ_RetryErrLimit (oc_conf c2)"
  shows "x = (off, meta)"
  using server_store.commit_then_Offset[OF assms(1,2)] assms(3-5) by simp

text \<open>
  C32.  How often \<open>Consume\<close> asks for messages, on any network.  With a \<open>RetryLimit\<close> it makes at most one fetch more than
  the limit (fuel above the limit is enough): the first fetch that finds a message or fails decides what it returns, and
  it returns \<open>ErrNoData\<close> when all of them, one more than the limit, found nothing.  Without a limit it returns exactly
  when some fetch, behind fetches that found nothing, finds a message or fails; otherwise no number of rounds is enough.
  \<open>NoFuel\<close> as the result of a fetch stands for a request the network never answers.
\<close>

lemma consume_retries:
  assumes "c_msgbuf c = []" "limit = cc_RetryLimit (c_conf c)"
  shows "(if limit = - 1
     then (\<exists>fuel. fst (Consume N fuel c w) \<noteq> NoFuel) \<longleftrightarrow>
       (\<exists>k c1 w1. empty_fetches N k c w = Some (c1, w1) \<and> fst (consumer_fetch N c1 w1) \<notin> {Ok ([], None), NoFuel})
     else \<forall>fuel > nat limit. \<exists>k c1 w1. k \<le> nat limit \<and> empty_fetches N k c w = Some (c1, w1) \<and>
       Consume N fuel c w = polled (consumer_fetch N c1 w1) \<and>
       (fst (consumer_fetch N c1 w1) = Ok ([], None) \<longrightarrow> k = nat limit))"
proof (cases "limit = - 1")
  case True
  then show ?thesis using Consume_unlimited[OF assms(1)] assms(2) by simp
next
  case False
  then show ?thesis using Consume_limited[OF assms(1)] unfolding assms(2) if_not_P[OF False[unfolded assms(2)]] by blast
qed

definition example_waiting :: "int \<Rightarrow> consumer" where
  "example_waiting limit = \<lparr>c_conf = (NewConsumerConf (str ''t'') 0)\<lparr>cc_RetryLimit := limit\<rparr>, c_offset = 2,
     c_conn = Some 0, c_msgbuf = []\<rparr>"

text \<open>At the end of the log of the example: \<open>ErrNoData\<close> with a limit, and no result without one.\<close>

lemma consume_retries_witness:
  "Consume server_network 3 (example_waiting 2) (example_broker, example_cluster) =
     (Err ErrNoData, example_waiting 2, example_broker, example_cluster) \<and>
   (\<forall>fuel. fst (Consume server_network fuel (example_waiting (- 1)) (example_broker, example_cluster)) = NoFuel)"
proof -
  have fetch: "consumer_fetch server_network (example_waiting l) (example_broker, example_cluster) =
      (Ok ([], None), example_waiting l, example_broker, example_cluster)" for l
    by (rule server_fetch_end[where ms = "numbered 0 (str ''t'') [zero_Message, zero_Message]"])
      (simp_all add: example_waiting_def NewConsumerConf_def example_cluster_def example_server_def NewServer_def part_log_def)
  then have empty: "empty_fetches server_network k (example_waiting l) (example_broker, example_cluster) =
      Some (example_waiting l, example_broker, example_cluster)" for k l
    by (induction k) simp_all
  have start: "c_msgbuf (example_waiting l) = []" "l = cc_RetryLimit (c_conf (example_waiting l))" for l
    by (simp_all add: example_waiting_def)
  from consume_retries[OF start, of 2 server_network "(example_broker, example_cluster)"]
    consume_retries[OF start, of "- 1" server_network "(example_broker, example_cluster)"]
  show ?thesis by (simp add: empty fetch polled_def)
qed

end
