(* ===== verification/Decoded.thy ===== *)
theory Decoded
  imports Metadata ConsumerMetadata OffsetCommit OffsetFetch OffsetQuery CreateTopics ApiVersions Produce Fetch
begin

text \<open>
  What the readers of \<open>v2/proto/messages.go\<close> return, whatever bytes they are given: a value that
  the \<open>Bytes\<close> method of its type can write and that is read again.  \<open>yields\<close> is a calculus of
  postconditions for the statements of readers; \<open>yields_intros\<close> computes weakest preconditions along a block.
\<close>

section \<open>Postconditions of readers\<close>

definition yields :: "('r \<Rightarrow> bool) \<Rightarrow> (error, decoder \<times> 'r) stmt \<Rightarrow> ('r \<Rightarrow> bool) \<Rightarrow> bool" where
  "yields P c Q \<longleftrightarrow> (\<forall>d r d' r'. P r \<longrightarrow> c (d, r) = Ok (d', r') \<longrightarrow> Q r')"

definition elem_yields :: "(decoder \<Rightarrow> (decoder \<times> 'a) res) \<Rightarrow> ('a \<Rightarrow> bool) \<Rightarrow> bool" where
  "elem_yields elem E \<longleftrightarrow> (\<forall>d d' x. elem d = Ok (d', x) \<longrightarrow> E x)"

named_theorems yields_intros

lemma yields_Nil [yields_intros]: "yields Q (block []) Q"
  by (simp add: yields_def)

lemma yields_Cons [yields_intros]:
  "yields R (block cs) Q \<Longrightarrow> yields P c R \<Longrightarrow> yields P (block (c # cs)) Q"
  by (simp add: yields_def obind_eq_Ok_conv) blast

lemma yields_append: "yields R (block cs) Q \<Longrightarrow> yields P (block bs) R \<Longrightarrow> yields P (block (bs @ cs)) Q"
  by (simp add: yields_def obind_eq_Ok_conv) blast

lemma yields_weaken: "yields P c Q \<Longrightarrow> (\<And>r. P' r \<Longrightarrow> P r) \<Longrightarrow> yields P' c Q"
  by (simp add: yields_def) blast

lemma yields_field:
  assumes "\<And>d. T (fst (dec d))"
  shows "yields (\<lambda>r. \<forall>x. T x \<longrightarrow> Q (upd x r)) (read_field dec upd) Q"
  using assms by (auto simp: yields_def read_field_def split_beta Let_def)

lemma yields_any [yields_intros]:
  "yields (\<lambda>r. \<forall>x. Q (upda x r)) (read_field DecodeInt8 upda) Q"
  "yields (\<lambda>r. \<forall>x. Q (updb x r)) (read_field DecodeInt16 updb) Q"
  "yields (\<lambda>r. \<forall>x. Q (updc x r)) (read_field DecodeInt32 updc) Q"
  "yields (\<lambda>r. \<forall>x. Q (upde x r)) (read_field DecodeInt64 upde) Q"
  "yields (\<lambda>r. \<forall>x. Q (updn x r)) (read_nonzero updn) Q"
  "yields (\<lambda>r. \<forall>x. Q (updo x r)) (read_is_one updo) Q"
  "yields Q (skip_field dec) Q"
  "yields Q check_err Q"
  "yields R check_errcode R"
  "yields (\<lambda>r. S (r\<lparr>te_Err := errFromNo (te_ErrorCode r)\<rparr>)) set_topic_error S"
  by (auto simp: yields_def read_field_def read_nonzero_def read_is_one_def skip_field_def check_err_def
      check_errcode_def set_topic_error_def split_beta Let_def split: option.splits if_splits)

lemma ReadFull_length: "fst (ReadFull n r) = (b, None) \<Longrightarrow> length b = n"
  by (auto simp: ReadFull_def Let_def split: if_splits)

lemma read_payload_length: "length (bytes_of (fst (read_payload n d))) \<le> n"
  by (auto simp: read_payload_def split: prod.splits option.splits)

lemma wf_DecodeString: "wf_string (fst (DecodeString d))"
proof -
  have "nat (sint (n :: int16)) < 32768" for n using sint_lt[of n] by (simp add: nat_less_iff)
  then have "length (bytes_of (fst (read_payload (nat (sint (n :: int16))) d))) < 32768" for n d
    using read_payload_length le_less_trans by blast
  then show ?thesis
    by (simp add: DecodeString_def wf_string_def split_beta Let_def string_buffer_def allocParseBuf_def)
qed

lemma wf_empty [simp]: "wf_string []" "wf_array []" "wire_error None"
  by (simp_all add: wf_string_def wf_array_def wire_error_def)

lemma yields_String [yields_intros]:
  "yields (\<lambda>r. \<forall>x. wf_string x \<longrightarrow> Q (upd x r)) (read_field DecodeString upd) Q"
  by (rule yields_field) (rule wf_DecodeString)

lemma cast_back: "(ucast (scast (n :: int32) :: int64) :: int32) = n"
  by (rule bit_word_eqI) (auto simp: bit_simps)

lemma wire_duration_idem: "wire_duration (scast (n :: int32) * of_int Millisecond) = scast n * of_int Millisecond"
proof -
  have "- (2 ^ 31) \<le> sint n" "sint n < 2 ^ 31" using sint_ge[of n] sint_lt[of n] by simp_all
  then have "quot64 (of_int (sint n * Millisecond)) Millisecond = of_int (sint n)"
    by (intro quot64_exact) (simp_all add: Millisecond_def)
  then have "quot64 (scast n * of_int Millisecond) Millisecond = scast n" by simp
  then show ?thesis unfolding wire_duration_def by (simp only: cast_back)
qed

lemma yields_Duration [yields_intros]:
  "yields (\<lambda>r. \<forall>x. wire_duration x = x \<longrightarrow> Q (upd x r)) (read_field DecodeDuration32 upd) Q"
  by (rule yields_field) (simp add: DecodeDuration32_def split_beta Let_def wire_duration_idem)

text \<open>
  A time survives the wire exactly when it is a whole number of milliseconds, which the times that are read are
  unless their milliseconds, in nanoseconds, do not fit 64 bits.
\<close>

definition whole_ms :: "gotime \<Rightarrow> bool" where
  "whole_ms t \<longleftrightarrow> sint (UnixNano t) mod Millisecond = 0"

lemma truncated:
  fixes s k :: int
  assumes "0 < k"
  shows "sgn s * (\<bar>s\<bar> div k) * k = s \<longleftrightarrow> s mod k = 0"
    and "min s 0 \<le> sgn s * (\<bar>s\<bar> div k) * k" and "sgn s * (\<bar>s\<bar> div k) * k \<le> max s 0"
proof -
  define q where "q = \<bar>s\<bar> div k * k"
  have "q = \<bar>s\<bar> - \<bar>s\<bar> mod k" by (simp add: q_def minus_mod_eq_div_mult)
  moreover have "\<bar>s\<bar> mod k = 0 \<longleftrightarrow> s mod k = 0" by (simp add: mod_eq_0_iff_dvd)
  ultimately have whole: "q = \<bar>s\<bar> \<longleftrightarrow> s mod k = 0" by linarith
  have "0 \<le> q" "q \<le> \<bar>s\<bar>"
    using assms \<open>q = \<bar>s\<bar> - \<bar>s\<bar> mod k\<close> zmod_le_nonneg_dividend[of "\<bar>s\<bar>" k]
    by (simp_all add: q_def pos_imp_zdiv_nonneg_iff)
  moreover have q: "sgn s * (\<bar>s\<bar> div k) * k = sgn s * q" by (simp add: q_def)
  ultimately show "sgn s * (\<bar>s\<bar> div k) * k = s \<longleftrightarrow> s mod k = 0" "min s 0 \<le> sgn s * (\<bar>s\<bar> div k) * k"
    "sgn s * (\<bar>s\<bar> div k) * k \<le> max s 0"
    using whole unfolding q by (auto simp: sgn_if)
qed

lemma wire_time_whole: "wire_time (UnixTime n) = UnixTime n \<longleftrightarrow> whole_ms (UnixTime n)"
proof -
  let ?m = "sgn (sint n) * (\<bar>sint n\<bar> div Millisecond) * Millisecond"
  have pos: "0 < Millisecond" by (simp add: Millisecond_def)
  have "- (2 ^ 63) \<le> sint n" "sint n < 2 ^ 63" using sint_ge[of n] sint_lt[of n] by simp_all
  then have "- (2 ^ 63) \<le> ?m" "?m < 2 ^ 63"
    using truncated(2,3)[OF pos, of "sint n"] by linarith+
  then have "sint (of_int ?m :: int64) = ?m" by (rule sint_of_int64)
  moreover have "wire_time (UnixTime n) = UnixTime (of_int ?m)"
    using pos by (simp add: wire_time_def quot64_def)
  moreover have "of_int ?m = n \<longleftrightarrow> ?m = sint n" using calculation(1) by (metis signed_word_eqI)
  ultimately show ?thesis using truncated(1)[OF pos, of "sint n"] by (simp add: whole_ms_def)
qed

lemma whole_ms_small: "\<bar>sint x * Millisecond\<bar> < 2 ^ 63 \<Longrightarrow> whole_ms (UnixTime (x * of_int Millisecond))"
proof -
  assume "\<bar>sint x * Millisecond\<bar> < 2 ^ 63"
  then have "sint (of_int (sint x * Millisecond) :: int64) = sint x * Millisecond"
    by (intro sint_of_int64) (simp_all add: abs_less_iff)
  then show ?thesis by (simp add: whole_ms_def)
qed

text \<open>An error number the driver does not know becomes an error that cannot be written.\<close>

definition known_error :: "goerror \<Rightarrow> bool" where
  "known_error err \<longleftrightarrow> (\<forall>n. err \<noteq> Some (UnknownKafkaErrno n))"

lemma table_errors:
  "e \<in> set (kafkaErrors[32 := ErrInvalidCommitOffsetSize]) \<Longrightarrow> e \<in> set kafkaErrors \<and> e \<noteq> ErrInvalidTimeStamp"
proof -
  assume e: "e \<in> set (kafkaErrors[32 := ErrInvalidCommitOffsetSize])"
  have len: "32 < length kafkaErrors" by (simp add: kafkaErrors_def)
  have distinct: "distinct kafkaErrors" using errnos_distinct by (simp add: distinct_map)
  have other: "ErrInvalidCommitOffsetSize \<in> set kafkaErrors" "ErrInvalidCommitOffsetSize \<noteq> ErrInvalidTimeStamp"
    by (simp add: kafkaErrors_def) (simp add: kafka_error_defs KafkaError.make_def)
  from e obtain i where i: "i < length kafkaErrors" "e = kafkaErrors[32 := ErrInvalidCommitOffsetSize] ! i"
    by (auto simp: in_set_conv_nth)
  show "e \<in> set kafkaErrors \<and> e \<noteq> ErrInvalidTimeStamp"
  proof (cases "i = 32")
    case True
    with i other show ?thesis by simp
  next
    case False
    with i nth_eq_iff_index_eq[OF distinct _ len, of i] show ?thesis by (simp add: kafkaErrors_nth_32)
  qed
qed

lemma errFromNo_known: "known_error (errFromNo n) \<Longrightarrow> wire_error (errFromNo n)"
proof (cases "n = 0 \<or> errnoToErr n = None")
  case True
  then show "known_error (errFromNo n) \<Longrightarrow> wire_error (errFromNo n)"
    by (auto simp: errFromNo_def known_error_def wire_error_def)
next
  case False
  then obtain e where e: "errnoToErr n = Some e" "n \<noteq> 0" by auto
  then have "e \<in> set (map snd errnoTable)" by (force simp: errnoToErr_def dest: map_of_SomeD)
  then have "e \<in> set kafkaErrors \<and> e \<noteq> ErrInvalidTimeStamp"
    unfolding errnoTable_values by (rule table_errors)
  with e show "wire_error (errFromNo n)" by (simp add: errFromNo_def wire_error_def)
qed

lemma yields_error [yields_intros]:
  "yields (\<lambda>r. \<forall>x. (known_error x \<longrightarrow> wire_error x) \<longrightarrow> Q (upd x r)) (read_error upd) Q"
  by (auto simp: yields_def read_error_def read_field_def split_beta Let_def errFromNo_known)

lemma yields_if [yields_intros]:
  "yields P (block cs) Q \<Longrightarrow> yields (\<lambda>r. if b then P r else Q r) (if_do (\<lambda>_. b) cs) Q"
  "yields P (block cs) Q \<Longrightarrow> yields (\<lambda>r. if f r then P r else Q r) (if_do (\<lambda>(d, r). f r) cs) Q"
  "yields P (block cs) Q \<Longrightarrow> yields P' (block cs') Q \<Longrightarrow>
     yields (\<lambda>r. if b then P r else P' r) (if_else (\<lambda>_. b) cs cs') Q"
  by (auto simp: yields_def if_do_def if_else_def split: if_splits)

lemma yields_dep [yields_intros]:
  "(\<And>k. yields (P k) (f k) Q) \<Longrightarrow> yields (\<lambda>r. P (key r) r) (dep key f) Q"
  by (auto simp: yields_def dep_def)

lemma for_range_yields:
  assumes "elem_yields elem E"
  shows "for_range n elem d = Ok (d', xs) \<Longrightarrow> list_all E xs"
  using assms
  by (induction n arbitrary: d xs) (auto simp: obind_eq_Ok_conv elem_yields_def split: prod.splits)

lemma DecodeArrayLen_bound: "DecodeArrayLen d = ((n, err), d') \<Longrightarrow> n < 2147483648"
  using sint_lt[of "fst (DecodeInt32 d)"]
  by (auto simp: DecodeArrayLen_def split_beta Let_def split: if_splits)

lemma yields_array [yields_intros]:
  assumes "elem_yields elem E"
  shows "yields (\<lambda>r. \<forall>xs. wf_array xs \<longrightarrow> list_all E xs \<longrightarrow> Q (upd xs r)) (read_array elem upd) Q"
    "yields (\<lambda>r. \<forall>xs. wf_array xs \<longrightarrow> list_all E xs \<longrightarrow> Q (upd xs r)) (read_array_unchecked elem upd) Q"
proof -
  have arr: "wf_array xs \<and> list_all E xs"
    if "DecodeArrayLen d = ((n, err), d1)" "make_len n = Ok k" "for_range k elem d1 = Ok (d2, xs)" for d n err d1 k d2 xs
    using DecodeArrayLen_bound[OF that(1)] that(2) for_range_length[OF that(3)] for_range_yields[OF assms that(3)]
    by (auto simp: make_len_def wf_array_def split: if_splits)
  show "yields (\<lambda>r. \<forall>xs. wf_array xs \<longrightarrow> list_all E xs \<longrightarrow> Q (upd xs r)) (read_array elem upd) Q"
    by (auto simp: yields_def read_array_def obind_eq_Ok_conv dest: arr split: prod.splits option.splits)
  show "yields (\<lambda>r. \<forall>xs. wf_array xs \<longrightarrow> list_all E xs \<longrightarrow> Q (upd xs r)) (read_array_unchecked elem upd) Q"
    by (auto simp: yields_def read_array_unchecked_def obind_eq_Ok_conv dest: arr split: prod.splits)
qed

lemma elem_yields_prim [yields_intros]:
  "elem_yields (prim DecodeInt32) (\<lambda>_. True)"
  "elem_yields (prim DecodeInt64) (\<lambda>_. True)"
  "elem_yields (prim DecodeString) wf_string"
  by (auto simp: elem_yields_def prim_def split_beta Let_def wf_DecodeString)

lemma elem_yields_struct:
  "yields P (block body) E \<Longrightarrow> P zero \<Longrightarrow> elem_yields (struct body zero) E"
  by (auto simp: yields_def elem_yields_def struct_def)

text \<open>Every value a reader returns has the property.\<close>

definition returns :: "(reader \<Rightarrow> 'r res) \<Rightarrow> ('r \<Rightarrow> bool) \<Rightarrow> bool" where
  "returns Read Q \<longleftrightarrow> (\<forall>rd r. Read rd = Ok r \<longrightarrow> Q r)"

lemma returnsD: "returns Read Q \<Longrightarrow> Read rd = Ok r \<Longrightarrow> Q r"
  by (simp add: returns_def)

lemma reader_returns: "yields P (block body) Q \<Longrightarrow> P zero \<Longrightarrow> returns (run_reader body zero) Q"
  using yields_append[of Q "[check_err]" Q P body] yields_any(8)[of Q]
  by (fastforce simp: run_reader_def returns_def yields_def obind_eq_Ok_conv simp del: block_append)

section \<open>Requests\<close>

lemma yields_header [yields_intros]:
  "yields (\<lambda>r. \<forall>v i c. wf_string c \<longrightarrow> Q (SetClientID c (SetCorrelationID i (SetVersion v r)))) (block decodeHeader) Q"
  unfolding decodeHeader_def
  by (rule yields_Cons[OF yields_Cons[OF yields_Cons[OF yields_Cons[OF yields_Cons[OF yields_Nil]]]], THEN yields_weaken],
      (rule yields_intros)+) auto

lemmas headers = SetVersion_def SetCorrelationID_def SetClientID_def wf_header_def

lemma request_returns:
  assumes "yields P (block body) Q"
    and "\<And>v i c. wf_string c \<Longrightarrow> P (SetClientID c (SetCorrelationID i (SetVersion v zero)))"
  shows "returns (run_reader (decodeHeader @ body) zero) Q"
  by (rule reader_returns[OF yields_append[OF assms(1) yields_header]]) (simp add: assms(2))

lemma decoded_MetadataReq: "returns ReadMetadataReq (\<lambda>r. wf_MetadataReq r \<and> norm_MetadataReq r = r)"
  unfolding ReadMetadataReq_def ReadMetadataReq_body_def
  by (rule request_returns, (rule yields_intros)+)
    (auto simp: wf_MetadataReq_def norm_MetadataReq_def zero_MetadataReq_def headers)

lemma decoded_OffsetCommitReqPartition [yields_intros]:
  "elem_yields (struct (read_OffsetCommitReqPartition v) zero_OffsetCommitReqPartition) (\<lambda>x. wf_string (ocqp_Metadata x) \<and>
     ((v = KafkaV1 \<longrightarrow> whole_ms (ocqp_TimeStamp x)) \<longrightarrow> norm_OffsetCommitReqPartition v x = x))"
  unfolding read_OffsetCommitReqPartition_def
  by (rule elem_yields_struct, (rule yields_intros)+)
    (auto simp: zero_OffsetCommitReqPartition_def norm_OffsetCommitReqPartition_def wire_time_whole)

lemma decoded_OffsetCommitReqTopic [yields_intros]:
  "elem_yields (struct (read_OffsetCommitReqTopic v) zero_OffsetCommitReqTopic) (\<lambda>x. wf_OffsetCommitReqTopic x \<and>
     ((v = KafkaV1 \<longrightarrow> list_all whole_ms (map ocqp_TimeStamp (ocqt_Partitions x))) \<longrightarrow> norm_OffsetCommitReqTopic v x = x))"
  unfolding read_OffsetCommitReqTopic_def
  by (rule elem_yields_struct, (rule yields_intros)+)
    (auto simp: zero_OffsetCommitReqTopic_def wf_OffsetCommitReqTopic_def norm_OffsetCommitReqTopic_def list_all_iff map_idI)

text \<open>The times of a commit that the wire carries, at version 1 only.\<close>

definition times_OffsetCommitReq :: "OffsetCommitReq \<Rightarrow> gotime list" where
  "times_OffsetCommitReq q =
     (if version q = KafkaV1 then concat (map (\<lambda>t. map ocqp_TimeStamp (ocqt_Partitions t)) (ocq_Topics q)) else [])"

lemma decoded_OffsetCommitReq:
  "returns ReadOffsetCommitReq (\<lambda>q. wf_OffsetCommitReq q \<and>
     (list_all whole_ms (times_OffsetCommitReq q) \<longrightarrow> norm_OffsetCommitReq q = q))"
  unfolding ReadOffsetCommitReq_def ReadOffsetCommitReq_body_def
  by (rule request_returns, (rule yields_intros)+)
    (auto simp: wf_OffsetCommitReq_def norm_OffsetCommitReq_def times_OffsetCommitReq_def zero_OffsetCommitReq_def headers
      list_all_iff intro!: map_idI)

lemma decoded_OffsetFetchReqTopic [yields_intros]:
  "elem_yields (struct read_OffsetFetchReqTopic zero_OffsetFetchReqTopic) (\<lambda>x. wf_OffsetFetchReqTopic x)"
  unfolding read_OffsetFetchReqTopic_def
  by (rule elem_yields_struct, (rule yields_intros)+) (auto simp: zero_OffsetFetchReqTopic_def wf_OffsetFetchReqTopic_def)

lemma decoded_OffsetFetchReq: "returns ReadOffsetFetchReq wf_OffsetFetchReq"
  unfolding ReadOffsetFetchReq_def
  by (rule request_returns, (rule yields_intros)+)
    (auto simp: wf_OffsetFetchReq_def zero_OffsetFetchReq_def headers)

lemma decoded_OffsetReqPartition [yields_intros]:
  "elem_yields (struct (read_OffsetReqPartition v) zero_OffsetReqPartition) (\<lambda>x. norm_OffsetReqPartition v x = x)"
  unfolding read_OffsetReqPartition_def
  by (rule elem_yields_struct, (rule yields_intros)+) (auto simp: zero_OffsetReqPartition_def norm_OffsetReqPartition_def)

lemma decoded_OffsetReqTopic [yields_intros]:
  "elem_yields (struct (read_OffsetReqTopic v) zero_OffsetReqTopic) (\<lambda>x. wf_OffsetReqTopic x \<and> norm_OffsetReqTopic v x = x)"
  unfolding read_OffsetReqTopic_def
  by (rule elem_yields_struct, (rule yields_intros)+) (auto simp: zero_OffsetReqTopic_def wf_OffsetReqTopic_def norm_OffsetReqTopic_def list_all_iff map_idI)

lemma decoded_OffsetReq:
  "returns ReadOffsetReq (\<lambda>r. wf_OffsetReq r \<and> norm_OffsetReq r = r\<lparr>oq_ReplicaID := - 1\<rparr>)"
  unfolding ReadOffsetReq_def
  by (rule request_returns, (rule yields_intros)+)
    (auto simp: wf_OffsetReq_def norm_OffsetReq_def zero_OffsetReq_def headers list_all_iff map_idI)

lemma decoded_FetchReqPartition [yields_intros]:
  "elem_yields (struct (read_FetchReqPartition v) zero_FetchReqPartition) (\<lambda>x. norm_FetchReqPartition v x = x)"
  unfolding read_FetchReqPartition_def
  by (rule elem_yields_struct, (rule yields_intros)+) (auto simp: zero_FetchReqPartition_def norm_FetchReqPartition_def)

lemma decoded_FetchReqTopic [yields_intros]:
  "elem_yields (struct (read_FetchReqTopic v) zero_FetchReqTopic) (\<lambda>x. wf_FetchReqTopic x \<and> norm_FetchReqTopic v x = x)"
  unfolding read_FetchReqTopic_def
  by (rule elem_yields_struct, (rule yields_intros)+) (auto simp: zero_FetchReqTopic_def wf_FetchReqTopic_def norm_FetchReqTopic_def list_all_iff map_idI)

lemma decoded_FetchReq:
  "returns ReadFetchReq (\<lambda>r. wf_FetchReq r \<and> norm_FetchReq r = r\<lparr>fq_ReplicaID := - 1\<rparr>)"
  unfolding ReadFetchReq_def
  by (rule request_returns, (rule yields_intros)+)
    (auto simp: wf_FetchReq_def norm_FetchReq_def zero_FetchReq_def headers list_all_iff map_idI)

lemma decoded_ReplicaAssignment [yields_intros]:
  "elem_yields (struct read_ReplicaAssignment zero_ReplicaAssignment) (\<lambda>x. wf_ReplicaAssignment x)"
  unfolding read_ReplicaAssignment_def
  by (rule elem_yields_struct, (rule yields_intros)+) (auto simp: zero_ReplicaAssignment_def wf_ReplicaAssignment_def)

lemma decoded_ConfigEntry [yields_intros]:
  "elem_yields (struct read_ConfigEntry zero_ConfigEntry) (\<lambda>x. wf_ConfigEntry x)"
  unfolding read_ConfigEntry_def
  by (rule elem_yields_struct, (rule yields_intros)+) (auto simp: zero_ConfigEntry_def wf_ConfigEntry_def)

lemma decoded_TopicInfo [yields_intros]:
  "elem_yields (struct read_TopicInfo zero_TopicInfo) (\<lambda>x. wf_TopicInfo x)"
  unfolding read_TopicInfo_def
  by (rule elem_yields_struct, (rule yields_intros)+) (auto simp: zero_TopicInfo_def wf_TopicInfo_def)

lemma decoded_CreateTopicsReq: "returns ReadCreateTopicsReq (\<lambda>r. wf_CreateTopicsReq r \<and> norm_CreateTopicsReq r = r)"
  unfolding ReadCreateTopicsReq_def
  by (rule request_returns, (rule yields_intros)+)
    (auto simp: wf_CreateTopicsReq_def norm_CreateTopicsReq_def zero_CreateTopicsReq_def headers)

lemma decoded_APIVersionsReq: "returns ReadAPIVersionsReq (\<lambda>r. wf_header r \<and> norm_APIVersionsReq r = r)"
  unfolding ReadAPIVersionsReq_def
  by (rule reader_returns, (rule yields_intros)+)
    (auto simp: norm_APIVersionsReq_def zero_APIVersionsReq_def headers)

lemma decoded_ConsumerMetadataReq:
  "returns ReadConsumerMetadataReq (\<lambda>r. wf_ConsumerMetadataReq r \<and> 
     (\<not> KafkaV1 \<le>s version r \<longrightarrow> r\<lparr>cq_CoordinatorType := 0\<rparr> = r))"
  unfolding ReadConsumerMetadataReq_def
  by (rule request_returns, (rule yields_intros)+)
    (auto simp: wf_ConsumerMetadataReq_def zero_ConsumerMetadataReq_def headers)

section \<open>Responses\<close>

text \<open>The errors in a response.\<close>

definition errors_MetadataResp :: "MetadataResp \<Rightarrow> goerror list" where
  "errors_MetadataResp r = concat (map (\<lambda>t. mt_Err t # map mp_Err (mt_Partitions t)) (mr_Topics r))"

definition errors_OffsetCommitResp :: "OffsetCommitResp \<Rightarrow> goerror list" where
  "errors_OffsetCommitResp r = concat (map (\<lambda>t. map ocrp_Err (ocrt_Partitions t)) (ocr_Topics r))"

definition errors_OffsetFetchResp :: "OffsetFetchResp \<Rightarrow> goerror list" where
  "errors_OffsetFetchResp r = ofr_Err r # concat (map (\<lambda>t. map ofrp_Err (ofrt_Partitions t)) (ofr_Topics r))"

definition errors_OffsetResp :: "OffsetResp \<Rightarrow> goerror list" where
  "errors_OffsetResp r = concat (map (\<lambda>t. map orp_Err (ort_Partitions t)) (or_Topics r))"

definition errors_ProduceResp :: "ProduceResp \<Rightarrow> goerror list" where
  "errors_ProduceResp r = concat (map (\<lambda>t. map prp_Err (prt_Partitions t)) (pr_Topics r))"

lemma decoded_MetadataRespBroker [yields_intros]:
  "elem_yields (struct (read_MetadataRespBroker v) zero_MetadataRespBroker) (\<lambda>x. wf_MetadataRespBroker x \<and> norm_MetadataRespBroker v x = x)"
  unfolding read_MetadataRespBroker_def
  by (rule elem_yields_struct, (rule yields_intros)+) (auto simp: zero_MetadataRespBroker_def wf_MetadataRespBroker_def norm_MetadataRespBroker_def)

lemma decoded_MetadataRespPartition [yields_intros]:
  "elem_yields (struct (read_MetadataRespPartition v) zero_MetadataRespPartition) (\<lambda>x. (known_error (mp_Err x) \<longrightarrow> wf_MetadataRespPartition x) \<and> norm_MetadataRespPartition v x = x)"
  unfolding read_MetadataRespPartition_def
  by (rule elem_yields_struct, (rule yields_intros)+) (auto simp: zero_MetadataRespPartition_def wf_MetadataRespPartition_def norm_MetadataRespPartition_def)

lemma decoded_MetadataRespTopic [yields_intros]:
  "elem_yields (struct (read_MetadataRespTopic v) zero_MetadataRespTopic) (\<lambda>x. (list_all known_error (mt_Err x # map mp_Err (mt_Partitions x)) \<longrightarrow> wf_MetadataRespTopic x) \<and>
      norm_MetadataRespTopic v x = x)"
  unfolding read_MetadataRespTopic_def
  by (rule elem_yields_struct, (rule yields_intros)+) (auto simp: zero_MetadataRespTopic_def wf_MetadataRespTopic_def norm_MetadataRespTopic_def list_all_iff map_idI)

lemma decoded_MetadataResp:
  "returns (ReadVersionedMetadataResp v) (\<lambda>r. mr_Version r = v \<and> norm_MetadataResp r = r \<and>
     (list_all known_error (errors_MetadataResp r) \<longrightarrow> wf_MetadataResp r))"
  unfolding ReadVersionedMetadataResp_def
  by (rule reader_returns, (rule yields_intros)+)
    (auto simp: wf_MetadataResp_def norm_MetadataResp_def zero_MetadataResp_def errors_MetadataResp_def
      Let_def list_all_iff map_idI)

lemma decoded_ConsumerMetadataResp:
  "returns (ReadVersionedConsumerMetadataResp v) (\<lambda>r. cr_Version r = v \<and> norm_ConsumerMetadataResp r = r \<and>
     (known_error (cr_Err r) \<longrightarrow> wf_ConsumerMetadataResp r))"
  unfolding ReadVersionedConsumerMetadataResp_def
  by (rule reader_returns, (rule yields_intros)+)
    (auto simp: wf_ConsumerMetadataResp_def norm_ConsumerMetadataResp_def zero_ConsumerMetadataResp_def)

lemma decoded_OffsetCommitRespPartition [yields_intros]:
  "elem_yields (struct read_OffsetCommitRespPartition zero_OffsetCommitRespPartition) (\<lambda>x. known_error (ocrp_Err x) \<longrightarrow> wire_error (ocrp_Err x))"
  unfolding read_OffsetCommitRespPartition_def
  by (rule elem_yields_struct, (rule yields_intros)+) (auto simp: zero_OffsetCommitRespPartition_def )

lemma decoded_OffsetCommitRespTopic [yields_intros]:
  "elem_yields (struct read_OffsetCommitRespTopic zero_OffsetCommitRespTopic) (\<lambda>x. list_all known_error (map ocrp_Err (ocrt_Partitions x)) \<longrightarrow> wf_OffsetCommitRespTopic x)"
  unfolding read_OffsetCommitRespTopic_def
  by (rule elem_yields_struct, (rule yields_intros)+) (auto simp: zero_OffsetCommitRespTopic_def wf_OffsetCommitRespTopic_def list_all_iff map_idI)

lemma decoded_OffsetCommitResp:
  "returns (ReadVersionedOffsetCommitResp v) (\<lambda>r. ocr_Version r = v \<and> norm_OffsetCommitResp r = r \<and>
     (list_all known_error (errors_OffsetCommitResp r) \<longrightarrow> wf_OffsetCommitResp r))"
  unfolding ReadVersionedOffsetCommitResp_def
  by (rule reader_returns, (rule yields_intros)+)
    (auto simp: wf_OffsetCommitResp_def norm_OffsetCommitResp_def zero_OffsetCommitResp_def errors_OffsetCommitResp_def
      list_all_iff)

lemma decoded_OffsetFetchRespPartition [yields_intros]:
  "elem_yields (struct read_OffsetFetchRespPartition zero_OffsetFetchRespPartition) (\<lambda>x. known_error (ofrp_Err x) \<longrightarrow> wf_OffsetFetchRespPartition x)"
  unfolding read_OffsetFetchRespPartition_def
  by (rule elem_yields_struct, (rule yields_intros)+) (auto simp: zero_OffsetFetchRespPartition_def wf_OffsetFetchRespPartition_def)

lemma decoded_OffsetFetchRespTopic [yields_intros]:
  "elem_yields (struct read_OffsetFetchRespTopic zero_OffsetFetchRespTopic) (\<lambda>x. list_all known_error (map ofrp_Err (ofrt_Partitions x)) \<longrightarrow> wf_OffsetFetchRespTopic x)"
  unfolding read_OffsetFetchRespTopic_def
  by (rule elem_yields_struct, (rule yields_intros)+) (auto simp: zero_OffsetFetchRespTopic_def wf_OffsetFetchRespTopic_def list_all_iff map_idI)

lemma decoded_OffsetFetchResp:
  "returns (ReadVersionedOffsetFetchResp v) (\<lambda>r. ofr_Version r = v \<and> norm_OffsetFetchResp r = r \<and>
     (list_all known_error (errors_OffsetFetchResp r) \<longrightarrow> wf_OffsetFetchResp r))"
  unfolding ReadVersionedOffsetFetchResp_def
  by (rule reader_returns, (rule yields_intros)+)
    (auto simp: wf_OffsetFetchResp_def norm_OffsetFetchResp_def zero_OffsetFetchResp_def errors_OffsetFetchResp_def
      list_all_iff)

lemma decoded_OffsetRespPartition [yields_intros]:
  "elem_yields (struct (read_OffsetRespPartition v) zero_OffsetRespPartition) (\<lambda>x. (known_error (orp_Err x) \<longrightarrow> wf_OffsetRespPartition x) \<and>
     ((KafkaV1 \<le>s v \<longrightarrow> whole_ms (orp_TimeStamp x)) \<longrightarrow> norm_OffsetRespPartition v x = x))"
  unfolding read_OffsetRespPartition_def
  by (rule elem_yields_struct, (rule yields_intros)+)
    (auto simp: zero_OffsetRespPartition_def wf_OffsetRespPartition_def wf_array_def norm_OffsetRespPartition_def
      first_offset_def wire_time_whole)

lemma decoded_OffsetRespTopic [yields_intros]:
  "elem_yields (struct (read_OffsetRespTopic v) zero_OffsetRespTopic) (\<lambda>x. (list_all known_error (map orp_Err (ort_Partitions x)) \<longrightarrow> wf_OffsetRespTopic x) \<and>
     ((KafkaV1 \<le>s v \<longrightarrow> list_all whole_ms (map orp_TimeStamp (ort_Partitions x))) \<longrightarrow> norm_OffsetRespTopic v x = x))"
  unfolding read_OffsetRespTopic_def
  by (rule elem_yields_struct, (rule yields_intros)+)
    (auto simp: zero_OffsetRespTopic_def wf_OffsetRespTopic_def norm_OffsetRespTopic_def list_all_iff map_idI)

text \<open>The times of an offset response that the wire carries, from version 1 on.\<close>

definition times_OffsetResp :: "OffsetResp \<Rightarrow> gotime list" where
  "times_OffsetResp r =
     (if KafkaV1 \<le>s or_Version r then concat (map (\<lambda>t. map orp_TimeStamp (ort_Partitions t)) (or_Topics r)) else [])"

lemma decoded_OffsetResp:
  "returns (ReadVersionedOffsetResp v) (\<lambda>r. or_Version r = v \<and>
     (list_all known_error (errors_OffsetResp r) \<longrightarrow> wf_OffsetResp r) \<and>
     (list_all whole_ms (times_OffsetResp r) \<longrightarrow> norm_OffsetResp r = r))"
  unfolding ReadVersionedOffsetResp_def
  by (rule reader_returns, (rule yields_intros)+)
    (auto simp: wf_OffsetResp_def norm_OffsetResp_def times_OffsetResp_def zero_OffsetResp_def errors_OffsetResp_def
      list_all_iff intro!: map_idI)

lemma decoded_TopicError [yields_intros]:
  "elem_yields (struct (read_TopicError v) zero_TopicError) (\<lambda>x. wf_TopicError x \<and> norm_TopicError v x = x)"
  unfolding read_TopicError_def
  by (rule elem_yields_struct, (rule yields_intros)+) (auto simp: zero_TopicError_def wf_TopicError_def norm_TopicError_def)

lemma decoded_CreateTopicsResp:
  "returns (ReadVersionedCreateTopicsResp v) (\<lambda>r. ctr_Version r = v \<and> norm_CreateTopicsResp r = r \<and>
     wf_CreateTopicsResp r)"
  unfolding ReadVersionedCreateTopicsResp_def
  by (rule reader_returns, (rule yields_intros)+)
    (auto simp: wf_CreateTopicsResp_def norm_CreateTopicsResp_def zero_CreateTopicsResp_def list_all_iff map_idI)

lemma decoded_SupportedVersion [yields_intros]:
  "elem_yields (struct read_SupportedVersion zero_SupportedVersion) (\<lambda>x. True)"
  unfolding read_SupportedVersion_def
  by (rule elem_yields_struct, (rule yields_intros)+) (auto simp: zero_SupportedVersion_def )

lemma decoded_APIVersionsResp:
  "returns (ReadVersionedAPIVersionsResp v) (\<lambda>r. av_Version r = v \<and> norm_APIVersionsResp r = r \<and>
     wf_APIVersionsResp r)"
  unfolding ReadVersionedAPIVersionsResp_def
  by (rule reader_returns, (rule yields_intros)+)
    (auto simp: wf_APIVersionsResp_def norm_APIVersionsResp_def zero_APIVersionsResp_def)

lemma decoded_ProduceRespPartition [yields_intros]:
  "elem_yields (struct (read_ProduceRespPartition v) zero_ProduceRespPartition) (\<lambda>x. (known_error (prp_Err x) \<longrightarrow> wf_ProduceRespPartition x) \<and> norm_ProduceRespPartition v x = x)"
  unfolding read_ProduceRespPartition_def
  by (rule elem_yields_struct, (rule yields_intros)+) (auto simp: zero_ProduceRespPartition_def wf_ProduceRespPartition_def norm_ProduceRespPartition_def)

lemma decoded_ProduceRespTopic [yields_intros]:
  "elem_yields (struct (read_ProduceRespTopic v) zero_ProduceRespTopic) (\<lambda>x. (list_all known_error (map prp_Err (prt_Partitions x)) \<longrightarrow> wf_ProduceRespTopic x) \<and>
      norm_ProduceRespTopic v x = x)"
  unfolding read_ProduceRespTopic_def
  by (rule elem_yields_struct, (rule yields_intros)+) (auto simp: zero_ProduceRespTopic_def wf_ProduceRespTopic_def norm_ProduceRespTopic_def list_all_iff map_idI)

lemma decoded_ProduceResp:
  "returns (ReadVersionedProduceResp v) (\<lambda>r. pr_Version r = v \<and> norm_ProduceResp r = r \<and>
     (list_all known_error (errors_ProduceResp r) \<longrightarrow> wf_ProduceResp r))"
  unfolding ReadVersionedProduceResp_def
  by (rule reader_returns, (rule yields_intros)+)
    (auto simp: wf_ProduceResp_def norm_ProduceResp_def zero_ProduceResp_def errors_ProduceResp_def
      list_all_iff map_idI)

section \<open>Properties\<close>

text \<open>
  C20.  Whatever bytes they are given, the readers of metadata, offset fetch, create topics, API versions, fetch,
  offset and offset commit requests return only requests that can be written and are then read as the same request.  The
  exceptions: the replica ID of fetch and offset requests, which is always written as -1, and the times of a commit of version
  1 that are not whole milliseconds.  The reader of consumer metadata requests returns requests that can be written, too, and
  that are read as the same request before version 1; from version 1 on what \<open>Bytes\<close> writes for them is rejected by the
  reader, since the coordinator type is read and never written.  \<open>ReadProduceReq\<close> is not among these readers: a produce
  request of several partitions is not read back.
\<close>

lemma decoded_requests:
  "returns ReadMetadataReq (\<lambda>q. round_trips (MetadataReq_Bytes q) ReadMetadataReq q) \<and>
   returns ReadOffsetFetchReq (\<lambda>q. round_trips (OffsetFetchReq_Bytes q) ReadOffsetFetchReq q) \<and>
   returns ReadCreateTopicsReq (\<lambda>q. round_trips (CreateTopicsReq_Bytes q) ReadCreateTopicsReq q) \<and>
   returns ReadAPIVersionsReq (\<lambda>q. round_trips (APIVersionsReq_Bytes q) ReadAPIVersionsReq q) \<and>
   returns ReadFetchReq (\<lambda>q. round_trips (FetchReq_Bytes q) ReadFetchReq (q\<lparr>fq_ReplicaID := - 1\<rparr>)) \<and>
   returns ReadOffsetReq (\<lambda>q. round_trips (OffsetReq_Bytes q) ReadOffsetReq (q\<lparr>oq_ReplicaID := - 1\<rparr>)) \<and>
   returns ReadOffsetCommitReq (\<lambda>q.
     round_trips (OffsetCommitReq_Bytes q) ReadOffsetCommitReq (norm_OffsetCommitReq q) \<and>
     (list_all whole_ms (times_OffsetCommitReq q) \<longrightarrow> norm_OffsetCommitReq q = q)) \<and>
   returns ReadConsumerMetadataReq (\<lambda>q. if KafkaV1 \<le>s version q
     then \<exists>b. ConsumerMetadataReq_Bytes q = Ok b \<and> ReadConsumerMetadataReq (NewReader b) = Err EOF
     else round_trips (ConsumerMetadataReq_Bytes q) ReadConsumerMetadataReq q)"
proof (intro conjI)
  show "returns ReadConsumerMetadataReq (\<lambda>q. if KafkaV1 \<le>s version q
     then \<exists>b. ConsumerMetadataReq_Bytes q = Ok b \<and> ReadConsumerMetadataReq (NewReader b) = Err EOF
     else round_trips (ConsumerMetadataReq_Bytes q) ReadConsumerMetadataReq q)"
    using decoded_ConsumerMetadataReq unfolding returns_def
    by (metis ConsumerMetadataReq.round_trip ConsumerMetadataReq_V1_rejected)
  show "returns ReadOffsetCommitReq (\<lambda>q.
     round_trips (OffsetCommitReq_Bytes q) ReadOffsetCommitReq (norm_OffsetCommitReq q) \<and>
     (list_all whole_ms (times_OffsetCommitReq q) \<longrightarrow> norm_OffsetCommitReq q = q))"
    using decoded_OffsetCommitReq OffsetCommitReq.round_trip unfolding returns_def by blast
qed (use decoded_MetadataReq decoded_OffsetFetchReq decoded_CreateTopicsReq decoded_APIVersionsReq decoded_FetchReq
    decoded_OffsetReq MetadataReq.round_trip OffsetFetchReq.round_trip
    CreateTopicsReq.round_trip APIVersionsReq.round_trip FetchReq.round_trip OffsetReq.round_trip
    in \<open>auto simp: returns_def, metis+\<close>)

text \<open>A consumer metadata request; of version 1 with a coordinator type behind it.\<close>

definition example_bytes :: "byte list" where
  "example_bytes = [0, 0, 0, 14, 0, 10, 0, 0, 0, 0, 0, 7, 0, 1, 99, 0, 1, 103]"

definition example_bytes_V1 :: "byte list" where
  "example_bytes_V1 = [0, 0, 0, 15, 0, 10, 0, 1, 0, 0, 0, 7, 0, 1, 99, 0, 1, 103, 1]"

lemma decoded_requests_witness:
  "(\<exists>q. ReadConsumerMetadataReq (NewReader example_bytes) = Ok q \<and> cq_ConsumerGroup q = [103] \<and>
      round_trips (ConsumerMetadataReq_Bytes q) ReadConsumerMetadataReq q) \<and>
   (\<exists>q b. ReadConsumerMetadataReq (NewReader example_bytes_V1) = Ok q \<and> cq_CoordinatorType q = 1 \<and>
      ConsumerMetadataReq_Bytes q = Ok b \<and> ReadConsumerMetadataReq (NewReader b) = Err EOF)"
proof -
  define q :: ConsumerMetadataReq where
    "q = zero_ConsumerMetadataReq\<lparr>correlationID := 7, ClientID := [99], cq_ConsumerGroup := [103]\<rparr>"
  define q1 where "q1 = q\<lparr>version := 1, cq_CoordinatorType := 1\<rparr>"
  have "ReadConsumerMetadataReq (NewReader example_bytes) = Ok q"
    unfolding q_def example_bytes_def by code_simp
  moreover have "\<not> KafkaV1 \<le>s version q" by (simp add: q_def zero_ConsumerMetadataReq_def word_sle_eq)
  moreover have "ReadConsumerMetadataReq (NewReader example_bytes_V1) = Ok q1"
    unfolding q1_def q_def example_bytes_V1_def by code_simp
  moreover have "KafkaV1 \<le>s version q1" by (simp add: q1_def)
  moreover note decoded_requests
  ultimately show ?thesis by (fastforce simp: returns_def q_def q1_def)
qed

text \<open>
  C9.  Whatever bytes they are given, the readers of metadata, consumer metadata, offset commit, offset fetch, offset,
  produce, create topics and API versions responses return only responses that can be written, provided every error
  number in them is known to the driver, and that are then read as the same response of the same version.  The one
  exception: of an offset response the times that are not whole milliseconds, which a time that was read is only when its
  milliseconds, in nanoseconds, do not fit 64 bits.  \<open>ReadVersionedFetchResp\<close> is not among these readers: the record
  batches it reads are never written.
\<close>

lemma decoded_responses:
  "returns (ReadVersionedMetadataResp v) (\<lambda>r. list_all known_error (errors_MetadataResp r) \<longrightarrow>
     round_trips (MetadataResp_Bytes r) (ReadVersionedMetadataResp v) r) \<and>
   returns (ReadVersionedConsumerMetadataResp v) (\<lambda>r. known_error (cr_Err r) \<longrightarrow>
     round_trips (ConsumerMetadataResp_Bytes r) (ReadVersionedConsumerMetadataResp v) r) \<and>
   returns (ReadVersionedOffsetCommitResp v) (\<lambda>r. list_all known_error (errors_OffsetCommitResp r) \<longrightarrow>
     round_trips (OffsetCommitResp_Bytes r) (ReadVersionedOffsetCommitResp v) r) \<and>
   returns (ReadVersionedOffsetFetchResp v) (\<lambda>r. list_all known_error (errors_OffsetFetchResp r) \<longrightarrow>
     round_trips (OffsetFetchResp_Bytes r) (ReadVersionedOffsetFetchResp v) r) \<and>
   returns (ReadVersionedOffsetResp v) (\<lambda>r. list_all known_error (errors_OffsetResp r) \<longrightarrow>
     round_trips (OffsetResp_Bytes r) (ReadVersionedOffsetResp v) (norm_OffsetResp r) \<and>
     (list_all whole_ms (times_OffsetResp r) \<longrightarrow> norm_OffsetResp r = r)) \<and>
   returns (ReadVersionedProduceResp v) (\<lambda>r. list_all known_error (errors_ProduceResp r) \<longrightarrow>
     round_trips (ProduceResp_Bytes r) (ReadVersionedProduceResp v) r) \<and>
   returns (ReadVersionedCreateTopicsResp v) (\<lambda>r.
     round_trips (CreateTopicsResp_Bytes r) (ReadVersionedCreateTopicsResp v) r) \<and>
   returns (ReadVersionedAPIVersionsResp v) (\<lambda>r.
     round_trips (APIVersionsResp_Bytes r) (ReadVersionedAPIVersionsResp v) r)"
  using decoded_MetadataResp[of v] decoded_ConsumerMetadataResp[of v] decoded_OffsetCommitResp[of v]
    decoded_OffsetFetchResp[of v] decoded_OffsetResp[of v] decoded_ProduceResp[of v] decoded_CreateTopicsResp[of v]
    decoded_APIVersionsResp[of v]
  unfolding returns_def
  by (intro conjI allI impI) (metis MetadataResp_round_trip ConsumerMetadataResp_round_trip OffsetCommitResp_round_trip
      OffsetFetchResp_round_trip OffsetResp_round_trip ProduceResp_round_trip CreateTopicsResp_round_trip
      APIVersionsResp_round_trip)+

lemma decoded_responses_witness:
  "\<exists>r. ReadVersionedMetadataResp 1 (NewReader
       [0, 0, 0, 31, 0, 0, 0, 7, 0, 0, 0, 0, 0, 0, 0, 5, 0, 0, 0, 1, 0, 3, 0, 1, 116, 1, 0, 0, 0, 0]) = Ok r \<and>
     map mt_Err (mr_Topics r) = [Some (KafkaErr ErrUnknownTopicOrPartition)] \<and>
     round_trips (MetadataResp_Bytes r) (ReadVersionedMetadataResp 1) r"
proof -
  define r where "r = zero_MetadataResp\<lparr>mr_Version := 1, mr_CorrelationID := 7, mr_ControllerID := 5,
    mr_Topics := [\<lparr>mt_Name = [116], mt_Err = Some (KafkaErr ErrUnknownTopicOrPartition), mt_IsInternal = True,
      mt_Partitions = []\<rparr>]\<rparr>"
  have "ReadVersionedMetadataResp 1 (NewReader
      [0, 0, 0, 31, 0, 0, 0, 7, 0, 0, 0, 0, 0, 0, 0, 5, 0, 0, 0, 1, 0, 3, 0, 1, 116, 1, 0, 0, 0, 0]) = Ok r"
    unfolding r_def by code_simp
  moreover have "list_all known_error (errors_MetadataResp r)"
    by (simp add: r_def errors_MetadataResp_def known_error_def)
  moreover note decoded_responses[of 1]
  ultimately show ?thesis by (auto simp: returns_def r_def)
qed

end
