(* ===== verification/Wire.thy ===== *)
theory Wire
  imports Cluster Decoded
begin

text \<open>
  The network of \<open>Cluster\<close>, on which a request reaches the handler of the test server as a value, refined
  to bytes: the methods of a connection (\<open>v2/connection.go\<close>) write the request, \<open>handleClient\<close> of the test server
  cuts it out of its stream, decodes it and writes the response, and the reader of the connection cuts that out.
\<close>

section \<open>Calls over bytes\<close>

text \<open>
  One request over a connection: what \<open>sendRequest\<close> returns when \<open>out\<close> is written and \<open>handleClient\<close> makes one
  round on it.
\<close>

definition deliver :: "server_env \<Rightarrow> nat \<Rightarrow> byte list res \<Rightarrow> cluster \<Rightarrow> byte list res \<times> cluster" where
  "deliver E c out e =
     (case out of
        Ok b \<Rightarrow>
          (case handleClient E [] server_node (\<lambda>_. True) 1 (NewReader b) (cl_server e) of
             (w, Serving, s) \<Rightarrow> (obind (fst (ReadResp (NewReader w))) (\<lambda>(_, b). Ok b), e\<lparr>cl_server := s\<rparr>)
           | (_, Returned, s) \<Rightarrow> (Err EOF, e\<lparr>cl_server := s, cl_open := removeAll c (cl_open e)\<rparr>)
           | (_, Blocked, s) \<Rightarrow> (NoFuel, e\<lparr>cl_server := s\<rparr>)
           | (_, Crashed, s) \<Rightarrow> (Err EOF, e\<lparr>cl_server := Server_Close s, cl_open := []\<rparr>))
      | Err err \<Rightarrow> (Err err, e)
      | Panic \<Rightarrow> (Panic, e)
      | NoFuel \<Rightarrow> (NoFuel, e))"

text \<open>\<open>call\<close> is a method of the connection, given what \<open>sendRequest\<close> returns; \<open>written\<close> is what it writes.\<close>

definition over_wire ::
  "server_env \<Rightarrow> (byte list res \<Rightarrow> 'q \<Rightarrow> 'a res) \<Rightarrow> ('q \<Rightarrow> byte list res) \<Rightarrow> nat \<Rightarrow> 'q \<Rightarrow> cluster \<Rightarrow> 'a res \<times> cluster"
where
  "over_wire E call written c q e =
     (if c \<notin> set (cl_open e) then (Err ErrClosed, e)
      else let (resp, e) = deliver E c (written q) e in (call resp q, e))"

text \<open>
  The requests of a broker over a connection in state \<open>k\<close>, with the correlation ID \<open>i\<close>.  Without acks
  the call does not wait, and the response of the server is read and dropped.
\<close>

definition server_side :: "codecs \<Rightarrow> ParserConfig \<Rightarrow> nat \<Rightarrow> server_env" where
  "server_side lib pconf depth =
     \<lparr>se_lib = lib, se_conf = pconf, se_depth = depth, se_meanwhile = id, se_order = []\<rparr>"

definition wire_network ::
  "codecs \<Rightarrow> ParserConfig \<Rightarrow> nat \<Rightarrow> (byte list \<Rightarrow> byte list) \<Rightarrow> connection \<Rightarrow> int32 \<Rightarrow> cluster network"
where
  "wire_network lib pconf depth spare k i = (let E = server_side lib pconf depth in server_network
     \<lparr>net_Metadata := over_wire E (\<lambda>resp. conn_Metadata (\<lambda>_. resp) k i)
        (\<lambda>q. MetadataReq_Bytes (send_header k MetadataReqKind i q)),
      net_Produce := over_wire E (\<lambda>resp. conn_Produce (\<lambda>_. resp) (\<lambda>_. None) lib k i)
        (\<lambda>q. ProduceReq_Bytes lib (send_header k ProduceReqKind i q)),
      net_Fetch := over_wire E (\<lambda>resp. conn_Fetch (\<lambda>_. resp) lib pconf depth spare k i)
        (\<lambda>q. FetchReq_Bytes (send_header k FetchReqKind i q)),
      net_Offset := over_wire E (\<lambda>resp. conn_Offset (\<lambda>_. resp) k i)
        (\<lambda>q. OffsetReq_Bytes (send_header k OffsetReqKind i (q\<lparr>oq_ReplicaID := - 1\<rparr>))),
      net_ConsumerMetadata := over_wire E (\<lambda>resp. conn_ConsumerMetadata (\<lambda>_. resp) k i)
        (\<lambda>q. ConsumerMetadataReq_Bytes (send_header k ConsumerMetadataReqKind i q)),
      net_OffsetCommit := over_wire E (\<lambda>resp. conn_OffsetCommit (\<lambda>_. resp) k i)
        (\<lambda>q. OffsetCommitReq_Bytes (send_header k OffsetCommitReqKind i q)),
      net_OffsetFetch := over_wire E (\<lambda>resp. conn_OffsetFetch (\<lambda>_. resp) k i)
        (\<lambda>q. OffsetFetchReq_Bytes (send_header k OffsetFetchReqKind i q))\<rparr>)"

section \<open>One round of the server\<close>

text \<open>The response fits on the wire.\<close>

definition reply_fits :: "('r \<Rightarrow> byte list res) \<Rightarrow> ('r \<Rightarrow> bool) \<Rightarrow> 'r reply \<times> Server \<Rightarrow> bool" where
  "reply_fits Bytes ok x \<longleftrightarrow> (case fst x of Reply r \<Rightarrow> ok r \<and> short (Bytes r) | _ \<Rightarrow> True)"

text \<open>
  A request that \<open>handleClient\<close> decodes to \<open>q\<close> and answers with \<open>handle\<close>, and a response that the client decodes to
  \<open>result r\<close>: the bytes carry the call of the handler.
\<close>

lemma deliver_call:
  assumes "carries (PutUint16 kind) out" "short out" "obind out (\<lambda>b. read (NewReader b)) = Ok q"
    and "\<And>b s. default_handler E server_node kind b s = answer read handle Bytes b s"
    and "reply_fits Bytes ok (handle q (cl_server e))"
    and "\<And>r. carries (PutUint32 (corr r)) (Bytes r)"
    and "\<And>r. ok r \<Longrightarrow> \<exists>b. Bytes r = Ok b"
  shows "deliver E c out e =
    (case handle q (cl_server e) of
       (Reply r, s) \<Rightarrow> (Bytes r, e\<lparr>cl_server := s\<rparr>)
     | (NoReply, s) \<Rightarrow> (Err EOF, e\<lparr>cl_server := s, cl_open := removeAll c (cl_open e)\<rparr>)
     | (Blocks, s) \<Rightarrow> (NoFuel, e\<lparr>cl_server := s\<rparr>)
     | (Panics, s) \<Rightarrow> (Err EOF, e\<lparr>cl_server := Server_Close s, cl_open := []\<rparr>))"
proof -
  from assms(3) obtain b where b: "out = Ok b" "read (NewReader b) = Ok q" by (auto simp: obind_eq_Ok_conv)
  obtain r' where req: "ReadReq (NewReader b) = (Ok (kind, b), r')"
    using carries_ReadReq[OF assms(1) b(1) assms(2)] by (cases "ReadReq (NewReader b)") auto
  obtain x s where x: "handle q (cl_server e) = (x, s)" by fastforce
  show ?thesis
  proof (cases x)
    case (Reply r)
    with assms(5) x have "ok r" "short (Bytes r)" by (simp_all add: reply_fits_def)
    with assms(7)[of r] obtain w where w: "Bytes r = Ok w" "short (Bytes r)" by blast
    with carries_ReadResp[OF assms(6) w] b req x Reply show ?thesis
      by (simp add: deliver_def respond_def assms(4) answer_def)
  qed (simp_all add: deliver_def b req x respond_def assms(4) answer_def)
qed

text \<open>
  What a method of the connection and a handler of the server agree on: the bytes the method writes for \<open>q\<close> are read
  by the server as \<open>decoded q\<close>, and the bytes of a response \<open>r\<close> are returned by the method as \<open>result (decoded q) r\<close>.
  \<open>fits\<close> are the responses that the caller knows to be writable, \<open>good\<close> those the handler returns among them.
\<close>

locale wire_call =
  fixes E :: server_env and kind :: int16
    and written :: "'q \<Rightarrow> byte list res" and read :: "reader \<Rightarrow> 'q res" and decoded :: "'q \<Rightarrow> 'q" and sendable :: "'q \<Rightarrow> bool"
    and handle :: "'q \<Rightarrow> Server \<Rightarrow> 'r reply \<times> Server" and Bytes :: "'r \<Rightarrow> byte list res" and corr :: "'r \<Rightarrow> int32"
    and fits :: "'r \<Rightarrow> bool" and good :: "'r \<Rightarrow> bool"
    and call :: "byte list res \<Rightarrow> 'q \<Rightarrow> 'a res" and result :: "'q \<Rightarrow> 'r \<Rightarrow> 'a res"
  assumes kind_prefix: "carries (PutUint16 kind) (written q)"
    and read_request: "sendable q \<Longrightarrow> obind (written q) (\<lambda>b. read (NewReader b)) = Ok (decoded q)"
    and handler: "default_handler E server_node kind b s = answer read handle Bytes b s"
    and corr_prefix: "carries (PutUint32 (corr r)) (Bytes r)"
    and replies: "reply_fits Bytes fits (handle q s) \<Longrightarrow> reply_fits Bytes good (handle q s)"
    and writes: "good r \<Longrightarrow> \<exists>b. Bytes r = Ok b"
    and reads_response: "sendable q \<Longrightarrow> good r \<Longrightarrow> call (Bytes r) q = result (decoded q) r"
    and fails: "sendable q \<Longrightarrow> call (Err err) q = Err err" "sendable q \<Longrightarrow> call NoFuel q = NoFuel"
begin

lemma refines:
  assumes "sendable q" "short (written q)" "reply_fits Bytes fits (handle (decoded q) (cl_server e))"
    and "wire q' = decoded q"
  shows "over_wire E call written c q e = remote wire handle result c q' e"
  using deliver_call[where out = "written q", OF kind_prefix assms(2) read_request[OF assms(1)] handler
      replies[OF assms(3)] corr_prefix writes] replies[OF assms(3)] reads_response[OF assms(1)] fails[OF assms(1)]
  by (auto simp: over_wire_def remote_def reply_fits_def assms(4) split: reply.split prod.split)

end

text \<open>How \<open>handleClient\<close> answers each kind.\<close>

lemma handlers:
  fixes lib pconf depth
  defines "E \<equiv> server_side lib pconf depth"
  shows "default_handler E nid MetadataReqKind b s =
      answer ReadMetadataReq (handleMetadataRequest nid []) MetadataResp_Bytes b s"
    and "default_handler E nid ProduceReqKind b s =
      answer (ReadProduceReq lib pconf depth) handleProduceRequest ProduceResp_Bytes b s"
    and "default_handler E nid FetchReqKind b s =
      answer ReadFetchReq (handleFetchRequest id) (FetchResp_Bytes lib) b s"
    and "default_handler E nid OffsetReqKind b s = answer ReadOffsetReq handleOffsetRequest OffsetResp_Bytes b s"
    and "default_handler E nid ConsumerMetadataReqKind b s =
      answer ReadConsumerMetadataReq handleConsumerMetadataRequest ConsumerMetadataResp_Bytes b s"
    and "default_handler E nid OffsetCommitReqKind b s =
      answer ReadOffsetCommitReq handleOffsetCommitRequest OffsetCommitResp_Bytes b s"
    and "default_handler E nid OffsetFetchReqKind b s =
      answer ReadOffsetFetchReq handleOffsetFetchRequest OffsetFetchResp_Bytes b s"
    and "default_handler E nid APIVersionsReqKind b s =
      answer ReadAPIVersionsReq handleAPIVersionsRequest APIVersionsResp_Bytes b s"
  by (simp_all add: default_handler_def kind_defs E_def server_side_def)

text \<open>Every response of the test server has version 0.\<close>

lemma reply_versions:
  "reply_fits B P (handleMetadataRequest nid ord q0 s) \<Longrightarrow> reply_fits B (\<lambda>r. P r \<and> mr_Version r = 0) (handleMetadataRequest nid ord q0 s)"
  "reply_fits B1 P1 (handleProduceRequest q1 s) \<Longrightarrow> reply_fits B1 (\<lambda>r. P1 r \<and> pr_Version r = 0) (handleProduceRequest q1 s)"
  "reply_fits B2 P2 (handleFetchRequest g q2 s) \<Longrightarrow> reply_fits B2 (\<lambda>r. P2 r \<and> fr_Version r = 0) (handleFetchRequest g q2 s)"
  "reply_fits B3 P3 (handleOffsetRequest q3 s) \<Longrightarrow> reply_fits B3 (\<lambda>r. P3 r \<and> or_Version r = 0) (handleOffsetRequest q3 s)"
  "reply_fits B4 P4 (handleConsumerMetadataRequest q4 s) \<Longrightarrow>
     reply_fits B4 (\<lambda>r. P4 r \<and> cr_Version r = 0) (handleConsumerMetadataRequest q4 s)"
  "reply_fits B5 P5 (handleOffsetCommitRequest q5 s) \<Longrightarrow>
     reply_fits B5 (\<lambda>r. P5 r \<and> ocr_Version r = 0) (handleOffsetCommitRequest q5 s)"
  "reply_fits B6 P6 (handleOffsetFetchRequest q6 s) \<Longrightarrow>
     reply_fits B6 (\<lambda>r. P6 r \<and> ofr_Version r = 0) (handleOffsetFetchRequest q6 s)"
  by (auto simp: reply_fits_def handleMetadataRequest_def handleProduceRequest_def handleFetchRequest_def fetchRequest_def
      handleOffsetRequest_def handleConsumerMetadataRequest_def handleOffsetCommitRequest_def handleOffsetFetchRequest_def
      zero_MetadataResp_def zero_ProduceResp_def zero_FetchResp_def zero_OffsetResp_def zero_ConsumerMetadataResp_def
      zero_OffsetCommitResp_def zero_OffsetFetchResp_def as_reply_def Let_def obind_eq_Ok_conv
      split: prod.splits reply.splits option.splits outcome.splits if_splits list.splits)

section \<open>The network over bytes\<close>

text \<open>The version 0 is negotiated: the test server offers it for every kind, and nothing else.\<close>

definition speaks_V0 :: "connection \<Rightarrow> bool" where
  "speaks_V0 k \<longleftrightarrow> (\<forall>kind. getBestVersion kind k = KafkaV0)"

lemmas header_ops = SetVersion_def SetCorrelationID_def

lemma send_V0: "speaks_V0 k \<Longrightarrow> send_header k kind i q = SetVersion KafkaV0 (SetCorrelationID i q)"
  by (cases q) (simp add: speaks_V0_def send_header_def header_ops)

lemma wf_header_ops [simp]: "wf_header (SetVersion v q) = wf_header q" "wf_header (SetCorrelationID i q) = wf_header q"
  by (simp_all add: wf_header_def header_ops)

lemma written_bytes:
  assumes "round_trips out Read x"
  shows "\<exists>b. out = Ok b" "obind out (\<lambda>b. Read (NewReader b)) = Ok x"
  using assms by (auto simp: round_trips_def)

locale wire_api = req: request_message BytesQ ReadQ normQ wfQ kind + resp: response_message BytesR ReadR normR goodR corr
  for BytesQ :: "'q \<Rightarrow> byte list res" and ReadQ normQ wfQ kind
    and BytesR :: "'r \<Rightarrow> byte list res" and ReadR normR goodR corr +
  fixes E :: server_env and head :: "'q \<Rightarrow> 'q" and handle :: "'q \<Rightarrow> Server \<Rightarrow> 'r reply \<times> Server"
    and fits :: "'r \<Rightarrow> bool" and call :: "byte list res \<Rightarrow> 'q \<Rightarrow> 'r res" and sendable :: "'q \<Rightarrow> bool"
  assumes sends: "sendable q \<Longrightarrow> wfQ (head q)"
    and serves: "default_handler E server_node kind b s = answer ReadQ handle BytesR b s"
    and answers: "reply_fits BytesR fits (handle q s) \<Longrightarrow> reply_fits BytesR goodR (handle q s)"
    and calls: "sendable q \<Longrightarrow> call out q = obind out (\<lambda>b. ReadR (NewReader b))"

sublocale wire_api \<subseteq> wire_call E kind "\<lambda>q. BytesQ (head q)" ReadQ "\<lambda>q. normQ (head q)" sendable
  handle BytesR corr fits goodR call "\<lambda>_ r. Ok (normR r)"
proof
  fix r assume "goodR r"
  from written_bytes(1)[OF resp.round_trip[OF this]] show "\<exists>b. BytesR r = Ok b" .
qed (simp_all add: req.kind_prefix req.read_bytes sends serves resp.corr_prefix answers calls resp.read_bytes)

lemmas sends_V0 = send_V0 conn_Metadata_def conn_Offset_def conn_ConsumerMetadata_def conn_OffsetCommit_def
  conn_OffsetFetch_def exchange_def speaks_V0_def

interpretation wire_Metadata: wire_api
  MetadataReq_Bytes ReadMetadataReq norm_MetadataReq wf_MetadataReq MetadataReqKind
  MetadataResp_Bytes "ReadVersionedMetadataResp KafkaV0" norm_MetadataResp "\<lambda>r. wf_MetadataResp r \<and> mr_Version r = KafkaV0" mr_CorrelationID
  "server_side lib pconf depth" "\<lambda>q. send_header k MetadataReqKind i q" "handleMetadataRequest server_node []" wf_MetadataResp
  "\<lambda>resp. conn_Metadata (\<lambda>_. resp) k i" "\<lambda>q. speaks_V0 k \<and> wf_MetadataReq q" for lib pconf depth k i
  by unfold_locales (simp_all add: sends_V0 handlers reply_versions wf_MetadataReq_def, simp_all add: header_ops wf_header_def word_sle_eq)

interpretation wire_Offset: wire_api
  OffsetReq_Bytes ReadOffsetReq norm_OffsetReq wf_OffsetReq OffsetReqKind
  OffsetResp_Bytes "ReadVersionedOffsetResp KafkaV0" norm_OffsetResp "\<lambda>r. wf_OffsetResp r \<and> or_Version r = KafkaV0" or_CorrelationID
  "server_side lib pconf depth" "\<lambda>q. send_header k OffsetReqKind i (q\<lparr>oq_ReplicaID := - 1\<rparr>)" "handleOffsetRequest" wf_OffsetResp
  "\<lambda>resp. conn_Offset (\<lambda>_. resp) k i" "\<lambda>q. speaks_V0 k \<and> wf_OffsetReq q" for lib pconf depth k i
  by unfold_locales (simp_all add: sends_V0 handlers reply_versions wf_OffsetReq_def, simp_all add: header_ops wf_header_def word_sle_eq)

interpretation wire_ConsumerMetadata: wire_api
  ConsumerMetadataReq_Bytes ReadConsumerMetadataReq "\<lambda>q. q\<lparr>cq_CoordinatorType := 0\<rparr>" "\<lambda>q. wf_ConsumerMetadataReq q \<and> \<not> KafkaV1 \<le>s version q" ConsumerMetadataReqKind
  ConsumerMetadataResp_Bytes "ReadVersionedConsumerMetadataResp KafkaV0" norm_ConsumerMetadataResp "\<lambda>r. wf_ConsumerMetadataResp r \<and> cr_Version r = KafkaV0" cr_CorrelationID
  "server_side lib pconf depth" "\<lambda>q. send_header k ConsumerMetadataReqKind i q" "handleConsumerMetadataRequest" wf_ConsumerMetadataResp
  "\<lambda>resp. conn_ConsumerMetadata (\<lambda>_. resp) k i" "\<lambda>q. speaks_V0 k \<and> wf_ConsumerMetadataReq q" for lib pconf depth k i
  by unfold_locales (simp_all add: sends_V0 handlers reply_versions wf_ConsumerMetadataReq_def, simp_all add: header_ops wf_header_def word_sle_eq)

interpretation wire_OffsetCommit: wire_api
  OffsetCommitReq_Bytes ReadOffsetCommitReq norm_OffsetCommitReq wf_OffsetCommitReq OffsetCommitReqKind
  OffsetCommitResp_Bytes "ReadVersionedOffsetCommitResp KafkaV0" norm_OffsetCommitResp "\<lambda>r. wf_OffsetCommitResp r \<and> ocr_Version r = KafkaV0" ocr_CorrelationID
  "server_side lib pconf depth" "\<lambda>q. send_header k OffsetCommitReqKind i q" "handleOffsetCommitRequest" wf_OffsetCommitResp
  "\<lambda>resp. conn_OffsetCommit (\<lambda>_. resp) k i" "\<lambda>q. speaks_V0 k \<and> wf_OffsetCommitReq q" for lib pconf depth k i
  by unfold_locales (simp_all add: sends_V0 handlers reply_versions wf_OffsetCommitReq_def, simp_all add: header_ops wf_header_def word_sle_eq)

interpretation wire_OffsetFetch: wire_api
  OffsetFetchReq_Bytes ReadOffsetFetchReq "\<lambda>q. q" wf_OffsetFetchReq OffsetFetchReqKind
  OffsetFetchResp_Bytes "ReadVersionedOffsetFetchResp KafkaV0" norm_OffsetFetchResp "\<lambda>r. wf_OffsetFetchResp r \<and> ofr_Version r = KafkaV0" ofr_CorrelationID
  "server_side lib pconf depth" "\<lambda>q. send_header k OffsetFetchReqKind i q" "handleOffsetFetchRequest" wf_OffsetFetchResp
  "\<lambda>resp. conn_OffsetFetch (\<lambda>_. resp) k i" "\<lambda>q. speaks_V0 k \<and> wf_OffsetFetchReq q" for lib pconf depth k i
  by unfold_locales (simp_all add: sends_V0 handlers reply_versions wf_OffsetFetchReq_def, simp_all add: header_ops wf_header_def word_sle_eq)

text \<open>The offsets of a fetch request are the same on both sides, so the client trims the response it was sent.\<close>

lemma trim_norm [simp]: "trimLeadingMessages (norm_FetchReq q) = trimLeadingMessages q"
proof -
  have parts: "trim_partitions (map (norm_FetchReqPartition v) ps) rs = trim_partitions ps rs" for v ps rs
    by (induction ps rs rule: trim_partitions.induct) (simp_all add: norm_FetchReqPartition_def)
  have "trim_topics (map (norm_FetchReqTopic v) ts) rs = trim_topics ts rs" for v ts rs
    by (induction ts rs rule: trim_topics.induct) (simp_all add: norm_FetchReqTopic_def parts cong: obind_cong)
  then show ?thesis by (simp add: trimLeadingMessages_def norm_FetchReq_def fun_eq_iff)
qed

interpretation wire_Fetch: wire_call "server_side lib pconf depth" FetchReqKind
  "\<lambda>q. FetchReq_Bytes (send_header k FetchReqKind i q)" ReadFetchReq "\<lambda>q. norm_FetchReq (send_header k FetchReqKind i q)"
  "\<lambda>q. speaks_V0 k \<and> wf_FetchReq q \<and> \<not> SimplifiedMessageSetParsing pconf"
  "handleFetchRequest id" "FetchResp_Bytes lib" fr_CorrelationID "wf_FetchResp lib" "\<lambda>r. wf_FetchResp lib r \<and> fr_Version r = KafkaV0"
  "\<lambda>resp. conn_Fetch (\<lambda>_. resp) lib pconf depth spare k i" "\<lambda>q r. trimLeadingMessages q (norm_FetchResp r)"
  for lib pconf depth spare k i
proof (unfold_locales, goal_cases)
  case (2 q)
  then show ?case by (intro FetchReq.read_bytes) (simp add: send_V0 wf_FetchReq_def, simp add: header_ops)
next
  case (6 r)
  then show ?case using FetchResp_read_back[of lib r full_parsing 0 id] by (auto simp: full_parsing_def obind_eq_Ok_conv)
next
  case (7 q r)
  with FetchResp_read_back[of lib r pconf depth spare] show ?case
    by (simp add: conn_Fetch_def exchange_def speaks_V0_def)
qed (simp_all add: FetchReq.kind_prefix handlers carries_FetchResp reply_versions conn_Fetch_def exchange_def)

definition single_partition :: "ProduceReq \<Rightarrow> bool" where
  "single_partition q \<longleftrightarrow> (\<exists>t p. pq_Topics q = [t] \<and> pqt_Partitions t = [p])"

interpretation wire_Produce: wire_call "server_side lib pconf depth" ProduceReqKind
  "\<lambda>q. ProduceReq_Bytes lib (send_header k ProduceReqKind i q)" "ReadProduceReq lib pconf depth"
  "\<lambda>q. norm_ProduceReq (send_header k ProduceReqKind i q)"
  "\<lambda>q. speaks_V0 k \<and> wf_ProduceReq lib q \<and> single_partition q \<and>
     pq_Compression q \<in> {CompressionNone, CompressionGzip, CompressionSnappy} \<and> codec_laws lib \<and>
     \<not> SimplifiedMessageSetParsing pconf \<and> 0 < depth \<and> pq_RequiredAcks q \<noteq> RequiredAcksNone"
  handleProduceRequest ProduceResp_Bytes pr_CorrelationID wf_ProduceResp "\<lambda>r. wf_ProduceResp r \<and> pr_Version r = KafkaV0"
  "\<lambda>resp. conn_Produce (\<lambda>_. resp) (\<lambda>_. None) lib k i"
  "\<lambda>q r. if pq_RequiredAcks q = RequiredAcksNone then Ok None else Ok (Some (norm_ProduceResp r))"
  for lib pconf depth k i
proof (unfold_locales, goal_cases)
  case (2 q)
  then obtain t p where tp: "pq_Topics q = [t]" "pqt_Partitions t = [p]" by (auto simp: single_partition_def)
  show ?case
    by (rule ProduceReq_one_partition)
      (use 2 tp in \<open>simp_all add: send_V0 wf_ProduceReq_def, simp_all add: header_ops\<close>)
next
  case (6 r)
  then show ?case using written_bytes(1)[OF ProduceResp_round_trip] by blast
next
  case (7 q r)
  have "pq_RequiredAcks (send_header k ProduceReqKind i q) = pq_RequiredAcks q"
    "pq_RequiredAcks (norm_ProduceReq (send_header k ProduceReqKind i q)) = pq_RequiredAcks q"
    by (simp_all add: send_header_def header_ops norm_ProduceReq_def ProduceReq_fields_def)
  with 7 written_bytes(2)[OF ProduceResp_round_trip, of r] show ?case
    by (simp add: conn_Produce_def exchange_def speaks_V0_def)
qed (simp_all add: carries_ProduceReq handlers carries_ProduceResp reply_versions conn_Produce_def exchange_def
    send_header_def header_ops)

text \<open>The first call of a new connection asks for the versions, and settles on version 0 for every kind.\<close>

interpretation wire_APIVersions: wire_api
  APIVersionsReq_Bytes ReadAPIVersionsReq norm_APIVersionsReq wf_header APIVersionsReqKind
  APIVersionsResp_Bytes "ReadVersionedAPIVersionsResp KafkaV0" norm_APIVersionsResp
  "\<lambda>r. wf_APIVersionsResp r \<and> av_Version r = KafkaV0" av_CorrelationID
  "server_side lib pconf depth" "\<lambda>q. send_header k APIVersionsReqKind i q" handleAPIVersionsRequest "\<lambda>_. True"
  "\<lambda>resp. conn_APIVersions (\<lambda>_. resp) k i" "\<lambda>q. speaks_V0 k \<and> wf_header q" for lib pconf depth k i
proof (unfold_locales, goal_cases)
  case (3 q s)
  then show ?case
    by (simp add: reply_fits_def handleAPIVersionsRequest_def wf_APIVersionsResp_def wf_array_def zero_APIVersionsResp_def)
qed (simp_all add: send_V0 handlers conn_APIVersions_def exchange_def, simp add: header_ops)

lemma new_speaks_V0: "speaks_V0 new_connection"
  by (simp add: speaks_V0_def getBestVersion_def new_connection_def)

definition offered :: "SupportedVersion list" where
  "offered = map (\<lambda>k. \<lparr>APIKey = k, MinVersion = KafkaV0, MaxVersion = KafkaV0\<rparr>)
     [ProduceReqKind, FetchReqKind, OffsetReqKind, MetadataReqKind, OffsetCommitReqKind, OffsetFetchReqKind,
      ConsumerMetadataReqKind, APIVersionsReqKind]"

lemma offered_V0:
  assumes "av_APIVersions r = offered"
  shows "\<exists>k. cacheApiVersions (Ok r) new_connection = Ok k \<and> speaks_V0 k"
  using assms
  by (auto simp: cacheApiVersions_def offered_def speaks_V0_def getBestVersion_def new_connection_def Let_def
      supported_by_driver_def SupportedByDriver_def kind_defs max16_def min16_def word_sle_eq word_sless_alt split: option.splits if_splits)

lemma negotiates_V0:
  assumes "c \<in> set (cl_open e)" "wf_header q" "short (APIVersionsReq_Bytes (send_header new_connection APIVersionsReqKind i q))"
  shows "\<exists>r k. over_wire (server_side lib pconf depth) (\<lambda>resp. conn_APIVersions (\<lambda>_. resp) new_connection i)
      (\<lambda>q. APIVersionsReq_Bytes (send_header new_connection APIVersionsReqKind i q)) c q e = (Ok r, e) \<and>
    cacheApiVersions (Ok r) new_connection = Ok k \<and> speaks_V0 k"
proof -
  have fits: "reply_fits APIVersionsResp_Bytes (\<lambda>_. True) (handleAPIVersionsRequest q' s)" for q' s
    by (simp add: reply_fits_def handleAPIVersionsRequest_def short_def APIVersionsResp_Bytes_def run_bytes_def NewEncoder_def
        EncodeInt32_def EncodeInt16_def EncodeArrayLen_def enc_write_def writeAll_def write_array_def
        write_SupportedVersion_def zero_APIVersionsResp_def writer_bytes_def word_sle_eq Let_def)
  have "over_wire (server_side lib pconf depth) (\<lambda>resp. conn_APIVersions (\<lambda>_. resp) new_connection i)
      (\<lambda>q. APIVersionsReq_Bytes (send_header new_connection APIVersionsReqKind i q)) c q e =
    remote (\<lambda>q. norm_APIVersionsReq (send_header new_connection APIVersionsReqKind i q)) handleAPIVersionsRequest
      (\<lambda>_ r. Ok (norm_APIVersionsResp r)) c q e"
    by (rule wire_APIVersions.refines) (use assms new_speaks_V0 fits in simp_all)
  then show ?thesis
    using offered_V0 assms(1)
    by (simp add: remote_def handleAPIVersionsRequest_def norm_APIVersionsResp_def zero_APIVersionsResp_def offered_def)
qed

section \<open>Single calls over bytes\<close>

definition produce_sendable :: "codecs \<Rightarrow> ParserConfig \<Rightarrow> nat \<Rightarrow> connection \<Rightarrow> int32 \<Rightarrow> ProduceReq \<Rightarrow> Server \<Rightarrow> bool" where
  "produce_sendable lib pconf depth k i q s \<longleftrightarrow> wf_ProduceReq lib q \<and> single_partition q \<and>
     pq_Compression q \<in> {CompressionNone, CompressionGzip, CompressionSnappy} \<and> codec_laws lib \<and>
     \<not> SimplifiedMessageSetParsing pconf \<and> 0 < depth \<and> pq_RequiredAcks q \<noteq> RequiredAcksNone \<and>
     short (ProduceReq_Bytes lib (send_header k ProduceReqKind i q)) \<and>
     reply_fits ProduceResp_Bytes wf_ProduceResp (handleProduceRequest (norm_ProduceReq (send_header k ProduceReqKind i q)) s)"

definition fetch_sendable :: "codecs \<Rightarrow> ParserConfig \<Rightarrow> connection \<Rightarrow> int32 \<Rightarrow> FetchReq \<Rightarrow> Server \<Rightarrow> bool" where
  "fetch_sendable lib pconf k i q s \<longleftrightarrow> wf_FetchReq q \<and> \<not> SimplifiedMessageSetParsing pconf \<and>
     short (FetchReq_Bytes (send_header k FetchReqKind i q)) \<and>
     reply_fits (FetchResp_Bytes lib) (wf_FetchResp lib) (handleFetchRequest id (norm_FetchReq (send_header k FetchReqKind i q)) s)"

lemma produce_on_wire:
  assumes "speaks_V0 k" "produce_sendable lib pconf depth k i q (cl_server e)"
  shows "net_Produce (wire_network lib pconf depth spare k i) c q e = net_Produce server_network c (SetCorrelationID i q) e"
  unfolding wire_network_def server_network_def Let_def
  by simp (rule wire_Produce.refines; use assms in \<open>simp add: send_V0 produce_sendable_def\<close>)

lemma fetch_on_wire:
  assumes "speaks_V0 k" "fetch_sendable lib pconf k i q (cl_server e)"
  shows "net_Fetch (wire_network lib pconf depth spare k i) c q e = net_Fetch server_network c (SetCorrelationID i q) e"
  unfolding wire_network_def server_network_def Let_def
  by simp (rule wire_Fetch.refines; use assms in \<open>simp add: send_V0 fetch_sendable_def\<close>)

lemma metadata_on_wire:
  assumes "speaks_V0 k" "wf_MetadataReq q" "short (MetadataReq_Bytes (send_header k MetadataReqKind i q))"
    and "reply_fits MetadataResp_Bytes wf_MetadataResp
      (handleMetadataRequest server_node [] (norm_MetadataReq (send_header k MetadataReqKind i q)) (cl_server e))"
  shows "net_Metadata (wire_network lib pconf depth spare k i) c q e = net_Metadata server_network c (SetCorrelationID i q) e"
  unfolding wire_network_def server_network_def Let_def
  by simp (rule wire_Metadata.refines; use assms in \<open>simp add: send_V0\<close>)

lemma offset_on_wire:
  assumes "speaks_V0 k" "wf_OffsetReq q" "short (OffsetReq_Bytes (send_header k OffsetReqKind i (q\<lparr>oq_ReplicaID := - 1\<rparr>)))"
    and "reply_fits OffsetResp_Bytes wf_OffsetResp
      (handleOffsetRequest (norm_OffsetReq (send_header k OffsetReqKind i (q\<lparr>oq_ReplicaID := - 1\<rparr>))) (cl_server e))"
  shows "net_Offset (wire_network lib pconf depth spare k i) c q e = net_Offset server_network c (SetCorrelationID i q) e"
  unfolding wire_network_def server_network_def Let_def
  by simp (rule wire_Offset.refines; use assms in \<open>simp add: send_V0 header_ops norm_OffsetReq_def\<close>)

lemma commit_on_wire:
  assumes "speaks_V0 k" "wf_OffsetCommitReq q" "short (OffsetCommitReq_Bytes (send_header k OffsetCommitReqKind i q))"
    and "reply_fits OffsetCommitResp_Bytes wf_OffsetCommitResp
      (handleOffsetCommitRequest (norm_OffsetCommitReq (send_header k OffsetCommitReqKind i q)) (cl_server e))"
  shows "net_OffsetCommit (wire_network lib pconf depth spare k i) c q e =
    net_OffsetCommit server_network c (SetCorrelationID i q) e"
  unfolding wire_network_def server_network_def Let_def
  by simp (rule wire_OffsetCommit.refines; use assms in \<open>simp add: send_V0\<close>)

lemma offset_fetch_on_wire:
  assumes "speaks_V0 k" "wf_OffsetFetchReq q" "short (OffsetFetchReq_Bytes (send_header k OffsetFetchReqKind i q))"
    and "reply_fits OffsetFetchResp_Bytes wf_OffsetFetchResp
      (handleOffsetFetchRequest (send_header k OffsetFetchReqKind i q) (cl_server e))"
  shows "net_OffsetFetch (wire_network lib pconf depth spare k i) c q e =
    net_OffsetFetch server_network c (SetCorrelationID i q) e"
  unfolding wire_network_def server_network_def Let_def
  by simp (rule wire_OffsetFetch.refines; use assms in \<open>simp add: send_V0\<close>)

lemma coordinator_on_wire:
  assumes "speaks_V0 k" "wf_ConsumerMetadataReq q" "cq_CoordinatorType q = 0"
    and "short (ConsumerMetadataReq_Bytes (send_header k ConsumerMetadataReqKind i q))"
    and "reply_fits ConsumerMetadataResp_Bytes wf_ConsumerMetadataResp
      (handleConsumerMetadataRequest (send_header k ConsumerMetadataReqKind i q) (cl_server e))"
  shows "net_ConsumerMetadata (wire_network lib pconf depth spare k i) c q e =
    net_ConsumerMetadata server_network c (SetCorrelationID i q) e"
proof -
  have q: "(send_header k ConsumerMetadataReqKind i q)\<lparr>cq_CoordinatorType := 0\<rparr> = SetVersion KafkaV0 (SetCorrelationID i q)"
    using assms(1,3) by (cases q) (simp add: send_V0 header_ops)
  show ?thesis
    unfolding wire_network_def server_network_def Let_def
    by simp (rule wire_ConsumerMetadata.refines; use assms in \<open>simp only: q; simp add: send_V0\<close>)
qed

section \<open>Properties\<close>

text \<open>
  C4.  The network of a test server is what its bytes make it: over a connection that has negotiated version 0, a
  request that fits on the wire and whose response does has the same result, and the same effect on the server and on
  the connections, whether the handler is called with the request or \<open>handleClient\<close> with the bytes that the method
  of the connection writes, for every kind of request of a broker, a producer, a consumer and an offset
  coordinator.  The response carries the correlation ID of the call.
\<close>

lemma network_on_wire:
  assumes "speaks_V0 k"
  shows
    "(wf_MetadataReq q0 \<longrightarrow> short (MetadataReq_Bytes (send_header k MetadataReqKind i q0)) \<longrightarrow>
       reply_fits MetadataResp_Bytes wf_MetadataResp (handleMetadataRequest server_node [] (norm_MetadataReq (send_header k MetadataReqKind i q0)) (cl_server e)) \<longrightarrow>
       net_Metadata (wire_network lib pconf depth spare k i) c q0 e = net_Metadata server_network c (SetCorrelationID i q0) e) \<and>
     (fetch_sendable lib pconf k i q1 (cl_server e) \<longrightarrow>
       net_Fetch (wire_network lib pconf depth spare k i) c q1 e = net_Fetch server_network c (SetCorrelationID i q1) e) \<and>
     (produce_sendable lib pconf depth k i q2 (cl_server e) \<longrightarrow>
       net_Produce (wire_network lib pconf depth spare k i) c q2 e = net_Produce server_network c (SetCorrelationID i q2) e) \<and>
     (wf_OffsetReq q3 \<longrightarrow> short (OffsetReq_Bytes (send_header k OffsetReqKind i (q3\<lparr>oq_ReplicaID := - 1\<rparr>))) \<longrightarrow>
       reply_fits OffsetResp_Bytes wf_OffsetResp (handleOffsetRequest (norm_OffsetReq (send_header k OffsetReqKind i (q3\<lparr>oq_ReplicaID := - 1\<rparr>))) (cl_server e)) \<longrightarrow>
       net_Offset (wire_network lib pconf depth spare k i) c q3 e = net_Offset server_network c (SetCorrelationID i q3) e) \<and>
     (wf_OffsetCommitReq q4 \<longrightarrow> short (OffsetCommitReq_Bytes (send_header k OffsetCommitReqKind i q4)) \<longrightarrow>
       reply_fits OffsetCommitResp_Bytes wf_OffsetCommitResp (handleOffsetCommitRequest (norm_OffsetCommitReq (send_header k OffsetCommitReqKind i q4)) (cl_server e)) \<longrightarrow>
       net_OffsetCommit (wire_network lib pconf depth spare k i) c q4 e = net_OffsetCommit server_network c (SetCorrelationID i q4) e) \<and>
     (wf_OffsetFetchReq q5 \<longrightarrow> short (OffsetFetchReq_Bytes (send_header k OffsetFetchReqKind i q5)) \<longrightarrow>
       reply_fits OffsetFetchResp_Bytes wf_OffsetFetchResp (handleOffsetFetchRequest (send_header k OffsetFetchReqKind i q5) (cl_server e)) \<longrightarrow>
       net_OffsetFetch (wire_network lib pconf depth spare k i) c q5 e = net_OffsetFetch server_network c (SetCorrelationID i q5) e) \<and>
     (wf_ConsumerMetadataReq q6 \<longrightarrow> cq_CoordinatorType q6 = 0 \<longrightarrow> short (ConsumerMetadataReq_Bytes (send_header k ConsumerMetadataReqKind i q6)) \<longrightarrow>
       reply_fits ConsumerMetadataResp_Bytes wf_ConsumerMetadataResp (handleConsumerMetadataRequest (send_header k ConsumerMetadataReqKind i q6) (cl_server e)) \<longrightarrow>
       net_ConsumerMetadata (wire_network lib pconf depth spare k i) c q6 e = net_ConsumerMetadata server_network c (SetCorrelationID i q6) e)"
proof (intro conjI impI, goal_cases)
  case 1
  then show ?case by (rule metadata_on_wire[OF assms])
next
  case 2
  then show ?case by (rule fetch_on_wire[OF assms])
next
  case 3
  then show ?case by (rule produce_on_wire[OF assms])
next
  case 4
  then show ?case by (rule offset_on_wire[OF assms])
next
  case 5
  then show ?case by (rule commit_on_wire[OF assms])
next
  case 6
  then show ?case by (rule offset_fetch_on_wire[OF assms])
next
  case 7
  then show ?case by (rule coordinator_on_wire[OF assms])
qed

lemma network_on_wire_witness:
  "net_Metadata (wire_network example_codecs full_parsing 1 id new_connection 7) 0 zero_MetadataReq
     \<lparr>cl_server = NewServer, cl_open = [0], cl_next = 1\<rparr> =
   net_Metadata server_network 0 (SetCorrelationID 7 zero_MetadataReq) \<lparr>cl_server = NewServer, cl_open = [0], cl_next = 1\<rparr>"
proof -
  let ?q = "send_header new_connection MetadataReqKind 7 zero_MetadataReq"
  let ?r = "zero_MetadataResp\<lparr>mr_CorrelationID := 7\<rparr>"
  have "wf_MetadataReq zero_MetadataReq" by (simp add: wf_MetadataReq_def zero_MetadataReq_def wf_header_def)
  moreover have "short (MetadataReq_Bytes ?q)" by code_simp
  moreover have "fst (handleMetadataRequest server_node [] (norm_MetadataReq ?q) NewServer) = Reply ?r"
    by (simp add: handleMetadataRequest_def NewServer_def norm_MetadataReq_def send_header_def header_ops zero_MetadataReq_def
        zero_MetadataResp_def in_order_def)
  moreover have "short (MetadataResp_Bytes ?r)" by code_simp
  moreover have "wf_MetadataResp ?r" by (simp add: wf_MetadataResp_def zero_MetadataResp_def)
  ultimately show ?thesis using network_on_wire[OF new_speaks_V0] by (auto simp: reply_fits_def)
qed

end
