(* ===== verification/Requests.thy ===== *)
theory Requests
  imports Metadata ConsumerMetadata OffsetCommit OffsetFetch OffsetQuery CreateTopics ApiVersions
    Produce Fetch ConnectionApi
begin

text \<open>
  The interface \<open>Request\<close> of \<open>v2/proto/messages.go\<close> and the nine types that implement it: the methods of the
  embedded header, \<open>Kind\<close>, \<open>Bytes\<close> and \<open>WriteTo\<close>.  A value of the interface is a value of one of the types.
\<close>

section \<open>The methods\<close>

definition GetHeader :: "'a RequestHeader_scheme \<Rightarrow> RequestHeader" where
  "GetHeader h = RequestHeader.truncate h"

definition GetVersion :: "'a RequestHeader_scheme \<Rightarrow> int16" where
  "GetVersion h = version h"

definition GetCorrelationID :: "'a RequestHeader_scheme \<Rightarrow> int32" where
  "GetCorrelationID h = correlationID h"

definition GetClientID :: "'a RequestHeader_scheme \<Rightarrow> gostring" where
  "GetClientID h = ClientID h"

definition ProduceReq_WriteTo :: "codecs \<Rightarrow> ProduceReq \<Rightarrow> writer \<Rightarrow> ((nat \<times> goerror) \<times> writer) res" where
  "ProduceReq_WriteTo lib = WriteTo (ProduceReq_Bytes lib)"

definition FetchReq_WriteTo :: "FetchReq \<Rightarrow> writer \<Rightarrow> ((nat \<times> goerror) \<times> writer) res" where
  "FetchReq_WriteTo = WriteTo FetchReq_Bytes"

definition OffsetReq_WriteTo :: "OffsetReq \<Rightarrow> writer \<Rightarrow> ((nat \<times> goerror) \<times> writer) res" where
  "OffsetReq_WriteTo = WriteTo OffsetReq_Bytes"

definition MetadataReq_WriteTo :: "MetadataReq \<Rightarrow> writer \<Rightarrow> ((nat \<times> goerror) \<times> writer) res" where
  "MetadataReq_WriteTo = WriteTo MetadataReq_Bytes"

definition OffsetCommitReq_WriteTo :: "OffsetCommitReq \<Rightarrow> writer \<Rightarrow> ((nat \<times> goerror) \<times> writer) res" where
  "OffsetCommitReq_WriteTo = WriteTo OffsetCommitReq_Bytes"

definition OffsetFetchReq_WriteTo :: "OffsetFetchReq \<Rightarrow> writer \<Rightarrow> ((nat \<times> goerror) \<times> writer) res" where
  "OffsetFetchReq_WriteTo = WriteTo OffsetFetchReq_Bytes"

definition ConsumerMetadataReq_WriteTo :: "ConsumerMetadataReq \<Rightarrow> writer \<Rightarrow> ((nat \<times> goerror) \<times> writer) res" where
  "ConsumerMetadataReq_WriteTo = WriteTo ConsumerMetadataReq_Bytes"

definition APIVersionsReq_WriteTo :: "APIVersionsReq \<Rightarrow> writer \<Rightarrow> ((nat \<times> goerror) \<times> writer) res" where
  "APIVersionsReq_WriteTo = WriteTo APIVersionsReq_Bytes"

definition CreateTopicsReq_WriteTo :: "CreateTopicsReq \<Rightarrow> writer \<Rightarrow> ((nat \<times> goerror) \<times> writer) res" where
  "CreateTopicsReq_WriteTo = WriteTo CreateTopicsReq_Bytes"

text \<open>The dynamic type of a request, and the methods the interface dispatches on it.\<close>

datatype request =
    ProduceRequest ProduceReq
  | FetchRequest FetchReq
  | OffsetRequest OffsetReq
  | MetadataRequest MetadataReq
  | OffsetCommitRequest OffsetCommitReq
  | OffsetFetchRequest OffsetFetchReq
  | ConsumerMetadataRequest ConsumerMetadataReq
  | APIVersionsRequest APIVersionsReq
  | CreateTopicsRequest CreateTopicsReq

primrec Kind :: "request \<Rightarrow> int16" where
  "Kind (ProduceRequest r) = ProduceReqKind"
| "Kind (FetchRequest r) = FetchReqKind"
| "Kind (OffsetRequest r) = OffsetReqKind"
| "Kind (MetadataRequest r) = MetadataReqKind"
| "Kind (OffsetCommitRequest r) = OffsetCommitReqKind"
| "Kind (OffsetFetchRequest r) = OffsetFetchReqKind"
| "Kind (ConsumerMetadataRequest r) = ConsumerMetadataReqKind"
| "Kind (APIVersionsRequest r) = APIVersionsReqKind"
| "Kind (CreateTopicsRequest r) = CreateTopicsReqKind"

primrec request_header :: "request \<Rightarrow> RequestHeader" where
  "request_header (ProduceRequest r) = GetHeader r"
| "request_header (FetchRequest r) = GetHeader r"
| "request_header (OffsetRequest r) = GetHeader r"
| "request_header (MetadataRequest r) = GetHeader r"
| "request_header (OffsetCommitRequest r) = GetHeader r"
| "request_header (OffsetFetchRequest r) = GetHeader r"
| "request_header (ConsumerMetadataRequest r) = GetHeader r"
| "request_header (APIVersionsRequest r) = GetHeader r"
| "request_header (CreateTopicsRequest r) = GetHeader r"

primrec request_Bytes :: "codecs \<Rightarrow> request \<Rightarrow> byte list res" where
  "request_Bytes lib (ProduceRequest r) = ProduceReq_Bytes lib r"
| "request_Bytes lib (FetchRequest r) = FetchReq_Bytes r"
| "request_Bytes lib (OffsetRequest r) = OffsetReq_Bytes r"
| "request_Bytes lib (MetadataRequest r) = MetadataReq_Bytes r"
| "request_Bytes lib (OffsetCommitRequest r) = OffsetCommitReq_Bytes r"
| "request_Bytes lib (OffsetFetchRequest r) = OffsetFetchReq_Bytes r"
| "request_Bytes lib (ConsumerMetadataRequest r) = ConsumerMetadataReq_Bytes r"
| "request_Bytes lib (APIVersionsRequest r) = APIVersionsReq_Bytes r"
| "request_Bytes lib (CreateTopicsRequest r) = CreateTopicsReq_Bytes r"

primrec request_WriteTo :: "codecs \<Rightarrow> request \<Rightarrow> writer \<Rightarrow> ((nat \<times> goerror) \<times> writer) res" where
  "request_WriteTo lib (ProduceRequest r) = ProduceReq_WriteTo lib r"
| "request_WriteTo lib (FetchRequest r) = FetchReq_WriteTo r"
| "request_WriteTo lib (OffsetRequest r) = OffsetReq_WriteTo r"
| "request_WriteTo lib (MetadataRequest r) = MetadataReq_WriteTo r"
| "request_WriteTo lib (OffsetCommitRequest r) = OffsetCommitReq_WriteTo r"
| "request_WriteTo lib (OffsetFetchRequest r) = OffsetFetchReq_WriteTo r"
| "request_WriteTo lib (ConsumerMetadataRequest r) = ConsumerMetadataReq_WriteTo r"
| "request_WriteTo lib (APIVersionsRequest r) = APIVersionsReq_WriteTo r"
| "request_WriteTo lib (CreateTopicsRequest r) = CreateTopicsReq_WriteTo r"

lemmas WriteTo_defs = ProduceReq_WriteTo_def FetchReq_WriteTo_def OffsetReq_WriteTo_def MetadataReq_WriteTo_def OffsetCommitReq_WriteTo_def OffsetFetchReq_WriteTo_def ConsumerMetadataReq_WriteTo_def APIVersionsReq_WriteTo_def CreateTopicsReq_WriteTo_def

section \<open>The interface\<close>

text \<open>Every type writes its own bytes, which name its kind.\<close>

lemma request_WriteTo: "request_WriteTo lib q = WriteTo (request_Bytes lib) q"
  by (cases q) (simp_all add: WriteTo_defs WriteTo_def fun_eq_iff)

lemma carries_request: "carries (PutUint16 (Kind q)) (request_Bytes lib q)"
  by (cases q)
    (simp_all add: carries_ProduceReq FetchReq.kind_prefix OffsetReq.kind_prefix MetadataReq.kind_prefix
      OffsetCommitReq.kind_prefix OffsetFetchReq.kind_prefix ConsumerMetadataReq.kind_prefix
      APIVersionsReq.kind_prefix CreateTopicsReq.kind_prefix)

lemma ReadReq_request:
  assumes "request_Bytes lib q = Ok b" "short (request_Bytes lib q)"
  shows "ReadReq \<lparr>rd_bytes = b @ rest, rd_end = e, rd_tee = None\<rparr> =
    (Ok (Kind q, b), \<lparr>rd_bytes = rest, rd_end = e, rd_tee = None\<rparr>)"
proof -
  from carries_request[of q lib] assms obtain body
    where "b = frame (PutUint16 (Kind q) @ body)" "length body + 6 < 2147483648"
    by (auto simp: carries_def short_def frame_length)
  then show ?thesis by (simp add: ReadReq_frame)
qed

section \<open>Sending without waiting\<close>

text \<open>
  \<open>sendRequestWithoutAcks\<close> of \<open>v2/connection.go\<close>.  \<open>i\<close> is what the channel \<open>nextID\<close> yields, \<open>None\<close> once it
  is closed; \<open>kind\<close> and \<open>write\<close> are the methods \<open>Kind\<close> and \<open>WriteTo\<close> of the request, \<open>w\<close> is the socket.
\<close>

definition sendRequestWithoutAcks ::
  "connection \<Rightarrow> int32 option \<Rightarrow> int16 \<Rightarrow>
   ('a RequestHeader_scheme \<Rightarrow> writer \<Rightarrow> ((nat \<times> goerror) \<times> writer) res) \<Rightarrow>
   'a RequestHeader_scheme \<Rightarrow> writer \<Rightarrow> (goerror \<times> writer) res"
where
  "sendRequestWithoutAcks c i kind write req w =
     (case i of
        None \<Rightarrow> Ok (stopErr c, w)
      | Some corr \<Rightarrow>
          obind (write (SetVersion (getBestVersion kind c) (SetCorrelationID corr req)) w)
            (\<lambda>((n, err), w). Ok (err, w)))"

text \<open>The bytes of the request are on the socket exactly when there is no error.\<close>

lemma sent_without_acks:
  "sendRequestWithoutAcks c (Some i) ProduceReqKind (ProduceReq_WriteTo lib) q (BufferW out) =
     (case ProduceReq_Bytes lib (send_header c ProduceReqKind i q) of
        Ok b \<Rightarrow> Ok (None, BufferW (out @ b))
      | Err err \<Rightarrow> Ok (Some err, BufferW out)
      | Panic \<Rightarrow> Panic
      | NoFuel \<Rightarrow> NoFuel)"
proof -
  have "SetVersion v (SetCorrelationID i q) = SetCorrelationID i (SetVersion v q)" for v
    by (simp add: SetVersion_def SetCorrelationID_def)
  then show ?thesis
    by (simp add: sendRequestWithoutAcks_def ProduceReq_WriteTo_def WriteTo_def send_header_def split: outcome.split)
qed

section \<open>Several requests on one stream\<close>

text \<open>The requests are written one after the other; a call that fails leaves the stream as it is.\<close>

fun write_requests :: "codecs \<Rightarrow> request list \<Rightarrow> writer \<Rightarrow> (goerror list \<times> writer) res" where
  "write_requests lib [] w = Ok ([], w)"
| "write_requests lib (q # qs) w =
     obind (request_WriteTo lib q w) (\<lambda>((n, err), w).
     obind (write_requests lib qs w) (\<lambda>(errs, w). Ok (err # errs, w)))"

text \<open>The other side calls \<open>ReadReq\<close> that many times.\<close>

fun read_requests :: "nat \<Rightarrow> reader \<Rightarrow> (int16 \<times> byte list) res list \<times> reader" where
  "read_requests 0 r = ([], r)"
| "read_requests (Suc n) r =
     (let (x, r) = ReadReq r; (xs, r) = read_requests n r in (x # xs, r))"

text \<open>The requests that have bytes, with their kinds.\<close>

definition encoded :: "codecs \<Rightarrow> request list \<Rightarrow> (int16 \<times> byte list) list" where
  "encoded lib qs =
     concat (map (\<lambda>q. case request_Bytes lib q of Ok b \<Rightarrow> [(Kind q, b)] | _ \<Rightarrow> []) qs)"

lemma encoded_simps [simp]:
  "encoded lib [] = []"
  "encoded lib (q # qs) =
     (case request_Bytes lib q of Ok b \<Rightarrow> [(Kind q, b)] | _ \<Rightarrow> []) @ encoded lib qs"
  by (simp_all add: encoded_def)

lemma write_requests_bytes:
  assumes "write_requests lib qs (BufferW b) = Ok (errs, w)"
  shows "w = BufferW (b @ concat (map snd (encoded lib qs))) \<and>
    errs = map (\<lambda>q. case request_Bytes lib q of Err err \<Rightarrow> Some err | _ \<Rightarrow> None) qs \<and>
    length (filter ((=) None) errs) = length (encoded lib qs)"
  using assms
proof (induction qs arbitrary: b errs)
  case (Cons q qs)
  then obtain n err w1 errs' where step: "request_WriteTo lib q (BufferW b) = Ok ((n, err), w1)"
    "write_requests lib qs w1 = Ok (errs', w)" "errs = err # errs'"
    by (auto simp: obind_eq_Ok_conv split: prod.splits)
  show ?case
  proof (cases "request_Bytes lib q")
    case (Ok x)
    with step(1) have "w1 = BufferW (b @ x)" "err = None" by (simp_all add: request_WriteTo WriteTo_def)
    with Cons.IH[of "b @ x" errs'] step(2,3) Ok show ?thesis by auto
  next
    case (Err x)
    with step(1) have "w1 = BufferW b" "err = Some x" by (simp_all add: request_WriteTo WriteTo_def)
    with Cons.IH[of b errs'] step(2,3) Err show ?thesis by auto
  qed (use step(1) in \<open>simp_all add: request_WriteTo WriteTo_def\<close>)
qed simp

lemma read_requests_bytes:
  assumes "list_all (\<lambda>q. short (request_Bytes lib q)) qs"
  shows "read_requests (length (encoded lib qs))
      \<lparr>rd_bytes = concat (map snd (encoded lib qs)) @ rest, rd_end = e, rd_tee = None\<rparr> =
    (map Ok (encoded lib qs), \<lparr>rd_bytes = rest, rd_end = e, rd_tee = None\<rparr>)"
  using assms
proof (induction qs)
  case (Cons q qs)
  then show ?case
    by (cases "request_Bytes lib q") (simp_all add: ReadReq_request Let_def)
qed simp

section \<open>Properties\<close>

text \<open>
  C18.  Any sequence of requests of any of the nine types, written one after the other with \<open>WriteTo\<close>: a request whose
  \<open>Bytes\<close> fails returns that error and leaves nothing on the stream; the others are cut out again by as many calls of
  \<open>ReadReq\<close>, in the order they were written, each with its kind and exactly its bytes, and the stream
  continues behind the last.
\<close>

lemma requests_pipelined:
  assumes "write_requests lib qs (BufferW []) = Ok (errs, w)"
    and "list_all (\<lambda>q. short (request_Bytes lib q)) qs"
  shows "\<exists>b. w = BufferW b \<and>
    errs = map (\<lambda>q. case request_Bytes lib q of Err err \<Rightarrow> Some err | _ \<Rightarrow> None) qs \<and>
    read_requests (length (filter ((=) None) errs)) \<lparr>rd_bytes = b @ rest, rd_end = e, rd_tee = None\<rparr> =
      (map Ok (encoded lib qs), \<lparr>rd_bytes = rest, rd_end = e, rd_tee = None\<rparr>)"
  using write_requests_bytes[OF assms(1)] read_requests_bytes[OF assms(2)]
  by (metis append_Nil)

definition example_requests :: "request list" where
  "example_requests = [MetadataRequest zero_MetadataReq, APIVersionsRequest zero_APIVersionsReq]"

lemma requests_pipelined_witness:
  "\<exists>b. read_requests 2 \<lparr>rd_bytes = b @ [1, 2, 3], rd_end = EOF, rd_tee = None\<rparr> =
     (map Ok (encoded example_codecs example_requests), \<lparr>rd_bytes = [1, 2, 3], rd_end = EOF, rd_tee = None\<rparr>)"
proof -
  have "obind (write_requests example_codecs example_requests (BufferW [])) (\<lambda>(errs, w). Ok errs) = Ok [None, None]"
    by code_simp
  then obtain w where w: "write_requests example_codecs example_requests (BufferW []) = Ok ([None, None], w)"
    by (auto simp: obind_eq_Ok_conv split: prod.splits)
  have "list_all (\<lambda>q. short (request_Bytes example_codecs q)) example_requests"
    by code_simp
  from requests_pipelined[OF w this, of "[1, 2, 3]" EOF] show ?thesis by (auto simp: numeral_2_eq_2)
qed

end
