(* ===== verification/Pipeline.thy ===== *)
theory Pipeline
  imports Wire Requests
begin

text \<open>
  A client that writes many requests to one connection before it reads, and \<open>handleClient\<close> of the test server
  (\<open>v2/kafkatest/server.go\<close>) at the other end.  The specification works on values: the handlers are called on the
  requests, one after the other, and their responses are collected.
\<close>

section \<open>Serving values\<close>

datatype response =
    ProduceResponse ProduceResp
  | FetchResponse FetchResp
  | OffsetResponse OffsetResp
  | MetadataResponse MetadataResp
  | OffsetCommitResponse OffsetCommitResp
  | OffsetFetchResponse OffsetFetchResp
  | ConsumerMetadataResponse ConsumerMetadataResp
  | APIVersionsResponse APIVersionsResp

primrec response_Bytes :: "codecs \<Rightarrow> response \<Rightarrow> byte list res" where
  "response_Bytes lib (ProduceResponse r) = ProduceResp_Bytes r"
| "response_Bytes lib (FetchResponse r) = FetchResp_Bytes lib r"
| "response_Bytes lib (OffsetResponse r) = OffsetResp_Bytes r"
| "response_Bytes lib (MetadataResponse r) = MetadataResp_Bytes r"
| "response_Bytes lib (OffsetCommitResponse r) = OffsetCommitResp_Bytes r"
| "response_Bytes lib (OffsetFetchResponse r) = OffsetFetchResp_Bytes r"
| "response_Bytes lib (ConsumerMetadataResponse r) = ConsumerMetadataResp_Bytes r"
| "response_Bytes lib (APIVersionsResponse r) = APIVersionsResp_Bytes r"

primrec response_id :: "response \<Rightarrow> int32" where
  "response_id (ProduceResponse r) = pr_CorrelationID r"
| "response_id (FetchResponse r) = fr_CorrelationID r"
| "response_id (OffsetResponse r) = or_CorrelationID r"
| "response_id (MetadataResponse r) = mr_CorrelationID r"
| "response_id (OffsetCommitResponse r) = ocr_CorrelationID r"
| "response_id (OffsetFetchResponse r) = ofr_CorrelationID r"
| "response_id (ConsumerMetadataResponse r) = cr_CorrelationID r"
| "response_id (APIVersionsResponse r) = av_CorrelationID r"

definition request_id :: "request \<Rightarrow> int32" where
  "request_id q = GetCorrelationID (request_header q)"

text \<open>The handler for a type of request, on its value; the test server does not know the creation of topics.\<close>

primrec serve :: "server_env \<Rightarrow> int32 \<Rightarrow> request \<Rightarrow> Server \<Rightarrow> response reply \<times> Server" where
  "serve E nid (ProduceRequest q) s = map_prod (map_reply ProduceResponse) id (handleProduceRequest q s)"
| "serve E nid (FetchRequest q) s = map_prod (map_reply FetchResponse) id (handleFetchRequest (se_meanwhile E) q s)"
| "serve E nid (OffsetRequest q) s = map_prod (map_reply OffsetResponse) id (handleOffsetRequest q s)"
| "serve E nid (MetadataRequest q) s =
     map_prod (map_reply MetadataResponse) id (handleMetadataRequest nid (se_order E) q s)"
| "serve E nid (OffsetCommitRequest q) s = map_prod (map_reply OffsetCommitResponse) id (handleOffsetCommitRequest q s)"
| "serve E nid (OffsetFetchRequest q) s = map_prod (map_reply OffsetFetchResponse) id (handleOffsetFetchRequest q s)"
| "serve E nid (ConsumerMetadataRequest q) s =
     map_prod (map_reply ConsumerMetadataResponse) id (handleConsumerMetadataRequest q s)"
| "serve E nid (APIVersionsRequest q) s = map_prod (map_reply APIVersionsResponse) id (handleAPIVersionsRequest q s)"
| "serve E nid (CreateTopicsRequest q) s = (NoReply, s)"

text \<open>The responses to a sequence of requests, in their order, up to the first request that is not answered.\<close>

primrec serve_values :: "server_env \<Rightarrow> int32 \<Rightarrow> request list \<Rightarrow> Server \<Rightarrow> response list \<times> client_end \<times> Server" where
  "serve_values E nid [] s = ([], Serving, s)"
| "serve_values E nid (q # qs) s =
     (case serve E nid q s of
        (Reply r, s) \<Rightarrow> (let (rs, rest) = serve_values E nid qs s in (r # rs, rest))
      | (NoReply, s) \<Rightarrow> ([], Returned, s)
      | (Blocks, s) \<Rightarrow> ([], Blocked, s)
      | (Panics, s) \<Rightarrow> ([], Crashed, s))"

section \<open>Requests on the wire\<close>

text \<open>Requests that the wire carries, and what arrives of them: the fields that their version has.\<close>

primrec carried :: "server_env \<Rightarrow> request \<Rightarrow> bool" where
  "carried E (ProduceRequest q) \<longleftrightarrow> wf_ProduceReq (se_lib E) q \<and> single_partition q \<and>
     pq_Compression q \<in> {CompressionNone, CompressionGzip, CompressionSnappy} \<and> codec_laws (se_lib E) \<and>
     \<not> SimplifiedMessageSetParsing (se_conf E) \<and> 0 < se_depth E"
| "carried E (FetchRequest q) \<longleftrightarrow> wf_FetchReq q"
| "carried E (OffsetRequest q) \<longleftrightarrow> wf_OffsetReq q"
| "carried E (MetadataRequest q) \<longleftrightarrow> wf_MetadataReq q"
| "carried E (OffsetCommitRequest q) \<longleftrightarrow> wf_OffsetCommitReq q"
| "carried E (OffsetFetchRequest q) \<longleftrightarrow> wf_OffsetFetchReq q"
| "carried E (ConsumerMetadataRequest q) \<longleftrightarrow> wf_ConsumerMetadataReq q \<and> \<not> KafkaV1 \<le>s version q"
| "carried E (APIVersionsRequest q) \<longleftrightarrow> wf_header q"
| "carried E (CreateTopicsRequest q) \<longleftrightarrow> wf_CreateTopicsReq q"

primrec arriving :: "request \<Rightarrow> request" where
  "arriving (ProduceRequest q) = ProduceRequest (norm_ProduceReq q)"
| "arriving (FetchRequest q) = FetchRequest (norm_FetchReq q)"
| "arriving (OffsetRequest q) = OffsetRequest (norm_OffsetReq q)"
| "arriving (MetadataRequest q) = MetadataRequest (norm_MetadataReq q)"
| "arriving (OffsetCommitRequest q) = OffsetCommitRequest (norm_OffsetCommitReq q)"
| "arriving (OffsetFetchRequest q) = OffsetFetchRequest q"
| "arriving (ConsumerMetadataRequest q) = ConsumerMetadataRequest (q\<lparr>cq_CoordinatorType := 0\<rparr>)"
| "arriving (APIVersionsRequest q) = APIVersionsRequest (norm_APIVersionsReq q)"
| "arriving (CreateTopicsRequest q) = CreateTopicsRequest (norm_CreateTopicsReq q)"

definition fits_frame :: "byte list res \<Rightarrow> bool" where
  "fits_frame out \<longleftrightarrow> (case out of Ok b \<Rightarrow> short out | _ \<Rightarrow> False)"

definition bytes_written :: "byte list res \<Rightarrow> byte list" where
  "bytes_written out = (case out of Ok b \<Rightarrow> b | _ \<Rightarrow> [])"

lemma answer_read:
  "obind out (\<lambda>b. read (NewReader b)) = Ok q \<Longrightarrow> out = Ok b \<Longrightarrow>
   answer read handle Bytes b s = map_prod (map_reply Bytes) id (handle q s)"
  by (auto simp: answer_def split: reply.split prod.split)

lemma map_reply_twice:
  "map_prod (map_reply f) id (map_prod (map_reply g) id x) = map_prod (map_reply (\<lambda>r. f (g r))) id x"
  by (cases x) (simp add: reply.map_comp comp_def)

text \<open>The dispatch of \<open>handleClient\<close>: every kind of request reaches its handler as what arrives of it.\<close>

lemma respond_serves:
  assumes "carried E q" "request_Bytes (se_lib E) q = Ok b"
  shows "respond E [] nid (Kind q) b s =
    map_prod (map_reply (response_Bytes (se_lib E))) id (serve E nid (arriving q) s)"
proof (cases q)
  case (ProduceRequest r)
  with assms(1) obtain t p where "pq_Topics r = [t]" "pqt_Partitions t = [p]" by (auto simp: single_partition_def)
  with assms(1) ProduceRequest have "obind (ProduceReq_Bytes (se_lib E) r)
      (\<lambda>b. ReadProduceReq (se_lib E) (se_conf E) (se_depth E) (NewReader b)) = Ok (norm_ProduceReq r)"
    by (intro ProduceReq_one_partition) simp_all
  from answer_read[OF this, of b] assms(2) ProduceRequest show ?thesis
    by (simp add: respond_def default_handler_def map_reply_twice)
qed (use assms in \<open>simp_all add: respond_def default_handler_def kind_defs map_reply_twice
    answer_read[OF FetchReq.read_bytes] answer_read[OF OffsetReq.read_bytes] answer_read[OF MetadataReq.read_bytes]
    answer_read[OF OffsetCommitReq.read_bytes] answer_read[OF OffsetFetchReq.read_bytes]
    answer_read[OF ConsumerMetadataReq.read_bytes] answer_read[OF APIVersionsReq.read_bytes]\<close>)

lemma carries_response_id: "carries (PutUint32 (response_id r)) (response_Bytes lib r)"
  by (cases r) (simp_all add: carries_ProduceResp carries_FetchResp carries_OffsetResp carries_MetadataResp
      carries_OffsetCommitResp carries_OffsetFetchResp carries_ConsumerMetadataResp carries_APIVersionsResp)

text \<open>Every handler answers under the ID of the request.\<close>

lemma serve_id: "serve E nid (arriving q) s = (Reply r, s') \<Longrightarrow> response_id r = request_id q"
  by (cases q)
    (auto simp: request_id_def GetCorrelationID_def GetHeader_def RequestHeader.defs
      handleProduceRequest_def handleFetchRequest_def fetchRequest_def handleOffsetRequest_def handleMetadataRequest_def
      handleOffsetCommitRequest_def handleOffsetFetchRequest_def handleConsumerMetadataRequest_def
      handleAPIVersionsRequest_def as_reply_def Let_def obind_eq_Ok_conv norm_ProduceReq_def ProduceReq_fields_def
      norm_FetchReq_def norm_OffsetReq_def norm_MetadataReq_def norm_OffsetCommitReq_def norm_APIVersionsReq_def
      split: prod.splits reply.splits option.splits outcome.splits if_splits list.splits)

section \<open>The loop\<close>

text \<open>The requests behind each other on the stream, as \<open>WriteTo\<close> leaves them there.\<close>

lemma handleClient_values:
  assumes "list_all (\<lambda>q. carried E q \<and> fits_frame (request_Bytes (se_lib E) q)) qs"
    and "serve_values E nid (map arriving qs) s = (rs, fin, s')"
    and "list_all (\<lambda>r. fits_frame (response_Bytes (se_lib E) r)) rs"
  shows "handleClient E [] nid (\<lambda>_. True) (length qs)
      \<lparr>rd_bytes = concat (map (\<lambda>q. bytes_written (request_Bytes (se_lib E) q)) qs) @ behind, rd_end = e, rd_tee = None\<rparr> s =
    (concat (map (\<lambda>r. bytes_written (response_Bytes (se_lib E) r)) rs), fin, s')"
  using assms
proof (induction qs arbitrary: s rs)
  case (Cons q qs)
  obtain b where b: "request_Bytes (se_lib E) q = Ok b" "short (request_Bytes (se_lib E) q)"
    using Cons.prems(1) by (auto simp: fits_frame_def split: outcome.splits)
  have dispatch: "respond E [] nid (Kind q) b s =
      map_prod (map_reply (response_Bytes (se_lib E))) id (serve E nid (arriving q) s)"
    using respond_serves[OF _ b(1)] Cons.prems(1) by simp
  obtain x s1 where x: "serve E nid (arriving q) s = (x, s1)" by fastforce
  show ?case
  proof (cases x)
    case (Reply r)
    then obtain rs' where rs: "rs = r # rs'" "serve_values E nid (map arriving qs) s1 = (rs', fin, s')"
      using Cons.prems(2) x by (auto split: prod.splits)
    with Cons.prems(3) obtain out where "response_Bytes (se_lib E) r = Ok out" by (auto simp: fits_frame_def split: outcome.splits)
    with Cons.IH[OF _ rs(2)] Cons.prems(1,3) rs(1) Reply x show ?thesis
      by (simp add: ReadReq_request[OF b] b(1) bytes_written_def dispatch)
  qed (use Cons.prems(2) x in \<open>simp_all add: ReadReq_request[OF b] b(1) bytes_written_def dispatch\<close>)
qed simp

lemma serve_values_ids:
  assumes "serve_values E nid (map arriving qs) s = (rs, fin, s')"
  shows "map response_id rs = map request_id (take (length rs) qs) \<and> (fin = Serving \<longleftrightarrow> length rs = length qs)"
  using assms
proof (induction qs arbitrary: s rs)
  case (Cons q qs)
  then show ?case
    by (cases "serve E nid (arriving q) s"; cases "fst (serve E nid (arriving q) s)")
      (auto simp: serve_id split: prod.splits)
qed simp

text \<open>The client cuts the responses out of its end of the connection with \<open>ReadResp\<close>.\<close>

primrec read_responses :: "nat \<Rightarrow> reader \<Rightarrow> (int32 \<times> byte list) res list \<times> reader" where
  "read_responses 0 r = ([], r)"
| "read_responses (Suc n) r = (let (x, r) = ReadResp r; (xs, r) = read_responses n r in (x # xs, r))"

lemma ReadResp_response:
  assumes "response_Bytes lib r = Ok b" "short (response_Bytes lib r)"
  shows "ReadResp \<lparr>rd_bytes = b @ rest, rd_end = e, rd_tee = None\<rparr> =
    (Ok (response_id r, b), \<lparr>rd_bytes = rest, rd_end = e, rd_tee = None\<rparr>)"
proof -
  from carries_response_id[of r lib] assms obtain body
    where "b = frame (PutUint32 (response_id r) @ body)" "length body + 8 < 2147483648"
    by (auto simp: carries_def short_def frame_length)
  then show ?thesis by (simp add: ReadResp_frame)
qed

lemma read_responses_bytes:
  assumes "list_all (\<lambda>r. fits_frame (response_Bytes lib r)) rs"
  shows "read_responses (length rs)
      \<lparr>rd_bytes = concat (map (\<lambda>r. bytes_written (response_Bytes lib r)) rs) @ rest, rd_end = e, rd_tee = None\<rparr> =
    (map (\<lambda>r. Ok (response_id r, bytes_written (response_Bytes lib r))) rs, \<lparr>rd_bytes = rest, rd_end = e, rd_tee = None\<rparr>)"
  using assms
proof (induction rs)
  case (Cons r rs)
  then obtain b where "response_Bytes lib r = Ok b" "short (response_Bytes lib r)" by (auto simp: fits_frame_def split: outcome.splits)
  with Cons ReadResp_response[of lib r b] show ?case by (simp add: bytes_written_def Let_def)
qed simp

section \<open>Properties\<close>

text \<open>
  C24.  \<open>handleClient\<close> on the bytes of any sequence of requests of the nine types, written one behind the other, does what
  the handlers do on the requests as values: every request reaches the handler of its own type (create topics requests
  none, which ends the connection), in the order the requests were written, and the bytes written back are those of the
  responses of the handlers, in this order, up to the first request that is not answered; the connection ends the way the
  handler says, and the server is left as the handlers leave it.  The client cuts these bytes into the responses again,
  each under the correlation ID of its request.  Produce requests are those for one partition, consumer metadata requests those
  before version 1; the requests and the responses fit into a frame.
\<close>

lemma client_served:
  assumes "list_all (\<lambda>q. carried E q \<and> fits_frame (request_Bytes (se_lib E) q)) qs"
    and "serve_values E nid (map arriving qs) s = (rs, fin, s')"
    and "list_all (\<lambda>r. fits_frame (response_Bytes (se_lib E) r)) rs"
  shows "\<exists>out. handleClient E [] nid (\<lambda>_. True) (length qs)
      \<lparr>rd_bytes = concat (map (\<lambda>q. bytes_written (request_Bytes (se_lib E) q)) qs) @ behind, rd_end = e, rd_tee = None\<rparr> s =
        (out, fin, s') \<and>
    read_responses (length rs) \<lparr>rd_bytes = out @ rest, rd_end = e', rd_tee = None\<rparr> =
      (map (\<lambda>r. Ok (response_id r, bytes_written (response_Bytes (se_lib E) r))) rs,
       \<lparr>rd_bytes = rest, rd_end = e', rd_tee = None\<rparr>) \<and>
    map response_id rs = map request_id (take (length rs) qs) \<and> (fin = Serving \<longleftrightarrow> length rs = length qs)"
  using handleClient_values[OF assms] read_responses_bytes[OF assms(3)] serve_values_ids[OF assms(2)] by blast

text \<open>
  A client that asks for the versions and for a topic, commits an offset, fetches from the topic, and ends with a request the
  server does not know.
\<close>

definition example_pipeline :: "request list" where
  "example_pipeline =
     [APIVersionsRequest (zero_APIVersionsReq\<lparr>correlationID := 1\<rparr>),
      MetadataRequest (zero_MetadataReq\<lparr>correlationID := 2, mq_Topics := [str ''t'']\<rparr>),
      OffsetCommitRequest (zero_OffsetCommitReq\<lparr>correlationID := 3, ocq_ConsumerGroup := str ''g'', ocq_Topics :=
        [\<lparr>ocqt_Name = str ''t'', ocqt_Partitions = [zero_OffsetCommitReqPartition\<lparr>ocqp_Offset := 9\<rparr>]\<rparr>]\<rparr>),
      FetchRequest (zero_FetchReq\<lparr>correlationID := 4, fq_Topics :=
        [\<lparr>fqt_Name = str ''t'', fqt_Partitions = [zero_FetchReqPartition]\<rparr>]\<rparr>),
      CreateTopicsRequest (zero_CreateTopicsReq\<lparr>correlationID := 5\<rparr>)]"

lemma client_served_witness:
  "\<exists>out s' rs. handleClient example_env [] 100 (\<lambda>_. True) 5
       \<lparr>rd_bytes = concat (map (\<lambda>q. bytes_written (request_Bytes example_codecs q)) example_pipeline), rd_end = EOF, rd_tee = None\<rparr>
       NewServer = (out, Returned, s') \<and>
     read_responses 4 (NewReader out) = (map (\<lambda>r. Ok (response_id r, bytes_written (response_Bytes example_codecs r))) rs, NewReader []) \<and>
     map response_id rs = [1, 2, 3, 4] \<and> map_of (topics s') (str ''t'') = Some [(0, [])]"
proof -
  let ?run = "serve_values example_env 100 (map arriving example_pipeline) NewServer"
  have carried: "list_all (carried example_env) example_pipeline"
    by (simp add: example_pipeline_def wf_header_def wf_MetadataReq_def wf_FetchReq_def wf_FetchReqTopic_def
        wf_CreateTopicsReq_def wf_OffsetCommitReq_def wf_OffsetCommitReqTopic_def wf_string_def wf_array_def str_def
        zero_APIVersionsReq_def zero_MetadataReq_def zero_FetchReq_def zero_CreateTopicsReq_def zero_OffsetCommitReq_def
        zero_OffsetCommitReqPartition_def)
  have "list_all (\<lambda>q. fits_frame (request_Bytes (se_lib example_env) q)) example_pipeline" by code_simp
  with carried have reqs: "list_all (\<lambda>q. carried example_env q \<and> fits_frame (request_Bytes (se_lib example_env) q)) example_pipeline"
    by (simp add: list_all_iff)
  obtain rs fin s' where run: "?run = (rs, fin, s')" by (metis prod_cases3)
  have "(case ?run of (rs, fin, s') \<Rightarrow> (fin, map_of (topics s') (str ''t''),
      list_all (\<lambda>r. fits_frame (response_Bytes (se_lib example_env) r)) rs, length rs)) = (Returned, Some [(0, [])], True, 4)"
    by code_simp
  then have end_state: "fin = Returned" "map_of (topics s') (str ''t'') = Some [(0, [])]"
    "list_all (\<lambda>r. fits_frame (response_Bytes (se_lib example_env) r)) rs" "length rs = 4"
    by (simp_all add: run)
  have ids: "map request_id (take 4 example_pipeline) = [1, 2, 3, 4]" "length example_pipeline = 5" by code_simp+
  have env: "se_lib example_env = example_codecs" by (simp add: example_env_def)
  from client_served[OF reqs run end_state(3), of "[]" EOF "[]" EOF] show ?thesis
    unfolding end_state(1,4) env NewReader_def append_Nil2 ids
    by (elim exE conjE, intro exI conjI) (assumption | rule end_state(2))+
qed

end
