(* ===== verification/Multiplexer.thy ===== *)
theory Multiplexer
  imports Steps MessageSet
begin

text \<open>
  \<open>v2/multiplexer.go\<close>: \<open>Merge\<close> starts one worker per consumer; the workers and any number of
  callers of \<open>Consume\<close> and \<open>Close\<close> interleave.  A consumer may return any message and any error at
  any time.  The channels are unbuffered, so a worker's send and a caller's receive are one step.
\<close>

section \<open>State\<close>

text \<open>What \<open>Consume\<close> of a consumer returned: a message or an error that is not \<open>ErrNoData\<close>.\<close>

type_synonym item = "error + Message"

datatype worker = Consuming | Holding item | Leaving | Gone

record mx =
  mx_stop :: bool
  mx_closed :: bool
  mx_workers :: int
  mx_panicked :: bool

text \<open>
  \<open>returned_by t\<close> lists what the consumer of worker \<open>t\<close> returned, \<open>consumed\<close> what the calls of
  \<open>Mx.Consume\<close> returned and from which worker, both in order.
\<close>

record mx_world =
  mx_state :: mx
  worker_at :: "nat \<Rightarrow> worker"
  returned_by :: "nat \<Rightarrow> item list"
  consumed :: "(nat \<times> item) list"

definition Merge :: "nat \<Rightarrow> mx_world" where
  "Merge n = \<lparr>mx_state = \<lparr>mx_stop = False, mx_closed = False, mx_workers = int n, mx_panicked = False\<rparr>,
     worker_at = (\<lambda>t. if t < n then Consuming else Gone), returned_by = (\<lambda>_. []), consumed = []\<rparr>"

section \<open>Operations under the mutex\<close>

definition close_mx_stop :: "mx \<Rightarrow> mx" where
  "close_mx_stop p = p\<lparr>mx_stop := True, mx_panicked := mx_panicked p \<or> mx_stop p\<rparr>"

definition worker_leaves :: "mx \<Rightarrow> mx" where
  "worker_leaves p =
     (let p = p\<lparr>mx_workers := mx_workers p - 1\<rparr>
      in if mx_workers p = 0 \<and> \<not> mx_closed p then (close_mx_stop p)\<lparr>mx_closed := True\<rparr> else p)"

definition Workers :: "mx \<Rightarrow> int" where
  "Workers p = mx_workers p"

definition mx_Close :: "mx \<Rightarrow> mx" where
  "mx_Close p = (if \<not> mx_closed p then close_mx_stop (p\<lparr>mx_closed := True\<rparr>) else p)"

section \<open>Interleaving\<close>

inductive mx_step :: "mx_world \<Rightarrow> mx_world \<Rightarrow> bool" where
  consumer_returns: "worker_at w t = Consuming \<Longrightarrow> x \<noteq> Inl ErrNoData \<Longrightarrow>
    mx_step w (w\<lparr>worker_at := (worker_at w)(t := Holding x),
      returned_by := (returned_by w)(t := returned_by w t @ [x])\<rparr>)"
| consumer_empty: "worker_at w t = Consuming \<Longrightarrow>
    mx_step w (w\<lparr>worker_at := (worker_at w)(t := Leaving)\<rparr>)"
| consume: "worker_at w t = Holding x \<Longrightarrow>
    mx_step w (w\<lparr>worker_at := (worker_at w)(t := Consuming), consumed := consumed w @ [(t, x)]\<rparr>)"
| worker_stops: "worker_at w t = Holding x \<Longrightarrow> mx_stop (mx_state w) \<Longrightarrow>
    mx_step w (w\<lparr>worker_at := (worker_at w)(t := Leaving)\<rparr>)"
| worker_gone: "worker_at w t = Leaving \<Longrightarrow>
    mx_step w (w\<lparr>worker_at := (worker_at w)(t := Gone), mx_state := worker_leaves (mx_state w)\<rparr>)"
| close_mx: "mx_step w (w\<lparr>mx_state := mx_Close (mx_state w)\<rparr>)"

text \<open>A call of \<open>Consume\<close> that finds \<open>stop\<close> closed returns \<open>ErrMxClosed\<close> and changes nothing.\<close>

definition consume_closed :: "mx_world \<Rightarrow> error option" where
  "consume_closed w = (if mx_stop (mx_state w) then Some ErrMxClosed else None)"

section \<open>Invariant\<close>

definition active :: "nat \<Rightarrow> mx_world \<Rightarrow> nat set" where
  "active n w = {t. t < n \<and> worker_at w t \<noteq> Gone}"

primrec in_hand :: "worker \<Rightarrow> item list" where
  "in_hand Consuming = []"
| "in_hand (Holding x) = [x]"
| "in_hand Leaving = []"
| "in_hand Gone = []"

definition delivered :: "mx_world \<Rightarrow> nat \<Rightarrow> item list" where
  "delivered w t = map snd (filter (\<lambda>d. fst d = t) (consumed w))"

definition count_inv :: "nat \<Rightarrow> mx_world \<Rightarrow> bool" where
  "count_inv n w \<longleftrightarrow> mx_workers (mx_state w) = int (card (active n w)) \<and>
     (\<forall>t \<ge> n. worker_at w t = Gone) \<and>
     mx_stop (mx_state w) = mx_closed (mx_state w) \<and> \<not> mx_panicked (mx_state w) \<and>
     (0 < n \<and> active n w = {} \<longrightarrow> mx_closed (mx_state w))"

text \<open>Only a worker that stops can drop an item, and then one.\<close>

definition accounted :: "mx_world \<Rightarrow> nat \<Rightarrow> item list \<Rightarrow> bool" where
  "accounted w t dropped \<longleftrightarrow>
     returned_by w t = delivered w t @ in_hand (worker_at w t) @ dropped \<and>
     (dropped = [] \<or> length dropped = 1 \<and> mx_closed (mx_state w) \<and> worker_at w t \<in> {Leaving, Gone})"

definition item_inv :: "mx_world \<Rightarrow> bool" where
  "item_inv w \<longleftrightarrow> (\<forall>t. \<exists>dropped. accounted w t dropped)"

definition mx_inv :: "nat \<Rightarrow> mx_world \<Rightarrow> bool" where
  "mx_inv n w \<longleftrightarrow> count_inv n w \<and> item_inv w"

lemma finite_active [simp]: "finite (active n w)"
  by (simp add: active_def)

text \<open>Steps in which no worker ends.\<close>

lemma count_inv_same:
  assumes "count_inv n w" "mx_state w' = mx_state w"
    "\<And>t. worker_at w' t = Gone \<longleftrightarrow> worker_at w t = Gone"
  shows "count_inv n w'"
proof -
  have "active n w' = active n w" using assms(3) by (auto simp: active_def)
  with assms show ?thesis by (simp add: count_inv_def)
qed

lemma step_count_inv:
  assumes "mx_step w w'" "count_inv n w"
  shows "count_inv n w'"
  using assms(1)
proof (cases rule: mx_step.cases)
  case (worker_gone t)
  let ?w = "w\<lparr>worker_at := (worker_at w)(t := Gone)\<rparr>"
  have "t < n"
  proof (rule ccontr)
    assume "\<not> t < n"
    with assms(2) have "worker_at w t = Gone" by (simp add: count_inv_def)
    with worker_gone show False by simp
  qed
  with worker_gone have t: "t \<in> active n w" by (simp add: active_def)
  have "active n ?w = active n w - {t}" by (auto simp: active_def)
  with t have card: "int (card (active n ?w)) = int (card (active n w)) - 1"
    using card_Suc_Diff1[OF finite_active t] by simp
  have "active n w' = active n ?w" using worker_gone by (simp add: active_def)
  with worker_gone card assms(2) show ?thesis
    by (auto simp: count_inv_def worker_leaves_def close_mx_stop_def Let_def)
next
  case close_mx
  then have "active n w' = active n w" by (simp add: active_def)
  with close_mx assms(2) show ?thesis by (auto simp: count_inv_def mx_Close_def close_mx_stop_def)
qed (rule count_inv_same[OF assms(2)]; auto)+

lemma worker_leaves_closed: "mx_closed p \<Longrightarrow> mx_closed (worker_leaves p)"
  by (simp add: worker_leaves_def Let_def)

lemma item_invD:
  assumes "item_inv w"
  obtains dropped where "accounted w t dropped"
  using assms unfolding item_inv_def by blast

text \<open>A step touches one worker; for the others it may only close the multiplexer.\<close>

lemma item_invI:
  assumes "item_inv w" "\<And>u. u \<noteq> t \<Longrightarrow> returned_by w' u = returned_by w u"
    "\<And>u. u \<noteq> t \<Longrightarrow> worker_at w' u = worker_at w u" "\<And>u. u \<noteq> t \<Longrightarrow> delivered w' u = delivered w u"
    "mx_closed (mx_state w) \<Longrightarrow> mx_closed (mx_state w')" "accounted w' t d"
  shows "item_inv w'"
  unfolding item_inv_def
proof
  fix u
  show "\<exists>d. accounted w' u d"
  proof (cases "u = t")
    case False
    obtain d' where "accounted w u d'" by (rule item_invD[OF assms(1)])
    with False assms(2-5) have "accounted w' u d'" by (auto simp: accounted_def)
    then show ?thesis by blast
  qed (use assms(6) in blast)
qed

lemma step_item_inv:
  assumes "mx_step w w'" "count_inv n w" "item_inv w"
  shows "item_inv w'"
  using assms(1)
proof (cases rule: mx_step.cases)
  case (consumer_returns t x)
  obtain d where "accounted w t d"
    by (rule item_invD[OF assms(3)])
  with consumer_returns show ?thesis
    by (intro item_invI[OF assms(3), of t _ d])
      (auto simp: accounted_def delivered_def)
next
  case (consumer_empty t)
  obtain d where "accounted w t d"
    by (rule item_invD[OF assms(3)])
  with consumer_empty show ?thesis
    by (intro item_invI[OF assms(3), of t _ d])
      (auto simp: accounted_def delivered_def)
next
  case (consume t x)
  obtain d where "accounted w t d"
    by (rule item_invD[OF assms(3)])
  with consume show ?thesis
    by (intro item_invI[OF assms(3), of t _ d])
      (auto simp: accounted_def delivered_def)
next
  case (worker_stops t x)
  have "mx_closed (mx_state w)" using worker_stops assms(2) by (simp add: count_inv_def)
  moreover obtain d where "accounted w t d"
    by (rule item_invD[OF assms(3)])
  ultimately show ?thesis using worker_stops
    by (intro item_invI[OF assms(3), of t _ "[x]"])
      (auto simp: accounted_def delivered_def)
next
  case (worker_gone t)
  obtain d where "accounted w t d"
    by (rule item_invD[OF assms(3)])
  with worker_gone show ?thesis
    by (intro item_invI[OF assms(3), of t _ d])
      (auto simp: accounted_def delivered_def worker_leaves_closed)
next
  case close_mx
  obtain d where "accounted w 0 d"
    by (rule item_invD[OF assms(3)])
  with close_mx show ?thesis
    by (intro item_invI[OF assms(3), of 0 _ d])
      (auto simp: accounted_def delivered_def mx_Close_def close_mx_stop_def)
qed

interpretation mxi: invariant "\<lambda>w. w = Merge n" mx_step "mx_inv n" for n
proof
  fix w assume "w = Merge n"
  moreover have "active n (Merge n) = {..<n}" by (auto simp: active_def Merge_def)
  ultimately show "mx_inv n w"
    by (auto simp: mx_inv_def count_inv_def item_inv_def accounted_def delivered_def Merge_def)
next
  fix w w' assume "mx_inv n w" "mx_step w w'"
  then show "mx_inv n w'" using step_count_inv step_item_inv unfolding mx_inv_def by blast
qed

section \<open>Properties\<close>

definition example_mx :: mx_world where
  "example_mx = (Merge 1)\<lparr>worker_at := (\<lambda>_. Gone),
     mx_state := \<lparr>mx_stop = True, mx_closed = True, mx_workers = 0, mx_panicked = False\<rparr>\<rparr>"

lemma reach_example_mx: "reachable (\<lambda>w. w = Merge 1) mx_step example_mx"
proof -
  let ?w = "(Merge 1)\<lparr>worker_at := (worker_at (Merge 1))(0 := Leaving)\<rparr>"
  have gone: "(\<lambda>t. if t = 0 then Consuming else Gone)(0 := Gone) = (\<lambda>_. Gone)" by auto
  have "mx_step (Merge 1) ?w" by (rule mx_step.consumer_empty) (simp add: Merge_def)
  moreover have "mx_step ?w example_mx"
    using mx_step.worker_gone[of ?w 0]
    by (simp add: Merge_def example_mx_def worker_leaves_def close_mx_stop_def Let_def gone)
  ultimately show ?thesis
    using reachable.advance reachable.start[where init = "\<lambda>w. w = Merge 1", OF refl] by metis
qed

text \<open>
  C16.  The multiplexer hands on what each consumer returned, in order, without losing or repeating
  anything: until it is closed all but the item a worker holds has been returned by \<open>Consume\<close>, and
  closing loses at most that one item of every worker.
\<close>

lemma mx_delivers_in_order:
  assumes "reachable (\<lambda>w. w = Merge n) mx_step w"
  shows "\<exists>rest. returned_by w t = delivered w t @ rest \<and> length rest \<le> 1 \<and>
    (\<not> mx_closed (mx_state w) \<longrightarrow> rest = in_hand (worker_at w t))"
proof -
  have "item_inv w" using mxi.reachable_inv[OF assms] by (simp add: mx_inv_def)
  then obtain dropped where "accounted w t dropped" by (rule item_invD)
  then show ?thesis
    by (intro exI[of _ "in_hand (worker_at w t) @ dropped"])
      (cases "worker_at w t"; auto simp: accounted_def)
qed

text \<open>Two consumers: the first returns a message, which is consumed, and then an error, which its worker holds.\<close>

definition example_items :: mx_world where
  "example_items = (Merge 2)\<lparr>worker_at := (worker_at (Merge 2))(0 := Holding (Inl ErrClosed)),
     returned_by := (\<lambda>_. [])(0 := [Inr zero_Message, Inl ErrClosed]), consumed := [(0, Inr zero_Message)]\<rparr>"

lemma reach_example_items: "reachable (\<lambda>w. w = Merge 2) mx_step example_items"
proof -
  define w1 where "w1 = (Merge 2)\<lparr>worker_at := (worker_at (Merge 2))(0 := Holding (Inr zero_Message)),
     returned_by := (\<lambda>_. [])(0 := [Inr zero_Message])\<rparr>"
  define w2 where "w2 = w1\<lparr>worker_at := worker_at (Merge 2), consumed := [(0, Inr zero_Message)]\<rparr>"
  have same: "(worker_at (Merge 2))(0 := Consuming) = worker_at (Merge 2)" by (auto simp: Merge_def)
  have s1: "mx_step (Merge 2) w1"
    using mx_step.consumer_returns[of "Merge 2" 0 "Inr zero_Message"] by (simp add: w1_def Merge_def)
  have s2: "mx_step w1 w2"
    using mx_step.consume[of w1 0 "Inr zero_Message"] same by (simp add: w1_def w2_def Merge_def)
  have s3: "mx_step w2 example_items"
    using mx_step.consumer_returns[of w2 0 "Inl ErrClosed"] by (simp add: w1_def w2_def Merge_def example_items_def)
  have "reachable (\<lambda>w. w = Merge 2) mx_step (Merge 2)" by (rule reachable.start) simp
  then have "reachable (\<lambda>w. w = Merge 2) mx_step w1" using s1 by (rule reachable.advance)
  then have "reachable (\<lambda>w. w = Merge 2) mx_step w2" using s2 by (rule reachable.advance)
  then show ?thesis using s3 by (rule reachable.advance)
qed

lemma mx_delivers_in_order_witness:
  "\<exists>rest. returned_by example_items 0 = delivered example_items 0 @ rest \<and> rest = [Inl ErrClosed] \<and>
     delivered example_items 0 = [Inr zero_Message]"
  using mx_delivers_in_order[OF reach_example_items, of 0]
  by (simp add: example_items_def Merge_def delivered_def)

text \<open>
  C34.  \<open>Workers\<close> counts the workers that are still running, no interleaving closes \<open>stop\<close> twice, and
  when the last of the merged consumers has run empty, \<open>Consume\<close> returns \<open>ErrMxClosed\<close>.
\<close>

lemma mx_closes_when_empty:
  assumes "reachable (\<lambda>w. w = Merge n) mx_step w"
  shows "Workers (mx_state w) = int (card (active n w)) \<and> \<not> mx_panicked (mx_state w) \<and>
    (0 < n \<and> Workers (mx_state w) = 0 \<longrightarrow> consume_closed w = Some ErrMxClosed)"
  using mxi.reachable_inv[OF assms]
  by (auto simp: mx_inv_def count_inv_def Workers_def consume_closed_def)

lemma mx_closes_when_empty_witness: "consume_closed example_mx = Some ErrMxClosed"
  using mx_closes_when_empty[OF reach_example_mx] by (simp add: Workers_def example_mx_def)

end
