(* ===== verification/DistributingProducer.thy ===== *)
theory DistributingProducer
  imports MessageSet
begin

text \<open>
  \<open>v2/distributing_producer.go\<close>: producers that pick the partition themselves, at random, in
  turn, or by a hash of the key.  The wrapped \<open>Producer\<close> is an argument \<open>Produce\<close> over a state of
  its own; the choice of the partition is a function on the state of the wrapper, made under its
  mutex, so concurrent calls make their choices one after the other.
\<close>

unbundle bit_operations_syntax

type_synonym 'p produce = "gostring \<Rightarrow> int32 \<Rightarrow> Message list \<Rightarrow> 'p \<Rightarrow> (int64 \<times> goerror) \<times> 'p"

section \<open>Random\<close>

text \<open>
  \<open>rand.Intn(n)\<close> panics unless \<open>n\<close> is positive and otherwise returns some number from 0 to \<open>n - 1\<close>,
  here the remainder of the next number of the source.
\<close>

record randomProducer =
  rp_partitions :: int32
  rp_rand :: "nat list"

definition saferand_Intn :: "int \<Rightarrow> nat \<Rightarrow> int res" where
  "saferand_Intn n x = (if n \<le> 0 then Panic else Ok (int x mod n))"

definition NewRandomProducer :: "nat list \<Rightarrow> int32 \<Rightarrow> randomProducer" where
  "NewRandomProducer source numPartitions = \<lparr>rp_partitions = numPartitions, rp_rand = source\<rparr>"

text \<open>The source is not used up in Go; \<open>NoFuel\<close> is the end of the list that stands for it.\<close>

definition random_take :: "randomProducer \<Rightarrow> (int32 \<times> randomProducer) res" where
  "random_take p =
     (if 0 <s rp_partitions p then
        (case rp_rand p of
           [] \<Rightarrow> NoFuel
         | x # xs \<Rightarrow>
             obind (saferand_Intn (sint (rp_partitions p)) x) (\<lambda>part.
               Ok (of_int part, p\<lparr>rp_rand := xs\<rparr>)))
      else Ok (0, p))"

definition random_Distribute ::
  "'p produce \<Rightarrow> gostring \<Rightarrow> Message list \<Rightarrow> randomProducer \<times> 'p \<Rightarrow>
   ((int64 \<times> goerror) \<times> randomProducer \<times> 'p) res"
where
  "random_Distribute Produce topic ms s =
     obind (random_take (fst s)) (\<lambda>(part, p).
       let (r, s') = Produce topic part ms (snd s) in Ok (r, p, s'))"

section \<open>Round robin\<close>

record roundRobinProducer =
  rr_partitions :: int32
  rr_next :: int32

definition NewRoundRobinProducer :: "int32 \<Rightarrow> roundRobinProducer" where
  "NewRoundRobinProducer numPartitions = \<lparr>rr_partitions = numPartitions, rr_next = 0\<rparr>"

definition roundRobin_take :: "roundRobinProducer \<Rightarrow> (int32 \<times> roundRobinProducer) res" where
  "roundRobin_take p =
     (let part = rr_next p;
          p = p\<lparr>rr_next := rr_next p + 1\<rparr>;
          p = (if rr_partitions p \<le>s rr_next p then p\<lparr>rr_next := 0\<rparr> else p)
      in Ok (part, p))"

definition roundRobin_Distribute ::
  "'p produce \<Rightarrow> gostring \<Rightarrow> Message list \<Rightarrow> roundRobinProducer \<times> 'p \<Rightarrow>
   ((int64 \<times> goerror) \<times> roundRobinProducer \<times> 'p) res"
where
  "roundRobin_Distribute Produce topic ms s =
     obind (roundRobin_take (fst s)) (\<lambda>(part, p).
       let (r, s') = Produce topic part ms (snd s) in Ok (r, p, s'))"

section \<open>Hash of the key\<close>

text \<open>FNV-1a of package \<open>hash/fnv\<close>, whose \<open>Write\<close> never fails, and the remainder of Go on \<open>int32\<close>.\<close>

definition fnv32a :: "byte list \<Rightarrow> uint32" where
  "fnv32a bs = foldl (\<lambda>h b. (h XOR ucast b) * 16777619) 2166136261 bs"

definition rem32 :: "int32 \<Rightarrow> int32 \<Rightarrow> int32" where
  "rem32 a b = of_int (sgn (sint a) * (\<bar>sint a\<bar> mod \<bar>sint b\<bar>))"

definition messageHashPartition :: "gobytes \<Rightarrow> int32 \<Rightarrow> int32 res" where
  "messageHashPartition key partitions =
     (case key of
        None \<Rightarrow> Err NoKey
      | Some k \<Rightarrow>
          let sum = fnv32a k;
              sum = (if sum <s 0 then - sum else sum)
          in if partitions = 0 then Panic else Ok (rem32 sum partitions))"

record hashProducer =
  hp_partitions :: int32

definition NewHashProducer :: "int32 \<Rightarrow> hashProducer" where
  "NewHashProducer numPartitions = \<lparr>hp_partitions = numPartitions\<rparr>"

definition hash_message :: "hashProducer \<Rightarrow> Message \<Rightarrow> int32 res" where
  "hash_message p m =
     (case messageHashPartition (Key m) (hp_partitions p) of
        Err err \<Rightarrow> Err (CannotHashMessage err)
      | r \<Rightarrow> r)"

text \<open>\<open>for i := 2; i < len(messages); i++\<close>, over the messages from the third on.\<close>

primrec check_destinations :: "hashProducer \<Rightarrow> int32 \<Rightarrow> Message list \<Rightarrow> unit res" where
  "check_destinations p part [] = Ok ()"
| "check_destinations p part (m # ms) =
     obind (hash_message p m) (\<lambda>mp.
       if part \<noteq> mp then Err DifferentDestinations else check_destinations p part ms)"

definition hash_Distribute ::
  "'p produce \<Rightarrow> gostring \<Rightarrow> Message list \<Rightarrow> hashProducer \<Rightarrow> 'p \<Rightarrow> ((int64 \<times> goerror) \<times> 'p) res"
where
  "hash_Distribute Produce topic ms p s =
     (case ms of
        [] \<Rightarrow> Err NoMessages
      | m # _ \<Rightarrow>
          obind (hash_message p m) (\<lambda>part.
          obind (check_destinations p part (drop 2 ms)) (\<lambda>_.
            Ok (Produce topic part ms s))))"

section \<open>The contract of a chooser\<close>

text \<open>
  What the producers that keep a state promise: a valid state gives a partition in range and a
  valid state.  Then every choice of a sequence of calls is in range.
\<close>

primrec choices :: "('s \<Rightarrow> (int32 \<times> 's) res) \<Rightarrow> nat \<Rightarrow> 's \<Rightarrow> (int32 list \<times> 's) res" where
  "choices pick 0 s = Ok ([], s)"
| "choices pick (Suc n) s =
     obind (pick s) (\<lambda>(part, s). obind (choices pick n s) (\<lambda>(parts, s). Ok (part # parts, s)))"

definition in_partitions :: "int32 \<Rightarrow> int32 \<Rightarrow> bool" where
  "in_partitions partitions part \<longleftrightarrow> 0 \<le> sint part \<and> sint part < sint partitions"

locale chooser =
  fixes pick :: "'s \<Rightarrow> (int32 \<times> 's) res" and valid :: "'s \<Rightarrow> bool" and partitions :: int32
  assumes pick_range: "valid s \<Longrightarrow> pick s = Ok (part, s') \<Longrightarrow> valid s' \<and> in_partitions partitions part"
    and pick_no_panic: "valid s \<Longrightarrow> pick s \<noteq> Panic \<and> pick s \<noteq> Err err"
begin

lemma choices_range:
  "valid s \<Longrightarrow> choices pick n s = Ok (parts, s') \<Longrightarrow> valid s' \<and> list_all (in_partitions partitions) parts"
proof (induction n arbitrary: s parts)
  case (Suc n)
  from Suc.prems(2) obtain part s1 parts1 where
    "pick s = Ok (part, s1)" "choices pick n s1 = Ok (parts1, s')" "parts = part # parts1"
    by (auto simp: obind_eq_Ok_conv)
  with Suc.IH[of s1 parts1] pick_range[OF Suc.prems(1)] show ?case by auto
qed simp

lemma choices_no_panic: "valid s \<Longrightarrow> choices pick n s \<noteq> Panic"
proof (induction n arbitrary: s)
  case (Suc n)
  then show ?case
    using pick_range pick_no_panic by (fastforce simp: obind_eq_Panic_conv)
qed simp

end

lemma of_sint: "sint (w :: 'a::len word) = x \<Longrightarrow> w = of_int x"
  by (metis scast_eq scast_id id_apply)

lemma sint_of_int32: "- (2 ^ 31) \<le> x \<Longrightarrow> x < 2 ^ 31 \<Longrightarrow> sint (of_int x :: int32) = x"
  by (simp add: signed_of_int signed_take_bit_int_eq_self)

lemma sint_of_int_mod:
  assumes "0 < sint (n :: int32)"
  shows "sint (of_int (x mod sint n) :: int32) = x mod sint n"
proof -
  have "x mod sint n < 2 ^ 31"
    using pos_mod_bound[OF assms, of x] sint_lt[of n] by simp
  moreover have "0 \<le> x mod sint n" using assms by simp
  ultimately show ?thesis by (simp add: signed_of_int signed_take_bit_int_eq_self)
qed

interpretation random: chooser random_take "\<lambda>p. rp_partitions p = n \<and> 0 < sint n" n for n
proof
  fix p part p'
  assume "rp_partitions p = n \<and> 0 < sint n" "random_take p = Ok (part, p')"
  then show "(rp_partitions p' = n \<and> 0 < sint n) \<and> in_partitions n part"
    by (auto simp: random_take_def saferand_Intn_def in_partitions_def sint_of_int_mod
        split: list.splits if_splits)
next
  fix p :: randomProducer and err assume "rp_partitions p = n \<and> 0 < sint n"
  then show "random_take p \<noteq> Panic \<and> random_take p \<noteq> Err err"
    by (auto simp: random_take_def saferand_Intn_def split: list.split)
qed

lemma roundRobin_take_valid:
  assumes "in_partitions (rr_partitions p) (rr_next p)" "roundRobin_take p = Ok (part, p')"
  shows "part = rr_next p \<and> rr_partitions p' = rr_partitions p \<and>
    sint (rr_next p') = (sint (rr_next p) + 1) mod sint (rr_partitions p)"
proof -
  have lt: "sint (rr_next p) + 1 < 2 ^ 31"
    using assms(1) sint_lt[of "rr_partitions p"] by (simp add: in_partitions_def)
  then have next1: "sint (rr_next p + 1) = sint (rr_next p) + 1"
    using assms(1) by (simp add: sint_word_ariths(1)[of "rr_next p" 1] in_partitions_def
      signed_take_bit_int_eq_self)
  show ?thesis
  proof (cases "sint (rr_next p) + 1 = sint (rr_partitions p)")
    case True
    with assms show ?thesis by (auto simp: roundRobin_take_def Let_def word_sle_eq next1)
  next
    case False
    with assms show ?thesis
      by (auto simp: roundRobin_take_def Let_def word_sle_eq next1 in_partitions_def)
  qed
qed

interpretation roundRobin: chooser roundRobin_take
  "\<lambda>p. rr_partitions p = n \<and> in_partitions n (rr_next p)" n for n
proof
  fix p part p'
  assume "rr_partitions p = n \<and> in_partitions n (rr_next p)" "roundRobin_take p = Ok (part, p')"
  then show "(rr_partitions p' = n \<and> in_partitions n (rr_next p')) \<and> in_partitions n part"
    using roundRobin_take_valid[of p part p'] by (auto simp: in_partitions_def)
qed (simp add: roundRobin_take_def Let_def)

lemma roundRobin_choices:
  assumes "rr_partitions p = n" "0 < sint n" "sint (rr_next p) = k mod sint n"
  shows "\<exists>p'. choices roundRobin_take m p = Ok (map (\<lambda>j. of_int ((k + int j) mod sint n)) [0..<m], p')"
  using assms
proof (induction m arbitrary: p k)
  case (Suc m)
  obtain part p1 where take: "roundRobin_take p = Ok (part, p1)"
    by (simp add: roundRobin_take_def Let_def)
  have "in_partitions (rr_partitions p) (rr_next p)"
    using Suc.prems by (simp add: in_partitions_def)
  from roundRobin_take_valid[OF this take] Suc.prems
  have p1: "part = rr_next p" "rr_partitions p1 = n" "sint (rr_next p1) = (k + 1) mod sint n"
    by (auto simp: mod_add_left_eq)
  have "part = of_int (k mod sint n)" using p1(1) of_sint[OF Suc.prems(3)] by simp
  moreover obtain p2 where
    "choices roundRobin_take m p1 = Ok (map (\<lambda>j. of_int ((k + 1 + int j) mod sint n)) [0..<m], p2)"
    using Suc.IH[OF p1(2) Suc.prems(2) p1(3)] by blast
  moreover have "map (\<lambda>j. of_int ((k + int j) mod sint n) :: int32) [0..<Suc m] =
      of_int (k mod sint n) # map (\<lambda>j. of_int ((k + 1 + int j) mod sint n)) [0..<m]"
    unfolding upt_conv_Cons[OF zero_less_Suc] by (simp add: map_Suc_upt[symmetric] add.assoc del: upt_Suc)
  ultimately show ?case using take by (simp del: upt_Suc)
qed simp

lemma check_destinations_Ok:
  "check_destinations p part ms = Ok () \<longleftrightarrow> list_all (\<lambda>m. hash_message p m = Ok part) ms"
  by (induction ms) (auto simp: obind_eq_Ok_conv)

lemma fnv_negated:
  assumes "(s :: int32) \<noteq> 2147483648"
  shows "sint (if s <s 0 then - s else s) = \<bar>sint s\<bar>"
proof (cases "sint s < 0")
  case True
  have "sint s \<noteq> - 2147483648"
  proof
    assume "sint s = - 2147483648"
    then have "s = of_int (- 2147483648)" by (rule of_sint)
    with assms show False by simp
  qed
  with sint_ge[of s] True have "- 2147483648 < sint s" by simp
  then have "sint (- s) = - sint s"
    using True by (simp add: sint_word_ariths(4) signed_take_bit_int_eq_self)
  with True show ?thesis by (simp add: word_sless_alt)
qed (simp add: word_sless_alt)

section \<open>Properties\<close>

text \<open>
  The round robin producer: over any number of calls the partitions are 0, 1, ...,
  \<open>numPartitions - 1\<close> and again from 0.
\<close>

lemma round_robin_cycles:
  assumes "0 < sint n"
  shows "\<exists>p'. choices roundRobin_take m (NewRoundRobinProducer n) =
    Ok (map (\<lambda>j. of_int (int j mod sint n)) [0..<m], p')"
  using roundRobin_choices[of "NewRoundRobinProducer n" n 0 m] assms
  by (simp add: NewRoundRobinProducer_def)

lemma round_robin_cycles_witness:
  "\<exists>p'. choices roundRobin_take 5 (NewRoundRobinProducer 3) = Ok ([0, 1, 2, 0, 1], p')"
  using round_robin_cycles[of 3 5] by (simp add: upt_rec)

text \<open>
  The hash producer writes to the partition of the first message, and only when every message
  but the second has that partition; the second is never looked at.
\<close>

lemma hash_destination:
  "hash_Distribute Produce topic (m # ms) p s = Ok r \<longleftrightarrow>
     (\<exists>part. hash_message p m = Ok part \<and> list_all (\<lambda>m'. hash_message p m' = Ok part) (drop 1 ms) \<and>
        r = Produce topic part (m # ms) s)"
  by (auto simp: hash_Distribute_def obind_eq_Ok_conv simp flip: check_destinations_Ok)

text \<open>
  C33.  \<open>messageHashPartition\<close> is in range for every key whose FNV-1a sum is not \<open>2\<^sup>3\<^sup>1\<close>; that sum has no
  negation in 32 bits, so the partition is then negative unless the number of partitions divides it.
\<close>

lemma hash_partition_range:
  assumes "0 < sint n"
  shows "\<exists>part. messageHashPartition (Some k) n = Ok part \<and>
    (if fnv32a k = 2147483648 then sint part = - (2147483648 mod sint n)
     else in_partitions n part)"
proof (cases "fnv32a k = 2147483648")
  case True
  have "sint (of_int (- (2147483648 mod sint n)) :: int32) = - (2147483648 mod sint n)"
  proof (rule sint_of_int32)
    have "0 \<le> 2147483648 mod sint n" "2147483648 mod sint n < sint n" using assms by simp_all
    then show "- (2 ^ 31) \<le> - (2147483648 mod sint n)" "- (2147483648 mod sint n) < 2 ^ 31"
      using sint_lt[of n] by simp_all
  qed
  with True assms show ?thesis
    by (auto simp: messageHashPartition_def rem32_def Let_def)
next
  case False
  from assms have "n \<noteq> 0" by auto
  with fnv_negated[OF False] sint_of_int_mod[OF assms, of "\<bar>sint (fnv32a k)\<bar>"] assms False
  show ?thesis
    by (auto simp: messageHashPartition_def rem32_def Let_def in_partitions_def)
qed

lemma hash_partition_range_witness:
  "messageHashPartition (Some (str ''074cpxe'')) 3 = Ok (- 2)"
proof -
  have "fnv32a (str ''074cpxe'') = 2147483648"
    by (simp add: fnv32a_def str_def)
  with hash_partition_range[of 3 "str ''074cpxe''"] obtain part where
    p: "messageHashPartition (Some (str ''074cpxe'')) 3 = Ok part" "sint part = - 2"
    by auto
  from of_sint[OF p(2)] have "part = of_int (- 2)" .
  with p show ?thesis by simp
qed

end
