(* ===== verification/EndToEnd.thy ===== *)
theory EndToEnd
  imports Wire
begin

text \<open>
  Producer and consumer over bytes: the network \<open>wire_network\<close> delivers what is produced, because every request and
  response that fits on the wire has there the effect it has on the test server itself.
\<close>

section \<open>Sizes\<close>

text \<open>The statement writes, without an error, at most \<open>n\<close> bytes.\<close>

definition at_most :: "(error, encoder) stmt \<Rightarrow> nat \<Rightarrow> bool" where
  "at_most c n \<longleftrightarrow> (\<exists>bs. emits c bs \<and> length bs \<le> n)"

named_theorems size_intros

lemma at_mostI: "emits c bs \<Longrightarrow> length bs \<le> n \<Longrightarrow> at_most c n"
  by (auto simp: at_most_def)

lemma at_most_mono: "at_most c m \<Longrightarrow> m \<le> n \<Longrightarrow> at_most c n"
  by (auto simp: at_most_def)

lemma at_most_Nil [size_intros]: "at_most (block []) 0"
  by (rule at_mostI[OF emits_Nil]) simp

lemma at_most_Cons [size_intros]: "at_most c m \<Longrightarrow> at_most (block cs) n \<Longrightarrow> at_most (block (c # cs)) (m + n)"
  unfolding at_most_def by (metis add_mono emits_Cons length_append)

lemma at_most_prims [size_intros]:
  "at_most (EncodeInt8 a) 1" "at_most (EncodeInt16 b) 2" "at_most (EncodeInt32 c) 4" "at_most (EncodeInt64 d) 8" "at_most (EncodeDuration t) 4"
  by (rule at_mostI[OF emits_prims(1)] at_mostI[OF emits_prims(2)] at_mostI[OF emits_prims(3)] at_mostI[OF emits_prims(5)]
      at_mostI[OF emits_prims(6)]; simp)+

lemma at_most_String [size_intros]: "at_most (EncodeString s) (2 + length s)"
  by (rule at_mostI[OF emits_String]) simp

lemma at_most_Error: "wire_error err \<Longrightarrow> at_most (EncodeError err) 2"
  by (rule at_mostI[OF emits_Error]) simp_all

lemma at_most_if [size_intros]: "at_most (block cs) n \<Longrightarrow> at_most (if_do (\<lambda>_. b) cs) n"
  by (cases b) (auto simp: at_most_def emits_def)

text \<open>An array of at most one element.\<close>

lemma at_most_array [size_intros]: "at_most (block (f x)) n \<Longrightarrow> at_most (write_array f [x]) (4 + n)"
  unfolding at_most_def
proof (elim exE conjE)
  fix bs assume "emits (block (f x)) bs" "length bs \<le> n"
  with emits_array[of "[x]" f "\<lambda>_. bs"] show "\<exists>bs. emits (write_array f [x]) bs \<and> length bs \<le> 4 + n" by fastforce
qed

lemma at_most_empty [size_intros]: "at_most (write_array f []) 4"
  by (rule at_mostI[OF emits_array[of "[]" f "\<lambda>_. []"]]) simp_all

lemma at_most_messages: "wf_messages lib c ms \<Longrightarrow> at_most (put_message_set lib c ms) (4 + length (set_wire lib c ms))"
  by (rule at_mostI[OF emits_message_set]) (simp_all add: sized_set_def)

lemma short_at_most: "at_most (block cs) n \<Longrightarrow> n < 2147483644 \<Longrightarrow> short (run_bytes (EncodeInt32 0 # cs))"
  by (auto simp: at_most_def short_def run_bytes_frame frame_length)

text \<open>Requests and responses for one partition.\<close>

abbreviation roomy_set :: "byte list \<Rightarrow> bool" where
  "roomy_set bs \<equiv> length bs < 2147300000"

lemma at_most_ProduceReq:
  assumes "wf_messages lib c (pqp_Messages p)"
  shows "at_most (block (write_ProduceReqPartition lib c p)) (8 + length (set_wire lib c (pqp_Messages p)))"
    and "pqt_Partitions t = [p] \<Longrightarrow>
      at_most (block (write_ProduceReqTopic lib c t)) (14 + length (pqt_Name t) + length (set_wire lib c (pqp_Messages p)))"
proof -
  show part: "at_most (block (write_ProduceReqPartition lib c p)) (8 + length (set_wire lib c (pqp_Messages p)))"
    unfolding write_ProduceReqPartition_def
    by (rule at_most_mono, (rule size_intros at_most_messages assms)+) simp
  assume "pqt_Partitions t = [p]"
  then show "at_most (block (write_ProduceReqTopic lib c t)) (14 + length (pqt_Name t) + length (set_wire lib c (pqp_Messages p)))"
    unfolding write_ProduceReqTopic_def
    by (simp only:) (rule at_most_mono, (rule size_intros part)+, simp)
qed

lemma at_most_ProduceResp:
  assumes "wire_error (prp_Err p)"
  shows "at_most (block (write_ProduceRespPartition v p)) 22"
    and "prt_Partitions t = [p] \<Longrightarrow> at_most (block (write_ProduceRespTopic v t)) (28 + length (prt_Name t))"
proof -
  show part: "at_most (block (write_ProduceRespPartition v p)) 22"
    unfolding write_ProduceRespPartition_def
    by (rule at_most_mono, (rule size_intros at_most_Error assms)+) simp
  assume "prt_Partitions t = [p]"
  then show "at_most (block (write_ProduceRespTopic v t)) (28 + length (prt_Name t))"
    unfolding write_ProduceRespTopic_def
    by (simp only:) (rule at_most_mono, (rule size_intros part)+, simp)
qed

lemma at_most_FetchReq:
  shows "at_most (block (write_FetchReqPartition v p)) 24"
    and "fqt_Partitions t = [p] \<Longrightarrow> at_most (block (write_FetchReqTopic v t)) (30 + length (fqt_Name t))"
proof -
  show part: "at_most (block (write_FetchReqPartition v p)) 24" for p
    unfolding write_FetchReqPartition_def by (rule at_most_mono, (rule size_intros)+) simp
  assume "fqt_Partitions t = [p]"
  then show "at_most (block (write_FetchReqTopic v t)) (30 + length (fqt_Name t))"
    unfolding write_FetchReqTopic_def
    by (simp only:) (rule at_most_mono, (rule size_intros part)+, simp)
qed

lemma at_most_FetchResp:
  assumes "wire_error (frp_Err p)" "wf_messages lib CompressionNone (frp_Messages p)" "frp_AbortedTransactions p = []"
  shows "at_most (block (write_FetchRespPartition lib v p)) (38 + length (set_wire lib CompressionNone (frp_Messages p)))"
    and "frt_Partitions t = [p] \<Longrightarrow> at_most (block (write_FetchRespTopic lib v t))
      (44 + length (frt_Name t) + length (set_wire lib CompressionNone (frp_Messages p)))"
proof -
  show part: "at_most (block (write_FetchRespPartition lib v p)) (38 + length (set_wire lib CompressionNone (frp_Messages p)))"
    unfolding write_FetchRespPartition_def write_FetchRespPartition_fields_def append_Cons append_Nil assms(3)
    by (rule at_most_mono, (rule size_intros at_most_Error at_most_messages assms)+) simp
  assume "frt_Partitions t = [p]"
  then show "at_most (block (write_FetchRespTopic lib v t))
      (44 + length (frt_Name t) + length (set_wire lib CompressionNone (frp_Messages p)))"
    unfolding write_FetchRespTopic_def
    by (simp only:) (rule at_most_mono, (rule size_intros part)+, simp)
qed

lemma short_ProduceReq:
  assumes "wf_string (ClientID q)" "wf_string (pqt_Name t)" "wf_string (pq_TransactionalID q)"
    and "wf_messages lib (pq_Compression q) (pqp_Messages p)" "roomy_set (set_wire lib (pq_Compression q) (pqp_Messages p))"
    and "pq_Topics q = [t]" "pqt_Partitions t = [p]"
  shows "short (ProduceReq_Bytes lib q)"
  unfolding ProduceReq_Bytes_def encodeHeader_def write_ProduceReq_fields_def append_Cons append_Nil assms(6)
  by (rule short_at_most, (rule size_intros at_most_ProduceReq(2) assms(4,7))+)
    (use assms in \<open>simp add: wf_string_def\<close>)

lemma short_ProduceResp:
  assumes "wf_string (prt_Name t)" "wire_error (prp_Err p)" "pr_Topics r = [t]" "prt_Partitions t = [p]"
  shows "short (ProduceResp_Bytes r)"
  unfolding ProduceResp_Bytes_def assms(3)
  by (rule short_at_most, (rule size_intros at_most_ProduceResp(2) assms(2,4))+) (use assms in \<open>simp add: wf_string_def\<close>)

lemma short_FetchReq:
  assumes "wf_string (ClientID q)" "wf_string (fqt_Name t)" "fq_Topics q = [t]" "fqt_Partitions t = [p]"
  shows "short (FetchReq_Bytes q)"
  unfolding FetchReq_Bytes_def encodeHeader_def append_Cons append_Nil assms(3)
  by (rule short_at_most, (rule size_intros at_most_FetchReq(2) assms(4))+) (use assms in \<open>simp add: wf_string_def\<close>)

lemma short_FetchResp:
  assumes "wf_string (frt_Name t)" "wire_error (frp_Err p)" "frp_AbortedTransactions p = []"
    and "wf_messages lib CompressionNone (frp_Messages p)" "roomy_set (set_wire lib CompressionNone (frp_Messages p))"
    and "fr_Topics r = [t]" "frt_Partitions t = [p]"
  shows "short (FetchResp_Bytes lib r)"
  unfolding FetchResp_Bytes_def assms(6)
  by (rule short_at_most, (rule size_intros at_most_FetchResp(2) assms(2,3,4,7))+) (use assms in \<open>simp add: wf_string_def\<close>)

section \<open>Delivery\<close>

text \<open>The connection is open, the server can take another token, and the request and its response fit on the wire.\<close>

definition wire_sends :: "codecs \<Rightarrow> ParserConfig \<Rightarrow> nat \<Rightarrow> connection \<Rightarrow> int32 \<Rightarrow> nat \<Rightarrow> ProduceReq \<Rightarrow> cluster \<Rightarrow> bool" where
  "wire_sends lib pconf depth k i c q e \<longleftrightarrow> speaks_V0 k \<and> server_sends c q e \<and>
     produce_sendable lib pconf depth k i q (cl_server e)"

definition wire_answers :: "codecs \<Rightarrow> ParserConfig \<Rightarrow> connection \<Rightarrow> int32 \<Rightarrow> nat \<Rightarrow> FetchReq \<Rightarrow> cluster \<Rightarrow> bool" where
  "wire_answers lib pconf k i c q e \<longleftrightarrow> speaks_V0 k \<and> server_answers c q e \<and>
     fetch_sendable lib pconf k i q (cl_server e)"

lemma renumbered:
  "produces_to t p ms q \<Longrightarrow> produces_to t p ms (SetCorrelationID i q)"
  "fetches_from t p off q' \<Longrightarrow> fetches_from t p off (SetCorrelationID i q')"
  "server_sends c (SetCorrelationID i q) e = server_sends c q e"
  "server_answers c (SetCorrelationID i q') e = server_answers c q' e"
  by (simp_all add: produces_to_def fetches_from_def SetCorrelationID_def server_sends_def server_answers_def)

interpretation on_wire: delivery "wire_network lib pconf depth spare k i" "\<lambda>e. part_log (cl_server e)"
  "wire_sends lib pconf depth k i" "wire_answers lib pconf k i" for lib pconf depth spare k i
proof
  fix c q e t p ms
  assume "wire_sends lib pconf depth k i c q e" "produces_to t p ms q"
  then show "\<exists>resp e'. net_Produce (wire_network lib pconf depth spare k i) c q e = (Ok (Some resp), e') \<and>
      produced_offset t p resp = Ok (of_nat (log_length (cl_server e) t p + length ms) - 1) \<and>
      part_log (cl_server e') t p = extend_log t (map read_back ms) (part_log (cl_server e) t p)"
    using on_server.appends[of c "SetCorrelationID i q" e] by (simp only: wire_sends_def produce_on_wire renumbered)
next
  fix c q' e n ms and cf :: ConsumerConf
  assume "wire_answers lib pconf k i c q' e" "fetches_from (cc_Topic cf) (cc_Partition cf) (of_nat n) q'"
    "part_log (cl_server e) (cc_Topic cf) (cc_Partition cf) = Some ms" "n < length ms" "n < 2 ^ 63"
  then show "\<exists>resp. net_Fetch (wire_network lib pconf depth spare k i) c q' e = (Ok resp, e) \<and>
      extractMessages resp cf = (map (as_consumed (cc_Topic cf) (cc_Partition cf) (length ms)) (drop n ms), False, None)"
    using on_server.delivers[of c "SetCorrelationID i q'" e] by (simp only: wire_answers_def fetch_on_wire renumbered)
qed

section \<open>Requests for one partition fit\<close>

text \<open>Messages that the server stores and sends without compression take as much room as those that were produced.\<close>

lemma message_len_stored: "map message_len (numbered n t (map read_back ms)) = map message_len ms"
  by (induction ms arbitrary: n) (simp_all add: message_len_def read_back_def)

lemma length_stored:
  "length (messages_wire CompressionNone (numbered n t (map read_back ms))) = length (messages_wire CompressionNone ms)"
  using arg_cong[OF message_len_stored[of n t ms], of "\<lambda>ls. sum_list (map ((+) 26) ls)"]
  by (simp add: length_messages_wire set_size_def comp_def)

lemma roomy_stored: "list_all roomy ms \<Longrightarrow> list_all roomy (numbered n t (map read_back ms))"
  using arg_cong[OF message_len_stored[of n t ms], of "list_all (\<lambda>l. int (1026 + l) \<le> maxInt32)"]
  by (simp add: roomy_def[abs_def] list.pred_map comp_def)

lemma set_wire_plain: "length (set_wire lib CompressionNone ms) = length (messages_wire CompressionNone ms)"
  by (simp add: set_wire_def packed_def)

lemma wf_stored:
  assumes "list_all roomy ms" "length (messages_wire CompressionNone ms) < 2147483648"
  shows "wf_messages lib CompressionNone (numbered n t (map read_back ms))"
  using assms roomy_stored[OF assms(1)]
  by (simp add: wf_messages_def set_wire_plain length_stored) (simp add: packed_def)

lemma produce_reply_fits:
  assumes "wf_string t" "pq_Topics q = [\<lparr>pqt_Name = t, pqt_Partitions = [qp]\<rparr>]"
  shows "reply_fits ProduceResp_Bytes wf_ProduceResp (handleProduceRequest q s)"
proof -
  let ?r = "zero_ProduceResp\<lparr>pr_CorrelationID := correlationID q, pr_Topics := fst (map_state produce_topic (pq_Topics q) s)\<rparr>"
  obtain p where p: "pr_Topics ?r = [\<lparr>prt_Name = t, prt_Partitions = [p]\<rparr>]" "prp_Err p = None"
    by (simp add: assms(2) produce_topic_def split_beta Let_def produce_part_offset zero_ProduceRespPartition_def)
  then have "short (ProduceResp_Bytes ?r)" by (intro short_ProduceResp[OF _ _ p(1)]) (simp_all add: assms(1))
  moreover have "wf_ProduceResp ?r"
    using p assms(1) by (simp add: wf_ProduceResp_def wf_ProduceRespTopic_def wf_ProduceRespPartition_def wf_array_def)
  ultimately show ?thesis by (simp add: reply_fits_def handleProduce_events)
qed

lemma fetch_reply_fits:
  assumes "wf_string t" "fq_Topics q = [\<lparr>fqt_Name = t, fqt_Partitions = [qp]\<rparr>]"
    and "part_log s t (fqp_ID qp) = Some log" "sint (fqp_FetchOffset qp) = int n" "n < length log"
    and "wf_messages lib CompressionNone (drop n log)" "roomy_set (set_wire lib CompressionNone (drop n log))"
  shows "reply_fits (FetchResp_Bytes lib) (wf_FetchResp lib) (handleFetchRequest id q s)"
proof -
  define p where "p = zero_FetchRespPartition\<lparr>frp_ID := fqp_ID qp, frp_TipOffset := of_nat (length log), frp_Messages := drop n log\<rparr>"
  define r where "r = zero_FetchResp\<lparr>fr_CorrelationID := correlationID q, fr_Topics := [\<lparr>frt_Name = t, frt_Partitions = [p]\<rparr>]\<rparr>"
  have "handleFetchRequest id q s = (Reply r, s)"
    using assms by (simp add: handleFetchRequest_def fetchRequest_def fetch_part_def p_def r_def)
  moreover have "short (FetchResp_Bytes lib r)"
    by (rule short_FetchResp[of "\<lparr>frt_Name = t, frt_Partitions = [p]\<rparr>" p])
      (use assms in \<open>simp_all add: r_def p_def zero_FetchRespPartition_def\<close>)
  moreover have "wf_FetchResp lib r"
    using assms by (simp add: r_def p_def wf_FetchResp_def wf_FetchRespTopic_def wf_FetchRespPartition_def wf_array_def
        zero_FetchRespPartition_def)
  ultimately show ?thesis by (simp add: reply_fits_def)
qed

text \<open>Messages for a topic that fit, with the compression \<open>c\<close> and without.\<close>

definition deliverable :: "codecs \<Rightarrow> int8 \<Rightarrow> gostring \<Rightarrow> gostring \<Rightarrow> Message list \<Rightarrow> bool" where
  "deliverable lib c client t ms \<longleftrightarrow> wf_string client \<and> wf_string t \<and> wf_messages lib c ms \<and>
     roomy_set (set_wire lib c ms) \<and> roomy_set (messages_wire CompressionNone ms)"

text \<open>
  The libraries and the settings of both sides: the codecs decode what they encode, the server parses compressed message
  sets, and the connection has negotiated version 0.
\<close>

definition wire_setup :: "codecs \<Rightarrow> ParserConfig \<Rightarrow> nat \<Rightarrow> connection \<Rightarrow> bool" where
  "wire_setup lib pconf depth k \<longleftrightarrow> codec_laws lib \<and> \<not> SimplifiedMessageSetParsing pconf \<and> 0 < depth \<and> speaks_V0 k"

text \<open>A producer that waits for an answer, with a compression that the server knows.\<close>

definition acked_producer :: "ProducerConf \<Rightarrow> bool" where
  "acked_producer pc \<longleftrightarrow> pc_Compression pc \<in> {CompressionNone, CompressionGzip, CompressionSnappy} \<and>
     pc_RequiredAcks pc \<noteq> RequiredAcksNone"

lemma produce_fits:
  assumes "wire_setup lib pconf depth k" "acked_producer pc" "server_sends c q e"
    and "deliverable lib (pc_Compression pc) (bc_ClientID (conf b)) t ms" "q = produce_req b pc t p ms"
  shows "wire_sends lib pconf depth k i c q e"
proof -
  note fits = assms(4)[unfolded deliverable_def]
  have "wf_ProduceReq lib q" "single_partition q"
    using fits by (simp_all add: assms(5) produce_req_def zero_ProduceReq_def wf_ProduceReq_def wf_header_def wf_array_def
        wf_ProduceReqTopic_def single_partition_def wf_string_def)
  moreover have "short (ProduceReq_Bytes lib (send_header k ProduceReqKind i q))"
    by (rule short_ProduceReq[where t = "hd (pq_Topics q)" and p = "hd (pqt_Partitions (hd (pq_Topics q)))"])
      (use fits in \<open>simp_all add: assms(5) produce_req_def zero_ProduceReq_def send_header_def header_ops wf_string_def\<close>)
  moreover have "reply_fits ProduceResp_Bytes wf_ProduceResp
      (handleProduceRequest (norm_ProduceReq (send_header k ProduceReqKind i q)) (cl_server e))"
    by (rule produce_reply_fits[of t])
      (use fits in \<open>simp_all add: assms(5) produce_req_def send_header_def header_ops norm_ProduceReq_def ProduceReq_fields_def\<close>)
  ultimately show ?thesis
    using assms(1,2,3) by (simp add: wire_sends_def produce_sendable_def wire_setup_def acked_producer_def)
      (simp add: assms(5) produce_req_def)
qed

lemma fetch_fits:
  assumes "wire_setup lib pconf depth k" "server_answers cn q e" "q = fetch_req b c"
    and "wf_string (bc_ClientID (conf b))" "wf_string (cc_Topic (c_conf c))"
    and "part_log (cl_server e) (cc_Topic (c_conf c)) (cc_Partition (c_conf c)) = Some log"
    and "c_offset c = of_nat n" "n < length log" "n < 2 ^ 63"
    and "wf_messages lib CompressionNone (drop n log)" "roomy_set (set_wire lib CompressionNone (drop n log))"
  shows "wire_answers lib pconf k i cn q e"
proof -
  have n: "sint (of_nat n :: int64) = int n" using assms(9) by (intro sint_of_nat_small) simp
  have "wf_FetchReq q"
    using assms(4,5) by (simp add: assms(3) fetch_req_def zero_FetchReq_def wf_FetchReq_def wf_header_def wf_array_def
        wf_FetchReqTopic_def)
  moreover have "short (FetchReq_Bytes (send_header k FetchReqKind i q))"
    by (rule short_FetchReq[where t = "hd (fq_Topics q)" and p = "hd (fqt_Partitions (hd (fq_Topics q)))"])
      (use assms(4,5) in \<open>simp_all add: assms(3) fetch_req_def zero_FetchReq_def send_header_def header_ops\<close>)
  moreover have "reply_fits (FetchResp_Bytes lib) (wf_FetchResp lib)
      (handleFetchRequest id (norm_FetchReq (send_header k FetchReqKind i q)) (cl_server e))"
    by (rule fetch_reply_fits[OF assms(5), where log = log and n = n and
          qp = "hd (fqt_Partitions (hd (fq_Topics (norm_FetchReq (send_header k FetchReqKind i q)))))"])
      (use assms n in \<open>simp_all add: fetch_req_def send_header_def header_ops norm_FetchReq_def norm_FetchReqTopic_def
        norm_FetchReqPartition_def\<close>)
  ultimately show ?thesis
    using assms(1,2) by (simp add: wire_answers_def fetch_sendable_def wire_setup_def)
qed

text \<open>
  After a produce request, a consumer at the former end of the log can fetch what it appended.
\<close>

lemma fetch_after_produce:
  assumes "wire_setup lib pconf depth k" "acked_producer pc" "server_ok (cl_server e)" "events (cl_server e) < events_capacity"
    and "cn \<in> set (cl_open e)" "cn' \<in> set (cl_open e)"
    and "deliverable lib (pc_Compression pc) (bc_ClientID (conf b)) t ms" "ms \<noteq> []"
    and "cc_Topic (c_conf c) = t" "cc_Partition (c_conf c) = p"
    and "c_offset c = of_nat (log_length (cl_server e) t p)" "log_length (cl_server e) t p < 2 ^ 63"
  shows "wire_answers lib pconf k i cn' (fetch_req b c)
    (snd (net_Produce (wire_network lib pconf depth spare k i) cn (produce_req b pc t p ms) e))"
proof -
  let ?N = "wire_network lib pconf depth spare k i" and ?q = "produce_req b pc t p ms" and ?n = "log_length (cl_server e) t p"
  define e' where "e' = snd (net_Produce ?N cn ?q e)"
  have acks: "pc_RequiredAcks pc \<noteq> RequiredAcksNone" using assms(2) by (simp add: acked_producer_def)
  have sends: "wire_sends lib pconf depth k i cn ?q e"
    by (rule produce_fits[OF assms(1,2) _ assms(7) refl]) (simp add: server_sends_def assms)
  then have e': "e' = snd (net_Produce server_network cn (SetCorrelationID i ?q) e)"
    by (simp add: e'_def wire_sends_def produce_on_wire)
  have "cl_open e' = cl_open e"
    unfolding e' by (rule server_produce_open) (simp add: server_sends_def assms)
  moreover have "server_ok (cl_server e')"
    using server_keeps.Produce_I[of b e] assms(3) by (simp add: e' cluster_ok_def)
  ultimately have answers: "server_answers cn' (fetch_req b c) e'" by (simp add: server_answers_def assms)
  have "part_log (cl_server e') t p = extend_log t (map read_back ms) (part_log (cl_server e) t p)"
    using on_wire.appends[OF sends produce_req_to[OF acks], of spare] by (auto simp: e'_def)
  then obtain old where log: "part_log (cl_server e') t p = Some (old @ numbered ?n t (map read_back ms))" "length old = ?n"
    by (cases "part_log (cl_server e) t p") (auto simp: extend_log_def log_size_def)
  note fits = assms(7)[unfolded deliverable_def wf_messages_def]
  have "wire_answers lib pconf k i cn' (fetch_req b c) e'"
    by (rule fetch_fits[OF assms(1) answers refl, where log = "old @ numbered ?n t (map read_back ms)" and n = ?n])
      (use assms log fits wf_stored[of ms lib ?n t] in \<open>simp_all add: set_wire_plain length_stored\<close>)
  then show ?thesis by (simp add: e'_def)
qed

text \<open>
  From end to end over bytes, with whatever broker finds a leader whose connection is open and has negotiated version 0, and a
  consumer at the end of the log of the partition.
\<close>

lemma produced_is_consumed:
  assumes "muLeaderConnection (wire_network lib pconf depth spare k i) t p w = (Ok (Some cn), b, e)"
    and "wire_setup lib pconf depth k" "acked_producer pc" "0 < pc_RetryLimit pc"
    and "server_ok (cl_server e)" "events (cl_server e) < events_capacity" "cn \<in> set (cl_open e)" "cn' \<in> set (cl_open e)"
    and "deliverable lib (pc_Compression pc) (bc_ClientID (conf b)) t ms" "ms \<noteq> []"
    and "cc_Topic (c_conf c) = t" "cc_Partition (c_conf c) = p" "0 < cc_RetryErrLimit (c_conf c)"
    and "c_conn c = Some cn'" "c_msgbuf c = []"
    and "n = log_length (cl_server e) t p" "c_offset c = of_nat n" "n < 2 ^ 63"
  shows "\<exists>r w' got. producer_Produce (wire_network lib pconf depth spare k i) pc t p ms w = (Ok r, w') \<and>
    consume_calls (wire_network lib pconf depth spare k i) (Suc fuel) (length ms) c w' = got \<and> consecutive (of_nat n) got \<and>
    map (\<lambda>m. (Key m, Value m)) got = map (\<lambda>m. (norm_bytes (Key m), norm_bytes (Value m))) ms"
proof (rule on_wire.produced_consumed[OF assms(1) _ _ assms(4,10-18)])
  show "wire_sends lib pconf depth k i cn (produce_req b pc t p ms) e"
    by (rule produce_fits[OF assms(2,3) _ assms(9) refl]) (simp add: server_sends_def assms)
  show "pc_RequiredAcks pc \<noteq> RequiredAcksNone" using assms(3) by (simp add: acked_producer_def)
  show "wire_answers lib pconf k i cn' (fetch_req b c)
      (snd (net_Produce (wire_network lib pconf depth spare k i) cn (produce_req b pc t p ms) e))"
    by (rule fetch_after_produce[OF assms(2,3,5-12)]) (use assms(16-18) in simp_all)
qed

end
