(* ===== verification/Session.thy ===== *)
theory Session
  imports EndToEnd
begin

text \<open>
  A program that uses the whole client: \<open>Dial\<close>, \<open>Consumer\<close>, \<open>Produce\<close> and \<open>Consume\<close> against a test server
  that \<open>MustSpawn\<close> has started, over the bytes of \<open>wire_network\<close>.
\<close>

section \<open>Calls that return\<close>

text \<open>The call returns without an error, with a result and a state that satisfy \<open>Q\<close>.\<close>

definition succeeds :: "'a res \<times> 's \<Rightarrow> ('a \<Rightarrow> 's \<Rightarrow> bool) \<Rightarrow> bool" where
  "succeeds r Q \<longleftrightarrow> (\<exists>x s. r = (Ok x, s) \<and> Q x s)"

lemma succeeds_Ok [simp]: "succeeds (Ok x, s) Q \<longleftrightarrow> Q x s"
  by (simp add: succeeds_def)

lemma succeeds_attempt:
  assumes "succeeds r P" "\<And>x s. P x s \<Longrightarrow> succeeds (k (Inr x) s) Q"
  shows "succeeds (attempt r k) Q"
  using assms by (auto simp: succeeds_def attempt_def)

lemma succeeds_mono: "succeeds r P \<Longrightarrow> (\<And>x s. P x s \<Longrightarrow> Q x s) \<Longrightarrow> succeeds r Q"
  by (auto simp: succeeds_def)

lemma succeedsE: "succeeds r Q \<Longrightarrow> (\<And>x s. r = (Ok x, s) \<Longrightarrow> Q x s \<Longrightarrow> R) \<Longrightarrow> R"
  by (auto simp: succeeds_def)

text \<open>A leader that is cached and connected is returned at once.\<close>

lemma leader_known:
  assumes "endpoints (metadata b) (t, p) = Some n" "map_of (conns b) n = Some c" "0 < bc_LeaderRetryLimit (conf b)"
  shows "muLeaderConnection N t p (b, e) = (Ok (Some c), b, e)"
proof -
  obtain k where "nat (bc_LeaderRetryLimit (conf b)) = Suc k" using assms(3) gr0_implies_Suc by force
  with assms(1,2) show ?thesis
    by (simp add: muLeaderConnection_def leader_node_def node_connection_def attempt_return)
qed

lemma cacheMetadata_same [simp]:
  "conf (cacheMetadata r b) = conf b" "conns (cacheMetadata r b) = conns b"
  by (simp_all add: cacheMetadata_def Let_def)

lemma range_over_Nil [simp]: "range_over N [] e = ([], snd (net_perm N 0 e))"
  by (auto simp: range_over_def in_order_def permutation_def split_beta Let_def dest: arg_cong[of _ _ length])

text \<open>One address or one entry is tried whatever the permutation is.\<close>

lemma sort_single: "sort xs = [x] \<longleftrightarrow> xs = [x]" for xs :: "nat list"
proof
  assume xs: "sort xs = [x]"
  from arg_cong[OF this, of length] obtain y where "xs = [y]" by (auto simp: length_Suc_conv)
  with xs show "xs = [x]" by simp
qed simp

lemma range_over_one [simp]: "range_over N [x] e = ([x], snd (net_perm N 1 e))"
  by (simp add: range_over_def in_order_def permutation_def sort_single split_beta Let_def)

lemma one_address:
  "nodeAddresses b = [addr] \<Longrightarrow> getInitialAddresses N (b, e) = ([addr], snd (net_perm N 1 e))"
  by (simp add: getInitialAddresses_def permutation_def sort_single split_beta Let_def)

text \<open>The cache for a response that names one node.\<close>

lemma nodes_of_one:
  "mr_Brokers r = [n] \<Longrightarrow> nodes (metadata (cacheMetadata r b)) = [(mb_NodeID n, host_port (mb_Host n) (mb_Port n))]"
  by (simp add: cacheMetadata_def Let_def foldl_cache_topic put_def)

section \<open>A server that can be reached\<close>

text \<open>
  What a broker relies on to find the leader of a partition, from the first dial on.  \<open>up\<close> tells that the server runs and
  answers, \<open>live\<close> which connections are open, \<open>client\<close> which clients it can read; \<open>view\<close> is what the search leaves alone.
\<close>

definition directs :: "(gostring \<Rightarrow> int32 \<Rightarrow> Message list option) \<Rightarrow> gostring \<Rightarrow> int32 \<Rightarrow> MetadataResp \<Rightarrow> bool" where
  "directs logs addr node r \<longleftrightarrow> (\<forall>b. nodes (metadata (cacheMetadata r b)) = [(node, addr)] \<and>
     (\<forall>t p. logs t p \<noteq> None \<longrightarrow> endpoints (metadata (cacheMetadata r b)) (t, p) = Some node))"

locale reachable_cluster =
  fixes N :: "'e network" and log :: "'e \<Rightarrow> gostring \<Rightarrow> int32 \<Rightarrow> Message list option" and view :: "'e \<Rightarrow> 'v"
    and up :: "'e \<Rightarrow> bool" and live :: "nat \<Rightarrow> 'e \<Rightarrow> bool" and addr :: gostring and node :: int32 and client :: "BrokerConf \<Rightarrow> bool"
  assumes perm_up: "up e \<Longrightarrow> up (snd (net_perm N n e)) \<and> log (snd (net_perm N n e)) = log e \<and> view (snd (net_perm N n e)) = view e"
    and dials: "up e \<Longrightarrow> succeeds (net_dial N False addr e) (\<lambda>c e'. up e' \<and> live c e' \<and> log e' = log e \<and> view e' = view e)"
    and close_up: "up e \<Longrightarrow> up (net_Close N c e) \<and> log (net_Close N c e) = log e \<and> view (net_Close N c e) = view e"
    and names_leaders: "up e \<Longrightarrow> live c e \<Longrightarrow> client (conf b) \<Longrightarrow>
      succeeds (net_Metadata N c (metadata_req b []) e) (\<lambda>r e'. e' = e \<and> directs (log e) addr node r)"
begin

text \<open>The state of the network after a search that succeeds.\<close>

abbreviation found :: "'e \<Rightarrow> 'e \<Rightarrow> bool" where
  "found e e' \<equiv> up e' \<and> log e' = log e \<and> view e' = view e"

lemma ask_addr_returns:
  assumes "up e" "client (conf b)"
  shows "succeeds (ask_addr N False (metadata_req b []) addr e)
    (\<lambda>r e'. \<exists>m. r = Some m \<and> directs (log e) addr node m \<and> found e e')"
  unfolding ask_addr_def
  by (rule succeeds_attempt[OF dials[OF assms(1)]], simp,
      rule succeeds_attempt[OF names_leaders[OF _ _ assms(2)]], simp_all add: close_up)

lemma refresh_returns:
  assumes "up e" "client (conf b)" "\<not> useTLS (conf b)" "conns b = []"
    and "nodes (metadata b) = [] \<and> nodeAddresses b = [addr] \<or> nodes (metadata b) = [(node, addr)]"
  shows "succeeds (refreshMetadata N (b, e)) (\<lambda>_ w. \<exists>m. fst w = cacheMetadata m b \<and> directs (log e) addr node m \<and> found e (snd w))"
proof -
  define k where "k = length (nodes (metadata b))"
  define e1 where "e1 = snd (net_perm N 1 (snd (net_perm N 0 (if k = 0 then snd (net_perm N 0 e) else e))))"
  have e1: "found e e1" using perm_up assms(1) by (simp add: e1_def)
  obtain m e2 where "ask_addr N False (metadata_req b []) addr e1 = (Ok (Some m), e2)"
    and m: "directs (log e) addr node m" "found e e2"
    using ask_addr_returns[of e1 b] assms(2) e1 by (auto elim!: succeedsE)
  then have "fetchMetadata N [] (b, e) = (Ok m, b, e2)"
    using assms(3-5) by (auto simp: fetchMetadata_def first_of_def Let_def one_address e1_def k_def)
  with m show ?thesis by (auto simp: refreshMetadata_def attempt_return)
qed

lemma Dial_returns:
  assumes "up e" "client cf" "\<not> useTLS cf" "0 < bc_DialRetryLimit cf"
  shows "succeeds (Dial N [addr] cf e) (\<lambda>b e'. found e e' \<and> conf b = cf \<and> conns b = [] \<and>
    nodes (metadata b) = [(node, addr)] \<and> (\<forall>t p. log e t p \<noteq> None \<longrightarrow> endpoints (metadata b) (t, p) = Some node))"
proof -
  define b where "b = \<lparr>conf = cf, metadata = empty_metadata, conns = [], nodeAddresses = [addr]\<rparr>"
  have b: "conf b = cf" "conns b = []" "nodes (metadata b) = []" "nodeAddresses b = [addr]"
    by (simp_all add: b_def empty_metadata_def)
  obtain m e2 where "refreshMetadata N (b, e) = (Ok (), cacheMetadata m b, e2)" "directs (log e) addr node m" "found e e2"
    using refresh_returns[of e b] assms b by (auto elim!: succeedsE)
  moreover obtain k where "nat (bc_DialRetryLimit cf) = Suc k" using assms(4) gr0_implies_Suc by force
  ultimately show ?thesis by (simp add: Dial_def attempt_return directs_def b flip: b_def)
qed

lemma leader_returns:
  assumes "up e" "\<not> useTLS (conf b)" "endpoints (metadata b) (t, p) = Some node" "nodes (metadata b) = [(node, addr)]"
    and "conns b = []" "0 < bc_LeaderRetryLimit (conf b)"
  shows "succeeds (muLeaderConnection N t p (b, e)) (\<lambda>c w. \<exists>cn. c = Some cn \<and> fst w = b\<lparr>conns := [(node, cn)]\<rparr> \<and>
    found e (snd w) \<and> live cn (snd w))"
proof -
  obtain k where "nat (bc_LeaderRetryLimit (conf b)) = Suc k" using assms(6) gr0_implies_Suc by force
  moreover obtain cn e' where "net_dial N False addr e = (Ok cn, e')" "found e e'" "live cn e'"
    using dials[OF assms(1)] by (auto elim: succeedsE)
  ultimately show ?thesis
    using assms by (simp add: muLeaderConnection_def leader_node_def node_connection_def getConnection_def attempt_return
        add_conn_def put_def)
qed

end

section \<open>The contract of a session\<close>

text \<open>
  A cluster that can be reached and delivers messages; \<open>fits\<close> is what a client may send.
\<close>

locale client_session = delivery N log sends fetches + reachable_cluster N log view up live addr node client
  for N :: "'e network" and log sends fetches and view :: "'e \<Rightarrow> 'v" and up live addr node client +
  fixes fits :: "BrokerConf \<Rightarrow> ProducerConf \<Rightarrow> gostring \<Rightarrow> Message list \<Rightarrow> bool"
  assumes clients: "fits cf pc t ms \<Longrightarrow> client cf"
    and acked: "fits cf pc t ms \<Longrightarrow> pc_RequiredAcks pc \<noteq> RequiredAcksNone"
    and names_end: "up e \<Longrightarrow> live c e \<Longrightarrow> fits (conf b) pc t ms \<Longrightarrow>
      succeeds (net_Offset N c (offset_req b t p (- 1)) e)
        (\<lambda>r e'. e' = e \<and> find_offset t p r = Some (of_nat (log_size (log e t p))))"
    and takes: "up e \<Longrightarrow> live c e \<Longrightarrow> fits (conf b) pc t ms \<Longrightarrow> sends c (produce_req b pc t p ms) e"
    and gives: "up e \<Longrightarrow> live cn e \<Longrightarrow> fits (conf b) pc t ms \<Longrightarrow> ms \<noteq> [] \<Longrightarrow>
      cc_Topic (c_conf con) = t \<Longrightarrow> cc_Partition (c_conf con) = p \<Longrightarrow>
      c_offset con = of_nat (log_size (log e t p)) \<Longrightarrow> log_size (log e t p) < 2 ^ 63 \<Longrightarrow>
      fetches cn (fetch_req b con) (snd (net_Produce N cn (produce_req b pc t p ms) e))"
begin

lemma consumer_returns:
  assumes "up e" "fits (conf b) pc t ms" "\<not> useTLS (conf b)" "endpoints (metadata b) (t, p) = Some node"
    and "nodes (metadata b) = [(node, addr)]" "conns b = []"
    and "0 < bc_LeaderRetryLimit (conf b)" "0 < bc_RetryErrLimit (conf b)"
    and "cc_Topic cf = t" "cc_Partition cf = p" "cc_StartOffset cf = StartOffsetNewest"
  shows "succeeds (Broker_Consumer N cf (b, e)) (\<lambda>c w. \<exists>cn.
    c = \<lparr>c_conf = cf, c_offset = of_nat (log_size (log e t p)), c_conn = Some cn, c_msgbuf = []\<rparr> \<and>
    fst w = b\<lparr>conns := [(node, cn)]\<rparr> \<and> up (snd w) \<and> live cn (snd w) \<and> log (snd w) = log e)"
proof -
  obtain cn e' where lead: "muLeaderConnection N t p (b, e) = (Ok (Some cn), b\<lparr>conns := [(node, cn)]\<rparr>, e')"
    and e': "up e'" "live cn e'" "log e' = log e"
    using leader_returns[OF assms(1,3-7)] by (auto elim!: succeedsE)
  let ?b = "b\<lparr>conns := [(node, cn)]\<rparr>"
  obtain r where "net_Offset N cn (offset_req ?b t p (- 1)) e' = (Ok r, e')"
    "find_offset t p r = Some (of_nat (log_size (log e t p)))"
    using names_end[OF e'(1,2), of ?b pc t ms p] assms(2) e'(3) by (auto elim!: succeedsE)
  moreover have "muLeaderConnection N t p (?b, e') = (Ok (Some cn), ?b, e')"
    by (rule leader_known) (use assms in simp_all)
  moreover obtain k where "nat (bc_RetryErrLimit (conf b)) = Suc k" using assms(8) gr0_implies_Suc by force
  ultimately have "OffsetLatest N t p (?b, e') = (Ok (of_nat (log_size (log e t p))), ?b, e')"
    by (simp add: OffsetLatest_def Broker_offset_def attempt_return on_env_def)
  with lead e' assms(9-11) show ?thesis
    by (simp add: Broker_Consumer_def Broker_consumer_def start_offset_def StartOffsetNewest_def attempt_return
        word_sless_alt)
qed

lemma session_returns:
  assumes "up e" "fits cf pc t ms" "\<not> useTLS cf" "0 < bc_DialRetryLimit cf" "0 < bc_LeaderRetryLimit cf"
    and "0 < bc_RetryErrLimit cf" "0 < pc_RetryLimit pc" "0 < cc_RetryErrLimit cc"
    and "cc_Topic cc = t" "cc_Partition cc = p" "cc_StartOffset cc = StartOffsetNewest"
    and "ms \<noteq> []" "log e t p = Some old" "length old < 2 ^ 63"
  shows "succeeds (Dial N [addr] cf e) (\<lambda>b e1.
    succeeds (Broker_Consumer N cc (b, e1)) (\<lambda>c w1.
    succeeds (producer_Produce N pc t p ms w1) (\<lambda>r w2.
      consecutive (of_nat (length old)) (consume_calls N (Suc fuel) (length ms) c w2) \<and>
      map (\<lambda>m. (Key m, Value m)) (consume_calls N (Suc fuel) (length ms) c w2) =
        map (\<lambda>m. (norm_bytes (Key m), norm_bytes (Value m))) ms)))"
proof (rule succeeds_mono[OF Dial_returns[OF assms(1) clients[OF assms(2)] assms(3,4)]])
  fix b :: Broker and e1
  assume d: "found e e1 \<and> conf b = cf \<and> conns b = [] \<and> nodes (metadata b) = [(node, addr)] \<and>
    (\<forall>t p. log e t p \<noteq> None \<longrightarrow> endpoints (metadata b) (t, p) = Some node)"
  then have ep: "endpoints (metadata b) (t, p) = Some node" using assms(13) by simp
  have size: "log_size (log e1 t p) = length old" using d assms(13) by (simp add: log_size_def)
  show "succeeds (Broker_Consumer N cc (b, e1)) (\<lambda>c w1. succeeds (producer_Produce N pc t p ms w1) (\<lambda>r w2.
      consecutive (of_nat (length old)) (consume_calls N (Suc fuel) (length ms) c w2) \<and>
      map (\<lambda>m. (Key m, Value m)) (consume_calls N (Suc fuel) (length ms) c w2) =
        map (\<lambda>m. (norm_bytes (Key m), norm_bytes (Value m))) ms))"
  proof (rule succeeds_mono[OF consumer_returns[of e1 b pc t ms p cc]], goal_cases)
    case (12 c w1)
    then obtain cn e2 where c: "c = \<lparr>c_conf = cc, c_offset = of_nat (length old), c_conn = Some cn, c_msgbuf = []\<rparr>"
      and w1: "w1 = (b\<lparr>conns := [(node, cn)]\<rparr>, e2)" "up e2" "live cn e2" "log e2 = log e1"
      by (cases w1) (auto simp: size)
    let ?b = "b\<lparr>conns := [(node, cn)]\<rparr>"
    have lead: "muLeaderConnection N t p w1 = (Ok (Some cn), ?b, e2)"
      unfolding w1(1) by (rule leader_known) (use d ep assms(5) in simp_all)
    have takes: "sends cn (produce_req ?b pc t p ms) e2"
      by (rule takes) (use w1 d assms(2) in simp_all)
    have gives: "fetches cn (fetch_req ?b c) (snd (net_Produce N cn (produce_req ?b pc t p ms) e2))"
      by (rule gives) (use w1 d c assms size in simp_all)
    have "\<exists>r w' got. producer_Produce N pc t p ms w1 = (Ok r, w') \<and>
        consume_calls N (Suc fuel) (length ms) c w' = got \<and> consecutive (of_nat (length old)) got \<and>
        map (\<lambda>m. (Key m, Value m)) got = map (\<lambda>m. (norm_bytes (Key m), norm_bytes (Value m))) ms"
      by (rule produced_consumed[OF lead takes acked[OF assms(2)] assms(7,12) _ _ _ _ _ _ _ assms(14) gives])
        (simp_all only: c w1(4) size assms(8-10) consumer.simps)
    then show ?case by (auto simp: succeeds_def)
  qed (use d ep assms in simp_all)
qed

end

section \<open>Metadata and offset requests fit\<close>

lemma at_most_arrays:
  assumes "\<And>x. x \<in> set xs \<Longrightarrow> at_most (block (f x)) n"
  shows "at_most (write_array f xs) (4 + length xs * n)"
proof -
  obtain w where w: "\<forall>x \<in> set xs. emits (block (f x)) (w x) \<and> length (w x) \<le> n"
    using assms unfolding at_most_def by metis
  then have "sum_list (map (\<lambda>x. length (w x)) xs) \<le> length xs * n"
    using sum_list_mono[of xs "\<lambda>x. length (w x)" "\<lambda>_. n"] by (simp add: sum_list_triv)
  then show ?thesis
    using w by (intro at_mostI[OF emits_array[of xs f w]]) (simp_all add: length_concat comp_def)
qed

lemma at_most_Ints [size_intros]:
  "at_most (EncodeInt32s xs) (4 + length xs * 4)" "at_most (EncodeInt64s ys) (4 + length ys * 8)"
proof -
  have "at_most (write_array (\<lambda>x. [EncodeInt32 x]) xs) (4 + length xs * 4)"
    "at_most (write_array (\<lambda>x. [EncodeInt64 x]) ys) (4 + length ys * 8)"
    by (rule at_most_arrays, rule at_most_mono, (rule size_intros)+, simp)+
  then show "at_most (EncodeInt32s xs) (4 + length xs * 4)" "at_most (EncodeInt64s ys) (4 + length ys * 8)"
    by (simp_all add: at_most_def emits_def write_array_def EncodeInt32s_def EncodeInt64s_def)
qed

lemma at_most_if_else [size_intros]:
  "at_most (block cs) m \<Longrightarrow> at_most (block ds) n \<Longrightarrow> at_most (if_else (\<lambda>_. b) cs ds) (max m n)"
  by (cases b) (auto simp: at_most_def emits_def if_else_def le_max_iff_disj)

lemma at_most_topics [size_intros]: "mq_Topics q = [] \<Longrightarrow> at_most (MetadataReq_topics q) 4"
  unfolding MetadataReq_topics_def EncodeArrayLen_def
  by (auto intro: at_most_prims)

lemma short_MetadataReq:
  assumes "wf_string (ClientID q)" "mq_Topics q = []"
  shows "short (MetadataReq_Bytes q)"
  unfolding MetadataReq_Bytes_def encodeHeader_def append_Cons append_Nil
  by (rule short_at_most, (rule size_intros assms(2))+) (use assms in \<open>simp add: wf_string_def\<close>)

lemma short_OffsetReq:
  assumes "wf_string (ClientID q)" "wf_string (oqt_Name t)" "oq_Topics q = [t]" "oqt_Partitions t = [p]"
  shows "short (OffsetReq_Bytes q)"
proof -
  have part: "at_most (block (write_OffsetReqPartition v p)) 16" for v
    unfolding write_OffsetReqPartition_def by (rule at_most_mono, (rule size_intros)+) simp
  have topic: "at_most (block (write_OffsetReqTopic v t)) (22 + length (oqt_Name t))" for v
    unfolding write_OffsetReqTopic_def assms(4) by (rule at_most_mono, (rule size_intros part)+) simp
  show ?thesis
    unfolding OffsetReq_Bytes_def encodeHeader_def append_Cons append_Nil assms(3)
    by (rule short_at_most, (rule size_intros topic)+) (use assms in \<open>simp add: wf_string_def\<close>)
qed

lemma short_OffsetResp:
  assumes "wf_string (ort_Name t)" "wire_error (orp_Err p)" "length (orp_Offsets p) \<le> 2"
    and "or_Topics r = [t]" "ort_Partitions t = [p]"
  shows "short (OffsetResp_Bytes r)"
proof -
  have part: "at_most (block (write_OffsetRespPartition v p)) 26" for v
    unfolding write_OffsetRespPartition_def
    by (rule at_most_mono, (rule size_intros at_most_Error assms(2))+) (use assms(3) in simp)
  have topic: "at_most (block (write_OffsetRespTopic v t)) (32 + length (ort_Name t))" for v
    unfolding write_OffsetRespTopic_def assms(5) by (rule at_most_mono, (rule size_intros part)+) simp
  show ?thesis
    unfolding OffsetResp_Bytes_def assms(4)
    by (rule short_at_most, (rule size_intros topic)+) (use assms in \<open>simp add: wf_string_def\<close>)
qed

text \<open>A metadata response about one node, and not too many topics and partitions.\<close>

definition modest_topic :: "MetadataRespTopic \<Rightarrow> bool" where
  "modest_topic t \<longleftrightarrow> wf_string (mt_Name t) \<and> mt_Err t = None \<and> length (mt_Partitions t) \<le> 1000 \<and>
     (\<forall>p \<in> set (mt_Partitions t). mp_Err p = None \<and> length (mp_Replicas p) = 1 \<and> length (mp_Isrs p) = 1 \<and>
        mp_OfflineReplicas p = [])"

lemma short_MetadataResp:
  assumes "mr_Brokers r = [n]" "wf_string (mb_Host n)" "wf_string (mb_Rack n)" "wf_string (mr_ClusterID r)"
    and "list_all modest_topic (mr_Topics r)" "length (mr_Topics r) \<le> 10000"
  shows "short (MetadataResp_Bytes r)"
proof -
  have node: "at_most (block (write_MetadataRespBroker v n)) 65600" for v
    unfolding write_MetadataRespBroker_def
    by (rule at_most_mono, (rule size_intros)+) (use assms(2,3) in \<open>simp add: wf_string_def\<close>)
  have part: "at_most (block (write_MetadataRespPartition v p)) 40"
    if "mp_Err p = None \<and> length (mp_Replicas p) = 1 \<and> length (mp_Isrs p) = 1 \<and> mp_OfflineReplicas p = []" for v p
  proof -
    have "wire_error (mp_Err p)" using that by simp
    note err = at_most_Error[OF this]
    show ?thesis
      unfolding write_MetadataRespPartition_def
      by (rule at_most_mono, (rule size_intros err)+) (use that in simp)
  qed
  have topic: "at_most (block (write_MetadataRespTopic v t)) 72800" if "modest_topic t" for v t
  proof -
    have "wire_error (mt_Err t)" using that by (simp add: modest_topic_def)
    note err = at_most_Error[OF this]
    have parts: "at_most (write_array (write_MetadataRespPartition v) (mt_Partitions t)) (4 + length (mt_Partitions t) * 40)"
      by (rule at_most_arrays, rule part) (use that in \<open>simp add: modest_topic_def\<close>)
    show ?thesis
      unfolding write_MetadataRespTopic_def
      by (rule at_most_mono, (rule size_intros err parts)+) (use that in \<open>simp add: modest_topic_def wf_string_def\<close>)
  qed
  have topics: "at_most (write_array (write_MetadataRespTopic v) (mr_Topics r)) (4 + length (mr_Topics r) * 72800)" for v
    by (rule at_most_arrays, rule topic) (use assms(5) in \<open>simp add: list_all_iff\<close>)
  show ?thesis
    unfolding MetadataResp_Bytes_def assms(1)
    by (rule short_at_most, (rule size_intros node topics)+) (use assms(4,6) in \<open>simp add: wf_string_def\<close>)
qed

section \<open>The test server answers\<close>

text \<open>
  The server listens, its partitions are numbered from 0 without a gap, there are not too many of them, and it can
  take another token.
\<close>

definition modest_server :: "Server \<Rightarrow> bool" where
  "modest_server s \<longleftrightarrow> length (topics s) \<le> 10000 \<and>
     (\<forall>x \<in> set (topics s). wf_string (fst x) \<and> length (snd x) \<le> 1000 \<and>
        (\<forall>y \<in> set (snd x). 0 \<le> sint (fst y) \<and> sint (fst y) < int (length (snd x))))"

definition running :: "gostring \<Rightarrow> int32 \<Rightarrow> cluster \<Rightarrow> bool" where
  "running host port e \<longleftrightarrow> server_ok (cl_server e) \<and> modest_server (cl_server e) \<and>
     ln (cl_server e) = Some (host_port host port) \<and> wf_string host \<and>
     brokers (cl_server e) =
       [zero_MetadataRespBroker\<lparr>mb_NodeID := server_node, mb_Host := host, mb_Port := port\<rparr>] \<and>
     events (cl_server e) < events_capacity"

lemma running_replies:
  assumes "running host port e" "mq_Topics q = []"
  shows "\<exists>r. handleMetadataRequest server_node [] q (cl_server e) = (Reply r, cl_server e) \<and>
    mr_Brokers r = [zero_MetadataRespBroker\<lparr>mb_NodeID := server_node, mb_Host := host, mb_Port := port\<rparr>] \<and>
    mr_Version r = 0 \<and> mr_ClusterID r = [] \<and>
    mr_Topics r = map (topic_answer server_node) (in_order [] (topics (cl_server e)))"
proof -
  let ?s = "cl_server e"
  have "\<exists>t. metadata_topic server_node x = Some t" if "x \<in> set (topics ?s)" for x
    using that assms(1) by (auto simp: metadata_topic_def metadata_parts_def running_def modest_server_def)
  then have "all_some (map (metadata_topic server_node) xs) \<noteq> None" if "set xs \<subseteq> set (topics ?s)" for xs
    using that by (induction xs) (auto split: option.split)
  then obtain ts where ts: "all_some (map (metadata_topic server_node) (in_order [] (topics ?s))) = Some ts"
    by fastforce
  define r where "r = zero_MetadataResp\<lparr>mr_CorrelationID := correlationID q, mr_Brokers := brokers ?s, mr_Topics := ts\<rparr>"
  have "handleMetadataRequest server_node [] q ?s = (Reply r, ?s)"
    using assms(2) ts by (simp add: handleMetadataRequest_def r_def)
  moreover from metadata_reply[OF _ assms(2) this] assms(1)
  have "mr_Topics r = map (topic_answer server_node) (in_order [] (topics ?s))" by (simp add: running_def)
  ultimately show ?thesis
    using assms(1) by (auto simp: r_def running_def zero_MetadataResp_def)
qed

lemma in_order_Nil [simp]: "in_order [] xs = xs"
  by (auto simp: in_order_def permutation_def dest: arg_cong[of _ _ length])

lemma modest_answer:
  assumes "running host port e" "x \<in> set (topics (cl_server e))"
  shows "modest_topic (topic_answer server_node x)"
  using assms by (auto simp: modest_topic_def topic_answer_def metadata_part_def zero_MetadataRespTopic_def
      zero_MetadataRespPartition_def running_def modest_server_def)

lemma modest_wf: "modest_topic t \<Longrightarrow> wf_MetadataRespTopic t"
  by (auto simp: modest_topic_def wf_MetadataRespTopic_def wf_array_def wf_MetadataRespPartition_def list_all_iff)

lemma running_fits:
  assumes "running host port e" "mq_Topics q = []"
  shows "reply_fits MetadataResp_Bytes wf_MetadataResp (handleMetadataRequest server_node [] q (cl_server e))"
proof -
  obtain r where reply: "handleMetadataRequest server_node [] q (cl_server e) = (Reply r, cl_server e)"
    and r: "mr_Brokers r = [zero_MetadataRespBroker\<lparr>mb_NodeID := server_node, mb_Host := host, mb_Port := port\<rparr>]"
      "mr_ClusterID r = []" "mr_Topics r = map (topic_answer server_node) (topics (cl_server e))"
    using running_replies[OF assms] by auto
  have topics: "list_all modest_topic (mr_Topics r)" "length (mr_Topics r) \<le> 10000"
    using modest_answer[OF assms(1)] assms(1) by (auto simp: r(3) list_all_iff running_def modest_server_def)
  have host: "wf_string host" using assms(1) by (simp add: running_def)
  have "short (MetadataResp_Bytes r)"
    by (rule short_MetadataResp[OF r(1)]) (use r(2) topics host in \<open>simp_all add: zero_MetadataRespBroker_def wf_string_def\<close>)
  moreover have "wf_MetadataResp r"
    using r(1,2) topics host modest_wf
    by (auto simp: wf_MetadataResp_def wf_array_def wf_MetadataRespBroker_def zero_MetadataRespBroker_def list_all_iff wf_string_def)
  ultimately show ?thesis by (simp add: reply_fits_def reply)
qed

lemma metadata_directs:
  assumes "running host port e" "c \<in> set (cl_open e)" "wf_string (bc_ClientID (conf b))" "speaks_V0 k"
  shows "succeeds (net_Metadata (wire_network lib pconf depth spare k i) c (metadata_req b []) e)
    (\<lambda>r e'. e' = e \<and> directs (part_log (cl_server e)) (host_port host port) server_node r)"
proof -
  let ?q = "norm_MetadataReq (send_header k MetadataReqKind i (metadata_req b []))"
  have no_topics: "mq_Topics ?q = []"
    by (simp add: send_header_def header_ops norm_MetadataReq_def metadata_req_def)
  obtain r where reply: "handleMetadataRequest server_node [] ?q (cl_server e) = (Reply r, cl_server e)"
    and brokers: "mr_Brokers r = [zero_MetadataRespBroker\<lparr>mb_NodeID := server_node, mb_Host := host, mb_Port := port\<rparr>]"
    using running_replies[OF assms(1) no_topics] by blast
  have "net_Metadata (wire_network lib pconf depth spare k i) c (metadata_req b []) e =
      net_Metadata server_network c (SetCorrelationID i (metadata_req b [])) e"
    by (rule metadata_on_wire[OF assms(4) _ _ running_fits[OF assms(1) no_topics]], simp_all add: metadata_req_def zero_MetadataReq_def wf_MetadataReq_def wf_header_def wf_array_def assms(3))
       (rule short_MetadataReq, simp_all add: send_header_def header_ops assms(3))
  also have "\<dots> = (Ok (norm_MetadataResp r), e)"
    using assms(2) reply by (simp add: server_network_def remote_def send_V0[OF assms(4)])
  finally have "net_Metadata (wire_network lib pconf depth spare k i) c (metadata_req b []) e = (Ok (norm_MetadataResp r), e)" .
  moreover have "nodes (metadata (cacheMetadata (norm_MetadataResp r) b')) = [(server_node, host_port host port)]" for b'
  proof -
    obtain n where "mr_Brokers (norm_MetadataResp r) = [n]" "mb_NodeID n = server_node" "mb_Host n = host" "mb_Port n = port"
      using brokers by (simp add: norm_MetadataResp_def norm_MetadataRespBroker_def Let_def)
    then show ?thesis by (simp add: nodes_of_one)
  qed
  ultimately show ?thesis
    using metadata_endpoints[OF _ no_topics reply refl] assms(1) by (simp add: directs_def running_def)
qed

lemma offset_of_end:
  assumes "c \<in> set (cl_open e)" "wf_string (bc_ClientID (conf b))" "wf_string t" "speaks_V0 k"
  shows "succeeds (net_Offset (wire_network lib pconf depth spare k i) c (offset_req b t p (- 1)) e)
    (\<lambda>r e'. e' = e \<and> find_offset t p r = Some (of_nat (log_length (cl_server e) t p)))"
proof -
  define q where "q = norm_OffsetReq (send_header k OffsetReqKind i ((offset_req b t p (- 1))\<lparr>oq_ReplicaID := - 1\<rparr>))"
  define pr where "pr = zero_OffsetRespPartition\<lparr>orp_ID := p, orp_Offsets := [of_nat (log_length (cl_server e) t p), 0]\<rparr>"
  define r where "r = zero_OffsetResp\<lparr>or_CorrelationID := correlationID q, or_Topics := [\<lparr>ort_Name = t, ort_Partitions = [pr]\<rparr>]\<rparr>"
  have topics: "oq_Topics q = [\<lparr>oqt_Name = t, oqt_Partitions = [\<lparr>oqp_ID = p, oqp_TimeMs = - 1, oqp_MaxOffsets = 2\<rparr>]\<rparr>]"
    by (simp add: q_def send_V0[OF assms(4)] header_ops norm_OffsetReq_def norm_OffsetReqTopic_def
        norm_OffsetReqPartition_def offset_req_def)
  have q: "q = norm_OffsetReq (SetVersion KafkaV0 (SetCorrelationID i (offset_req b t p (- 1))))"
    by (simp add: q_def send_V0[OF assms(4)] header_ops norm_OffsetReq_def)
  from topics have reply: "handleOffsetRequest q (cl_server e) = (Reply r, cl_server e)"
    by (simp add: handleOffsetRequest_def offset_topic_def offset_part_def r_def pr_def log_size_def split: option.split)
  have pr: "orp_Err pr = None" "length (orp_Offsets pr) = 2" "orp_ID pr = p"
    by (simp_all add: pr_def zero_OffsetRespPartition_def)
  have "short (OffsetResp_Bytes r)"
    by (rule short_OffsetResp[where t = "\<lparr>ort_Name = t, ort_Partitions = [pr]\<rparr>" and p = pr])
      (simp_all add: pr r_def assms(3))
  then have fits: "reply_fits OffsetResp_Bytes wf_OffsetResp (handleOffsetRequest q (cl_server e))"
    using assms(3) pr by (simp add: reply_fits_def reply wf_OffsetResp_def r_def wf_OffsetRespTopic_def wf_OffsetRespPartition_def
        wf_array_def)
  have "net_Offset (wire_network lib pconf depth spare k i) c (offset_req b t p (- 1)) e =
      net_Offset server_network c (SetCorrelationID i (offset_req b t p (- 1))) e"
  proof (rule offset_on_wire[OF assms(4) _ _ fits[unfolded q_def]])
    show "wf_OffsetReq (offset_req b t p (- 1))"
      using assms(2,3) by (simp add: offset_req_def zero_OffsetReq_def wf_OffsetReq_def wf_header_def wf_array_def wf_OffsetReqTopic_def)
    show "short (OffsetReq_Bytes (send_header k OffsetReqKind i ((offset_req b t p (- 1))\<lparr>oq_ReplicaID := - 1\<rparr>)))"
      by (rule short_OffsetReq[where p = "\<lparr>oqp_ID = p, oqp_TimeMs = - 1, oqp_MaxOffsets = 2\<rparr>" and
            t = "\<lparr>oqt_Name = t, oqt_Partitions = [\<lparr>oqp_ID = p, oqp_TimeMs = - 1, oqp_MaxOffsets = 2\<rparr>]\<rparr>"]) (use assms(2,3) in \<open>simp_all add: send_header_def header_ops offset_req_def\<close>)
  qed
  also have "\<dots> = (Ok (norm_OffsetResp r), e)"
    using assms(1) reply by (simp add: server_network_def remote_def flip: q)
  finally show ?thesis
    by (simp add: find_offset_def norm_OffsetResp_def norm_OffsetRespTopic_def norm_OffsetRespPartition_def r_def pr_def
        zero_OffsetResp_def zero_OffsetRespPartition_def word_sle_eq)
qed

interpretation on_bytes: client_session "wire_network lib pconf depth spare k i" "\<lambda>e. part_log (cl_server e)"
  "wire_sends lib pconf depth k i" "wire_answers lib pconf k i" cluster_stored "running host port"
  "\<lambda>c e. c \<in> set (cl_open e)" "host_port host port" server_node "\<lambda>cf. wf_string (bc_ClientID cf) \<and> speaks_V0 k"
  "\<lambda>cf pc t ms. wire_setup lib pconf depth k \<and> acked_producer pc \<and> deliverable lib (pc_Compression pc) (bc_ClientID cf) t ms"
  for lib pconf depth spare k i host port
proof (unfold_locales, goal_cases)
  case (1 e n)
  then show ?case by (simp add: wire_network_def server_network_def Let_def)
next
  case (2 e)
  then show ?case by (simp add: wire_network_def server_network_def Let_def dial_server_def running_def cluster_stored_def)
next
  case (3 e c)
  then show ?case by (simp add: wire_network_def server_network_def Let_def running_def cluster_stored_def)
next
  case (4 e c b)
  then show ?case by (intro metadata_directs) simp_all
next
  case (5 cf pc t ms)
  then show ?case by (simp add: wire_setup_def deliverable_def)
next
  case (6 cf pc t ms)
  then show ?case by (simp add: acked_producer_def)
next
  case (7 e c b pc t ms p)
  then show ?case by (intro offset_of_end) (simp_all add: wire_setup_def deliverable_def)
next
  case (8 e c b pc t ms p)
  then show ?case by (intro produce_fits) (auto simp: server_sends_def running_def)
next
  case (9 e cn b pc t ms con p)
  then show ?case by (intro fetch_after_produce) (auto simp: running_def)
qed

section \<open>Starting the server\<close>

text \<open>A host without a colon or brackets and a port are read back from the address that names them.\<close>

lemma itoa_plain: "91 \<notin> set (itoa n)" "93 \<notin> set (itoa n)"
  using digits_range[of 91] digits_range[of 93] by (auto simp: itoa_def str_def word_le_nat_alt)

lemma SplitHostPort_host_port:
  assumes "58 \<notin> set host" "91 \<notin> set host" "93 \<notin> set host"
  shows "SplitHostPort (host_port host port) = Some (host, itoa (sint port))"
proof -
  let ?s = "host @ 58 # itoa (sint port)"
  have s: "host_port host port = ?s" by (simp add: host_port_def str_def)
  have "index_byte 58 (rev ?s) = Some (length (itoa (sint port)))"
    using itoa_no_colon[of "sint port"] by (simp add: index_byte_def takeWhile_append2 takeWhile_append Let_def)
  then have "last_index_byte 58 ?s = Some (length host)" by (simp add: last_index_byte_def)
  moreover have "hd ?s \<noteq> 91" using assms(2) by (cases host) auto
  ultimately show ?thesis
    using assms itoa_plain[of "sint port"] by (simp add: s SplitHostPort_def)
qed

definition started :: "gostring \<Rightarrow> int32 \<Rightarrow> Server \<Rightarrow> Server" where
  "started host port s = s\<lparr>ln := Some (host_port host port),
     brokers := [zero_MetadataRespBroker\<lparr>mb_NodeID := server_node, mb_Host := host, mb_Port := port\<rparr>]\<rparr>"

lemma MustSpawn_started:
  assumes "ln s = None" "brokers s = []" "58 \<notin> set host" "91 \<notin> set host" "93 \<notin> set host"
  shows "MustSpawn (Inr (host_port host port)) s = Ok (started host port s)"
proof -
  have "Atoi (itoa (sint port)) = (sint port, True)"
    using sint_range_size[of port] by (intro Atoi_itoa) (simp_all add: word_size)
  with assms(1,2) show ?thesis
    by (simp add: MustSpawn_def listen_on_def SplitHostPort_host_port[OF assms(3-5)] started_def)
qed

lemma part_log_started [simp]: "part_log (started host port s) = part_log s"
  by (simp add: started_def part_log_def fun_eq_iff)

lemma running_started:
  assumes "cl_server e = started host port s" "wf_string host" "server_ok s" "modest_server s" "events s < events_capacity"
  shows "running host port e"
  using assms by (simp add: running_def started_def server_ok_def modest_server_def)

section \<open>Properties\<close>

text \<open>
  C2.  A whole session over bytes: a test server is started with \<open>MustSpawn\<close>, a program dials its address, opens a
  consumer at the newest offset of a partition that exists and produces messages.  Every one of these calls returns without
  an error, and as many calls of \<open>Consume\<close> as there are messages return their keys and values, in the order they
  were given, at the offsets that follow those of the log: uncompressed, with gzip and with snappy, for all messages
  that fit on the wire, through the bytes of metadata, offset, produce and fetch requests and their responses.
\<close>

lemma session_delivers:
  assumes "MustSpawn (Inr (host_port host port)) s0 = Ok (cl_server e)" "ln s0 = None" "brokers s0 = []"
    and "58 \<notin> set host" "91 \<notin> set host" "93 \<notin> set host" "wf_string host"
    and "server_ok s0" "modest_server s0" "events s0 < events_capacity" "part_log s0 t p = Some old" "length old < 2 ^ 63"
    and "wire_setup lib pconf depth k" "acked_producer pc" "deliverable lib (pc_Compression pc) (bc_ClientID cf) t ms" "ms \<noteq> []"
    and "\<not> useTLS cf" "0 < bc_DialRetryLimit cf" "0 < bc_LeaderRetryLimit cf" "0 < bc_RetryErrLimit cf"
    and "0 < pc_RetryLimit pc" "0 < cc_RetryErrLimit cc"
    and "cc_Topic cc = t" "cc_Partition cc = p" "cc_StartOffset cc = StartOffsetNewest"
    and "N = wire_network lib pconf depth spare k i"
  shows "succeeds (Dial N [host_port host port] cf e) (\<lambda>b e1.
    succeeds (Broker_Consumer N cc (b, e1)) (\<lambda>c w1.
    succeeds (producer_Produce N pc t p ms w1) (\<lambda>r w2.
      consecutive (of_nat (length old)) (consume_calls N (Suc fuel) (length ms) c w2) \<and>
      map (\<lambda>m. (Key m, Value m)) (consume_calls N (Suc fuel) (length ms) c w2) =
        map (\<lambda>m. (norm_bytes (Key m), norm_bytes (Value m))) ms)))"
proof -
  have s: "cl_server e = started host port s0" using MustSpawn_started[OF assms(2-6), of port] assms(1) by simp
  show ?thesis
    unfolding assms(26)
    by (rule on_bytes.session_returns[OF running_started[OF s assms(7-10)]]) (use assms in \<open>simp_all add: s\<close>)
qed

text \<open>A server with one topic, before it is started, and a program that sends it two messages.\<close>

definition example_stopped :: Server where
  "example_stopped = example_server\<lparr>ln := None, brokers := []\<rparr>"

definition example_net :: "cluster network" where
  "example_net = wire_network example_codecs full_parsing 1 id new_connection 7"

definition example_sent :: "Message list" where
  "example_sent = [zero_Message\<lparr>Value := Some [1]\<rparr>, zero_Message\<lparr>Value := Some [2]\<rparr>]"

definition example_started :: cluster where
  "example_started = \<lparr>cl_server = started (str ''a'') 9 example_stopped, cl_open = [], cl_next = 0\<rparr>"

lemma example_stopped_ok:
  "server_ok example_stopped" "modest_server example_stopped" "events example_stopped < events_capacity"
  using example_server_ok
  by (simp_all add: example_stopped_def example_server_def NewServer_def server_ok_def modest_server_def wf_string_def str_def
      events_capacity_def)

lemma example_spawned: "MustSpawn (Inr (host_port (str ''a'') 9)) example_stopped = Ok (cl_server example_started)"
  by (simp add: example_started_def MustSpawn_started example_stopped_def str_def)

lemma session_delivers_witness:
  "\<exists>b e1 c w1 r w2. Dial example_net [host_port (str ''a'') 9] (NewBrokerConf (str ''me'')) example_started = (Ok b, e1) \<and>
     Broker_Consumer example_net ((NewConsumerConf (str ''t'') 0)\<lparr>cc_StartOffset := StartOffsetNewest\<rparr>) (b, e1) = (Ok c, w1) \<and>
     producer_Produce example_net (NewProducerConf\<lparr>pc_Compression := CompressionSnappy\<rparr>) (str ''t'') 0 example_sent w1 = (Ok r, w2) \<and>
     map Value (consume_calls example_net 1 2 c w2) = [Some [1], Some [2]]"
proof -
  let ?pc = "NewProducerConf\<lparr>pc_Compression := CompressionSnappy\<rparr>" and ?cf = "NewBrokerConf (str ''me'')"
    and ?cc = "(NewConsumerConf (str ''t'') 0)\<lparr>cc_StartOffset := StartOffsetNewest\<rparr>"
  have net: "wire_setup example_codecs full_parsing 1 new_connection"
    by (simp add: wire_setup_def new_speaks_V0 full_parsing_def example_codec_laws)
  have pc: "acked_producer ?pc"
    by (simp add: acked_producer_def NewProducerConf_def RequiredAcksAll_def RequiredAcksNone_def)
  have fits: "deliverable example_codecs (pc_Compression ?pc) (bc_ClientID ?cf) (str ''t'') example_sent"
    by (simp add: deliverable_def wf_messages_def set_wire_def packed_def zero_Message_def roomy_def message_len_def maxInt32_def
        str_def wf_string_def NewBrokerConf_def example_codecs_def example_sent_def)
  have log: "part_log example_stopped (str ''t'') 0 = Some (numbered 0 (str ''t'') [zero_Message, zero_Message])"
    by (simp add: example_stopped_def example_server_def NewServer_def part_log_def)
  have "succeeds (Dial example_net [host_port (str ''a'') 9] ?cf example_started) (\<lambda>b e1.
    succeeds (Broker_Consumer example_net ?cc (b, e1)) (\<lambda>c w1.
    succeeds (producer_Produce example_net ?pc (str ''t'') 0 example_sent w1) (\<lambda>r w2.
      consecutive (of_nat (length (numbered 0 (str ''t'') [zero_Message, zero_Message])))
        (consume_calls example_net (Suc 0) (length example_sent) c w2) \<and>
      map (\<lambda>m. (Key m, Value m)) (consume_calls example_net (Suc 0) (length example_sent) c w2) =
        map (\<lambda>m. (norm_bytes (Key m), norm_bytes (Value m))) example_sent)))"
    by (rule session_delivers[OF example_spawned _ _ _ _ _ _ example_stopped_ok log _ net pc fits _ _ _ _ _ _ _ _ _ _ example_net_def])
      (simp_all add: example_stopped_def example_server_def NewServer_def str_def wf_string_def example_sent_def
        NewBrokerConf_def NewProducerConf_def NewConsumerConf_def useTLS_def)
  then show ?thesis
    by (auto simp: succeeds_def example_sent_def numeral_2_eq_2 norm_bytes_def simp del: consume_calls.simps)
qed

end
