(* ===== verification/Committing.thy ===== *)
theory Committing
  imports Session
begin

text \<open>
  A program that commits an offset and, after a restart, reads it back: \<open>Dial\<close>, \<open>OffsetCoordinator\<close>, \<open>CommitFull\<close> and
  \<open>Offset\<close> against a test server, over the bytes of \<open>wire_network\<close>.
\<close>

section \<open>The contract\<close>

text \<open>
  A cluster that can be reached and keeps offsets, which \<open>view\<close> are; \<open>names\<close> are the strings it can read.
\<close>

locale commit_session = reachable_cluster N log stored up live addr node client
  for N :: "'e network" and log and stored :: "'e \<Rightarrow> gostring \<times> gostring \<times> int32 \<Rightarrow> int64 \<times> gostring"
    and up live addr node client +
  fixes names :: "gostring \<Rightarrow> bool"
  assumes names_coordinator: "up e \<Longrightarrow> live c e \<Longrightarrow> client (conf b) \<Longrightarrow> names grp \<Longrightarrow>
      succeeds (net_ConsumerMetadata N c (coordinator_req b grp) e)
        (\<lambda>r e'. e' = e \<and> cr_Err r = None \<and> host_port (cr_CoordinatorHost r) (cr_CoordinatorPort r) = addr)"
    and stores: "up e \<Longrightarrow> live c e \<Longrightarrow> client (conf b) \<Longrightarrow> names grp \<Longrightarrow> names t \<Longrightarrow> names meta \<Longrightarrow>
      succeeds (net_OffsetCommit N c (commit_req b grp t p off now meta) e)
        (\<lambda>r e'. committed t p r = None \<and> up e' \<and> stored e' = (stored e)((grp, t, p) := (off, meta)))"
    and reads: "up e \<Longrightarrow> live c e \<Longrightarrow> names grp \<Longrightarrow> names t \<Longrightarrow> names (snd (stored e (grp, t, p))) \<Longrightarrow>
      succeeds (net_OffsetFetch N c (offset_fetch_req grp t p) e)
        (\<lambda>r e'. offset_found t p r = Ok (stored e (grp, t, p)))"
begin

lemma coordinator_of_returns:
  assumes "up e" "live c e" "client (conf b)" "\<not> useTLS (conf b)" "names grp"
  shows "succeeds (coordinator_of N grp c (b, e)) (\<lambda>r w. \<exists>cn. r = Inr cn \<and> found e (snd w) \<and> live cn (snd w) \<and>
    conf (fst w) = conf b)"
proof -
  obtain r where r: "net_ConsumerMetadata N c (coordinator_req b grp) e = (Ok r, e)" "cr_Err r = None"
    "host_port (cr_CoordinatorHost r) (cr_CoordinatorPort r) = addr"
    using names_coordinator[OF assms(1-3,5)] by (auto elim!: succeedsE)
  obtain cn e' where "net_dial N False addr e = (Ok cn, e')" "found e e'" "live cn e'"
    using dials[OF assms(1)] by (auto elim!: succeedsE)
  with r assms(4) show ?thesis
    by (simp add: coordinator_of_def on_env_def attempt_return getConnection_def add_conn_def)
qed

lemma coordinator_returns:
  assumes "up e" "client (conf b)" "\<not> useTLS (conf b)" "conns b = []" "nodes (metadata b) = [(node, addr)]" "names grp"
    and "0 < bc_LeaderRetryLimit (conf b)"
  shows "succeeds (muCoordinatorConnection N grp (b, e)) (\<lambda>c w. \<exists>cn. c = Some cn \<and> found e (snd w) \<and> live cn (snd w) \<and>
    conf (fst w) = conf b)"
proof -
  define e1 where "e1 = snd (net_perm N 0 e)"
  have e1: "found e e1" using perm_up assms(1) by (simp add: e1_def)
  obtain m e2 where refresh: "refreshMetadata N (b, e1) = (Ok (), cacheMetadata m b, e2)" "directs (log e) addr node m" "found e e2"
    using refresh_returns[of e1 b] assms e1 by (auto elim!: succeedsE)
  define b1 where "b1 = cacheMetadata m b"
  have b1: "nodes (metadata b1) = [(node, addr)]" "conf b1 = conf b" "conns b1 = []"
    using refresh(2) assms(4) by (simp_all add: b1_def directs_def)
  define e3 where "e3 = snd (net_perm N 1 e2)"
  have e3: "found e e3" using perm_up refresh(3) by (simp add: e3_def)
  obtain c e4 where dial: "net_dial N False addr e3 = (Ok c, e4)" "found e e4" "live c e4"
    using dials[of e3] e3 by (auto elim!: succeedsE)
  obtain cn w where found: "coordinator_of N grp c (b1\<lparr>conns := [(node, c)]\<rparr>, e4) = (Ok (Inr cn), w)"
    "found e (snd w)" "live cn (snd w)" "conf (fst w) = conf b"
    using coordinator_of_returns[of e4 c "b1\<lparr>conns := [(node, c)]\<rparr>" grp] dial assms b1 by (auto elim!: succeedsE)
  have "coordinator_by_nodes N grp [(node, addr)] (b1, e3) = (Ok (Some cn), w)"
    using dial found assms(3) b1
    by (simp add: getConnection_def attempt_return add_conn_def put_def)
  then have "coordinator_round N grp None (b, e) = (Ok (Inr cn), w)"
    using refresh(1) assms(4) b1
    by (simp add: coordinator_round_def attempt_return e1_def e3_def flip: b1_def)
  moreover obtain k where "nat (bc_LeaderRetryLimit (conf b)) = Suc k" using assms(7) gr0_implies_Suc by force
  ultimately show ?thesis
    using found by (simp add: muCoordinatorConnection_def attempt_return)
qed

lemma open_returns:
  assumes "up e" "client cf" "\<not> useTLS cf" "0 < bc_DialRetryLimit cf" "0 < bc_LeaderRetryLimit cf" "names (occ_ConsumerGroup oc)"
  shows "succeeds (Dial N [addr] cf e) (\<lambda>b e1. succeeds (Broker_OffsetCoordinator N oc (b, e1)) (\<lambda>c w.
    \<exists>cn. c = \<lparr>oc_conf = oc, oc_conn = Some cn\<rparr> \<and> found e (snd w) \<and> live cn (snd w) \<and> conf (fst w) = cf))"
proof (rule succeeds_mono[OF Dial_returns[OF assms(1-4)]])
  fix b :: Broker and e1
  assume b: "found e e1 \<and> conf b = cf \<and> conns b = [] \<and> nodes (metadata b) = [(node, addr)] \<and>
    (\<forall>t p. log e t p \<noteq> None \<longrightarrow> endpoints (metadata b) (t, p) = Some node)"
  then show "succeeds (Broker_OffsetCoordinator N oc (b, e1)) (\<lambda>c w.
      \<exists>cn. c = \<lparr>oc_conf = oc, oc_conn = Some cn\<rparr> \<and> found e (snd w) \<and> live cn (snd w) \<and> conf (fst w) = cf)"
    unfolding Broker_OffsetCoordinator_def
    by (intro succeeds_attempt[OF coordinator_returns]) (use assms in auto)
qed

lemma commit_returns:
  assumes "c = \<lparr>oc_conf = oc, oc_conn = Some cn\<rparr>" "up (snd w)" "live cn (snd w)" "client (conf (fst w))"
    and "names (occ_ConsumerGroup oc)" "names t" "names meta" "0 < occ_RetryErrLimit oc"
  shows "succeeds (CommitFull N interleave now t p off meta (c, w)) (\<lambda>err s. err = None \<and> up (snd (snd s)) \<and>
    stored (snd (snd s)) (occ_ConsumerGroup oc, t, p) = (off, meta))"
proof -
  obtain k where "nat (occ_RetryErrLimit oc) = Suc k" using assms(8) gr0_implies_Suc by force
  moreover obtain r e' where "net_OffsetCommit N cn (commit_req (fst w) (occ_ConsumerGroup oc) t p off (now (snd w)) meta) (snd w) =
      (Ok r, e')" "committed t p r = None" "up e'" "stored e' (occ_ConsumerGroup oc, t, p) = (off, meta)"
    using stores[OF assms(2-7), of p off "now (snd w)"] by (auto elim!: succeedsE)
  ultimately show ?thesis
    by (simp add: CommitFull_def commit_def assms(1) coordinator_conn_def on_env_def)
qed

lemma Offset_returns:
  assumes "c = \<lparr>oc_conf = oc, oc_conn = Some cn\<rparr>" "up (snd w)" "live cn (snd w)"
    and "names (occ_ConsumerGroup oc)" "names t" "names (snd (stored (snd w) (occ_ConsumerGroup oc, t, p)))"
    and "0 < occ_RetryErrLimit oc"
  shows "succeeds (coordinator_Offset N interleave t p (c, w)) (\<lambda>x s. x = stored (snd w) (occ_ConsumerGroup oc, t, p))"
proof -
  obtain k where "nat (occ_RetryErrLimit oc) = Suc k" using assms(7) gr0_implies_Suc by force
  moreover obtain r e' where "net_OffsetFetch N cn (offset_fetch_req (occ_ConsumerGroup oc) t p) (snd w) = (Ok r, e')"
    "offset_found t p r = Ok (stored (snd w) (occ_ConsumerGroup oc, t, p))"
    using reads[OF assms(2-6)] by (auto elim!: succeedsE)
  ultimately show ?thesis
    by (simp add: coordinator_Offset_def assms(1) coordinator_conn_def on_env_def)
qed

lemma resume_returns:
  assumes "up e" "client cf" "\<not> useTLS cf" "0 < bc_DialRetryLimit cf" "0 < bc_LeaderRetryLimit cf"
    and "client cf'" "\<not> useTLS cf'" "0 < bc_DialRetryLimit cf'" "0 < bc_LeaderRetryLimit cf'"
    and "occ_ConsumerGroup oc' = occ_ConsumerGroup oc" "0 < occ_RetryErrLimit oc" "0 < occ_RetryErrLimit oc'"
    and "names (occ_ConsumerGroup oc)" "names t" "names meta"
  shows "succeeds (Dial N [addr] cf e) (\<lambda>b e1. succeeds (Broker_OffsetCoordinator N oc (b, e1)) (\<lambda>c w1.
    succeeds (CommitFull N interleave now t p off meta (c, w1)) (\<lambda>err s. err = None \<and>
    succeeds (Dial N [addr] cf' (snd (snd s))) (\<lambda>b' e2. succeeds (Broker_OffsetCoordinator N oc' (b', e2)) (\<lambda>c' w2.
    succeeds (coordinator_Offset N interleave' t p (c', w2)) (\<lambda>x s'. x = (off, meta)))))))"
proof -
  have resumed: "succeeds (Dial N [addr] cf' e') (\<lambda>b' e2. succeeds (Broker_OffsetCoordinator N oc' (b', e2)) (\<lambda>c' w2.
      succeeds (coordinator_Offset N interleave' t p (c', w2)) (\<lambda>x s'. x = (off, meta))))"
    if e': "up e'" "stored e' (occ_ConsumerGroup oc, t, p) = (off, meta)" for e'
  proof -
    have "names (occ_ConsumerGroup oc')" using assms(10,13) by simp
    note opened = open_returns[OF e'(1) assms(6-9) this]
    show ?thesis
    proof (rule succeeds_mono[OF opened], rule succeeds_mono, assumption, elim exE conjE, goal_cases)
      case (1 b e2 c w cn)
      then show ?case using Offset_returns[of c oc' cn w t p] e'(2) assms by simp
    qed
  qed
  show ?thesis
  proof (rule succeeds_mono[OF open_returns[OF assms(1-5,13)]])
    fix b e1
    assume "succeeds (Broker_OffsetCoordinator N oc (b, e1)) (\<lambda>c w.
      \<exists>cn. c = \<lparr>oc_conf = oc, oc_conn = Some cn\<rparr> \<and> found e (snd w) \<and> live cn (snd w) \<and> conf (fst w) = cf)"
    then show "succeeds (Broker_OffsetCoordinator N oc (b, e1)) (\<lambda>c w1.
        succeeds (CommitFull N interleave now t p off meta (c, w1)) (\<lambda>err s. err = None \<and>
        succeeds (Dial N [addr] cf' (snd (snd s))) (\<lambda>b' e2. succeeds (Broker_OffsetCoordinator N oc' (b', e2)) (\<lambda>c' w2.
        succeeds (coordinator_Offset N interleave' t p (c', w2)) (\<lambda>x s'. x = (off, meta))))))"
    proof (rule succeeds_mono, elim exE conjE, goal_cases)
      case (1 c w cn)
      show ?case
        by (rule succeeds_mono[OF commit_returns[of c oc cn w]]) (use 1 assms resumed in auto)
    qed
  qed
qed

end

section \<open>Requests of a coordinator fit\<close>

lemma short_ConsumerMetadata:
  assumes "wf_string (ClientID q)" "wf_string (cq_ConsumerGroup q)"
  shows "short (ConsumerMetadataReq_Bytes q)"
  unfolding ConsumerMetadataReq_Bytes_def encodeHeader_def append_Cons append_Nil
  by (rule short_at_most, (rule size_intros)+) (use assms in \<open>simp add: wf_string_def\<close>)

lemma short_ConsumerMetadataResp:
  assumes "wf_ConsumerMetadataResp r"
  shows "short (ConsumerMetadataResp_Bytes r)"
proof -
  note wf = assms[unfolded wf_ConsumerMetadataResp_def]
  show ?thesis
    unfolding ConsumerMetadataResp_Bytes_def
    by (rule short_at_most, (rule size_intros at_most_Error conjunct1[OF wf])+) (use wf in \<open>simp add: wf_string_def\<close>)
qed

lemma short_OffsetCommitReq:
  assumes "wf_string (ClientID q)" "wf_string (ocq_ConsumerGroup q)" "wf_string (ocq_MemberID q)" "ocq_Topics q = [t]"
    and "ocqt_Partitions t = [p]" "wf_string (ocqt_Name t)" "wf_string (ocqp_Metadata p)"
  shows "short (OffsetCommitReq_Bytes q)"
proof -
  have part: "at_most (block (write_OffsetCommitReqPartition v p)) 32800" for v
    unfolding write_OffsetCommitReqPartition_def
    by (rule at_most_mono, (rule size_intros)+) (use assms(7) in \<open>simp add: wf_string_def\<close>)
  have topic: "at_most (block (write_OffsetCommitReqTopic v t)) 65600" for v
    unfolding write_OffsetCommitReqTopic_def assms(5)
    by (rule at_most_mono, (rule size_intros part)+) (use assms(6) in \<open>simp add: wf_string_def\<close>)
  show ?thesis
    unfolding OffsetCommitReq_Bytes_def encodeHeader_def append_Cons append_Nil assms(4)
    by (rule short_at_most, (rule size_intros topic)+) (use assms(1-3) in \<open>simp add: wf_string_def\<close>)
qed

lemma short_OffsetCommitResp:
  assumes "ocr_Topics r = [t]" "ocrt_Partitions t = [p]" "wf_string (ocrt_Name t)" "wire_error (ocrp_Err p)"
  shows "short (OffsetCommitResp_Bytes r)"
proof -
  have part: "at_most (block (write_OffsetCommitRespPartition p)) 6"
    unfolding write_OffsetCommitRespPartition_def
    by (rule at_most_mono, (rule size_intros at_most_Error assms(4))+) simp
  have topic: "at_most (block (write_OffsetCommitRespTopic t)) 32800"
    unfolding write_OffsetCommitRespTopic_def assms(2)
    by (rule at_most_mono, (rule size_intros part)+) (use assms(3) in \<open>simp add: wf_string_def\<close>)
  show ?thesis
    unfolding OffsetCommitResp_Bytes_def assms(1) by (rule short_at_most, (rule size_intros topic)+) simp
qed

lemma short_OffsetFetchReq:
  assumes "wf_string (ClientID q)" "wf_string (ofq_ConsumerGroup q)" "ofq_Topics q = [t]"
    and "ofqt_Partitions t = [p]" "wf_string (ofqt_Name t)"
  shows "short (OffsetFetchReq_Bytes q)"
proof -
  have topic: "at_most (block (write_OffsetFetchReqTopic t)) 32800"
    unfolding write_OffsetFetchReqTopic_def
    by (rule at_most_mono, (rule size_intros)+) (use assms(4,5) in \<open>simp add: wf_string_def\<close>)
  show ?thesis
    unfolding OffsetFetchReq_Bytes_def encodeHeader_def append_Cons append_Nil assms(3)
    by (rule short_at_most, (rule size_intros topic)+) (use assms(1,2) in \<open>simp add: wf_string_def\<close>)
qed

lemma short_OffsetFetchResp:
  assumes "ofr_Topics r = [t]" "ofrt_Partitions t = [p]" "wf_string (ofrt_Name t)" "wf_string (ofrp_Metadata p)"
    and "wire_error (ofrp_Err p)" "wire_error (ofr_Err r)"
  shows "short (OffsetFetchResp_Bytes r)"
proof -
  have part: "at_most (block (write_OffsetFetchRespPartition p)) 32800"
    unfolding write_OffsetFetchRespPartition_def
    by (rule at_most_mono, (rule size_intros at_most_Error assms(5))+) (use assms(4) in \<open>simp add: wf_string_def\<close>)
  have topic: "at_most (block (write_OffsetFetchRespTopic t)) 65600"
    unfolding write_OffsetFetchRespTopic_def assms(2)
    by (rule at_most_mono, (rule size_intros part)+) (use assms(3) in \<open>simp add: wf_string_def\<close>)
  show ?thesis
    unfolding OffsetFetchResp_Bytes_def assms(1)
    by (rule short_at_most, (rule size_intros at_most_Error topic assms(6))+) simp
qed

section \<open>The test server keeps offsets\<close>

lemma coordinator_named:
  assumes "running host port e" "58 \<notin> set host" "c \<in> set (cl_open e)" "wf_string (bc_ClientID (conf b))" "wf_string grp" "speaks_V0 k"
  shows "succeeds (net_ConsumerMetadata (wire_network lib pconf depth spare k i) c (coordinator_req b grp) e)
    (\<lambda>r e'. e' = e \<and> cr_Err r = None \<and> host_port (cr_CoordinatorHost r) (cr_CoordinatorPort r) = host_port host port)"
proof -
  define q where "q = send_header k ConsumerMetadataReqKind i (coordinator_req b grp)"
  define r where "r = zero_ConsumerMetadataResp\<lparr>cr_CorrelationID := correlationID q, cr_CoordinatorHost := host, cr_CoordinatorPort := port\<rparr>"
  have "Addr (cl_server e) = host @ 58 # itoa (sint port)" "wf_string host"
    using assms(1) by (simp_all add: running_def Addr_def host_port_def str_def)
  moreover have "Atoi (itoa (sint port)) = (sint port, True)"
    using sint_range_size[of port] by (intro Atoi_itoa) (simp_all add: word_size)
  ultimately have reply: "handleConsumerMetadataRequest q (cl_server e) = (Reply r, cl_server e)" and wf: "wf_ConsumerMetadataResp r"
    using assms(2) itoa_no_colon
    by (simp_all add: handleConsumerMetadataRequest_def Split_append Split_none r_def wf_ConsumerMetadataResp_def
        zero_ConsumerMetadataResp_def wf_string_def)
  have "net_ConsumerMetadata (wire_network lib pconf depth spare k i) c (coordinator_req b grp) e =
      net_ConsumerMetadata server_network c (SetCorrelationID i (coordinator_req b grp)) e"
  proof (rule coordinator_on_wire[OF assms(6)])
    show "wf_ConsumerMetadataReq (coordinator_req b grp)" "cq_CoordinatorType (coordinator_req b grp) = 0"
      using assms(4,5) by (simp_all add: coordinator_req_def zero_ConsumerMetadataReq_def wf_ConsumerMetadataReq_def wf_header_def)
    show "short (ConsumerMetadataReq_Bytes (send_header k ConsumerMetadataReqKind i (coordinator_req b grp)))"
      by (rule short_ConsumerMetadata) (use assms(4,5) in \<open>simp_all add: send_header_def header_ops coordinator_req_def\<close>)
    show "reply_fits ConsumerMetadataResp_Bytes wf_ConsumerMetadataResp
        (handleConsumerMetadataRequest (send_header k ConsumerMetadataReqKind i (coordinator_req b grp)) (cl_server e))"
      using reply wf short_ConsumerMetadataResp by (simp add: reply_fits_def flip: q_def)
  qed
  also have "\<dots> = (Ok (norm_ConsumerMetadataResp r), e)"
    using assms(3) reply by (simp add: server_network_def remote_def q_def send_V0[OF assms(6)])
  finally show ?thesis
    by (simp add: norm_ConsumerMetadataResp_def r_def zero_ConsumerMetadataResp_def)
qed

lemma handleOffsetCommit_addr:
  "brokers (snd (handleOffsetCommitRequest req s)) = brokers s \<and> ln (snd (handleOffsetCommitRequest req s)) = ln s"
proof -
  have part: "brokers (snd (offset_commit_part grp t q v)) = brokers v \<and> ln (snd (offset_commit_part grp t q v)) = ln v" for grp t q v
    by (simp add: offset_commit_part_def getTopicOffset_def setTopicOffset_def split_beta Let_def split: option.split)
  have topic: "brokers (snd (offset_commit_topic grp t v)) = brokers v \<and> ln (snd (offset_commit_topic grp t v)) = ln v" for grp t v
    unfolding offset_commit_topic_def split_beta Let_def snd_conv
    by (rule map_state_keeps[where P = "\<lambda>u. brokers u = brokers v \<and> ln u = ln v"]) (use part in auto)
  show ?thesis
    unfolding handleOffsetCommitRequest_def split_beta Let_def snd_conv
    by (rule map_state_keeps[where P = "\<lambda>u. brokers u = brokers s \<and> ln u = ln s"]) (use topic in auto)
qed

lemma offset_kept:
  assumes "running host port e" "c \<in> set (cl_open e)" "wf_string (bc_ClientID (conf b))" "wf_string grp" "wf_string t" "wf_string meta"
    and "speaks_V0 k"
  shows "succeeds (net_OffsetCommit (wire_network lib pconf depth spare k i) c (commit_req b grp t p off now meta) e)
    (\<lambda>r e'. committed t p r = None \<and> running host port e' \<and>
       cluster_stored e' = (cluster_stored e)((grp, t, p) := (off, meta)))"
proof -
  define q0 where "q0 = commit_req b grp t p off now meta"
  define q where "q = norm_OffsetCommitReq (send_header k OffsetCommitReqKind i q0)"
  have q: "q = norm_OffsetCommitReq (SetVersion KafkaV0 (SetCorrelationID i q0))" by (simp add: q_def send_V0[OF assms(7)])
  obtain qp where topics: "ocq_Topics q = [\<lparr>ocqt_Name = t, ocqt_Partitions = [qp]\<rparr>]" "ocq_ConsumerGroup q = grp"
    and qp: "ocqp_ID qp = p" "ocqp_Offset qp = off" "ocqp_Metadata qp = meta"
    by (simp add: q q0_def header_ops norm_OffsetCommitReq_def norm_OffsetCommitReqTopic_def norm_OffsetCommitReqPartition_def
        commit_req_def)
  obtain r s where reply: "handleOffsetCommitRequest q (cl_server e) = (Reply r, s)"
    and r: "ocr_Topics r = [\<lparr>ocrt_Name = t, ocrt_Partitions = [zero_OffsetCommitRespPartition\<lparr>ocrp_ID := p\<rparr>]\<rparr>]"
    by (simp add: handleOffsetCommitRequest_def topics qp offset_commit_topic_def offset_commit_part_def split_beta Let_def)
  have zero: "ocrp_Err (zero_OffsetCommitRespPartition\<lparr>ocrp_ID := p\<rparr>) = None" by (simp add: zero_OffsetCommitRespPartition_def)
  have "short (OffsetCommitResp_Bytes r)"
    by (rule short_OffsetCommitResp[OF r, where p = "zero_OffsetCommitRespPartition\<lparr>ocrp_ID := p\<rparr>"]) (use assms(5) zero in simp_all)
  then have fits: "reply_fits OffsetCommitResp_Bytes wf_OffsetCommitResp (handleOffsetCommitRequest q (cl_server e))"
    using r zero assms(5) by (simp add: reply_fits_def reply wf_OffsetCommitResp_def wf_OffsetCommitRespTopic_def wf_array_def)
  have "net_OffsetCommit (wire_network lib pconf depth spare k i) c q0 e = net_OffsetCommit server_network c (SetCorrelationID i q0) e"
  proof (rule commit_on_wire[OF assms(7) _ _ fits[unfolded q_def]])
    show "wf_OffsetCommitReq q0"
      using assms(3-6) by (simp add: q0_def commit_req_def zero_OffsetCommitReq_def wf_OffsetCommitReq_def wf_header_def wf_array_def
          wf_OffsetCommitReqTopic_def wf_string_def)
    show "short (OffsetCommitReq_Bytes (send_header k OffsetCommitReqKind i q0))"
      by (rule short_OffsetCommitReq[where t = "hd (ocq_Topics q0)" and p = "hd (ocqt_Partitions (hd (ocq_Topics q0)))"])
        (use assms(3-6) in \<open>simp_all add: send_header_def header_ops q0_def commit_req_def zero_OffsetCommitReq_def wf_string_def\<close>)
  qed
  also have "\<dots> = (Ok (norm_OffsetCommitResp r), e\<lparr>cl_server := s\<rparr>)"
    using assms(2) reply by (simp add: server_network_def remote_def flip: q)
  finally have "net_OffsetCommit (wire_network lib pconf depth spare k i) c q0 e = (Ok (norm_OffsetCommitResp r), e\<lparr>cl_server := s\<rparr>)" .
  moreover have "committed t p (norm_OffsetCommitResp r) = None"
    using zero by (simp add: committed_def norm_OffsetCommitResp_def r)
  moreover have "cluster_stored (e\<lparr>cl_server := s\<rparr>) = (cluster_stored e)((grp, t, p) := (off, meta))"
    using commit_one[OF reply topics(1)] by (simp add: cluster_stored_def topics(2) qp)
  moreover have "running host port (e\<lparr>cl_server := s\<rparr>)"
    using assms(1) handleOffsetCommit_same[of q "cl_server e"] handleOffsetCommit_addr[of q "cl_server e"] reply
    by (simp add: running_def server_ok_def modest_server_def)
  ultimately show ?thesis by (simp flip: q0_def)
qed

lemma offset_read:
  assumes "c \<in> set (cl_open e)" "wf_string grp" "wf_string t" "wf_string (snd (cluster_stored e (grp, t, p)))" "speaks_V0 k"
  shows "succeeds (net_OffsetFetch (wire_network lib pconf depth spare k i) c (offset_fetch_req grp t p) e)
    (\<lambda>r e'. offset_found t p r = Ok (cluster_stored e (grp, t, p)))"
proof -
  define q where "q = send_header k OffsetFetchReqKind i (offset_fetch_req grp t p)"
  obtain m where m: "cluster_stored e (grp, t, p) = m" "wf_string (snd m)" using assms(4) by simp
  define pr where "pr = zero_OffsetFetchRespPartition\<lparr>ofrp_ID := p, ofrp_Metadata := snd m, ofrp_Offset := fst m\<rparr>"
  have pr: "ofrp_Err pr = None" "ofrp_ID pr = p" "ofrp_Metadata pr = snd m" "ofrp_Offset pr = fst m"
    by (simp_all add: pr_def zero_OffsetFetchRespPartition_def)
  obtain r s where reply: "handleOffsetFetchRequest q (cl_server e) = (Reply r, s)"
    and r: "ofr_Topics r = [\<lparr>ofrt_Name = t, ofrt_Partitions = [pr]\<rparr>]" "ofr_Err r = None"
    using m(1) by (auto simp: handleOffsetFetchRequest_def offset_fetch_topic_def offset_fetch_part_def split_beta Let_def
        q_def send_header_def header_ops offset_fetch_req_def zero_OffsetFetchResp_def pr_def cluster_stored_def stored_offset_def)
  have "short (OffsetFetchResp_Bytes r)"
    by (rule short_OffsetFetchResp[OF r(1), where p = pr]) (use assms(3) m(2) pr r(2) in simp_all)
  then have fits: "reply_fits OffsetFetchResp_Bytes wf_OffsetFetchResp (handleOffsetFetchRequest q (cl_server e))"
    using r pr m(2) assms(3) by (simp add: reply_fits_def reply wf_OffsetFetchResp_def wf_OffsetFetchRespTopic_def
        wf_OffsetFetchRespPartition_def wf_array_def)
  have "net_OffsetFetch (wire_network lib pconf depth spare k i) c (offset_fetch_req grp t p) e =
      net_OffsetFetch server_network c (SetCorrelationID i (offset_fetch_req grp t p)) e"
  proof (rule offset_fetch_on_wire[OF assms(5) _ _ fits[unfolded q_def]])
    show "wf_OffsetFetchReq (offset_fetch_req grp t p)"
      using assms(2,3) by (simp add: offset_fetch_req_def zero_OffsetFetchReq_def wf_OffsetFetchReq_def wf_header_def wf_array_def
          wf_OffsetFetchReqTopic_def wf_string_def)
    show "short (OffsetFetchReq_Bytes (send_header k OffsetFetchReqKind i (offset_fetch_req grp t p)))"
      by (rule short_OffsetFetchReq[where t = "\<lparr>ofqt_Name = t, ofqt_Partitions = [p]\<rparr>" and p = p])
        (use assms(2,3) in \<open>simp_all add: send_header_def header_ops offset_fetch_req_def zero_OffsetFetchReq_def wf_string_def\<close>)
  qed
  also have "\<dots> = (Ok (norm_OffsetFetchResp r), e\<lparr>cl_server := s\<rparr>)"
    using assms(1) reply by (simp add: server_network_def remote_def q_def send_V0[OF assms(5)])
  finally show ?thesis
    by (simp add: offset_found_def norm_OffsetFetchResp_def r pr m(1))
qed

interpretation on_bytes_commit: commit_session "wire_network lib pconf depth spare k i" "\<lambda>e. part_log (cl_server e)"
  cluster_stored "\<lambda>e. running host port e \<and> 58 \<notin> set host" "\<lambda>c e. c \<in> set (cl_open e)" "host_port host port" server_node
  "\<lambda>cf. wf_string (bc_ClientID cf) \<and> speaks_V0 k" "\<lambda>x. wf_string x \<and> speaks_V0 k"
  for lib pconf depth spare k i host port
proof (unfold_locales, goal_cases)
  case (1 e n)
  then show ?case using on_bytes.perm_up by blast
next
  case (2 e)
  then show ?case by (intro succeeds_mono[OF on_bytes.dials]) auto
next
  case (3 e c)
  then show ?case using on_bytes.close_up by blast
next
  case (4 e c b)
  then show ?case by (intro on_bytes.names_leaders) simp_all
next
  case (5 e c b grp)
  then show ?case by (intro coordinator_named) simp_all
next
  case (6 e c b grp t meta p off now)
  then show ?case by (intro succeeds_mono[OF offset_kept]) auto
next
  case (7 e c grp t p)
  then show ?case by (intro offset_read) simp_all
qed

section \<open>Properties\<close>

text \<open>
  C15.  Committing and resuming over bytes: against a test server that \<open>MustSpawn\<close> has started, a program dials, opens an
  offset coordinator and commits an offset with metadata; another one, after it, dials, opens a coordinator of the same
  consumer group and asks for the offset.  Every call returns without an error, and the second program gets the offset
  and the metadata that the first has committed.
\<close>

lemma commit_resumes:
  assumes "MustSpawn (Inr (host_port host port)) s0 = Ok (cl_server e)" "ln s0 = None" "brokers s0 = []"
    and "58 \<notin> set host" "91 \<notin> set host" "93 \<notin> set host" "wf_string host"
    and "server_ok s0" "modest_server s0" "events s0 < events_capacity" "speaks_V0 k"
    and "wf_string (bc_ClientID cf)" "\<not> useTLS cf" "0 < bc_DialRetryLimit cf" "0 < bc_LeaderRetryLimit cf"
    and "wf_string (bc_ClientID cf')" "\<not> useTLS cf'" "0 < bc_DialRetryLimit cf'" "0 < bc_LeaderRetryLimit cf'"
    and "occ_ConsumerGroup oc' = occ_ConsumerGroup oc" "0 < occ_RetryErrLimit oc" "0 < occ_RetryErrLimit oc'"
    and "wf_string (occ_ConsumerGroup oc)" "wf_string t" "wf_string meta"
    and "N = wire_network lib pconf depth spare k i" "addr = host_port host port"
  shows "succeeds (Dial N [addr] cf e) (\<lambda>b e1. succeeds (Broker_OffsetCoordinator N oc (b, e1)) (\<lambda>c w1.
    succeeds (CommitFull N interleave now t p off meta (c, w1)) (\<lambda>err s. err = None \<and>
    succeeds (Dial N [addr] cf' (snd (snd s))) (\<lambda>b' e2. succeeds (Broker_OffsetCoordinator N oc' (b', e2)) (\<lambda>c' w2.
    succeeds (coordinator_Offset N interleave' t p (c', w2)) (\<lambda>x s'. x = (off, meta)))))))"
proof -
  have s: "cl_server e = started host port s0" using MustSpawn_started[OF assms(2-6), of port] assms(1) by simp
  show ?thesis
    unfolding assms(26,27)
    by (rule on_bytes_commit.resume_returns) (use assms running_started[OF s assms(7-10)] in simp_all)
qed

lemma commit_resumes_witness:
  "\<exists>b e1 c w1 s b' e2 c' w2 s'.
     Dial example_net [host_port (str ''a'') 9] (NewBrokerConf (str ''me'')) example_started = (Ok b, e1) \<and>
     Broker_OffsetCoordinator example_net (NewOffsetCoordinatorConf (str ''g'')) (b, e1) = (Ok c, w1) \<and>
     CommitFull example_net id (\<lambda>_. ZeroTime) (str ''t'') 0 1 (str ''x'') (c, w1) = (Ok None, s) \<and>
     Dial example_net [host_port (str ''a'') 9] (NewBrokerConf (str ''you'')) (snd (snd s)) = (Ok b', e2) \<and>
     Broker_OffsetCoordinator example_net (NewOffsetCoordinatorConf (str ''g'')) (b', e2) = (Ok c', w2) \<and>
     coordinator_Offset example_net id (str ''t'') 0 (c', w2) = (Ok (1, str ''x''), s')"
proof -
  let ?cf = "NewBrokerConf (str ''me'')" and ?cf' = "NewBrokerConf (str ''you'')" and ?oc = "NewOffsetCoordinatorConf (str ''g'')"
  have server: "server_ok example_stopped" "modest_server example_stopped" "events example_stopped < events_capacity"
    by (rule example_stopped_ok)+
  have "succeeds (Dial example_net [host_port (str ''a'') 9] ?cf example_started) (\<lambda>b e1.
    succeeds (Broker_OffsetCoordinator example_net ?oc (b, e1)) (\<lambda>c w1.
    succeeds (CommitFull example_net id (\<lambda>_. ZeroTime) (str ''t'') 0 1 (str ''x'') (c, w1)) (\<lambda>err s. err = None \<and>
    succeeds (Dial example_net [host_port (str ''a'') 9] ?cf' (snd (snd s))) (\<lambda>b' e2.
    succeeds (Broker_OffsetCoordinator example_net ?oc (b', e2)) (\<lambda>c' w2.
    succeeds (coordinator_Offset example_net id (str ''t'') 0 (c', w2)) (\<lambda>x s'. x = (1, str ''x'')))))))"
    by (rule commit_resumes[OF example_spawned _ _ _ _ _ _ server new_speaks_V0 _ _ _ _ _ _ _ _ _ _ _ _ _ _ example_net_def refl])
      (simp_all add: example_stopped_def example_server_def NewServer_def str_def wf_string_def NewBrokerConf_def useTLS_def
        NewOffsetCoordinatorConf_def)
  then show ?thesis by (auto simp: succeeds_def)
qed

end
