(* ===== verification/Serving.thy ===== *)
theory Serving
  imports TestServer Steps
begin

text \<open>
  The test server of \<open>v2/kafkatest/server.go\<close> with all its clients: the accept loop of \<open>Run\<close> and \<open>MustSpawn\<close>, which
  starts a goroutine \<open>handleClient\<close> per connection, the interleaving of these goroutines with each other and with the
  test, and \<open>ServeHTTP\<close>, the page that shows the logs.

  A goroutine touches the server in its handlers, under the mutex, and at the channel \<open>events\<close>.  A handler is
  one step, but for the two operations on the channel: a fetch that found nothing waits for a token with the mutex
  released, and a produce request keeps the mutex while the channel is full.
\<close>

section \<open>The state page\<close>

text \<open>The value that \<open>ServeHTTP\<close> hands to the JSON encoder; the name of a partition is its number in decimal.\<close>

record state_page =
  sp_topics :: "gostring \<rightharpoonup> gostring \<rightharpoonup> Message list"
  sp_brokers :: "MetadataRespBroker list"

definition page_parts :: "(int32 \<times> Message list) list \<Rightarrow> gostring \<rightharpoonup> Message list" where
  "page_parts parts = foldl (\<lambda>m (part, messages). m(itoa (sint part) \<mapsto> messages)) (\<lambda>_. None) parts"

definition page_topics ::
  "(gostring \<times> (int32 \<times> Message list) list) list \<Rightarrow> gostring \<rightharpoonup> gostring \<rightharpoonup> Message list"
where
  "page_topics ts = foldl (\<lambda>m (name, parts). m(name \<mapsto> page_parts parts)) (\<lambda>_. None) ts"

text \<open>
  \<open>order\<close> and \<open>part_order\<close> are the orders in which the two maps are visited; \<open>encode\<close> is the JSON encoder
  with the connection of the request, and its error is only logged.
\<close>

definition ServeHTTP :: "nat list \<Rightarrow> (gostring \<Rightarrow> nat list) \<Rightarrow> (state_page \<Rightarrow> 'w \<Rightarrow> goerror \<times> 'w) \<Rightarrow> Server \<Rightarrow> 'w \<Rightarrow> 'w" where
  "ServeHTTP order part_order encode s w =
     (let ts = map (\<lambda>(name, parts). (name, in_order (part_order name) parts)) (in_order order (topics s))
      in snd (encode \<lparr>sp_topics = page_topics ts, sp_brokers = brokers s\<rparr> w))"

section \<open>Clients\<close>

text \<open>
  Where a goroutine \<open>handleClient\<close> is: before \<open>ReadReq\<close>, at the \<open>select\<close> of \<open>handleFetchRequest\<close>, behind it, at the send
  of \<open>handleProduceRequest\<close>, returned, or panicked.
\<close>

datatype goroutine =
    Reading reader
  | Waiting FetchReq reader
  | Refetching FetchReq reader
  | Sending ProduceResp reader
  | Ended
  | Panicked

record client =
  gr_at :: goroutine
  gr_written :: "byte list"

definition is_Sending :: "client \<Rightarrow> bool" where
  "is_Sending c \<longleftrightarrow> (case gr_at c of Sending _ _ \<Rightarrow> True | _ \<Rightarrow> False)"

text \<open>The end of a round: the response is written, \<open>ok\<close> telling whether the write succeeds.\<close>

definition conclude :: "bool \<Rightarrow> byte list res reply \<Rightarrow> reader \<Rightarrow> byte list \<Rightarrow> client" where
  "conclude ok x r w =
     (case x of
        Reply (Ok out) \<Rightarrow> if ok then \<lparr>gr_at = Reading r, gr_written = w @ out\<rparr> else \<lparr>gr_at = Ended, gr_written = w\<rparr>
      | Reply (Err err) \<Rightarrow> if ok then \<lparr>gr_at = Reading r, gr_written = w\<rparr> else \<lparr>gr_at = Ended, gr_written = w\<rparr>
      | NoReply \<Rightarrow> \<lparr>gr_at = Ended, gr_written = w\<rparr>
      | _ \<Rightarrow> \<lparr>gr_at = Panicked, gr_written = w\<rparr>)"

text \<open>A request that is parsed goes to a handler, and every handler takes the mutex.\<close>

definition read_ok :: "'a res \<Rightarrow> bool" where
  "read_ok x \<longleftrightarrow> (case x of Ok _ \<Rightarrow> True | _ \<Rightarrow> False)"

definition parses :: "server_env \<Rightarrow> int16 \<Rightarrow> byte list \<Rightarrow> bool" where
  "parses E kind b =
     (if kind = ProduceReqKind then read_ok (ReadProduceReq (se_lib E) (se_conf E) (se_depth E) (NewReader b))
      else if kind = FetchReqKind then read_ok (ReadFetchReq (NewReader b))
      else if kind = OffsetReqKind then read_ok (ReadOffsetReq (NewReader b))
      else if kind = MetadataReqKind then read_ok (ReadMetadataReq (NewReader b))
      else if kind = OffsetCommitReqKind then read_ok (ReadOffsetCommitReq (NewReader b))
      else if kind = OffsetFetchReqKind then read_ok (ReadOffsetFetchReq (NewReader b))
      else if kind = ConsumerMetadataReqKind then read_ok (ReadConsumerMetadataReq (NewReader b))
      else if kind = APIVersionsReqKind then read_ok (ReadAPIVersionsReq (NewReader b))
      else False)"

definition takes_lock :: "server_env \<Rightarrow> middleware list \<Rightarrow> int16 \<Rightarrow> byte list \<Rightarrow> bool" where
  "takes_lock E mws kind b \<longleftrightarrow> first_response mws server_node kind b = None \<and> parses E kind b"

text \<open>A fetch request whose first \<open>fetchRequest\<close> finds no message, and the response that a produce request is about to send.\<close>

definition fetch_waits :: "middleware list \<Rightarrow> int16 \<Rightarrow> byte list \<Rightarrow> Server \<Rightarrow> FetchReq option" where
  "fetch_waits mws kind b s =
     (if first_response mws server_node kind b = None \<and> kind = FetchReqKind
      then case ReadFetchReq (NewReader b) of
             Ok q \<Rightarrow> (case fetchRequest q s of Ok (resp, n) \<Rightarrow> if n = 0 then Some q else None | _ \<Rightarrow> None)
           | _ \<Rightarrow> None
      else None)"

definition produce_resp :: "ProduceReq \<Rightarrow> Server \<Rightarrow> ProduceResp" where
  "produce_resp q s = zero_ProduceResp\<lparr>pr_CorrelationID := correlationID q,
     pr_Topics := fst (map_state produce_topic (pq_Topics q) s)\<rparr>"

definition refetch :: "codecs \<Rightarrow> FetchReq \<Rightarrow> Server \<Rightarrow> byte list res reply" where
  "refetch lib q s = (case as_reply (fetchRequest q s) of Reply resp \<Rightarrow> Reply (FetchResp_Bytes lib resp) | _ \<Rightarrow> Panics)"

text \<open>The steps of one goroutine; \<open>l\<close> tells whether another one holds the mutex.\<close>

inductive client_step :: "server_env \<Rightarrow> middleware list \<Rightarrow> bool \<Rightarrow> client \<times> Server \<Rightarrow> client \<times> Server \<Rightarrow> bool"
  for E mws l
where
  closes: "ReadReq r = (Err err, r') \<Longrightarrow>
    client_step E mws l (\<lparr>gr_at = Reading r, gr_written = w\<rparr>, s) (\<lparr>gr_at = Ended, gr_written = w\<rparr>, s)"
| crashes: "ReadReq r = (Panic, r') \<Longrightarrow>
    client_step E mws l (\<lparr>gr_at = Reading r, gr_written = w\<rparr>, s) (\<lparr>gr_at = Panicked, gr_written = w\<rparr>, s)"
| answers: "ReadReq r = (Ok (kind, b), r') \<Longrightarrow> \<not> (l \<and> takes_lock E mws kind b) \<Longrightarrow> fetch_waits mws kind b s = None \<Longrightarrow>
    respond E mws server_node kind b s = (x, s') \<Longrightarrow> x \<noteq> Blocks \<Longrightarrow>
    client_step E mws l (\<lparr>gr_at = Reading r, gr_written = w\<rparr>, s) (conclude ok x r' w, s')"
| waits: "ReadReq r = (Ok (kind, b), r') \<Longrightarrow> \<not> l \<Longrightarrow> fetch_waits mws kind b s = Some q \<Longrightarrow>
    client_step E mws l (\<lparr>gr_at = Reading r, gr_written = w\<rparr>, s) (\<lparr>gr_at = Waiting q r', gr_written = w\<rparr>, s)"
| token: "0 < events s \<Longrightarrow>
    client_step E mws l (\<lparr>gr_at = Waiting q r, gr_written = w\<rparr>, s)
      (\<lparr>gr_at = Refetching q r, gr_written = w\<rparr>, s\<lparr>events := events s - 1\<rparr>)"
| timeout: "client_step E mws l (\<lparr>gr_at = Waiting q r, gr_written = w\<rparr>, s) (\<lparr>gr_at = Refetching q r, gr_written = w\<rparr>, s)"
| refetches: "\<not> l \<Longrightarrow>
    client_step E mws l (\<lparr>gr_at = Refetching q r, gr_written = w\<rparr>, s) (conclude ok (refetch (se_lib E) q s) r w, s)"
| blocks: "ReadReq r = (Ok (ProduceReqKind, b), r') \<Longrightarrow> \<not> l \<Longrightarrow> first_response mws server_node ProduceReqKind b = None \<Longrightarrow>
    ReadProduceReq (se_lib E) (se_conf E) (se_depth E) (NewReader b) = Ok q \<Longrightarrow> handleProduceRequest q s = (Blocks, s') \<Longrightarrow>
    client_step E mws l (\<lparr>gr_at = Reading r, gr_written = w\<rparr>, s) (\<lparr>gr_at = Sending (produce_resp q s) r', gr_written = w\<rparr>, s')"
| sends: "events s < events_capacity \<Longrightarrow>
    client_step E mws l (\<lparr>gr_at = Sending resp r, gr_written = w\<rparr>, s)
      (conclude ok (Reply (ProduceResp_Bytes resp)) r w, s\<lparr>events := events s + 1\<rparr>)"

section \<open>The server and its clients\<close>

record serving =
  sv_server :: Server
  sv_clients :: "client list"

definition alive :: "serving \<Rightarrow> bool" where
  "alive v \<longleftrightarrow> (\<forall>c \<in> set (sv_clients v). gr_at c \<noteq> Panicked)"

definition locked_by_other :: "nat \<Rightarrow> serving \<Rightarrow> bool" where
  "locked_by_other i v \<longleftrightarrow> (\<exists>j < length (sv_clients v). j \<noteq> i \<and> is_Sending (sv_clients v ! j))"

text \<open>
  The accept loop adds a goroutine for every connection, on which the client sends what it likes, and does
  nothing when \<open>Accept\<close> fails, which it does for ever once the listener is closed.
\<close>

inductive serve_step :: "server_env \<Rightarrow> middleware list \<Rightarrow> serving \<Rightarrow> serving \<Rightarrow> bool" for E mws where
  accepts: "alive v \<Longrightarrow> ln (sv_server v) \<noteq> None \<Longrightarrow>
    serve_step E mws v (v\<lparr>sv_clients := sv_clients v @ [\<lparr>gr_at = Reading r, gr_written = []\<rparr>]\<rparr>)"
| accept_fails: "alive v \<Longrightarrow> serve_step E mws v v"
| serves: "alive v \<Longrightarrow> i < length (sv_clients v) \<Longrightarrow>
    client_step E mws (locked_by_other i v) (sv_clients v ! i, sv_server v) (c, s) \<Longrightarrow>
    serve_step E mws v (v\<lparr>sv_server := s, sv_clients := (sv_clients v)[i := c]\<rparr>)"

text \<open>What the test does meanwhile, each operation under the mutex.\<close>

inductive test_step :: "serving \<Rightarrow> serving \<Rightarrow> bool" where
  adds: "\<not> (\<exists>c \<in> set (sv_clients v). is_Sending c) \<Longrightarrow> AddMessages topic part ms (sv_server v) = Ok s \<Longrightarrow>
    test_step v (v\<lparr>sv_server := s\<rparr>)"
| resets: "\<not> (\<exists>c \<in> set (sv_clients v). is_Sending c) \<Longrightarrow> test_step v (v\<lparr>sv_server := Reset (sv_server v)\<rparr>)"
| shuts: "\<not> (\<exists>c \<in> set (sv_clients v). is_Sending c) \<Longrightarrow> test_step v (v\<lparr>sv_server := Server_Close (sv_server v)\<rparr>)"

section \<open>What the page shows\<close>

lemma foldl_upd:
  assumes "distinct (map f xs)"
  shows "foldl (\<lambda>m x. m(f x \<mapsto> g x)) (\<lambda>_. None) xs k = Some v \<longleftrightarrow> (\<exists>x \<in> set xs. f x = k \<and> g x = v)"
proof -
  have "foldl (\<lambda>m x. m(f x \<mapsto> g x)) m xs = m ++ map_of (rev (map (\<lambda>x. (f x, g x)) xs))" for m
    by (induction xs arbitrary: m) simp_all
  moreover have "distinct (map fst (rev (map (\<lambda>x. (f x, g x)) xs)))"
    using assms by (simp flip: rev_map add: comp_def)
  ultimately show ?thesis by (auto simp: map_of_eq_Some_iff)
qed

lemma page_parts_iff:
  assumes "distinct (map fst parts)"
  shows "page_parts parts k = Some ms \<longleftrightarrow> (\<exists>p. k = itoa (sint p) \<and> (p, ms) \<in> set parts)"
proof -
  have "inj (\<lambda>p :: int32. itoa (sint p))" by (auto intro!: injI dest!: itoa_inject intro: signed_word_eqI)
  then have "distinct (map (\<lambda>p. itoa (sint p)) (map fst parts))"
    using assms by (simp only: distinct_map[of _ "map fst parts"]) (auto intro: inj_on_subset)
  then have "distinct (map (\<lambda>x. itoa (sint (fst x))) parts)" by (simp add: comp_def)
  from foldl_upd[OF this, of snd k ms] show ?thesis by (force simp: page_parts_def case_prod_unfold)
qed

lemma page_topics_iff:
  assumes "distinct (map fst ts)"
  shows "page_topics ts k = Some m \<longleftrightarrow> (\<exists>parts. (k, parts) \<in> set ts \<and> page_parts parts = m)"
  using foldl_upd[of fst ts "\<lambda>x. page_parts (snd x)" k m] assms
  by (force simp: page_topics_def case_prod_unfold)

text \<open>The page has an entry for exactly the partitions that exist, with the messages of their logs.\<close>

lemma page_shows_logs:
  assumes "server_ok s" "\<And>page w. encode page w = (None, page)"
  shows "Option.bind (sp_topics (ServeHTTP order part_order encode s w) t) (\<lambda>m. m k) = Some ms \<longleftrightarrow>
    (\<exists>p. k = itoa (sint p) \<and> part_log s t p = Some ms)"
proof -
  let ?ts = "map (\<lambda>(name, parts). (name, in_order (part_order name) parts)) (in_order order (topics s))"
  have d: "distinct (map fst (topics s))" "distinct (map fst parts)" if "(n, parts) \<in> set (topics s)" for n parts
    using assms(1) that by (auto simp: server_ok_def parts_ok_def)
  have "distinct (map fst (topics s))" using assms(1) by (simp add: server_ok_def)
  then have "distinct (map fst ?ts)" by (simp add: comp_def case_prod_unfold distinct_in_order)
  from page_topics_iff[OF this] have
    "Option.bind (page_topics ?ts t) (\<lambda>m. m k) = Some ms \<longleftrightarrow>
      (\<exists>parts. (t, parts) \<in> set (topics s) \<and> page_parts (in_order (part_order t) parts) k = Some ms)"
    by (force simp: bind_eq_Some_conv)
  also have "\<dots> \<longleftrightarrow> (\<exists>parts. (t, parts) \<in> set (topics s) \<and> (\<exists>p. k = itoa (sint p) \<and> (p, ms) \<in> set parts))"
    using page_parts_iff[OF distinct_in_order] d(2) by fastforce
  also have "\<dots> \<longleftrightarrow> (\<exists>p. k = itoa (sint p) \<and> part_log s t p = Some ms)"
    using d \<open>distinct (map fst (topics s))\<close>
    by (fastforce simp: part_log_def bind_eq_Some_conv map_of_eq_Some_iff)
  finally show ?thesis by (simp add: ServeHTTP_def assms(2) Let_def)
qed

section \<open>What a client does to the logs\<close>

text \<open>Whatever is in a log stays there, at its position.\<close>

definition logs_kept :: "Server \<Rightarrow> Server \<Rightarrow> bool" where
  "logs_kept s s' \<longleftrightarrow> (\<forall>t p ms. part_log s t p = Some ms \<longrightarrow> (\<exists>new. part_log s' t p = Some (ms @ new)))"

lemma logs_kept_refl [simp]: "logs_kept s s"
  by (simp add: logs_kept_def)

lemma logs_kept_trans: "logs_kept s s1 \<Longrightarrow> logs_kept s1 s2 \<Longrightarrow> logs_kept s s2"
  unfolding logs_kept_def by (metis append_assoc)

lemma logs_kept_topics: "topics s' = topics s \<Longrightarrow> logs_kept s s'"
  by (simp add: logs_kept_def part_log_def)

lemma logs_kept_produce: "logs_kept s (snd (handleProduceRequest q s))"
  by (auto simp: logs_kept_def part_log_handleProduce extend_log_def Let_def)

lemma logs_kept_metadata: "logs_kept s (snd (handleMetadataRequest nid order q s))"
proof -
  have "logs_kept v (snd (named_topic name v))" for name v
    by (auto simp: logs_kept_def named_topic_def part_log_def map_of_put split: option.split)
  then have "logs_kept s (snd (map_state named_topic (mq_Topics q) s))"
    by (intro map_state_keeps[where P = "logs_kept s"]) (auto intro: logs_kept_trans)
  then show ?thesis by (auto simp: handleMetadataRequest_def split_beta Let_def split: option.split)
qed

text \<open>A handler keeps a server in order, and its logs.\<close>

definition keeps :: "(Server \<Rightarrow> 'r reply \<times> Server) \<Rightarrow> bool" where
  "keeps h \<longleftrightarrow> (\<forall>s. server_ok s \<longrightarrow> server_ok (snd (h s)) \<and> logs_kept s (snd (h s)))"

lemma keeps_same: "(\<And>s. topics (snd (h s)) = topics s \<and> events (snd (h s)) = events s) \<Longrightarrow> keeps h"
  unfolding keeps_def by (metis server_ok_cong logs_kept_topics)

lemma keeps_answer: "(\<And>q. keeps (h q)) \<Longrightarrow> keeps (answer read h Bytes b)"
  by (auto simp: keeps_def answer_def split: outcome.split reply.split prod.split) (metis snd_conv)+

lemma keeps_if: "keeps f \<Longrightarrow> keeps g \<Longrightarrow> keeps (\<lambda>s. if c then f s else g s)"
  by (simp add: keeps_def)

lemma keeps_handlers:
  "keeps (handleProduceRequest q0)" "keeps (handleOffsetRequest q2)" "keeps (handleMetadataRequest nid order q3)"
  "keeps (handleConsumerMetadataRequest q10)" "keeps (handleAPIVersionsRequest q18)" "keeps (\<lambda>s. (x, s))"
  by (simp_all add: keeps_def handleProduce_ok logs_kept_produce handleMetadata_ok logs_kept_metadata
      handleOffsetRequest_def handleConsumerMetadataRequest_def handleAPIVersionsRequest_def split: option.split list.split)

lemmas keeps_offsets = keeps_same[OF handleOffsetFetch_same] keeps_same[OF handleOffsetCommit_same]

lemma keeps_fetch:
  assumes "keeps (\<lambda>s. (NoReply :: FetchResp reply, meanwhile s))"
  shows "keeps (handleFetchRequest meanwhile q)"
  unfolding keeps_def
proof (intro allI impI)
  fix s assume "server_ok s"
  then have "server_ok (await_event meanwhile s) \<and> logs_kept s (await_event meanwhile s)"
    using assms by (auto simp: keeps_def await_event_def server_ok_def logs_kept_topics)
  with \<open>server_ok s\<close> show "server_ok (snd (handleFetchRequest meanwhile q s)) \<and> logs_kept s (snd (handleFetchRequest meanwhile q s))"
    by (simp add: handleFetchRequest_def Let_def split: outcome.split)
qed

lemma keeps_respond:
  assumes "keeps (\<lambda>s. (NoReply :: FetchResp reply, se_meanwhile E s))"
  shows "keeps (respond E mws nid kind b)"
proof -
  have "keeps (default_handler E nid kind b)"
    unfolding default_handler_def[abs_def] by (intro keeps_if keeps_answer keeps_handlers keeps_offsets keeps_fetch assms)
  then show ?thesis by (simp add: respond_def keeps_def split: option.split)
qed

text \<open>A request that does not wait is answered without regard to what others do meanwhile.\<close>

lemma respond_no_wait:
  assumes "fetch_waits mws kind b s = None"
  shows "respond E mws server_node kind b s = respond (E\<lparr>se_meanwhile := \<lambda>s. s\<rparr>) mws server_node kind b s"
  using assms
  by (auto simp: respond_def fetch_waits_def default_handler_def answer_def handleFetchRequest_def
      split: option.splits outcome.splits if_splits)

lemma client_step_keeps:
  assumes "client_step E mws l (c, s) (c', s')" "server_ok s"
  shows "server_ok s' \<and> logs_kept s s'"
  using assms
proof (cases rule: client_step.cases)
  case (answers r kind b r' x w ok)
  have "keeps (respond (E\<lparr>se_meanwhile := \<lambda>s. s\<rparr>) mws server_node kind b)"
    by (rule keeps_respond) (simp add: keeps_handlers)
  with answers(6) respond_no_wait[OF answers(5)] assms(2) show ?thesis by (metis keeps_def snd_conv)
next
  case (blocks r b r' q w)
  with keeps_handlers(1)[of q] assms(2) show ?thesis by (metis keeps_def snd_conv)
qed (auto simp: server_ok_def logs_kept_topics)

section \<open>The invariant of the interleaving\<close>

text \<open>At most one goroutine is inside the critical section of a produce request.\<close>

definition one_holder :: "serving \<Rightarrow> bool" where
  "one_holder v \<longleftrightarrow> (\<forall>i < length (sv_clients v). is_Sending (sv_clients v ! i) \<longrightarrow> \<not> locked_by_other i v)"

definition serving_ok :: "serving \<Rightarrow> bool" where
  "serving_ok v \<longleftrightarrow> server_ok (sv_server v) \<and> one_holder v"

definition system_step :: "server_env \<Rightarrow> middleware list \<Rightarrow> serving \<Rightarrow> serving \<Rightarrow> bool" where
  "system_step E mws v v' \<longleftrightarrow> serve_step E mws v v' \<or> test_step v v'"

definition starts_with :: "Server \<Rightarrow> serving \<Rightarrow> bool" where
  "starts_with s v \<longleftrightarrow> v = \<lparr>sv_server = s, sv_clients = []\<rparr>"

lemma conclude_not_Sending [simp]: "\<not> is_Sending (conclude ok x r w)"
  by (simp add: conclude_def is_Sending_def split: reply.split outcome.split)

lemma is_Sending_simps [simp]:
  "is_Sending \<lparr>gr_at = Sending resp r, gr_written = w\<rparr>" "\<not> is_Sending \<lparr>gr_at = Reading r, gr_written = w\<rparr>"
  "\<not> is_Sending \<lparr>gr_at = Waiting q r, gr_written = w\<rparr>" "\<not> is_Sending \<lparr>gr_at = Refetching q r, gr_written = w\<rparr>"
  "\<not> is_Sending \<lparr>gr_at = Ended, gr_written = w\<rparr>" "\<not> is_Sending \<lparr>gr_at = Panicked, gr_written = w\<rparr>"
  by (simp_all add: is_Sending_def)

lemma takes_the_lock:
  assumes "client_step E mws l (c, s) (c', s')" "is_Sending c'"
  shows "\<not> l"
  using assms by (cases rule: client_step.cases) auto

lemma serve_step_ok:
  assumes "serve_step E mws v v'" "serving_ok v"
  shows "serving_ok v' \<and> logs_kept (sv_server v) (sv_server v')"
  using assms
proof (cases rule: serve_step.cases)
  case (accepts r)
  then show ?thesis
    using assms(2) by (auto simp: serving_ok_def one_holder_def locked_by_other_def nth_append)
next
  case (serves i c s)
  have "one_holder v'"
    using assms(2) serves(3) takes_the_lock[OF serves(4)]
    by (auto simp: serving_ok_def one_holder_def locked_by_other_def serves(1) nth_list_update split: if_splits)
  with client_step_keeps[OF serves(4)] assms(2) serves(1) show ?thesis by (simp add: serving_ok_def)
qed (use assms(2) in simp)

lemma test_step_ok:
  assumes "test_step v v'" "serving_ok v"
  shows "serving_ok v'"
  using assms AddMessages_ok[of "sv_server v"]
  by (cases rule: test_step.cases) (auto simp: serving_ok_def one_holder_def locked_by_other_def)

lemma starts_ok: "starts_with s v \<Longrightarrow> server_ok s \<Longrightarrow> serving_ok v"
  by (simp add: starts_with_def serving_ok_def one_holder_def)

interpretation serving_invariant: invariant "starts_with s" "system_step E mws"
  "\<lambda>v. server_ok s \<longrightarrow> serving_ok v" for s E mws
  by unfold_locales (auto simp: system_step_def dest: starts_ok serve_step_ok test_step_ok)

lemma serve_steps_ok:
  assumes "(serve_step E mws)\<^sup>*\<^sup>* v v'" "serving_ok v"
  shows "serving_ok v' \<and> logs_kept (sv_server v) (sv_server v')"
  using assms by (induction rule: rtranclp_induct) (auto dest: serve_step_ok intro: logs_kept_trans)

section \<open>A client on its own\<close>

text \<open>With no other client, the steps of a goroutine are the rounds of \<open>handleClient\<close>.\<close>

lemma Waiting_runs:
  "(client_step E mws False)\<^sup>*\<^sup>* (\<lparr>gr_at = Waiting q r, gr_written = w\<rparr>, s)
     (conclude ok (refetch (se_lib E) q (await_event (\<lambda>s. s) s)) r w, await_event (\<lambda>s. s) s)"
proof -
  have "client_step E mws False (\<lparr>gr_at = Waiting q r, gr_written = w\<rparr>, s)
      (\<lparr>gr_at = Refetching q r, gr_written = w\<rparr>, await_event (\<lambda>s. s) s)"
    using client_step.token[of s] client_step.timeout by (simp add: await_event_def)
  moreover have "client_step E mws False (\<lparr>gr_at = Refetching q r, gr_written = w\<rparr>, await_event (\<lambda>s. s) s)
      (conclude ok (refetch (se_lib E) q (await_event (\<lambda>s. s) s)) r w, await_event (\<lambda>s. s) s)"
    by (rule client_step.refetches) simp
  ultimately show ?thesis by (meson converse_rtranclp_into_rtranclp r_into_rtranclp)
qed

lemma round_runs:
  assumes "ReadReq r = (Ok (kind, b), r')" "respond E mws server_node kind b s = (x, s')" "x \<noteq> Blocks"
    and "se_meanwhile E = (\<lambda>s. s)"
  shows "(client_step E mws False)\<^sup>*\<^sup>* (\<lparr>gr_at = Reading r, gr_written = w\<rparr>, s) (conclude ok x r' w, s')"
proof (cases "fetch_waits mws kind b s")
  case None
  from client_step.answers[OF assms(1) _ None assms(2,3)] show ?thesis by blast
next
  case (Some q)
  then have "x = refetch (se_lib E) q (await_event (\<lambda>s. s) s)" "s' = await_event (\<lambda>s. s) s"
    using assms(2,4)
    by (auto simp: fetch_waits_def respond_def default_handler_def kind_defs answer_def handleFetchRequest_def refetch_def
        Let_def as_reply_def split: if_splits outcome.splits reply.splits)
  with converse_rtranclp_into_rtranclp[of "client_step E mws False", OF client_step.waits[OF assms(1) _ Some] Waiting_runs]
  show ?thesis by blast
qed

lemma round_blocks:
  assumes "ReadReq r = (Ok (kind, b), r')" "respond E mws server_node kind b s = (Blocks, s')"
  shows "\<exists>resp. client_step E mws False (\<lparr>gr_at = Reading r, gr_written = w\<rparr>, s)
    (\<lparr>gr_at = Sending resp r', gr_written = w\<rparr>, s')"
proof -
  have "first_response mws server_node kind b = None \<and> kind = ProduceReqKind \<and>
    (\<exists>q. ReadProduceReq (se_lib E) (se_conf E) (se_depth E) (NewReader b) = Ok q \<and> handleProduceRequest q s = (Blocks, s'))"
    using assms(2)
    by (auto simp: respond_def default_handler_def answer_def handleFetchRequest_def as_reply_def Let_def
        handleOffsetRequest_def handleMetadataRequest_def handleOffsetCommitRequest_def handleOffsetFetchRequest_def
        handleConsumerMetadataRequest_def handleAPIVersionsRequest_def
        split: option.splits if_splits outcome.splits reply.splits prod.splits list.splits)
  with client_step.blocks[of r b r' False mws E _ s s' w] assms(1) show ?thesis by blast
qed

lemma ReadReq_returns: "fst (ReadReq r) \<noteq> NoFuel"
  by (auto simp: ReadReq_def put_at_def Let_def split: prod.split option.split sum.split)

text \<open>Where the loop is, in terms of the goroutine.\<close>

primrec located :: "client_end \<Rightarrow> goroutine \<Rightarrow> bool" where
  "located Serving g \<longleftrightarrow> (\<exists>r. g = Reading r)"
| "located Returned g \<longleftrightarrow> g = Ended"
| "located Blocked g \<longleftrightarrow> (\<exists>resp r. g = Sending resp r)"
| "located Crashed g \<longleftrightarrow> g = Panicked"

lemma handleClient_runs:
  assumes "se_meanwhile E = (\<lambda>s. s)" "handleClient E mws server_node ok n r s = (out, at, s')"
  shows "\<exists>c. (client_step E mws False)\<^sup>*\<^sup>* (\<lparr>gr_at = Reading r, gr_written = w\<rparr>, s) (c, s') \<and>
    gr_written c = w @ out \<and> located at (gr_at c)"
  using assms(2)
proof (induction n arbitrary: r s out w)
  case (Suc n)
  obtain x r' where read: "ReadReq r = (x, r')" by fastforce
  show ?case
  proof (cases x)
    case (Ok kb)
    then obtain kind b where kb: "ReadReq r = (Ok (kind, b), r')" using read by (cases kb) simp
    obtain y s1 where y: "respond E mws server_node kind b s = (y, s1)" by fastforce
    show ?thesis
    proof (cases "y = Blocks")
      case True
      then show ?thesis using round_blocks[OF kb] y Suc.prems kb by fastforce
    next
      case False
      note nb = False and run = round_runs[OF kb y False assms(1), of w "ok n"]
      show ?thesis
      proof (cases "\<exists>r1 w1. conclude (ok n) y r' w = \<lparr>gr_at = Reading r1, gr_written = w1\<rparr>")
        case True
        then obtain w1 out1 where c: "conclude (ok n) y r' w = \<lparr>gr_at = Reading r', gr_written = w1\<rparr>"
          and out: "handleClient E mws server_node ok n r' s1 = (out1, at, s')" "w1 @ out1 = w @ out"
          using Suc.prems kb y
          by (auto simp: conclude_def Let_def split: reply.splits outcome.splits if_splits prod.splits)
        from Suc.IH[OF out(1), of w1] run c out(2) show ?thesis by (metis rtranclp_trans)
      next
        case False
        then show ?thesis
          using Suc.prems kb y run nb
          by (auto simp: conclude_def Let_def split: reply.splits outcome.splits if_splits prod.splits)
      qed
    qed
  next
    case (Err err)
    with read Suc.prems show ?thesis by (auto intro!: exI r_into_rtranclp client_step.closes)
  next
    case Panic
    with read Suc.prems show ?thesis by (auto intro!: exI r_into_rtranclp client_step.crashes)
  next
    case NoFuel
    with read ReadReq_returns[of r] show ?thesis by simp
  qed
qed auto

section \<open>A full channel\<close>

text \<open>
  A goroutine that sends on the full channel, holding the mutex, while no other waits for a token: no handler runs any
  more, so nobody ever takes a token out.
\<close>

definition jammed :: "serving \<Rightarrow> bool" where
  "jammed v \<longleftrightarrow> events (sv_server v) = events_capacity \<and> (\<exists>c \<in> set (sv_clients v). is_Sending c) \<and>
     (\<forall>c \<in> set (sv_clients v). \<forall>q r. gr_at c \<noteq> Waiting q r)"

lemma answer_unread: "\<not> read_ok (read (NewReader b)) \<Longrightarrow> snd (answer read h Bytes b s) = s"
  by (simp add: read_ok_def answer_def split: outcome.splits)

lemma respond_unlocked:
  assumes "\<not> takes_lock E mws kind b"
  shows "snd (respond E mws server_node kind b s) = s"
proof (cases "first_response mws server_node kind b")
  case None
  with assms have "\<not> parses E kind b" by (simp add: takes_lock_def)
  with None show ?thesis
    by (simp add: respond_def default_handler_def parses_def answer_unread split: if_split_asm)
qed (simp add: respond_def)

lemma conclude_not_Waiting [simp]: "gr_at (conclude ok x r w) \<noteq> Waiting q r'"
  by (simp add: conclude_def split: reply.split outcome.split)

lemma client_step_jammed:
  assumes "client_step E mws l (c, s) (c', s')" "events s = events_capacity" "\<forall>q r. gr_at c \<noteq> Waiting q r"
    and "is_Sending c \<or> l"
  shows "s' = s \<and> is_Sending c = is_Sending c' \<and> (\<forall>q r. gr_at c' \<noteq> Waiting q r)"
  using assms(1)
proof (cases rule: client_step.cases)
  case (answers r kind b r' x w ok)
  with assms(4) have "\<not> takes_lock E mws kind b" by auto
  from respond_unlocked[OF this, of s] answers show ?thesis by simp
qed (use assms(2-4) in auto)

lemma serve_step_jammed:
  assumes "serve_step E mws v v'" "jammed v"
  shows "jammed v' \<and> sv_server v' = sv_server v"
  using assms(1)
proof (cases rule: serve_step.cases)
  case (accepts r)
  then show ?thesis using assms(2) by (auto simp: jammed_def)
next
  case (serves i c s)
  let ?c = "sv_clients v ! i"
  have "?c \<in> set (sv_clients v)" using serves(3) by simp
  moreover obtain d where d: "d \<in> set (sv_clients v)" "is_Sending d" using assms(2) by (auto simp: jammed_def)
  then have "is_Sending ?c \<or> locked_by_other i v" by (auto simp: locked_by_other_def in_set_conv_nth)
  ultimately have same: "s = sv_server v \<and> is_Sending ?c = is_Sending c \<and> (\<forall>q r. gr_at c \<noteq> Waiting q r)"
    using client_step_jammed[OF serves(4)] assms(2) by (simp add: jammed_def)
  have "\<exists>d \<in> set ((sv_clients v)[i := c]). is_Sending d"
    using d same serves(3) by (metis in_set_conv_nth length_list_update nth_list_update nth_mem)
  with same assms(2) set_update_subset_insert[of "sv_clients v" i c] serves(1) show ?thesis
    by (auto simp: jammed_def)
qed (use assms(2) in simp)

lemma serve_steps_jammed:
  assumes "(serve_step E mws)\<^sup>*\<^sup>* v v'" "jammed v"
  shows "jammed v' \<and> sv_server v' = sv_server v"
  using assms by (induction rule: rtranclp_induct) (auto dest: serve_step_jammed)

lemma test_step_jammed: "jammed v \<Longrightarrow> \<not> test_step v v'"
  by (auto simp: jammed_def test_step.simps)

text \<open>One client gets the server there with 1001 produce requests.\<close>

lemma lone_client:
  assumes "(client_step E mws False)\<^sup>*\<^sup>* x y"
  shows "(serve_step E mws)\<^sup>*\<^sup>* \<lparr>sv_server = snd x, sv_clients = [fst x]\<rparr> \<lparr>sv_server = snd y, sv_clients = [fst y]\<rparr>"
  using assms
proof (induction rule: rtranclp_induct)
  case (step y z)
  let ?v = "\<lparr>sv_server = snd y, sv_clients = [fst y]\<rparr>"
  have "alive ?v" using step.hyps(2) by (cases rule: client_step.cases) (simp_all add: alive_def)
  moreover have "client_step E mws (locked_by_other 0 ?v) (sv_clients ?v ! 0, sv_server ?v) (fst z, snd z)"
    using step.hyps(2) by (simp add: locked_by_other_def)
  ultimately have "serve_step E mws ?v (?v\<lparr>sv_server := snd z, sv_clients := (sv_clients ?v)[0 := fst z]\<rparr>)"
    by (intro serve_step.serves) simp_all
  with step.IH show ?case by simp
qed simp

definition empty_produce :: "byte list" where
  "empty_produce = frame (PutUint16 ProduceReqKind @ [0, 0, 0, 0, 0, 0, 0, 0, 0, 0, 0, 0, 0, 0, 0, 0, 0, 0])"

lemma empty_produce_read: "obind (ReadProduceReq example_codecs full_parsing 1 (NewReader empty_produce)) (\<lambda>q. Ok (pq_Topics q)) = Ok []"
  by code_simp

lemma empty_produce_answered:
  assumes "events s < events_capacity"
  shows "\<exists>out. respond example_env [] server_node ProduceReqKind empty_produce s = (Reply (Ok out), s\<lparr>events := events s + 1\<rparr>)"
proof -
  obtain q where q: "ReadProduceReq example_codecs full_parsing 1 (NewReader empty_produce) = Ok q" "pq_Topics q = []"
    using empty_produce_read by (auto simp: obind_eq_Ok_conv)
  have "wf_ProduceResp (produce_resp q s)"
    by (simp add: wf_ProduceResp_def produce_resp_def q(2) zero_ProduceResp_def wf_array_def)
  then obtain out where "ProduceResp_Bytes (produce_resp q s) = Ok out"
    using ProduceResp_round_trip unfolding round_trips_def by blast
  with q assms show ?thesis
    by (simp add: respond_def default_handler_def answer_def example_env_def handleProduceRequest_def produce_resp_def)
qed

lemma empty_produce_blocks:
  assumes "events s = events_capacity"
  shows "respond example_env [] server_node ProduceReqKind empty_produce s = (Blocks, s)"
proof -
  obtain q where "ReadProduceReq example_codecs full_parsing 1 (NewReader empty_produce) = Ok q" "pq_Topics q = []"
    using empty_produce_read by (auto simp: obind_eq_Ok_conv)
  with assms show ?thesis
    by (simp add: respond_def default_handler_def answer_def example_env_def handleProduceRequest_def)
qed

definition produces :: "nat \<Rightarrow> reader" where
  "produces n = \<lparr>rd_bytes = concat (replicate n empty_produce), rd_end = EOF, rd_tee = None\<rparr>"

lemma ReadReq_produces: "ReadReq (produces (Suc n)) = (Ok (ProduceReqKind, empty_produce), produces n)"
  using ReadReq_frame[of "[0, 0, 0, 0, 0, 0, 0, 0, 0, 0, 0, 0, 0, 0, 0, 0, 0, 0]" ProduceReqKind]
  by (simp add: produces_def empty_produce_def)

lemma produces_jam:
  assumes "events s + n = events_capacity"
  shows "\<exists>c. (client_step example_env [] False)\<^sup>*\<^sup>* (\<lparr>gr_at = Reading (produces (Suc n)), gr_written = w\<rparr>, s)
    (c, s\<lparr>events := events_capacity\<rparr>) \<and> is_Sending c"
  using assms
proof (induction n arbitrary: s w)
  case 0
  then obtain resp where "client_step example_env [] False (\<lparr>gr_at = Reading (produces 1), gr_written = w\<rparr>, s)
      (\<lparr>gr_at = Sending resp (produces 0), gr_written = w\<rparr>, s)"
    using round_blocks[OF ReadReq_produces[of 0] empty_produce_blocks, of s w] by auto
  then show ?case using 0 by (metis One_nat_def Server.surjective Server.update_convs(5) add.right_neutral is_Sending_simps(1) r_into_rtranclp)
next
  case (Suc n)
  then obtain out where "respond example_env [] server_node ProduceReqKind empty_produce s =
      (Reply (Ok out), s\<lparr>events := events s + 1\<rparr>)"
    using empty_produce_answered[of s] by auto
  from round_runs[OF ReadReq_produces[of "Suc n"] this, of w True] have
    "(client_step example_env [] False)\<^sup>*\<^sup>* (\<lparr>gr_at = Reading (produces (Suc (Suc n))), gr_written = w\<rparr>, s)
       (\<lparr>gr_at = Reading (produces (Suc n)), gr_written = w @ out\<rparr>, s\<lparr>events := events s + 1\<rparr>)"
    by (simp add: example_env_def conclude_def)
  with Suc.IH[of "s\<lparr>events := events s + 1\<rparr>" "w @ out"] Suc.prems show ?case
    by (auto intro: rtranclp_trans)
qed

section \<open>Properties\<close>

text \<open>
  C14.  However the goroutines of the clients interleave with each other and with \<open>AddMessages\<close>, \<open>Reset\<close> and \<open>Close\<close> of
  the test, and whatever the clients send: the offset of every message is its position in the log of its partition, there
  is one log per partition, at most one goroutine is in the critical section of a produce request, and the messages that
  are in a log stay there, at their positions, whatever further clients do.
\<close>

lemma clients_interleaved:
  assumes "reachable (starts_with s) (system_step E mws) v" "server_ok s" "(serve_step E mws)\<^sup>*\<^sup>* v v'"
  shows "serving_ok v' \<and> logs_kept (sv_server v) (sv_server v')"
proof -
  from serving_invariant.reachable_inv[OF assms(1)] assms(2) have "serving_ok v" by simp
  from serve_steps_ok[OF assms(3) this] show ?thesis .
qed

definition listening :: Server where
  "listening = NewServer\<lparr>ln := Some (str ''127.0.0.1:9092'')\<rparr>"

text \<open>A client of a listening server that fills the channel of events: a thousand requests later the server is still in order.\<close>

lemma filling_run:
  "\<exists>c. (serve_step example_env [])\<^sup>*\<^sup>* \<lparr>sv_server = listening, sv_clients = []\<rparr>
     \<lparr>sv_server = listening\<lparr>events := events_capacity\<rparr>, sv_clients = [c]\<rparr> \<and> is_Sending c"
proof -
  let ?c = "\<lparr>gr_at = Reading (produces 1001), gr_written = []\<rparr>"
  have "serve_step example_env [] \<lparr>sv_server = listening, sv_clients = []\<rparr> \<lparr>sv_server = listening, sv_clients = [?c]\<rparr>"
    using serve_step.accepts[of "\<lparr>sv_server = listening, sv_clients = []\<rparr>" example_env "[]" "produces 1001"]
    by (simp add: alive_def listening_def)
  moreover obtain c where c: "(client_step example_env [] False)\<^sup>*\<^sup>* (?c, listening) (c, listening\<lparr>events := events_capacity\<rparr>)" "is_Sending c"
    using produces_jam[of listening 1000 "[]"] by (auto simp: listening_def NewServer_def events_capacity_def)
  ultimately show ?thesis
    using lone_client[OF c(1)] c(2) by (auto intro: converse_rtranclp_into_rtranclp)
qed

lemma clients_interleaved_witness:
  "\<exists>v. (serve_step example_env [])\<^sup>*\<^sup>* \<lparr>sv_server = listening, sv_clients = []\<rparr> v \<and> length (sv_clients v) = 1 \<and>
     events (sv_server v) = 1000 \<and> serving_ok v \<and> logs_kept listening (sv_server v)"
proof -
  let ?v = "\<lparr>sv_server = listening, sv_clients = []\<rparr>"
  obtain c where run: "(serve_step example_env [])\<^sup>*\<^sup>* ?v \<lparr>sv_server = listening\<lparr>events := events_capacity\<rparr>, sv_clients = [c]\<rparr>"
    using filling_run by blast
  have "reachable (starts_with listening) (system_step example_env []) ?v"
    by (rule reachable.start) (simp add: starts_with_def)
  moreover have "server_ok listening" by (simp add: server_ok_def listening_def NewServer_def)
  ultimately show ?thesis using clients_interleaved[OF _ _ run] run by (intro exI) (auto simp: events_capacity_def)
qed

text \<open>
  C25.  Once a produce request sends on the full channel of events while no fetch waits, the server is lost: whatever
  the clients send, its state never changes again, and no operation of the test gets the mutex.  A single client
  reaches this state with 1001 produce requests.
\<close>

lemma produce_jams:
  assumes "jammed v" "(serve_step E mws)\<^sup>*\<^sup>* v v'"
  shows "jammed v' \<and> sv_server v' = sv_server v \<and> (\<forall>v''. \<not> test_step v' v'')"
  using serve_steps_jammed[OF assms(2,1)] test_step_jammed by blast

lemma produce_jams_witness:
  "\<exists>v. (serve_step example_env [])\<^sup>*\<^sup>* \<lparr>sv_server = listening, sv_clients = []\<rparr> v \<and> jammed v \<and>
     (\<forall>v' v''. (serve_step example_env [])\<^sup>*\<^sup>* v v' \<longrightarrow> sv_server v' = sv_server v \<and> \<not> test_step v' v'')"
proof -
  obtain c where c: "(serve_step example_env [])\<^sup>*\<^sup>* \<lparr>sv_server = listening, sv_clients = []\<rparr>
      \<lparr>sv_server = listening\<lparr>events := events_capacity\<rparr>, sv_clients = [c]\<rparr>" "is_Sending c"
    using filling_run by blast
  then have "jammed \<lparr>sv_server = listening\<lparr>events := events_capacity\<rparr>, sv_clients = [c]\<rparr>"
    by (auto simp: jammed_def is_Sending_def)
  with produce_jams[OF this] c(1) show ?thesis by blast
qed

end
