(* ===== verification/TestBroker.thy ===== *)
theory TestBroker
  imports TestServer Consumer OffsetCoordinator
begin

text \<open>
  The mock client of \<open>v2/kafkatest/broker.go\<close>: a broker that hands out one consumer per partition, the
  producer that numbers messages and passes them to the test, and the offset coordinator that keeps
  offsets in a map.  The channels are unbuffered: a send and a receive are one step, in which the
  value the other side offers is an argument.
\<close>

section \<open>Broker and consumers\<close>

text \<open>
  A consumer is the number of its allocation, which stands for the pointer; \<open>kt_allocated\<close> has the
  configurations of the consumers allocated so far.
\<close>

record kt_Broker =
  kt_consumers :: "gostring \<rightharpoonup> int32 \<rightharpoonup> nat"
  kt_allocated :: "ConsumerConf list"
  kt_OffsetEarliestHandler :: "(gostring \<Rightarrow> int32 \<Rightarrow> int64 res) option"
  kt_OffsetLatestHandler :: "(gostring \<Rightarrow> int32 \<Rightarrow> int64 res) option"

definition kt_NewBroker :: kt_Broker where
  "kt_NewBroker = \<lparr>kt_consumers = (\<lambda>_. None), kt_allocated = [], kt_OffsetEarliestHandler = None,
     kt_OffsetLatestHandler = None\<rparr>"

definition kt_OffsetEarliest :: "gostring \<Rightarrow> int32 \<Rightarrow> kt_Broker \<Rightarrow> int64 res" where
  "kt_OffsetEarliest topic part b =
     (case kt_OffsetEarliestHandler b of
        Some h \<Rightarrow> h topic part
      | None \<Rightarrow> Err (KafkaErr ErrUnknownTopicOrPartition))"

definition kt_OffsetLatest :: "gostring \<Rightarrow> int32 \<Rightarrow> kt_Broker \<Rightarrow> int64 res" where
  "kt_OffsetLatest topic part b =
     (case kt_OffsetLatestHandler b of
        Some h \<Rightarrow> h topic part
      | None \<Rightarrow> Err (KafkaErr ErrUnknownTopicOrPartition))"

definition kt_new_consumer :: "ConsumerConf \<Rightarrow> (int32 \<rightharpoonup> nat) \<Rightarrow> kt_Broker \<Rightarrow> nat \<times> kt_Broker" where
  "kt_new_consumer cf parts b =
     (length (kt_allocated b),
      b\<lparr>kt_allocated := kt_allocated b @ [cf],
        kt_consumers := (kt_consumers b)(cc_Topic cf \<mapsto> parts(cc_Partition cf \<mapsto> length (kt_allocated b)))\<rparr>)"

definition kt_Consumer :: "ConsumerConf \<Rightarrow> kt_Broker \<Rightarrow> nat \<times> kt_Broker" where
  "kt_Consumer cf b =
     (case kt_consumers b (cc_Topic cf) of
        Some parts \<Rightarrow>
          (case parts (cc_Partition cf) of
             Some c \<Rightarrow> (c, b)
           | None \<Rightarrow> kt_new_consumer cf parts b)
      | None \<Rightarrow> kt_new_consumer cf (\<lambda>_. None) b)"

text \<open>\<open>offer\<close> is what a test pushes into one of the two channels; without it the call blocks.\<close>

definition kt_Consume :: "ConsumerConf \<Rightarrow> (error + Message) option \<Rightarrow> Message res option" where
  "kt_Consume cf offer =
     map_option (\<lambda>x. case x of
        Inr msg \<Rightarrow> Ok (msg\<lparr>Topic := cc_Topic cf, Partition := cc_Partition cf\<rparr>)
      | Inl err \<Rightarrow> Err err) offer"

section \<open>Producer\<close>

record ProducedMessages =
  pm_Topic :: gostring
  pm_Partition :: int32
  pm_Messages :: "Message list"

record kt_Producer =
  kt_responseOffset :: int64
  kt_ResponseError :: goerror

definition kt_Broker_Producer :: kt_Producer where
  "kt_Broker_Producer = \<lparr>kt_responseOffset = 1, kt_ResponseError = None\<rparr>"

definition kt_ResponseOffset :: "kt_Producer \<Rightarrow> int64" where
  "kt_ResponseOffset p = kt_responseOffset p"

text \<open>\<open>msg.Offset = off + int64(i)\<close> and the checksum, message by message\<close>

primrec kt_number :: "int64 \<Rightarrow> Message list \<Rightarrow> Message list res" where
  "kt_number off [] = Ok []"
| "kt_number off (msg # ms) =
     obind (ComputeCrc (msg\<lparr>Offset := off\<rparr>) CompressionNone) (\<lambda>crc.
     obind (kt_number (off + 1) ms) (\<lambda>ms. Ok (msg\<lparr>Offset := off, Crc := crc\<rparr> # ms)))"

text \<open>
  The call up to the send, and what it sends; \<open>kt_Produced\<close> is its end once \<open>ReadProducers\<close> has taken the
  messages.
\<close>

definition kt_Produce :: "gostring \<Rightarrow> int32 \<Rightarrow> Message list \<Rightarrow> kt_Producer \<Rightarrow> ProducedMessages res" where
  "kt_Produce topic part messages p =
     (case kt_ResponseError p of
        Some err \<Rightarrow> Err err
      | None \<Rightarrow>
          obind (kt_number (kt_responseOffset p) messages) (\<lambda>messages.
            Ok \<lparr>pm_Topic = topic, pm_Partition = part, pm_Messages = messages\<rparr>))"

definition kt_Produced :: "ProducedMessages \<Rightarrow> kt_Producer \<Rightarrow> int64 \<times> kt_Producer" where
  "kt_Produced m p =
     (kt_responseOffset p, p\<lparr>kt_responseOffset := kt_responseOffset p + of_nat (length (pm_Messages m))\<rparr>)"

text \<open>\<open>offer\<close> is what a producer that is blocked in its send offers; otherwise the time runs out.\<close>

definition ReadProducers :: "ProducedMessages option \<Rightarrow> ProducedMessages res" where
  "ReadProducers offer = (case offer of Some m \<Rightarrow> Ok m | None \<Rightarrow> Err ErrTimeout)"

section \<open>Offset coordinator\<close>

text \<open>\<open>kt_Offsets\<close> is \<open>None\<close> for the nil map, which \<open>kt_OffsetCoordinator\<close> leaves it.\<close>

record kt_Coordinator =
  kt_conf :: OffsetCoordinatorConf
  kt_Offsets :: "(gostring \<rightharpoonup> int64) option"
  kt_CommitHandler :: "(gostring \<Rightarrow> gostring \<Rightarrow> int32 \<Rightarrow> int64 \<Rightarrow> goerror) option"
  kt_OffsetHandler :: "(gostring \<Rightarrow> gostring \<Rightarrow> int32 \<Rightarrow> (int64 \<times> gostring) res) option"

definition kt_OffsetCoordinator :: "OffsetCoordinatorConf \<Rightarrow> kt_Coordinator" where
  "kt_OffsetCoordinator cf = \<lparr>kt_conf = cf, kt_Offsets = None, kt_CommitHandler = None, kt_OffsetHandler = None\<rparr>"

definition kt_Commit :: "gostring \<Rightarrow> int32 \<Rightarrow> int64 \<Rightarrow> kt_Coordinator \<Rightarrow> goerror res \<times> kt_Coordinator" where
  "kt_Commit topic part off c =
     (case kt_CommitHandler c of
        Some h \<Rightarrow> (Ok (h (occ_ConsumerGroup (kt_conf c)) topic part off), c)
      | None \<Rightarrow>
          (case kt_Offsets c of
             None \<Rightarrow> (Panic, c)
           | Some m \<Rightarrow> (Ok None, c\<lparr>kt_Offsets := Some (m(host_port topic part \<mapsto> off))\<rparr>)))"

definition kt_Offset :: "gostring \<Rightarrow> int32 \<Rightarrow> kt_Coordinator \<Rightarrow> (int64 \<times> gostring) res" where
  "kt_Offset topic part c =
     (case kt_OffsetHandler c of
        Some h \<Rightarrow> h (occ_ConsumerGroup (kt_conf c)) topic part
      | None \<Rightarrow>
          (case Option.bind (kt_Offsets c) (\<lambda>m. m (host_port topic part)) of
             Some off \<Rightarrow> Ok (off, [])
           | None \<Rightarrow> Err (KafkaErr ErrUnknownTopicOrPartition)))"

section \<open>Keys\<close>

text \<open>The key \<open>topic:partition\<close> of the map of offsets determines topic and partition.\<close>

lemma host_port_inject: "host_port t p = host_port t' p' \<longleftrightarrow> t = t' \<and> p = p'"
proof
  assume "host_port t p = host_port t' p'"
  then have "rev (host_port t p) = rev (host_port t' p')" by simp
  then have "rev (itoa (sint p)) @ 58 # rev t = rev (itoa (sint p')) @ 58 # rev t'"
    by (simp add: host_port_def str_def)
  then have "rev (itoa (sint p)) = rev (itoa (sint p')) \<and> rev t = rev t'"
    by (rule first_occurrence[rotated 2]) (simp_all add: itoa_no_colon)
  then show "t = t' \<and> p = p'" by (auto dest!: itoa_inject intro: signed_word_eqI)
qed simp

section \<open>What the mocks promise\<close>

text \<open>Asking for the same partition again gives the same consumer.\<close>

lemma kt_Consumer_same:
  "kt_Consumer cf b = (c, b') \<Longrightarrow> cc_Topic cf' = cc_Topic cf \<Longrightarrow> cc_Partition cf' = cc_Partition cf \<Longrightarrow>
   kt_Consumer cf' b' = (c, b')"
  by (auto simp: kt_Consumer_def kt_new_consumer_def split: option.splits)

text \<open>Messages are numbered from the offset that the call returns, and the next call goes on behind them.\<close>

lemma kt_number_offsets: "kt_number off ms = Ok ms' \<Longrightarrow> consecutive off ms' \<and> length ms' = length ms"
  by (induction ms arbitrary: off ms') (auto simp: obind_eq_Ok_conv)

lemma kt_Produce_offsets:
  assumes "kt_Produce topic part ms p = Ok m" "kt_Produced m p = (off, p')"
  shows "consecutive off (pm_Messages m) \<and> kt_ResponseOffset p' = off + of_nat (length ms)"
  using assms kt_number_offsets
  by (fastforce simp: kt_Produce_def kt_Produced_def kt_ResponseOffset_def obind_eq_Ok_conv split: option.splits)

text \<open>
  A committed offset is read back, and no other; but the coordinator a broker returns has the nil map, on
  which \<open>Commit\<close> panics.
\<close>

lemma kt_Commit_Offset:
  assumes "kt_CommitHandler c = None" "kt_OffsetHandler c = None" "kt_Offsets c = Some m"
  shows "fst (kt_Commit topic part off c) = Ok None \<and>
    kt_Offset t p (snd (kt_Commit topic part off c)) = (if (t, p) = (topic, part) then Ok (off, []) else kt_Offset t p c)"
  using assms by (auto simp: kt_Commit_def kt_Offset_def host_port_inject)

lemma kt_Commit_panics: "fst (kt_Commit topic part off (kt_OffsetCoordinator cf)) = Panic"
  by (simp add: kt_Commit_def kt_OffsetCoordinator_def)

end
