(* ===== verification/Integration.thy ===== *)
theory Integration
  imports Broker
begin

text \<open>
  The cluster of the integration tests, \<open>v2/integration/cluster.go\<close>: a Kafka cluster that is driven through the commands
  \<open>docker-compose\<close> and \<open>docker\<close> and inspected through the docker client.  The machine is an argument of type
  \<open>'w machine\<close>: running a command, the docker client, and the order in which a map is visited.
\<close>

section \<open>The machine\<close>

record command =
  cmd_Name :: gostring
  cmd_Args :: "gostring list"
  cmd_Dir :: gostring

text \<open>What the code reads of a \<open>docker.Container\<close>; \<open>NetworkSettings.Networks\<close> maps names to addresses.\<close>

record docker_Container =
  dc_ID :: gostring
  dc_Image :: gostring
  dc_Ports :: "gostring set"
  dc_Networks :: "(gostring \<times> gostring) list"

record 'w machine =
  m_Run :: "command \<Rightarrow> 'w \<Rightarrow> (goerror \<times> byte list \<times> byte list) \<times> 'w"
  m_NewClient :: "gostring \<Rightarrow> 'w \<Rightarrow> goerror \<times> 'w"
  m_InspectContainer :: "gostring \<Rightarrow> 'w \<Rightarrow> (error + docker_Container) \<times> 'w"
  m_perm :: "nat \<Rightarrow> 'w \<Rightarrow> nat list \<times> 'w"

text \<open>The errors of the methods: what failed, and the error and the output they quote.\<close>

datatype cluster_error =
    EnsureStop cluster_error
  | Cleanup cluster_error
  | ComposeUp error "byte list"
  | ContainersInfo cluster_error
  | ComposeStop error "byte list"
  | ComposeRm error "byte list"
  | ListProcesses error "byte list"
  | DockerConnection error
  | InspectFailed error
  | DockerInspect error "byte list"
  | DockerStop gostring error "byte list"
  | DockerKill gostring error "byte list"
  | DockerStart gostring error "byte list"
  | KafkaAddress cluster_error
  | ConnectCluster "gostring list" error
  | GetMetadata error

section \<open>The cluster\<close>

record KafkaCluster =
  kc_size :: int
  kafkaDockerDir :: gostring
  verbose :: bool
  containers :: "docker_Container list"

text \<open>\<open>isVerbose\<close> is \<open>testing.Verbose()\<close>; a small cluster only prints a warning.\<close>

definition NewKafkaCluster :: "bool \<Rightarrow> gostring \<Rightarrow> int \<Rightarrow> KafkaCluster" where
  "NewKafkaCluster isVerbose dir n = \<lparr>kc_size = n, kafkaDockerDir = dir, verbose = isVerbose, containers = []\<rparr>"

definition cmd :: "KafkaCluster \<Rightarrow> gostring \<Rightarrow> gostring list \<Rightarrow> command" where
  "cmd cluster name args = \<lparr>cmd_Name = name, cmd_Args = args, cmd_Dir = kafkaDockerDir cluster\<rparr>"

abbreviation compose :: "KafkaCluster \<Rightarrow> gostring list \<Rightarrow> command" where
  "compose cluster \<equiv> cmd cluster (str ''docker-compose'')"

text \<open>\<open>if err := cmd.Run(); err != nil { return fmt.Errorf(..., err, stderr) }\<close>, and the standard output.\<close>

definition run_command ::
  "'w machine \<Rightarrow> command \<Rightarrow> (error \<Rightarrow> byte list \<Rightarrow> cluster_error) \<Rightarrow> 'w \<Rightarrow> (cluster_error + byte list) \<times> 'w"
where
  "run_command M c wrap w =
     (case m_Run M c w of
        ((Some err, out, errout), w) \<Rightarrow> (Inl (wrap err errout), w)
      | ((None, out, errout), w) \<Rightarrow> (Inr out, w))"

definition removeStoppedContainers :: "'w machine \<Rightarrow> KafkaCluster \<Rightarrow> 'w \<Rightarrow> (cluster_error + byte list) \<times> 'w" where
  "removeStoppedContainers M cluster = run_command M (compose cluster [str ''rm'', str ''-f'']) ComposeRm"

text \<open>The error of \<open>removeStoppedContainers\<close> is dropped.\<close>

definition Cluster_Stop :: "'w machine \<Rightarrow> KafkaCluster \<Rightarrow> 'w \<Rightarrow> (cluster_error + byte list) \<times> 'w" where
  "Cluster_Stop M cluster w =
     (case run_command M (compose cluster [str ''stop'', str ''-t'', str ''0'']) ComposeStop w of
        (Inl err, w) \<Rightarrow> (Inl err, w)
      | (Inr _, w) \<Rightarrow> (Inr [], snd (removeStoppedContainers M cluster w)))"

primrec inspect_all :: "'w machine \<Rightarrow> gostring list \<Rightarrow> 'w \<Rightarrow> (cluster_error + docker_Container list) \<times> 'w" where
  "inspect_all M [] w = (Inr [], w)"
| "inspect_all M (containerID # rest) w =
     (if containerID = [] then inspect_all M rest w
      else case m_InspectContainer M containerID w of
             (Inl err, w) \<Rightarrow> (Inl (InspectFailed err), w)
           | (Inr c, w) \<Rightarrow>
               (case inspect_all M rest w of (Inl err, w) \<Rightarrow> (Inl err, w) | (Inr cs, w) \<Rightarrow> (Inr (c # cs), w)))"

definition Containers :: "'w machine \<Rightarrow> KafkaCluster \<Rightarrow> 'w \<Rightarrow> (cluster_error + docker_Container list) \<times> 'w" where
  "Containers M cluster w =
     (case run_command M (compose cluster [str ''ps'', str ''-q'']) ListProcesses w of
        (Inl err, w) \<Rightarrow> (Inl err, w)
      | (Inr containerIDs, w) \<Rightarrow>
          (case m_NewClient M (str ''unix:///var/run/docker.sock'') w of
             (Some err, w) \<Rightarrow> (Inl (DockerConnection err), w)
           | (None, w) \<Rightarrow> inspect_all M (Split 10 (TrimSpace containerIDs)) w))"

definition Cluster_Start :: "'w machine \<Rightarrow> KafkaCluster \<Rightarrow> 'w \<Rightarrow> (cluster_error + KafkaCluster) \<times> 'w" where
  "Cluster_Start M cluster w =
     (case Cluster_Stop M cluster w of
        (Inl err, w) \<Rightarrow> (Inl (EnsureStop err), w)
      | (Inr _, w) \<Rightarrow>
          (case removeStoppedContainers M cluster w of
             (Inl err, w) \<Rightarrow> (Inl (Cleanup err), w)
           | (Inr _, w) \<Rightarrow>
               (case run_command M (compose cluster [str ''--no-ansi'', str ''up'', str ''-d'', str ''--scale'',
                       str ''kafka='' @ itoa (kc_size cluster)]) ComposeUp w of
                  (Inl err, w) \<Rightarrow> (Inl err, w)
                | (Inr _, w) \<Rightarrow>
                    (case Containers M cluster w of
                       (Inl err, w) \<Rightarrow> (Inl (ContainersInfo err), snd (Cluster_Stop M cluster w))
                     | (Inr cs, w) \<Rightarrow> (Inr (cluster\<lparr>containers := cs\<rparr>), w)))))"

text \<open>The first network, in the order of the iteration, that has an address.\<close>

definition kafka_addr :: "'w machine \<Rightarrow> docker_Container \<Rightarrow> 'w \<Rightarrow> gostring list \<times> 'w" where
  "kafka_addr M container w =
     (if str ''9092/tcp'' \<in> dc_Ports container
      then let (p, w) = m_perm M (length (dc_Networks container)) w
           in case find (\<lambda>n. snd n \<noteq> []) (in_order p (dc_Networks container)) of
                Some network \<Rightarrow> ([snd network @ str '':'' @ str ''9092''], w)
              | None \<Rightarrow> ([], w)
      else ([], w))"

primrec kafka_addrs :: "'w machine \<Rightarrow> docker_Container list \<Rightarrow> 'w \<Rightarrow> gostring list \<times> 'w" where
  "kafka_addrs M [] w = ([], w)"
| "kafka_addrs M (c # cs) w = (let (a, w) = kafka_addr M c w; (as, w) = kafka_addrs M cs w in (a @ as, w))"

definition KafkaAddrs :: "'w machine \<Rightarrow> KafkaCluster \<Rightarrow> 'w \<Rightarrow> (cluster_error + gostring list) \<times> 'w" where
  "KafkaAddrs M cluster w =
     (case Containers M cluster w of
        (Inl err, w) \<Rightarrow> (Inl (ContainersInfo err), w)
      | (Inr cs, w) \<Rightarrow> (let (addrs, w) = kafka_addrs M cs w in (Inr addrs, w)))"

section \<open>Containers\<close>

definition ContainerNetworkIP ::
  "'w machine \<Rightarrow> KafkaCluster \<Rightarrow> docker_Container \<Rightarrow> gostring \<Rightarrow> 'w \<Rightarrow> (cluster_error + gostring) \<times> 'w"
where
  "ContainerNetworkIP M cluster container network w =
     (case run_command M (cmd cluster (str ''docker'') [str ''inspect'',
             str ''.NetworkSettings.Networks.'' @ network @ str ''.IPAddress'', dc_ID container]) DockerInspect w of
        (Inl err, w) \<Rightarrow> (Inl err, w)
      | (Inr out, w) \<Rightarrow> (Inr (TrimSpace out), w))"

definition ContainerStop :: "'w machine \<Rightarrow> KafkaCluster \<Rightarrow> gostring \<Rightarrow> 'w \<Rightarrow> (cluster_error + byte list) \<times> 'w" where
  "ContainerStop M cluster containerID =
     run_command M (cmd cluster (str ''docker'') [str ''stop'', containerID]) (DockerStop containerID)"

definition ContainerKill :: "'w machine \<Rightarrow> KafkaCluster \<Rightarrow> gostring \<Rightarrow> 'w \<Rightarrow> (cluster_error + byte list) \<times> 'w" where
  "ContainerKill M cluster containerID =
     run_command M (cmd cluster (str ''docker'') [str ''kill'', containerID]) (DockerKill containerID)"

definition ContainerStart :: "'w machine \<Rightarrow> KafkaCluster \<Rightarrow> gostring \<Rightarrow> 'w \<Rightarrow> (cluster_error + byte list) \<times> 'w" where
  "ContainerStart M cluster containerID =
     run_command M (cmd cluster (str ''docker'') [str ''start'', containerID]) (DockerStart containerID)"

definition RunningKafka :: "docker_Container \<Rightarrow> bool" where
  "RunningKafka c \<longleftrightarrow> dc_Image c = str ''kafkadocker_kafka''"

definition Container_Start :: "'w machine \<Rightarrow> KafkaCluster \<Rightarrow> docker_Container \<Rightarrow> 'w \<Rightarrow> (cluster_error + byte list) \<times> 'w" where
  "Container_Start M cluster c = ContainerStart M cluster (dc_ID c)"

definition Container_Stop :: "'w machine \<Rightarrow> KafkaCluster \<Rightarrow> docker_Container \<Rightarrow> 'w \<Rightarrow> (cluster_error + byte list) \<times> 'w" where
  "Container_Stop M cluster c = ContainerStop M cluster (dc_ID c)"

definition Container_Kill :: "'w machine \<Rightarrow> KafkaCluster \<Rightarrow> docker_Container \<Rightarrow> 'w \<Rightarrow> (cluster_error + byte list) \<times> 'w" where
  "Container_Kill M cluster c = ContainerKill M cluster (dc_ID c)"

section \<open>Waiting for the cluster\<close>

text \<open>
  One round of \<open>WaitUntilReady\<close>, \<open>False\<close> when the cluster has no topic yet; the broker that it dials is a client of the
  network \<open>N\<close>, which has its own state, and is closed only to be dialled again.
\<close>

definition wait_round ::
  "'w machine \<Rightarrow> 'e network \<Rightarrow> KafkaCluster \<Rightarrow> 'w \<times> 'e \<Rightarrow> (cluster_error, bool) outcome \<times> 'w \<times> 'e"
where
  "wait_round M N cluster v =
     (case KafkaAddrs M cluster (fst v) of
        (Inl err, w) \<Rightarrow> (Err (KafkaAddress err), w, snd v)
      | (Inr addrs, w) \<Rightarrow>
          (case Dial N addrs (NewBrokerConf (str ''waiter'')) (snd v) of
             (Err err, e) \<Rightarrow> (Err (ConnectCluster addrs err), w, e)
           | (Ok broker, e) \<Rightarrow>
               (case Broker_Metadata N (broker, e) of
                  (Err err, b, e) \<Rightarrow> (Err (GetMetadata err), w, e)
                | (Ok met, b, e) \<Rightarrow>
                    if mr_Topics met \<noteq> [] then (Ok True, w, e)
                    else (Ok False, w, snd (Broker_Close N (b, e)))
                | (Panic, b, e) \<Rightarrow> (Panic, w, e)
                | (NoFuel, b, e) \<Rightarrow> (NoFuel, w, e))
           | (Panic, e) \<Rightarrow> (Panic, w, e)
           | (NoFuel, e) \<Rightarrow> (NoFuel, w, e)))"

text \<open>The first \<open>n\<close> rounds; the loop has no bound of its own.\<close>

primrec WaitUntilReady ::
  "'w machine \<Rightarrow> 'e network \<Rightarrow> KafkaCluster \<Rightarrow> nat \<Rightarrow> 'w \<times> 'e \<Rightarrow> (cluster_error, unit) outcome \<times> 'w \<times> 'e"
where
  "WaitUntilReady M N cluster 0 v = (NoFuel, v)"
| "WaitUntilReady M N cluster (Suc n) v =
     (case wait_round M N cluster v of
        (Ok ready, v) \<Rightarrow> if ready then (Ok (), v) else WaitUntilReady M N cluster n v
      | (Err err, v) \<Rightarrow> (Err err, v)
      | (Panic, v) \<Rightarrow> (Panic, v)
      | (NoFuel, v) \<Rightarrow> (NoFuel, v))"

section \<open>The containers of the cluster\<close>

text \<open>What \<open>docker-compose ps -q\<close> prints: one identifier per line.\<close>

definition printed :: "gostring list \<Rightarrow> byte list" where
  "printed names = concat (map (\<lambda>i. i @ [10]) names)"

definition container_id :: "gostring \<Rightarrow> bool" where
  "container_id i \<longleftrightarrow> i \<noteq> [] \<and> list_all visible i"

lemma printed_lines:
  assumes "\<forall>i \<in> set names. container_id i"
  shows "filter (\<lambda>i. i \<noteq> []) (Split 10 (TrimSpace (printed names))) = names"
proof (cases names rule: rev_cases)
  case Nil
  then show ?thesis by (simp add: printed_def TrimSpace_def)
next
  case (snoc init i)
  let ?s = "butlast (printed names)"
  have s: "?s = printed init @ i" using snoc by (simp add: printed_def butlast_append)
  have no_newline: "10 \<notin> set n" if "n \<in> set names" for n
  proof
    assume "10 \<in> set n"
    with assms that have "visible 10" by (auto simp: container_id_def list_all_iff)
    then show False by (simp add: visible_def word_le_nat_alt)
  qed
  have "visible (hd (printed (x # xs) @ y))" if "container_id x" for x xs y
    using that by (cases x) (simp_all add: container_id_def printed_def)
  moreover have "visible (hd i)" "visible (last i)" "i \<noteq> []"
    using assms snoc by (auto simp: container_id_def list_all_iff)
  ultimately have "visible (hd ?s)" "visible (last ?s)"
    using assms snoc unfolding s by (cases init; force simp: printed_def)+
  then have "TrimSpace (?s @ [10]) = ?s" by (rule TrimSpace_visible)
  moreover have "?s @ [10] = printed names" using s snoc by (simp add: printed_def)
  moreover have "Split 10 ?s = names"
    unfolding printed_def by (rule Split_lines) (use no_newline snoc in auto)
  ultimately have "Split 10 (TrimSpace (printed names)) = names" by simp
  then show ?thesis using assms by (simp add: container_id_def)
qed

lemma inspect_all_info:
  assumes "\<And>i v. i \<in> set names \<Longrightarrow> m_InspectContainer M i v = (Inr (info i), v)" "filter (\<lambda>i. i \<noteq> []) xs = names"
  shows "inspect_all M xs w = (Inr (map info names), w)"
  using assms by (induction xs arbitrary: names) auto

lemma Containers_info:
  assumes "m_Run M (compose cluster [str ''ps'', str ''-q'']) w = ((None, printed names, errout), w1)"
    and "m_NewClient M (str ''unix:///var/run/docker.sock'') w1 = (None, w2)"
    and "\<And>i v. i \<in> set names \<Longrightarrow> m_InspectContainer M i v = (Inr (info i), v)"
    and "\<forall>i \<in> set names. container_id i"
  shows "Containers M cluster w = (Inr (map info names), w2)"
  using inspect_all_info[OF assms(3) printed_lines[OF assms(4)]] assms(1,2)
  by (simp add: Containers_def run_command_def)

text \<open>A node of Kafka publishes the port and has an address.\<close>

definition kafka_node :: "docker_Container \<Rightarrow> bool" where
  "kafka_node c \<longleftrightarrow> str ''9092/tcp'' \<in> dc_Ports c \<and> (\<exists>n \<in> set (dc_Networks c). snd n \<noteq> [])"

definition address_of :: "docker_Container \<Rightarrow> gostring \<Rightarrow> bool" where
  "address_of c a \<longleftrightarrow> (\<exists>n \<in> set (dc_Networks c). snd n \<noteq> [] \<and> a = snd n @ str '':9092'')"

lemma kafka_addr_cases:
  "if kafka_node c then \<exists>a. fst (kafka_addr M c w) = [a] \<and> address_of c a else fst (kafka_addr M c w) = []"
proof -
  obtain p w' where p: "m_perm M (length (dc_Networks c)) w = (p, w')" by fastforce
  let ?found = "find (\<lambda>n. snd n \<noteq> []) (in_order p (dc_Networks c))"
  have addr: "kafka_addr M c w = (if str ''9092/tcp'' \<in> dc_Ports c
      then case ?found of Some n \<Rightarrow> ([snd n @ str '':9092''], w') | None \<Rightarrow> ([], w') else ([], w))"
    by (simp add: kafka_addr_def p str_def split: option.split)
  show ?thesis
  proof (cases ?found)
    case None
    then have "\<forall>n \<in> set (dc_Networks c). snd n = []" by (auto simp: find_None_iff)
    with None show ?thesis by (simp add: addr kafka_node_def)
  next
    case (Some n)
    then obtain i where "i < length (in_order p (dc_Networks c))" "n = in_order p (dc_Networks c) ! i" "snd n \<noteq> []"
      by (auto simp: find_Some_iff)
    then have "n \<in> set (in_order p (dc_Networks c))" "snd n \<noteq> []" by (metis nth_mem)+
    then have "n \<in> set (dc_Networks c)" "snd n \<noteq> []" by simp_all
    with Some show ?thesis by (auto simp: addr kafka_node_def address_of_def)
  qed
qed

lemma kafka_addrs_nodes: "list_all2 address_of (filter kafka_node cs) (fst (kafka_addrs M cs w))"
proof (induction cs arbitrary: w)
  case (Cons c cs)
  obtain a w1 where a: "kafka_addr M c w = (a, w1)" by fastforce
  with kafka_addr_cases[of c M w] Cons.IH[of w1] show ?case by (auto simp: split_beta Let_def split: if_splits)
qed simp

section \<open>The commands of a start\<close>

text \<open>The machine with a record of the commands that were run and of the errors they returned.\<close>

definition logging :: "'w machine \<Rightarrow> ('w \<times> (command \<times> goerror) list) machine" where
  "logging M =
     \<lparr>m_Run = (\<lambda>c (w, l). let (r, w) = m_Run M c w in (r, w, l @ [(c, fst r)])),
      m_NewClient = (\<lambda>a (w, l). let (r, w) = m_NewClient M a w in (r, w, l)),
      m_InspectContainer = (\<lambda>i (w, l). let (r, w) = m_InspectContainer M i w in (r, w, l)),
      m_perm = (\<lambda>n (w, l). let (r, w) = m_perm M n w in (r, w, l))\<rparr>"

lemma logging_simps [simp]:
  "m_Run (logging M) c (w, l) = (let (r, w) = m_Run M c w in (r, w, l @ [(c, fst r)]))"
  "m_NewClient (logging M) a (w, l) = (let (r, w) = m_NewClient M a w in (r, w, l))"
  "m_InspectContainer (logging M) i (w, l) = (let (r, w) = m_InspectContainer M i w in (r, w, l))"
  by (simp_all add: logging_def)

text \<open>The log says whether a command returned an error, and which.\<close>

lemma logged_run:
  assumes "run_command (logging M) c wrap (w, l) = (r, v)"
  shows "\<exists>e out. snd v = l @ [(c, e)] \<and> (case e of None \<Rightarrow> \<exists>s. r = Inr s | Some err \<Rightarrow> r = Inl (wrap err out))"
  using assms by (auto simp: run_command_def split: prod.splits option.splits)

lemma logged_inspect:
  "inspect_all (logging M) xs (w, l) = (r, v) \<Longrightarrow> snd v = l \<and> (\<forall>err out. r \<noteq> Inl (ListProcesses err out))"
  by (induction xs arbitrary: w r v) (fastforce split: prod.splits sum.splits if_splits)+

abbreviation stop_command :: "KafkaCluster \<Rightarrow> command" where
  "stop_command cluster \<equiv> compose cluster [str ''stop'', str ''-t'', str ''0'']"

abbreviation rm_command :: "KafkaCluster \<Rightarrow> command" where
  "rm_command cluster \<equiv> compose cluster [str ''rm'', str ''-f'']"

abbreviation up_command :: "KafkaCluster \<Rightarrow> command" where
  "up_command cluster \<equiv> compose cluster [str ''--no-ansi'', str ''up'', str ''-d'', str ''--scale'',
     str ''kafka='' @ itoa (kc_size cluster)]"

abbreviation ps_command :: "KafkaCluster \<Rightarrow> command" where
  "ps_command cluster \<equiv> compose cluster [str ''ps'', str ''-q'']"

text \<open>
  A stop ends with the error of \<open>docker-compose stop\<close>, or it goes on to \<open>docker-compose rm\<close> and succeeds whatever the
  error \<open>e\<close> of that command is.
\<close>

definition stop_log :: "KafkaCluster \<Rightarrow> cluster_error + byte list \<Rightarrow> goerror \<Rightarrow> (command \<times> goerror) list \<Rightarrow> bool" where
  "stop_log cluster r e l \<longleftrightarrow>
     (case r of
        Inl err \<Rightarrow> (\<exists>e' out. err = ComposeStop e' out \<and> l = [(stop_command cluster, Some e')])
      | Inr _ \<Rightarrow> l = [(stop_command cluster, None), (rm_command cluster, e)])"

lemma logged_Stop:
  assumes "Cluster_Stop (logging M) cluster (w, l) = (r, v)"
  shows "\<exists>e l'. stop_log cluster r e l' \<and> snd v = l @ l'"
proof -
  obtain r1 w1 l1 where run: "run_command (logging M) (stop_command cluster) ComposeStop (w, l) = (r1, w1, l1)"
    by (metis prod_cases3)
  obtain r2 v2 where rm: "run_command (logging M) (rm_command cluster) ComposeRm (w1, l1) = (r2, v2)"
    by (metis surj_pair)
  show ?thesis
    using assms run rm logged_run[OF run] logged_run[OF rm]
    by (auto simp: Cluster_Stop_def stop_log_def removeStoppedContainers_def split: sum.splits option.splits)
qed

lemma logged_Containers:
  assumes "Containers (logging M) cluster (w, l) = (r, v)"
  shows "snd v = l @ [(ps_command cluster, case r of Inl (ListProcesses err _) \<Rightarrow> Some err | _ \<Rightarrow> None)]"
proof -
  obtain r1 w1 l1 where run: "run_command (logging M) (ps_command cluster) ListProcesses (w, l) = (r1, w1, l1)"
    by (metis prod_cases3)
  obtain r2 w2 where client: "m_NewClient M (str ''unix:///var/run/docker.sock'') w1 = (r2, w2)" by fastforce
  show ?thesis
    using assms run client logged_run[OF run]
    by (auto simp: Containers_def split: sum.splits option.splits cluster_error.splits dest: logged_inspect)
qed

section \<open>Rounds of the wait\<close>

text \<open>More rounds do not change a result.\<close>

lemma WaitUntilReady_more:
  assumes "WaitUntilReady M N cluster n v = (r, v')" "r \<noteq> NoFuel" "n \<le> m"
  shows "WaitUntilReady M N cluster m v = (r, v')"
  using assms
proof (induction n arbitrary: v m)
  case (Suc n)
  then obtain k where "m = Suc k" "n \<le> k" by (cases m) simp_all
  with Suc.IH[of _ k] Suc.prems show ?case by (auto split: prod.splits sum.splits outcome.splits if_splits)
qed simp

section \<open>Properties\<close>

definition example_container :: "gostring \<Rightarrow> docker_Container" where
  "example_container i = \<lparr>dc_ID = i, dc_Image = str ''kafkadocker_kafka'',
     dc_Ports = (if i = str ''a1'' then {str ''9092/tcp''} else {}),
     dc_Networks = [(str ''none'', []), (str ''net'', str ''172.17.0.2'')]\<rparr>"

definition example_machine :: "unit machine" where
  "example_machine =
     \<lparr>m_Run = (\<lambda>c w. ((None, printed [str ''a1'', str ''b2''], []), w)),
      m_NewClient = (\<lambda>a w. (None, w)),
      m_InspectContainer = (\<lambda>i w. (Inr (example_container i), w)),
      m_perm = (\<lambda>n w. (rev [0..<n], w))\<rparr>"

definition example_broken :: "unit machine" where
  "example_broken = example_machine\<lparr>m_Run := (\<lambda>c w.
     (if c = up_command (NewKafkaCluster False [] 3) then (Some EPIPE, [], []) else (None, [], []), w))\<rparr>"

text \<open>
  C39.  The commands that \<open>Start\<close> has run when it returns, in their order and with the error each returned, decide what
  it returns, whatever the machine does.  It succeeds only after \<open>stop\<close>, \<open>rm\<close>, \<open>rm\<close>, \<open>up\<close> (with the size of the
  cluster) and \<open>ps\<close>, all without an error except for the first \<open>rm\<close>, whose error \<open>e\<close> is dropped, and then changes
  nothing but the containers, which are those that \<open>Containers\<close> found.  A failing \<open>stop\<close>, second \<open>rm\<close> or \<open>up\<close> is the last command
  that is run, and its error is returned.  When the containers cannot be listed or inspected, that error is returned after
  the cluster was stopped again, with a result \<open>r'\<close> that is dropped.
\<close>

lemma cluster_started:
  assumes "Cluster_Start (logging M) cluster (w, l) = (r, w', l')"
  shows "\<exists>e. case r of
      Inl (EnsureStop err) \<Rightarrow> \<exists>e' out. err = ComposeStop e' out \<and> l' = l @ [(stop_command cluster, Some e')]
    | Inl (Cleanup err) \<Rightarrow> \<exists>e' out. err = ComposeRm e' out \<and>
        l' = l @ [(stop_command cluster, None), (rm_command cluster, e), (rm_command cluster, Some e')]
    | Inl (ComposeUp e' out) \<Rightarrow>
        l' = l @ [(stop_command cluster, None), (rm_command cluster, e), (rm_command cluster, None),
                  (up_command cluster, Some e')]
    | Inl (ContainersInfo err) \<Rightarrow> \<exists>r' e' again. stop_log cluster r' e' again \<and>
        l' = l @ [(stop_command cluster, None), (rm_command cluster, e), (rm_command cluster, None),
                  (up_command cluster, None),
                  (ps_command cluster, case err of ListProcesses e'' _ \<Rightarrow> Some e'' | _ \<Rightarrow> None)] @ again
    | Inr cluster' \<Rightarrow>
        l' = l @ [(stop_command cluster, None), (rm_command cluster, e), (rm_command cluster, None),
                  (up_command cluster, None), (ps_command cluster, None)] \<and>
        cluster' = cluster\<lparr>containers := containers cluster'\<rparr> \<and>
        (\<exists>v. Containers (logging M) cluster v = (Inr (containers cluster'), w', l'))
    | Inl _ \<Rightarrow> False"
proof -
  obtain r1 w1 l1 where 1: "Cluster_Stop (logging M) cluster (w, l) = (r1, w1, l1)" by (metis prod_cases3)
  obtain r2 w2 l2 where 2: "removeStoppedContainers (logging M) cluster (w1, l1) = (r2, w2, l2)" by (metis prod_cases3)
  obtain r3 w3 l3 where 3: "run_command (logging M) (up_command cluster) ComposeUp (w2, l2) = (r3, w3, l3)"
    by (metis prod_cases3)
  obtain r4 w4 l4 where 4: "Containers (logging M) cluster (w3, l3) = (r4, w4, l4)" by (metis prod_cases3)
  obtain r5 w5 l5 where 5: "Cluster_Stop (logging M) cluster (w4, l4) = (r5, w5, l5)" by (metis prod_cases3)
  obtain e k1 k5 e5 where stops: "stop_log cluster r1 e k1" "l1 = l @ k1" "stop_log cluster r5 e5 k5" "l5 = l4 @ k5"
    using logged_Stop[OF 1] logged_Stop[OF 5] by auto
  obtain e2 o2 e3 o3 where runs:
      "l2 = l1 @ [(rm_command cluster, e2)]" "case e2 of None \<Rightarrow> \<exists>s. r2 = Inr s | Some err \<Rightarrow> r2 = Inl (ComposeRm err o2)"
      "l3 = l2 @ [(up_command cluster, e3)]" "case e3 of None \<Rightarrow> \<exists>s. r3 = Inr s | Some err \<Rightarrow> r3 = Inl (ComposeUp err o3)"
    using logged_run[OF 2[unfolded removeStoppedContainers_def]] logged_run[OF 3] by auto
  have start: "(r, w', l') =
    (case r1 of Inl err \<Rightarrow> (Inl (EnsureStop err), w1, l1)
     | Inr _ \<Rightarrow> case r2 of Inl err \<Rightarrow> (Inl (Cleanup err), w2, l2)
       | Inr _ \<Rightarrow> case r3 of Inl err \<Rightarrow> (Inl err, w3, l3)
         | Inr _ \<Rightarrow> case r4 of Inl err \<Rightarrow> (Inl (ContainersInfo err), w5, l5)
           | Inr cs \<Rightarrow> (Inr (cluster\<lparr>containers := cs\<rparr>), w4, l4))"
    using assms by (cases r1; cases r2; cases r3; cases r4) (simp_all add: Cluster_Start_def 1 2 3 4 5)
  show ?thesis
  proof (cases "\<exists>s1 s2 s3. r1 = Inr s1 \<and> r2 = Inr s2 \<and> r3 = Inr s3")
    case True
    then have errors: "e2 = None" "e3 = None" using runs by (auto split: option.splits)
    from True stops(1) have "k1 = [(stop_command cluster, None), (rm_command cluster, e)]" by (auto simp: stop_log_def)
    then have l4: "l4 = l @ [(stop_command cluster, None), (rm_command cluster, e), (rm_command cluster, None),
        (up_command cluster, None), (ps_command cluster, case r4 of Inl (ListProcesses err _) \<Rightarrow> Some err | _ \<Rightarrow> None)]"
      using stops(2) runs errors logged_Containers[OF 4] by simp
    show ?thesis
    proof (cases r4)
      case (Inl err)
      with True start stops(4) l4 have "r = Inl (ContainersInfo err)" "l' = l4 @ k5" by auto
      with l4 Inl stops(3) show ?thesis by (intro exI[of _ e]) (simp, blast)
    next
      case (Inr cs)
      with True start have "r = Inr (cluster\<lparr>containers := cs\<rparr>)" "l' = l4" "w' = w4" by auto
      with l4 Inr 4 show ?thesis by (intro exI[of _ e]) (simp, blast)
    qed
  next
    case False
    with start stops(1,2) runs show ?thesis
      by (cases r1; cases e2; cases e3) (auto simp: stop_log_def)
  qed
qed

lemma cluster_started_witness:
  "\<exists>e. snd (snd (Cluster_Start (logging example_broken) (NewKafkaCluster False [] 3) ((), []))) =
     (let cluster = NewKafkaCluster False [] 3
      in [(stop_command cluster, None), (rm_command cluster, e), (rm_command cluster, None),
          (up_command cluster, Some EPIPE)])"
proof -
  let ?cluster = "NewKafkaCluster False [] 3"
  obtain r w l where run: "Cluster_Start (logging example_broken) ?cluster ((), []) = (r, w, l)" by (metis prod_cases3)
  have "fst (Cluster_Start (logging example_broken) ?cluster ((), [])) = Inl (ComposeUp EPIPE [])" by code_simp
  with cluster_started[OF run] run show ?thesis by (simp add: Let_def)
qed

text \<open>
  C40.  The addresses of the cluster: when \<open>docker-compose ps -q\<close> prints the identifiers of the containers and docker
  knows them, \<open>KafkaAddrs\<close> returns one address for every container that publishes the port 9092 and has an address in
  some network, in the order of the containers, and nothing else.
\<close>

lemma cluster_addresses:
  assumes "m_Run M (compose cluster [str ''ps'', str ''-q'']) w = ((None, printed names, errout), w1)"
    and "m_NewClient M (str ''unix:///var/run/docker.sock'') w1 = (None, w2)"
    and "\<And>i v. i \<in> set names \<Longrightarrow> m_InspectContainer M i v = (Inr (info i), v)"
    and "\<forall>i \<in> set names. container_id i"
  shows "\<exists>addrs w3. KafkaAddrs M cluster w = (Inr addrs, w3) \<and>
    list_all2 address_of (filter kafka_node (map info names)) addrs"
  using Containers_info[OF assms] kafka_addrs_nodes[of "map info names" M w2]
  by (simp add: KafkaAddrs_def split_beta Let_def)

lemma cluster_addresses_witness:
  "\<exists>w. KafkaAddrs example_machine (NewKafkaCluster False [] 1) () = (Inr [str ''172.17.0.2:9092''], w)"
proof -
  have ids: "\<forall>i \<in> set [str ''a1'', str ''b2'']. container_id i" by code_simp
  have "m_Run example_machine c w = ((None, printed [str ''a1'', str ''b2''], []), w)"
    "m_NewClient example_machine a w = (None, w)"
    "m_InspectContainer example_machine i w = (Inr (example_container i), w)" for c a i w
    by (simp_all add: example_machine_def)
  from cluster_addresses[OF this(1,2,3) ids, of "NewKafkaCluster False [] 1"] show ?thesis
    by (auto simp: kafka_node_def address_of_def example_container_def str_def list_all2_Cons1)
qed

end
