(* ===== verification/Spec2Isabelle.thy ===== *)
theory Spec2Isabelle
  imports Pipeline Multiplexer DistributingProducer Committing Serving TestBroker Integration
begin

text \<open>
  Verification of the Kafka client \<open>github.com/optiopay/kafka\<close>, directory \<open>v2\<close>.

  \<^bold>\<open>The program.\<close>  Package \<open>proto\<close> turns requests and responses into bytes and back.  A \<open>connection\<close>
  (\<open>connection.go\<close>) sends requests over one socket on behalf of any number of goroutines and gives
  every response to the goroutine that waits for it.  A \<open>Broker\<close> (\<open>broker.go\<close>) keeps a pool of
  connections and a cache of the metadata of the cluster; producers, consumers and offset
  coordinators ask it for the connection to the leader of a partition or to the coordinator of a
  group, and retry.  \<open>multiplexer.go\<close> merges several consumers, \<open>distributing_producer.go\<close> chooses
  partitions.  Package \<open>kafkatest\<close> has an in-memory server (\<open>server.go\<close>) that speaks the protocol
  through the same package \<open>proto\<close>, and a mock client (\<open>broker.go\<close>).
  \<open>integration/cluster.go\<close> drives a real cluster through docker.

  \<^bold>\<open>Foundations.\<close>
  \<^item> \<open>Prelude\<close>: machine integers as words, byte strings, the outcome of a Go call (\<open>Ok\<close>, \<open>Err\<close>, \<open>Panic\<close>,
    \<open>NoFuel\<close>), blocks of statements, counted loops.
  \<^item> \<open>GoLib\<close>, \<open>GoStrings\<close>, \<open>Crc\<close>, \<open>GoMap\<close>: what the code uses of the standard library: big-endian integers, readers
    and \<open>io.ReadFull\<close>, durations and instants, decimal numbers, \<open>Split\<close> and \<open>TrimSpace\<close>, CRC-32, maps that are
    iterated over in any order.
  \<^item> \<open>Steps\<close>: reachability and invariants of interleaved goroutines (locale \<open>invariant\<close>).
  \<^item> \<open>Errors\<close>: \<open>proto/errors.go\<close> and every other error value of the program.

  \<^bold>\<open>The wire protocol.\<close>
  \<^item> \<open>Serialization\<close> (\<open>proto/serialization.go\<close>, \<open>utils.go\<close>): decoder and encoder with their sticky errors.
  \<^item> \<open>Codec\<close>: the calculus of the round trips.  \<open>transfers\<close> relates a block that writes a structure to the
    block that reads it; the locales \<open>struct_codec\<close>, \<open>versioned_struct\<close> and \<open>wire_message\<close> state what a
    message needs and derive that its bytes are read back and that every strict prefix is rejected.
  \<^item> \<open>Request\<close>: the header, the version table, \<open>ReadReq\<close> and \<open>ReadResp\<close>; locales \<open>request_message\<close> and
    \<open>response_message\<close>.
  \<^item> \<open>Metadata\<close>, \<open>ConsumerMetadata\<close>, \<open>OffsetCommit\<close>, \<open>OffsetFetch\<close>, \<open>OffsetQuery\<close>, \<open>CreateTopics\<close>, \<open>ApiVersions\<close>,
    \<open>Produce\<close>, \<open>Fetch\<close>: the structures of \<open>proto/messages.go\<close>, one definition per reader, per \<open>Bytes\<close> method
    and per loop body, with the interpretations of the locales.  \<open>norm_X\<close> is what of a structure survives
    the wire at its version, \<open>wf_X\<close> that its strings and arrays fit their length fields.
  \<^item> \<open>MessageSet\<close>, \<open>RecordBatch\<close>, \<open>Snappy\<close>: the messages themselves: checksums, truncation, nesting of
    compressed sets, the snappy-java framing (\<open>proto/snappy.go\<close>).  gzip and snappy are a parameter
    \<open>codecs\<close>; \<open>codec_laws\<close> states that they decompress what they compressed.
  \<^item> \<open>Requests\<close>: the interface \<open>Request\<close>, \<open>WriteTo\<close> of its nine types, several requests on one stream.
  \<^item> \<open>Decoded\<close>: the other direction of the codecs.  \<open>yields\<close> is a calculus of postconditions of readers; whatever bytes a
    reader accepts, what it returns is well-formed, so it can be written and is read again as the same message.  The readers
    of produce requests and of fetch responses are left out (a produce request of several partitions is not read back, record
    batches are never written), and consumer metadata requests hold only before version 1.

  \<^bold>\<open>Connections and what is built from them.\<close>
  \<^item> \<open>Connection\<close>: the state of a connection, the operations under its mutex, and the interleaving of
    \<open>nextIDLoop\<close>, \<open>readRespLoop\<close>, \<open>Close\<close> and the senders as the relation \<open>conn_step\<close>.  Responses go to the
    call that sent their correlation ID, no channel is closed twice, no call is left behind after a stop; a write that fails
    after the reader took the waiter of its call leaves the reader stuck.
  \<^item> \<open>ConnectionApi\<close>: opening a connection, the methods for every request, trimming of fetch responses.
  \<^item> \<open>Multiplexer\<close>, \<open>DistributingProducer\<close>: step relation of the workers; choice of the partition (locale
    \<open>chooser\<close>).

  \<^bold>\<open>Brokers.\<close>  Every function takes the network as an argument of type \<open>'e network\<close> (dialling, the requests,
  closing, the order of iterations, what other goroutines do while a lock is released) and threads its
  state; a call of another component of the client that fails or panics is a branch.
  \<^item> \<open>Broker\<close>: \<open>Dial\<close>, the metadata cache, leader, coordinator and controller connections, offsets.  The locales
    \<open>conn_inv\<close> and \<open>broker_inv\<close> state what an invariant of the broker and the network needs to be kept by
    every function; \<open>pool\<close> is the contract of a network under which the pool invariant is one.
  \<^item> \<open>Producer\<close>, \<open>Consumer\<close>, \<open>OffsetCoordinator\<close>: the retry loops.  Locale \<open>partition_log\<close> is what a consumer relies
    on to read a partition in order, \<open>offset_store\<close> what a coordinator relies on to read what was committed;
    \<open>empty_fetches\<close> and \<open>polled\<close> describe how often \<open>Consume\<close> asks and what it returns.
  \<^item> \<open>Integration\<close>: the docker cluster of the integration tests; the machine that runs the commands is an argument of type
    \<open>'w machine\<close>; \<open>logging\<close> records the commands and their errors.

  \<^bold>\<open>The test server and its composition with the client.\<close>
  \<^item> \<open>TestServer\<close>: state, handlers and \<open>handleClient\<close> of \<open>kafkatest/server.go\<close>, with the invariant of its logs.
  \<^item> \<open>Serving\<close>: the server with any number of clients, as the relation \<open>serve_step\<close>: the accept loop and the goroutines,
    which interleave where they take the mutex and at the channel of events; the page of \<open>ServeHTTP\<close>.  The invariant of
    the logs holds in every interleaving, \<open>handleClient\<close> is what a goroutine does on its own
    (\<open>handleClient_runs\<close>), and a full channel stops the server for good.
  \<^item> \<open>Cluster\<close>: \<open>server_network\<close> is the network in which one test server listens; requests and responses are
    subject to the \<open>norm_X\<close> of the codec theorems.  \<open>pool\<close>, \<open>broker_inv\<close>, \<open>partition_log\<close>, \<open>offset_store\<close> and \<open>delivery\<close> are
    interpreted on it, which gives the end-to-end properties of producer, consumer and coordinator, among them that
    what is produced is what is consumed.
  \<^item> \<open>Wire\<close>: \<open>wire_network\<close> is the same network made of bytes: the methods of a connection write the request,
    \<open>handleClient\<close> reads it and writes the response.  Locale \<open>wire_call\<close> states what a method and a handler agree
    on, \<open>wire_api\<close> derives it from the two codecs; \<open>network_on_wire\<close> is the refinement.
  \<^item> \<open>Pipeline\<close>: any sequence of requests on one connection.  \<open>serve_values\<close> specifies the server on values, by the handlers
    alone; \<open>handleClient\<close> on the bytes implements it: framing, dispatch on the kind, decoding, and the responses in order.
  \<^item> \<open>EndToEnd\<close>: bounds on the bytes of requests and responses for one partition (\<open>at_most\<close>), and with them the contract
    \<open>delivery\<close> of \<open>Cluster\<close> interpreted on \<open>wire_network\<close>: what a producer writes, a consumer gets, through the bytes.
  \<^item> \<open>Session\<close>: programs from \<open>Dial\<close> on.  \<open>succeeds\<close> says that a call returns without an error.  Locale
    \<open>reachable_cluster\<close> states what dials and metadata requests promise, and shows that \<open>Dial\<close> and the search for a leader
    succeed; \<open>client_session\<close> joins it with \<open>delivery\<close>: dialling, opening a consumer, producing and consuming succeed.  It is
    interpreted, over bytes, on a server that \<open>MustSpawn\<close> has started.
  \<^item> \<open>Committing\<close>: \<open>commit_session\<close> extends \<open>reachable_cluster\<close> by what an offset coordinator relies on: an offset that one
    program commits is what the next one of the group reads; interpreted over bytes as well.
  \<^item> \<open>TestBroker\<close>: the mock client of \<open>kafkatest/broker.go\<close>.
  \<^item> This theory: responses on one stream, and codecs across all messages.

  \<^bold>\<open>Fuel and bounds.\<close>  Readers of message sets have a bound on the nesting of compressed sets; theorem
  \<open>message_set_depth\<close> shows that a result does not depend on it.  \<open>consume_loop\<close> has fuel because the code
  has no bound by default; with a retry limit, fuel beyond the limit is enough and changes nothing (\<open>Consume_limited\<close>,
  \<open>consume_fuel\<close>), without one some fuel is enough exactly when a fetch finds something or fails (\<open>Consume_unlimited\<close>), the order of
  the messages holds for every fuel, and a consumer gets what was produced with any fuel (\<open>produced_consumed\<close>).  The retry loops recurse on
  the number of rounds left, which the configuration bounds.  \<open>handleClient\<close> is the first \<open>n\<close> rounds of a
  loop that ends only with the connection, \<open>WaitUntilReady\<close> the first \<open>n\<close> rounds of one that ends when the cluster has a
  topic; more rounds do not change its result (\<open>WaitUntilReady_more\<close>).
  The properties of \<open>Session\<close> and \<open>Committing\<close> have sizes as hypotheses: a frame has at most \<open>2^31 - 1\<close> bytes, a message set
  is bounded by 2147300000 bytes, which leaves room for the header and the strings of a request (at most 32767 bytes each), and
  a server has at most 10000 topics with at most 1000 partitions each, so that a metadata response fits into a frame.

  \<^bold>\<open>Not modelled.\<close>  Log messages, waiting times and deadlines; the text of errors; the scratch buffers of the
  codecs; sockets, TLS and certificates (the result of a dial is a parameter); the JSON encoder behind \<open>ServeHTTP\<close>;
  the commands of docker; data races (the operations under a mutex are atomic, and what happens
  between them is a step or a parameter).  The pointers to messages a program passes to \<open>AddMessages\<close> and
  \<open>Produce\<close> are values: what it does to them later is not seen by the server.  A middleware of the test server is a
  function of its arguments, without a state of its own.  In \<open>conn_step\<close> a response that makes \<open>ReadResp\<close> panic has no step, and
  reading a response and looking up its waiter are one step.  \<open>wire_network\<close> takes the state of the connection after the
  negotiation of versions as an argument; that the exchange at the dial settles on version 0 is \<open>negotiates_V0\<close>.  What other
  goroutines do to a broker is a parameter of the loops that release its lock between their rounds, not of the sequence of
  calls of a program.
\<close>

section \<open>Cutting messages out of a stream\<close>

text \<open>The bytes of a response are handed on unchanged, with its correlation ID, and the stream continues behind.\<close>

definition demultiplexed :: "int32 \<Rightarrow> byte list res \<Rightarrow> bool" where
  "demultiplexed corr out \<longleftrightarrow>
     (\<forall>b rest e. out = Ok b \<longrightarrow> length b < 2147483648 \<longrightarrow>
        ReadResp \<lparr>rd_bytes = b @ rest, rd_end = e, rd_tee = None\<rparr> =
          (Ok (corr, b), \<lparr>rd_bytes = rest, rd_end = e, rd_tee = None\<rparr>))"

lemma carries_demultiplexed: "carries (PutUint32 corr) out \<Longrightarrow> demultiplexed corr out"
  unfolding carries_def demultiplexed_def
proof (intro allI impI)
  fix b rest e
  assume "\<forall>b. out = Ok b \<longrightarrow> (\<exists>body. b = frame (PutUint32 corr @ body))" "out = Ok b"
    "length b < 2147483648"
  then obtain body where "b = frame (PutUint32 corr @ body)" "length body + 8 < 2147483648"
    by (auto simp: frame_length)
  then show "ReadResp \<lparr>rd_bytes = b @ rest, rd_end = e, rd_tee = None\<rparr> =
      (Ok (corr, b), \<lparr>rd_bytes = rest, rd_end = e, rd_tee = None\<rparr>)"
    by (simp add: ReadResp_frame)
qed

text \<open>
  C19. Whatever response is written to a stream, \<open>ReadResp\<close> takes exactly its bytes, returns
  its correlation ID, and leaves the rest of the stream for the next call.
\<close>

lemma responses_demultiplexed:
  "demultiplexed (pr_CorrelationID r0) (ProduceResp_Bytes r0) \<and>
   demultiplexed (fr_CorrelationID r1) (FetchResp_Bytes lib r1) \<and>
   demultiplexed (or_CorrelationID r2) (OffsetResp_Bytes r2) \<and>
   demultiplexed (mr_CorrelationID r3) (MetadataResp_Bytes r3) \<and>
   demultiplexed (ocr_CorrelationID r8) (OffsetCommitResp_Bytes r8) \<and>
   demultiplexed (ofr_CorrelationID r9) (OffsetFetchResp_Bytes r9) \<and>
   demultiplexed (cr_CorrelationID r10) (ConsumerMetadataResp_Bytes r10) \<and>
   demultiplexed (av_CorrelationID r18) (APIVersionsResp_Bytes r18) \<and>
   demultiplexed (ctr_CorrelationID r19) (CreateTopicsResp_Bytes r19)"
  by (intro conjI carries_demultiplexed carries_FetchResp ProduceResp.corr_prefix OffsetResp.corr_prefix
      MetadataResp.corr_prefix OffsetCommitResp.corr_prefix OffsetFetchResp.corr_prefix
      ConsumerMetadataResp.corr_prefix APIVersionsResp.corr_prefix CreateTopicsResp.corr_prefix)

section \<open>Requests and responses that are read back\<close>

text \<open>
  C37.  The messages about offsets: commit, fetch and query requests and responses of every version are read back,
  up to the fields that the version does not carry, and every strict prefix of their bytes is rejected.
\<close>

lemma offset_codecs:
  assumes "wf_OffsetCommitReq q8" "wf_OffsetCommitResp r8" "wf_OffsetFetchReq q9" "wf_OffsetFetchResp r9"
    and "wf_OffsetReq q2" "wf_OffsetResp r2"
  shows "round_trips (OffsetCommitReq_Bytes q8) ReadOffsetCommitReq (norm_OffsetCommitReq q8) \<and>
    round_trips (OffsetCommitResp_Bytes r8) (ReadVersionedOffsetCommitResp (ocr_Version r8)) (norm_OffsetCommitResp r8) \<and>
    round_trips (OffsetFetchReq_Bytes q9) ReadOffsetFetchReq q9 \<and>
    round_trips (OffsetFetchResp_Bytes r9) (ReadVersionedOffsetFetchResp (ofr_Version r9)) (norm_OffsetFetchResp r9) \<and>
    round_trips (OffsetReq_Bytes q2) ReadOffsetReq (norm_OffsetReq q2) \<and>
    round_trips (OffsetResp_Bytes r2) (ReadVersionedOffsetResp (or_Version r2)) (norm_OffsetResp r2)"
  using offset_commit_codec[OF assms(1,2)] offset_fetch_codec[OF assms(3,4)] offset_query_codec[OF assms(5,6)]
  by simp

lemma offset_codecs_witness:
  "round_trips (OffsetCommitReq_Bytes example_OffsetCommitReq) ReadOffsetCommitReq
     (norm_OffsetCommitReq example_OffsetCommitReq) \<and>
   round_trips (OffsetFetchResp_Bytes example_OffsetFetchResp)
     (ReadVersionedOffsetFetchResp (ofr_Version example_OffsetFetchResp)) (norm_OffsetFetchResp example_OffsetFetchResp) \<and>
   round_trips (OffsetResp_Bytes example_OffsetResp) (ReadVersionedOffsetResp (or_Version example_OffsetResp))
     (norm_OffsetResp example_OffsetResp)"
proof -
  have "wf_OffsetCommitReq example_OffsetCommitReq" "wf_OffsetCommitResp example_OffsetCommitResp"
    by (simp_all add: example_OffsetCommitReq_def example_OffsetCommitResp_def wf_OffsetCommitReq_def
        wf_OffsetCommitReqTopic_def wf_OffsetCommitResp_def wf_OffsetCommitRespTopic_def wf_header_def
        wf_string_def wf_array_def str_def wire_error_def)
  moreover have "wf_OffsetFetchReq example_OffsetFetchReq" "wf_OffsetFetchResp example_OffsetFetchResp"
    by (simp_all add: example_OffsetFetchReq_def example_OffsetFetchResp_def wf_OffsetFetchReq_def
        wf_OffsetFetchReqTopic_def wf_OffsetFetchResp_def wf_OffsetFetchRespTopic_def
        wf_OffsetFetchRespPartition_def wf_header_def wf_string_def wf_array_def str_def wire_error_def)
  moreover have "wf_OffsetReq example_OffsetReq" "wf_OffsetResp example_OffsetResp"
    by (simp_all add: example_OffsetReq_def example_OffsetResp_def wf_OffsetReq_def wf_OffsetReqTopic_def
        wf_OffsetResp_def wf_OffsetRespTopic_def wf_OffsetRespPartition_def wf_header_def wf_string_def
        wf_array_def str_def wire_error_def)
  ultimately show ?thesis using offset_codecs by blast
qed

text \<open>
  C38.  The messages about the cluster.  Metadata and create topics requests and the responses of all four kinds are read
  back, up to the fields that their version does not carry and to durations, which are written in whole milliseconds of 32
  bits; an API versions request is read back but for its version,
  which \<open>ReadAPIVersionsReq\<close> drops.  A consumer metadata request is read back before version 1, but for the coordinator
  type, which is never written; from version 1 on the reader expects it and rejects the bytes that \<open>Bytes\<close> writes.  Every
  strict prefix of the bytes of the messages that are read back is rejected.
\<close>

lemma admin_codecs:
  assumes "wf_MetadataReq q3" "wf_MetadataResp r3"
    and "wf_ConsumerMetadataReq q10" "wf_ConsumerMetadataResp r10"
    and "wf_header q18" "wf_APIVersionsResp r18" "wf_CreateTopicsReq q19" "wf_CreateTopicsResp r19"
  shows "round_trips (MetadataReq_Bytes q3) ReadMetadataReq (norm_MetadataReq q3) \<and>
    round_trips (MetadataResp_Bytes r3) (ReadVersionedMetadataResp (mr_Version r3)) (norm_MetadataResp r3) \<and>
    (if KafkaV1 \<le>s version q10
     then \<exists>b. ConsumerMetadataReq_Bytes q10 = Ok b \<and> ReadConsumerMetadataReq (NewReader b) = Err EOF
     else round_trips (ConsumerMetadataReq_Bytes q10) ReadConsumerMetadataReq (q10\<lparr>cq_CoordinatorType := 0\<rparr>)) \<and>
    round_trips (ConsumerMetadataResp_Bytes r10) (ReadVersionedConsumerMetadataResp (cr_Version r10))
      (norm_ConsumerMetadataResp r10) \<and>
    round_trips (APIVersionsReq_Bytes q18) ReadAPIVersionsReq (norm_APIVersionsReq q18) \<and>
    round_trips (APIVersionsResp_Bytes r18) (ReadVersionedAPIVersionsResp (av_Version r18)) (norm_APIVersionsResp r18) \<and>
    round_trips (CreateTopicsReq_Bytes q19) ReadCreateTopicsReq (norm_CreateTopicsReq q19) \<and>
    round_trips (CreateTopicsResp_Bytes r19) (ReadVersionedCreateTopicsResp (ctr_Version r19)) (norm_CreateTopicsResp r19)"
  using metadata_codec[OF assms(1,2)] ConsumerMetadataReq.round_trip[of q10] ConsumerMetadataReq_V1_rejected[of q10]
    ConsumerMetadataResp_round_trip[of r10] api_versions_codec[OF assms(5,6)] create_topics_codec[OF assms(7,8)] assms(3,4)
  by simp

lemma admin_codecs_witness:
  "round_trips (MetadataResp_Bytes example_MetadataResp) (ReadVersionedMetadataResp (mr_Version example_MetadataResp))
     (norm_MetadataResp example_MetadataResp) \<and>
   round_trips (CreateTopicsReq_Bytes example_CreateTopicsReq) ReadCreateTopicsReq
     (norm_CreateTopicsReq example_CreateTopicsReq) \<and>
   (\<exists>b. ConsumerMetadataReq_Bytes (example_ConsumerMetadataReq 1) = Ok b \<and>
      ReadConsumerMetadataReq (NewReader b) = Err EOF)"
proof -
  have "wf_MetadataReq example_MetadataReq" "wf_MetadataResp example_MetadataResp"
    by (simp_all add: example_MetadataReq_def example_MetadataResp_def wf_MetadataReq_def wf_MetadataResp_def
        wf_MetadataRespBroker_def wf_MetadataRespTopic_def wf_MetadataRespPartition_def wf_header_def
        wf_string_def wf_array_def str_def wire_error_def)
  moreover have "wf_ConsumerMetadataReq (example_ConsumerMetadataReq 1)"
    "KafkaV1 \<le>s version (example_ConsumerMetadataReq 1)" "wf_ConsumerMetadataResp example_ConsumerMetadataResp"
    by (simp_all add: example_ConsumerMetadataReq_def example_ConsumerMetadataResp_def wf_header_def
        wf_ConsumerMetadataReq_def wf_ConsumerMetadataResp_def wf_string_def str_def wire_error_def word_sle_eq)
  moreover have "wf_header example_APIVersionsReq" "wf_APIVersionsResp example_APIVersionsResp"
    by (simp_all add: example_APIVersionsReq_def example_APIVersionsResp_def wf_header_def
        wf_APIVersionsResp_def wf_string_def wf_array_def str_def)
  moreover have "wf_CreateTopicsReq example_CreateTopicsReq" "wf_CreateTopicsResp example_CreateTopicsResp"
    by (simp_all add: example_CreateTopicsReq_def example_CreateTopicsResp_def wf_CreateTopicsReq_def
        wf_TopicInfo_def wf_ReplicaAssignment_def wf_ConfigEntry_def wf_CreateTopicsResp_def wf_TopicError_def
        wf_header_def wf_string_def wf_array_def str_def wire_error_def)
  ultimately show ?thesis using admin_codecs[of _ _ "example_ConsumerMetadataReq 1"] by (metis (no_types, lifting))
qed

end
